(* ===== verification/Prelude.thy ===== *)
theory Prelude
  imports Main "HOL-Library.Word"
begin

text \<open>
  Shared vocabulary of the development: the widths of the C integers the sources use, the errno
  values they return, the theorem collections the component proofs draw on, and the generic list
  facts that several components need.

  Conventions. A C \<open>int\<close> that only carries an error code or a small count is an \<open>int\<close>; an integer
  whose wrap-around matters is a word of its width. A NULL pointer is \<open>None\<close>. Code that is not
  in the repository (the kernel, the Lua virtual machine, libcap, libaudit, OpenSSL, libkmod,
  libmount) is always an argument of the definitions that call it.
\<close>

named_theorems queue_simps \<open>rewriting of queue memory\<close>
named_theorems kmod_simps \<open>rewriting of the kernel module's operations\<close>
named_theorems lua_simps \<open>rewriting of the Lua stack discipline\<close>

type_synonym u8 = "8 word"
type_synonym u32 = "32 word"
type_synonym u64 = "64 word"

text \<open>The errno values named by the sources (Linux numbering).\<close>

abbreviation (input) EPERM :: int where "EPERM \<equiv> 1"
abbreviation (input) ENOENT :: int where "ENOENT \<equiv> 2"
abbreviation (input) EIO :: int where "EIO \<equiv> 5"
abbreviation (input) ENOEXEC :: int where "ENOEXEC \<equiv> 8"
abbreviation (input) EBADF :: int where "EBADF \<equiv> 9"
abbreviation (input) ENOMEM :: int where "ENOMEM \<equiv> 12"
abbreviation (input) EFAULT :: int where "EFAULT \<equiv> 14"
abbreviation (input) EBUSY :: int where "EBUSY \<equiv> 16"
abbreviation (input) ENODEV :: int where "ENODEV \<equiv> 19"
abbreviation (input) EINVAL :: int where "EINVAL \<equiv> 22"
abbreviation (input) EDOM :: int where "EDOM \<equiv> 33"
abbreviation (input) ERANGE :: int where "ERANGE \<equiv> 34"
abbreviation (input) ENODATA :: int where "ENODATA \<equiv> 61"
abbreviation (input) EBADMSG :: int where "EBADMSG \<equiv> 74"

text \<open>The first element of a list as a possibly NULL pointer.\<close>

definition head_ptr :: "'a list \<Rightarrow> 'a option" where
  "head_ptr xs = (case xs of [] \<Rightarrow> None | x # _ \<Rightarrow> Some x)"

text \<open>The last element of a list as a possibly NULL pointer.\<close>

definition last_ptr :: "'a list \<Rightarrow> 'a option" where
  "last_ptr xs = (if xs = [] then None else Some (last xs))"

text \<open>
  A loop over a list whose body may leave the enclosing function: \<open>Inl r\<close> is \<open>return r\<close>,
  \<open>Inr s\<close> goes on with state \<open>s\<close>.
\<close>

primrec fold_until :: "('a \<Rightarrow> 's \<Rightarrow> 'r + 's) \<Rightarrow> 'a list \<Rightarrow> 's \<Rightarrow> 'r + 's" where
  "fold_until f [] s = Inr s"
| "fold_until f (x # xs) s = (case f x s of Inl r \<Rightarrow> Inl r | Inr s' \<Rightarrow> fold_until f xs s')"

lemma head_ptr_simps [simp]:
  "head_ptr [] = None"
  "head_ptr (x # xs) = Some x"
  by (simp_all add: head_ptr_def)

lemma last_ptr_simps [simp]:
  "last_ptr [] = None"
  "last_ptr (xs @ [x]) = Some x"
  by (simp_all add: last_ptr_def)

lemma head_ptr_None_iff [simp]: "head_ptr xs = None \<longleftrightarrow> xs = []"
  by (cases xs) auto

lemma head_ptr_Some_ex [simp]: "(\<exists>y. head_ptr xs = Some y) \<longleftrightarrow> xs \<noteq> []"
  by (cases xs) auto

lemma fold_until_append:
  "fold_until f (xs @ ys) s =
     (case fold_until f xs s of Inl r \<Rightarrow> Inl r | Inr s' \<Rightarrow> fold_until f ys s')"
  by (induction xs arbitrary: s) (auto split: sum.splits)

lemma fold_until_Inr: "fold_until (\<lambda>x s. Inr (f x s)) xs s = Inr (fold f xs s)"
  by (induction xs arbitrary: s) auto

lemma fold_until_invariant:
  assumes "P s" and "\<And>x t. x \<in> set xs \<Longrightarrow> P t \<Longrightarrow> case f x t of Inl r \<Rightarrow> Q r | Inr t' \<Rightarrow> P t'"
  shows "case fold_until f xs s of Inl r \<Rightarrow> Q r | Inr t \<Rightarrow> P t"
  using assms
proof (induction xs arbitrary: s)
  case Nil
  then show ?case by simp
next
  case (Cons x xs)
  have step: "case f x s of Inl r \<Rightarrow> Q r | Inr t' \<Rightarrow> P t'"
    using Cons.prems by simp
  show ?case
  proof (cases "f x s")
    case (Inl r)
    then show ?thesis using step by simp
  next
    case (Inr t')
    then show ?thesis using step Cons.IH [of t'] Cons.prems(2) by simp
  qed
qed

text \<open>
  A loop over distinct items whose step for one item turns \<open>Q\<close> into \<open>P\<close> for that item and keeps both
  for all others, turns \<open>Q\<close> into \<open>P\<close> for all of them.
\<close>

lemma fold_each:
  assumes "distinct xs" and "\<And>x s. x \<in> set xs \<Longrightarrow> Q x s \<Longrightarrow> P x (f x s)"
    and "\<And>x y s. x \<noteq> y \<Longrightarrow> Q y s \<Longrightarrow> Q y (f x s)" and "\<And>x y s. x \<noteq> y \<Longrightarrow> P y s \<Longrightarrow> P y (f x s)"
    and "\<And>x. x \<in> set xs \<Longrightarrow> Q x s"
  shows "\<forall>x\<in>set xs. P x (fold f xs s)"
  using assms(1,2,5)
proof (induction xs rule: rev_induct)
  case Nil
  then show ?case by simp
next
  case (snoc x xs)
  have "Q x (fold f ys s)" if "x \<notin> set ys" "Q x s" for ys s
    using that
  proof (induction ys arbitrary: s)
    case (Cons y ys)
    then have "Q x (f y s)" by (intro assms(3)) auto
    then show ?case using Cons by simp
  qed simp
  then have "P x (f x (fold f xs s))" using snoc.prems by simp
  moreover have "\<forall>y\<in>set xs. P y (fold f xs s)" using snoc by simp
  moreover have "x \<noteq> y" if "y \<in> set xs" for y using snoc.prems(1) that by auto
  ultimately show ?case by (auto intro: assms(4))
qed

lemma fold_keeps: "(\<And>x s. x \<in> set xs \<Longrightarrow> h (f x s) = h s) \<Longrightarrow> h (fold f xs s) = h s"
  by (induction xs arbitrary: s) auto

text \<open>Skipping to a word and over it shortens the text.\<close>

lemma drop_token:
  assumes "dropWhile (\<lambda>c. \<not> P c) x \<noteq> []"
  shows "length (dropWhile P (dropWhile (\<lambda>c. \<not> P c) x)) < length x"
proof -
  have "P (hd (dropWhile (\<lambda>c. \<not> P c) x))" using hd_dropWhile [OF assms] by simp
  then have "length (dropWhile P (dropWhile (\<lambda>c. \<not> P c) x)) < length (dropWhile (\<lambda>c. \<not> P c) x)"
    using assms length_dropWhile_le by (cases "dropWhile (\<lambda>c. \<not> P c) x") (auto simp: less_Suc_eq_le)
  then show ?thesis using length_dropWhile_le [of "\<lambda>c. \<not> P c" x] by linarith
qed

lemma ucast_of_nat_down:
  "LENGTH('b::len) \<le> LENGTH('a::len) \<Longrightarrow> (ucast (word_of_nat n :: 'a word) :: 'b word) = word_of_nat n"
  by (rule bit_word_eqI) (auto simp: bit_ucast_iff bit_of_nat_iff bit_simps)

end
