(* ===== verification/Queue_Mem.thy ===== *)
theory Queue_Mem
  imports Prelude
begin

text \<open>
  The memory the list macros of \<open>src/lib/queue.h\<close> work on, for one \<open>field\<close> of one element type.

  A list head and a list element are named by a number. The macros store \<open>struct type *\<close> values in
  two kinds of places, the first field of a head (\<open>slh_first\<close>, \<open>stqh_first\<close>, \<open>lh_first\<close>,
  \<open>tqh_first\<close>) and the next field of an element (\<open>sle_next\<close>, \<open>stqe_next\<close>, \<open>le_next\<close>, \<open>tqe_next\<close>);
  the address of such a place, a \<open>struct type **\<close>, is a value of type \<open>cell\<close>. Addresses of
  places are themselves stored in the last field of a head (\<open>stqh_last\<close>, \<open>tqh_last\<close>) and in the prev
  field of an element (\<open>le_prev\<close>, \<open>tqe_prev\<close>).

  The theory also has the traversal loops every \<open>FOREACH\<close> macro expands to, the path predicates
  the four list kinds share, and the two interfaces (locales) that the list kinds provide.
\<close>

datatype cell = HeadFirst nat | ElmNext nat

record qmem =
  val :: "cell \<Rightarrow> nat option"
  hlast :: "nat \<Rightarrow> cell"
  eprev :: "nat \<Rightarrow> cell"

text \<open>
  What goes wrong when a macro is applied to a list that is not what it expects: a NULL pointer is
  dereferenced, or \<open>__containerof\<close> is taken of a place that is not in an element.
\<close>

datatype qfault = NullDeref | BadContainer

text \<open>\<open>__containerof(p, type, field.next)\<close>: the element a place belongs to.\<close>

definition containerof :: "cell \<Rightarrow> qfault + nat" where
  "containerof c = (case c of HeadFirst h \<Rightarrow> Inl BadContainer | ElmNext e \<Rightarrow> Inr e)"

definition put :: "cell \<Rightarrow> nat option \<Rightarrow> qmem \<Rightarrow> qmem" where
  "put c p m = m\<lparr>val := (val m)(c := p)\<rparr>"

definition put_last :: "nat \<Rightarrow> cell \<Rightarrow> qmem \<Rightarrow> qmem" where
  "put_last h c m = m\<lparr>hlast := (hlast m)(h := c)\<rparr>"

definition put_prev :: "nat \<Rightarrow> cell \<Rightarrow> qmem \<Rightarrow> qmem" where
  "put_prev e c m = m\<lparr>eprev := (eprev m)(e := c)\<rparr>"

text \<open>
  \<open>for (var = start; var; var = next(var)) body\<close>. The body maps a state to a state, or leaves the
  enclosing function (\<open>Inl\<close>). \<open>None\<close> is a loop that does not end. In the \<open>SAFE\<close> variants the
  successor is read before the body runs.
\<close>

partial_function (option) for_each ::
  "('s \<Rightarrow> nat \<Rightarrow> nat option) \<Rightarrow> (nat \<Rightarrow> 's \<Rightarrow> 'r + 's) \<Rightarrow> nat option \<Rightarrow> 's \<Rightarrow> ('r + 's) option" where
  "for_each nxt body var s =
     (case var of
        None \<Rightarrow> Some (Inr s)
      | Some x \<Rightarrow>
          (case body x s of
             Inl r \<Rightarrow> Some (Inl r)
           | Inr s' \<Rightarrow> for_each nxt body (nxt s' x) s'))"

partial_function (option) for_each_safe ::
  "('s \<Rightarrow> nat \<Rightarrow> nat option) \<Rightarrow> (nat \<Rightarrow> 's \<Rightarrow> 'r + 's) \<Rightarrow> nat option \<Rightarrow> 's \<Rightarrow> ('r + 's) option" where
  "for_each_safe nxt body var s =
     (case var of
        None \<Rightarrow> Some (Inr s)
      | Some x \<Rightarrow>
          (case body x s of
             Inl r \<Rightarrow> Some (Inl r)
           | Inr s' \<Rightarrow> for_each_safe nxt body (nxt s x) s'))"

text \<open>
  \<open>while (NEXT(curelm) != elm) curelm = NEXT(curelm)\<close>: the search for the predecessor. Reading the
  successor of NULL faults; a cyclic list that misses the element does not end (\<open>None\<close>).
\<close>

partial_function (option) find_prev ::
  "(cell \<Rightarrow> nat option) \<Rightarrow> nat option \<Rightarrow> nat \<Rightarrow> (qfault + nat) option" where
  "find_prev v cur elm =
     (case cur of
        None \<Rightarrow> Some (Inl NullDeref)
      | Some c \<Rightarrow> if v (ElmNext c) = Some elm then Some (Inr c) else find_prev v (v (ElmNext c)) elm)"

text \<open>\<open>while (NEXT(curelm) != NULL) curelm = NEXT(curelm)\<close>: the search for the last element.\<close>

partial_function (option) find_last :: "(cell \<Rightarrow> nat option) \<Rightarrow> nat \<Rightarrow> nat option" where
  "find_last v cur =
     (case v (ElmNext cur) of None \<Rightarrow> Some cur | Some n \<Rightarrow> find_last v n)"

declare for_each.simps [code] for_each_safe.simps [code] find_prev.simps [code] find_last.simps [code]

text \<open>
  \<open>seg v c xs\<close>: starting at place \<open>c\<close>, the next pointers run through the elements \<open>xs\<close>.
  \<open>endcell c xs\<close> is the place after the last of them. \<open>prevs p c xs\<close>: the prev fields point back to
  the place that points to the element.
\<close>

fun seg :: "(cell \<Rightarrow> nat option) \<Rightarrow> cell \<Rightarrow> nat list \<Rightarrow> bool" where
  "seg v c [] = True"
| "seg v c (x # xs) = (v c = Some x \<and> seg v (ElmNext x) xs)"

fun endcell :: "cell \<Rightarrow> nat list \<Rightarrow> cell" where
  "endcell c [] = c"
| "endcell c (x # xs) = endcell (ElmNext x) xs"

fun prevs :: "(nat \<Rightarrow> cell) \<Rightarrow> cell \<Rightarrow> nat list \<Rightarrow> bool" where
  "prevs p c [] = True"
| "prevs p c (x # xs) = (p x = c \<and> prevs p (ElmNext x) xs)"

text \<open>The four list kinds, as the element sequence they represent.\<close>

definition slist :: "qmem \<Rightarrow> nat \<Rightarrow> nat list \<Rightarrow> bool" where
  "slist m h xs \<longleftrightarrow>
     distinct xs \<and> seg (val m) (HeadFirst h) xs \<and> val m (endcell (HeadFirst h) xs) = None"

definition stailq :: "qmem \<Rightarrow> nat \<Rightarrow> nat list \<Rightarrow> bool" where
  "stailq m h xs \<longleftrightarrow> slist m h xs \<and> hlast m h = endcell (HeadFirst h) xs"

definition blist :: "qmem \<Rightarrow> nat \<Rightarrow> nat list \<Rightarrow> bool" where
  "blist m h xs \<longleftrightarrow> slist m h xs \<and> prevs (eprev m) (HeadFirst h) xs"

definition tailq :: "qmem \<Rightarrow> nat \<Rightarrow> nat list \<Rightarrow> bool" where
  "tailq m h xs \<longleftrightarrow>
     slist m h xs \<and> prevs (eprev m) (HeadFirst h) xs \<and> hlast m h = endcell (HeadFirst h) xs"

section \<open>Memory updates\<close>

lemma containerof_simps [simp, queue_simps]:
  "containerof (ElmNext e) = Inr e"
  "containerof (HeadFirst h) = Inl BadContainer"
  by (simp_all add: containerof_def)

lemma put_simps [simp, queue_simps]:
  "val (put c p m) = (val m)(c := p)"
  "hlast (put c p m) = hlast m"
  "eprev (put c p m) = eprev m"
  "val (put_last h d m) = val m"
  "hlast (put_last h d m) = (hlast m)(h := d)"
  "eprev (put_last h d m) = eprev m"
  "val (put_prev e d m) = val m"
  "hlast (put_prev e d m) = hlast m"
  "eprev (put_prev e d m) = (eprev m)(e := d)"
  by (simp_all add: put_def put_last_def put_prev_def)

section \<open>Paths\<close>

lemma endcell_append [simp]: "endcell c (xs @ ys) = endcell (endcell c xs) ys"
  by (induction xs arbitrary: c) auto

lemma endcell_eq: "endcell c xs = (if xs = [] then c else ElmNext (last xs))"
  by (induction xs arbitrary: c) auto

lemma seg_append [simp]: "seg v c (xs @ ys) \<longleftrightarrow> seg v c xs \<and> seg v (endcell c xs) ys"
  by (induction xs arbitrary: c) auto

lemma prevs_append [simp]: "prevs p c (xs @ ys) \<longleftrightarrow> prevs p c xs \<and> prevs p (endcell c xs) ys"
  by (induction xs arbitrary: c) auto

lemma endcell_ElmNext_iff [simp]:
  "y \<notin> set xs \<Longrightarrow> endcell c xs = ElmNext y \<longleftrightarrow> xs = [] \<and> c = ElmNext y"
  "y \<notin> set xs \<Longrightarrow> ElmNext y = endcell c xs \<longleftrightarrow> xs = [] \<and> c = ElmNext y"
  by (auto simp: endcell_eq)

lemma endcell_HeadFirst_iff [simp]:
  "endcell c xs = HeadFirst h \<longleftrightarrow> xs = [] \<and> c = HeadFirst h"
  "HeadFirst h = endcell c xs \<longleftrightarrow> xs = [] \<and> c = HeadFirst h"
  by (auto simp: endcell_eq)

text \<open>Writing to a place that a path does not read leaves the path alone.\<close>

lemma seg_upd_next [simp]:
  "e \<notin> set xs \<Longrightarrow> c \<noteq> ElmNext e \<Longrightarrow> seg (v(ElmNext e := p)) c xs \<longleftrightarrow> seg v c xs"
  by (induction xs arbitrary: c) auto

lemma seg_upd_head [simp]:
  "c \<noteq> HeadFirst h \<Longrightarrow> seg (v(HeadFirst h := p)) c xs \<longleftrightarrow> seg v c xs"
  by (induction xs arbitrary: c) auto

lemma seg_upd_end:
  "\<lbrakk>distinct xs; seg v (HeadFirst h) xs\<rbrakk> \<Longrightarrow>
   seg (v(endcell (HeadFirst h) xs := p)) (HeadFirst h) xs"
  by (cases xs rule: rev_cases) auto

lemma prevs_upd [simp]: "e \<notin> set xs \<Longrightarrow> prevs (p(e := d)) c xs \<longleftrightarrow> prevs p c xs"
  by (induction xs arbitrary: c) auto

lemma seg_cong:
  "\<lbrakk>seg v c xs; \<And>d. d \<in> insert c (ElmNext ` set xs) \<Longrightarrow> v' d = v d\<rbrakk> \<Longrightarrow> seg v' c xs"
  by (induction xs arbitrary: c) auto

lemma prevs_cong: "\<lbrakk>prevs p c xs; \<And>x. x \<in> set xs \<Longrightarrow> p' x = p x\<rbrakk> \<Longrightarrow> prevs p' c xs"
  by (induction xs arbitrary: c) auto

lemma seg_unique:
  "\<lbrakk>seg v c xs; v (endcell c xs) = None; seg v c ys; v (endcell c ys) = None\<rbrakk> \<Longrightarrow> xs = ys"
proof (induction xs arbitrary: c ys)
  case Nil
  then show ?case by (cases ys) auto
next
  case (Cons x xs)
  then show ?case by (cases ys) auto
qed

section \<open>Reading a list\<close>

lemma slist_distinct: "slist m h xs \<Longrightarrow> distinct xs"
  by (simp add: slist_def)

lemma slist_first: "slist m h xs \<Longrightarrow> val m (HeadFirst h) = head_ptr xs"
  by (cases xs) (auto simp: slist_def)

lemma slist_next:
  assumes "slist m h (xs @ x # ys)"
  shows "val m (ElmNext x) = head_ptr ys"
  using assms by (cases ys) (auto simp: slist_def)

lemma slist_unique: "slist m h xs \<Longrightarrow> slist m h ys \<Longrightarrow> xs = ys"
  by (auto simp: slist_def intro: seg_unique)

text \<open>The list kinds are single-linked lists with extra links.\<close>

lemma list_kinds_slist:
  "stailq m h xs \<Longrightarrow> slist m h xs"
  "blist m h xs \<Longrightarrow> slist m h xs"
  "tailq m h xs \<Longrightarrow> slist m h xs"
  by (simp_all add: stailq_def blist_def tailq_def)

section \<open>The loops\<close>

lemma find_prev_found:
  assumes "seg v c (x # xs @ [e])" and "e \<notin> set (x # xs)" and "distinct (x # xs)"
  shows "find_prev v (Some x) e = Some (Inr (last (x # xs)))"
  using assms
proof (induction xs arbitrary: x c)
  case Nil
  then show ?case by (simp add: find_prev.simps)
next
  case (Cons y ys)
  then have "find_prev v (Some y) e = Some (Inr (last (y # ys)))"
    by (intro Cons.IH [of "ElmNext x"]) auto
  with Cons.prems show ?case by (subst find_prev.simps) auto
qed

lemma find_prev_missing:
  assumes "seg v c (x # xs)" and "v (endcell c (x # xs)) = None" and "e \<notin> set xs"
  shows "find_prev v (Some x) e = Some (Inl NullDeref)"
  using assms
proof (induction xs arbitrary: x c)
  case Nil
  then show ?case by (simp add: find_prev.simps)
next
  case (Cons y ys)
  then have "find_prev v (Some y) e = Some (Inl NullDeref)"
    by (intro Cons.IH [of "ElmNext x"]) auto
  with Cons.prems show ?case by (subst find_prev.simps) auto
qed

lemma find_last_last:
  assumes "seg v c (x # xs)" and "v (endcell c (x # xs)) = None"
  shows "find_last v x = Some (last (x # xs))"
  using assms
proof (induction xs arbitrary: x c)
  case Nil
  then show ?case by (simp add: find_last.simps)
next
  case (Cons y ys)
  then have "find_last v y = Some (last (y # ys))"
    by (intro Cons.IH [of "ElmNext x"]) auto
  with Cons.prems show ?case by (subst find_last.simps) auto
qed

text \<open>
  A traversal whose body keeps the links of the list visits its elements in order, once each; the
  safe traversal allows the body to destroy the links of the elements it has already seen.
\<close>

lemma for_each_fold_until:
  assumes "\<And>s xs x ys. R s (xs @ x # ys) \<Longrightarrow> nxt s x = head_ptr ys"
    and "\<And>x s s'. R s zs \<Longrightarrow> x \<in> set zs \<Longrightarrow> body x s = Inr s' \<Longrightarrow> R s' zs"
    and "R s zs" and "zs = xs @ ys"
  shows "for_each nxt body (head_ptr ys) s = Some (fold_until body ys s)"
  using assms(3,4)
proof (induction ys arbitrary: xs s)
  case Nil
  then show ?case by (simp add: for_each.simps)
next
  case (Cons y ys)
  show ?case
  proof (cases "body y s")
    case (Inl r)
    then show ?thesis by (simp add: for_each.simps)
  next
    case (Inr s')
    then have R': "R s' zs" using assms(2) [of s y s'] Cons.prems by simp
    with assms(1) [of s' xs y ys] Cons.prems have "nxt s' y = head_ptr ys" by simp
    moreover have "for_each nxt body (head_ptr ys) s' = Some (fold_until body ys s')"
      using Cons.IH [OF R', of "xs @ [y]"] Cons.prems by simp
    ultimately show ?thesis using Inr by (subst for_each.simps) simp
  qed
qed

lemma for_each_safe_fold_until:
  assumes "\<And>s x ys. R s (x # ys) \<Longrightarrow> nxt s x = head_ptr ys"
    and "\<And>x ys s s'. R s (x # ys) \<Longrightarrow> body x s = Inr s' \<Longrightarrow> R s' ys"
    and "R s ys"
  shows "for_each_safe nxt body (head_ptr ys) s = Some (fold_until body ys s)"
  using assms(3)
proof (induction ys arbitrary: s)
  case Nil
  then show ?case by (simp add: for_each_safe.simps)
next
  case (Cons y ys)
  have n: "nxt s y = head_ptr ys" using Cons.prems by (rule assms(1))
  show ?case
  proof (cases "body y s")
    case (Inl r)
    then show ?thesis by (simp add: for_each_safe.simps)
  next
    case (Inr s')
    then have "R s' ys" using assms(2) Cons.prems by blast
    then have "for_each_safe nxt body (head_ptr ys) s' = Some (fold_until body ys s')"
      by (rule Cons.IH)
    then show ?thesis using n Inr by (subst for_each_safe.simps) simp
  qed
qed

section \<open>Interfaces\<close>

text \<open>
  What a client of any of the four list kinds may rely on: the first element, the successor of an
  element, and the effect of inserting at the head, after an element, and removing an element, on
  the sequence the list represents.
\<close>

locale linked_list =
  fixes rep :: "'m \<Rightarrow> nat \<Rightarrow> nat list \<Rightarrow> bool"
    and init :: "nat \<Rightarrow> 'm \<Rightarrow> 'm"
    and first :: "'m \<Rightarrow> nat \<Rightarrow> nat option"
    and nxt :: "'m \<Rightarrow> nat \<Rightarrow> nat option"
    and insert_head :: "nat \<Rightarrow> nat \<Rightarrow> 'm \<Rightarrow> 'm"
    and insert_after :: "nat \<Rightarrow> nat \<Rightarrow> nat \<Rightarrow> 'm \<Rightarrow> 'm"
    and remove :: "nat \<Rightarrow> nat \<Rightarrow> 'm \<Rightarrow> (qfault + 'm) option"
  assumes rep_distinct: "rep m h xs \<Longrightarrow> distinct xs"
    and rep_init: "rep (init h m) h []"
    and rep_first: "rep m h xs \<Longrightarrow> first m h = head_ptr xs"
    and rep_next: "rep m h (xs @ x # ys) \<Longrightarrow> nxt m x = head_ptr ys"
    and rep_insert_head: "rep m h xs \<Longrightarrow> x \<notin> set xs \<Longrightarrow> rep (insert_head h x m) h (x # xs)"
    and rep_insert_after:
      "rep m h (xs @ y # ys) \<Longrightarrow> x \<notin> set (xs @ y # ys) \<Longrightarrow>
       rep (insert_after h y x m) h (xs @ y # x # ys)"
    and rep_remove:
      "rep m h (xs @ x # ys) \<Longrightarrow> \<exists>m'. remove h x m = Some (Inr m') \<and> rep m' h (xs @ ys)"
begin

lemma traverse:
  assumes "rep (mem s) h xs"
    and "\<And>x s s'. x \<in> set xs \<Longrightarrow> rep (mem s) h xs \<Longrightarrow> body x s = Inr s' \<Longrightarrow> rep (mem s') h xs"
  shows "for_each (\<lambda>s. nxt (mem s)) body (first (mem s) h) s = Some (fold_until body xs s)"
proof -
  have "for_each (\<lambda>s. nxt (mem s)) body (head_ptr xs) s = Some (fold_until body xs s)"
    by (rule for_each_fold_until [where R = "\<lambda>s. rep (mem s) h" and xs = "[]" and zs = xs])
      (use assms rep_next in auto)
  then show ?thesis using assms(1) rep_first by simp
qed

lemma insert_then_remove:
  assumes "rep m h xs" and "x \<notin> set xs"
  shows "\<exists>m'. remove h x (insert_head h x m) = Some (Inr m') \<and> rep m' h xs"
  using rep_remove [of "insert_head h x m" h "[]" x xs] rep_insert_head [OF assms] by simp

end

text \<open>A queue: a list that also grows at the tail.\<close>

locale tail_queue = linked_list +
  fixes insert_tail :: "nat \<Rightarrow> nat \<Rightarrow> 'a \<Rightarrow> 'a"
  assumes rep_insert_tail: "rep m h xs \<Longrightarrow> x \<notin> set xs \<Longrightarrow> rep (insert_tail h x m) h (xs @ [x])"
begin

lemma insert_tail_all:
  "rep m h xs \<Longrightarrow> distinct (xs @ ys) \<Longrightarrow> rep (fold (insert_tail h) ys m) h (xs @ ys)"
proof (induction ys arbitrary: xs m)
  case Nil
  then show ?case by simp
next
  case (Cons y ys)
  have "rep (insert_tail h y m) h (xs @ [y])"
    using Cons.prems by (intro rep_insert_tail) auto
  then have "rep (fold (insert_tail h) ys (insert_tail h y m)) h ((xs @ [y]) @ ys)"
    using Cons.prems by (intro Cons.IH) auto
  then show ?case by simp
qed

end

end
