(* ===== verification/Queue_Single.thy ===== *)
theory Queue_Single
  imports Queue_Mem
begin

text \<open>
  The singly-linked lists (\<open>SLIST\<close>) and singly-linked tail queues (\<open>STAILQ\<close>) of
  \<open>src/lib/queue.h\<close>, one definition per macro in the default build (no \<open>QUEUE_MACRO_DEBUG\<close>, so
  \<open>QMD_SAVELINK\<close>, \<open>TRASHIT\<close> and the trace buffers expand to nothing). A macro that dereferences a
  possibly NULL pointer returns a fault; a macro with a loop returns \<open>None\<close> when the loop does
  not end. The lemmas give the effect of every macro on the sequence the list represents and show
  that both kinds provide the list interfaces.
\<close>

section \<open>SLIST\<close>

definition SLIST_EMPTY :: "qmem \<Rightarrow> nat \<Rightarrow> bool" where
  "SLIST_EMPTY m head \<longleftrightarrow> val m (HeadFirst head) = None"

definition SLIST_FIRST :: "qmem \<Rightarrow> nat \<Rightarrow> nat option" where
  "SLIST_FIRST m head = val m (HeadFirst head)"

definition SLIST_NEXT :: "qmem \<Rightarrow> nat \<Rightarrow> nat option" where
  "SLIST_NEXT m elm = val m (ElmNext elm)"

definition SLIST_INIT :: "nat \<Rightarrow> qmem \<Rightarrow> qmem" where
  "SLIST_INIT head m = put (HeadFirst head) None m"

definition SLIST_INSERT_AFTER :: "nat \<Rightarrow> nat \<Rightarrow> qmem \<Rightarrow> qmem" where
  "SLIST_INSERT_AFTER slistelm elm m =
     (let m1 = put (ElmNext elm) (SLIST_NEXT m slistelm) m
      in put (ElmNext slistelm) (Some elm) m1)"

definition SLIST_INSERT_HEAD :: "nat \<Rightarrow> nat \<Rightarrow> qmem \<Rightarrow> qmem" where
  "SLIST_INSERT_HEAD head elm m =
     (let m1 = put (ElmNext elm) (SLIST_FIRST m head) m
      in put (HeadFirst head) (Some elm) m1)"

definition SLIST_REMOVE_AFTER :: "nat \<Rightarrow> qmem \<Rightarrow> qfault + qmem" where
  "SLIST_REMOVE_AFTER elm m =
     (case SLIST_NEXT m elm of
        None \<Rightarrow> Inl NullDeref
      | Some n \<Rightarrow> Inr (put (ElmNext elm) (SLIST_NEXT m n) m))"

definition SLIST_REMOVE_HEAD :: "nat \<Rightarrow> qmem \<Rightarrow> qfault + qmem" where
  "SLIST_REMOVE_HEAD head m =
     (case SLIST_FIRST m head of
        None \<Rightarrow> Inl NullDeref
      | Some f \<Rightarrow> Inr (put (HeadFirst head) (SLIST_NEXT m f) m))"

definition SLIST_REMOVE :: "nat \<Rightarrow> nat \<Rightarrow> qmem \<Rightarrow> (qfault + qmem) option" where
  "SLIST_REMOVE head elm m =
     (if SLIST_FIRST m head = Some elm then Some (SLIST_REMOVE_HEAD head m)
      else (case find_prev (val m) (SLIST_FIRST m head) elm of
              None \<Rightarrow> None
            | Some (Inl f) \<Rightarrow> Some (Inl f)
            | Some (Inr curelm) \<Rightarrow> Some (SLIST_REMOVE_AFTER curelm m)))"

definition SLIST_REMOVE_PREVPTR :: "cell \<Rightarrow> nat \<Rightarrow> qmem \<Rightarrow> qmem" where
  "SLIST_REMOVE_PREVPTR prevp elm m = put prevp (SLIST_NEXT m elm) m"

definition SLIST_CONCAT :: "nat \<Rightarrow> nat \<Rightarrow> qmem \<Rightarrow> qmem option" where
  "SLIST_CONCAT head1 head2 m =
     (case SLIST_FIRST m head1 of
        None \<Rightarrow>
          (let m1 = put (HeadFirst head1) (SLIST_FIRST m head2) m
           in Some (if SLIST_FIRST m1 head1 \<noteq> None then SLIST_INIT head2 m1 else m1))
      | Some curelm \<Rightarrow>
          (if SLIST_FIRST m head2 \<noteq> None then
             (case find_last (val m) curelm of
                None \<Rightarrow> None
              | Some l \<Rightarrow> Some (SLIST_INIT head2 (put (ElmNext l) (SLIST_FIRST m head2) m)))
           else Some m))"

definition SLIST_SWAP :: "nat \<Rightarrow> nat \<Rightarrow> qmem \<Rightarrow> qmem" where
  "SLIST_SWAP head1 head2 m =
     (let swap_first = SLIST_FIRST m head1;
          m1 = put (HeadFirst head1) (SLIST_FIRST m head2) m
      in put (HeadFirst head2) swap_first m1)"

definition SLIST_FOREACH ::
  "('s \<Rightarrow> qmem) \<Rightarrow> nat \<Rightarrow> (nat \<Rightarrow> 's \<Rightarrow> 'r + 's) \<Rightarrow> 's \<Rightarrow> ('r + 's) option" where
  "SLIST_FOREACH mem head body s =
     for_each (\<lambda>s. SLIST_NEXT (mem s)) body (SLIST_FIRST (mem s) head) s"

definition SLIST_FOREACH_FROM ::
  "('s \<Rightarrow> qmem) \<Rightarrow> nat option \<Rightarrow> nat \<Rightarrow> (nat \<Rightarrow> 's \<Rightarrow> 'r + 's) \<Rightarrow> 's \<Rightarrow> ('r + 's) option" where
  "SLIST_FOREACH_FROM mem var head body s =
     for_each (\<lambda>s. SLIST_NEXT (mem s)) body
       (case var of Some v \<Rightarrow> Some v | None \<Rightarrow> SLIST_FIRST (mem s) head) s"

definition SLIST_FOREACH_SAFE ::
  "('s \<Rightarrow> qmem) \<Rightarrow> nat \<Rightarrow> (nat \<Rightarrow> 's \<Rightarrow> 'r + 's) \<Rightarrow> 's \<Rightarrow> ('r + 's) option" where
  "SLIST_FOREACH_SAFE mem head body s =
     for_each_safe (\<lambda>s. SLIST_NEXT (mem s)) body (SLIST_FIRST (mem s) head) s"

definition SLIST_FOREACH_FROM_SAFE ::
  "('s \<Rightarrow> qmem) \<Rightarrow> nat option \<Rightarrow> nat \<Rightarrow> (nat \<Rightarrow> 's \<Rightarrow> 'r + 's) \<Rightarrow> 's \<Rightarrow> ('r + 's) option" where
  "SLIST_FOREACH_FROM_SAFE mem var head body s =
     for_each_safe (\<lambda>s. SLIST_NEXT (mem s)) body 
       (case var of Some v \<Rightarrow> Some v | None \<Rightarrow> SLIST_FIRST (mem s) head) s"

text \<open>\<open>SLIST_FOREACH_PREVPTR\<close>: the body also gets the place that points to the element.\<close>

partial_function (option) prevptr_loop ::
  "('s \<Rightarrow> qmem) \<Rightarrow> cell \<Rightarrow> (cell \<Rightarrow> nat \<Rightarrow> 's \<Rightarrow> 'r + 's) \<Rightarrow> 's \<Rightarrow> ('r + 's) option" where
  "prevptr_loop mem varp body s =
     (case val (mem s) varp of
        None \<Rightarrow> Some (Inr s)
      | Some var \<Rightarrow>
          (case body varp var s of
             Inl r \<Rightarrow> Some (Inl r)
           | Inr s' \<Rightarrow> prevptr_loop mem (ElmNext var) body s'))"

declare prevptr_loop.simps [code]

definition SLIST_FOREACH_PREVPTR ::
  "('s \<Rightarrow> qmem) \<Rightarrow> nat \<Rightarrow> (cell \<Rightarrow> nat \<Rightarrow> 's \<Rightarrow> 'r + 's) \<Rightarrow> 's \<Rightarrow> ('r + 's) option" where
  "SLIST_FOREACH_PREVPTR mem head body s = prevptr_loop mem (HeadFirst head) body s"

section \<open>STAILQ\<close>

definition STAILQ_EMPTY :: "qmem \<Rightarrow> nat \<Rightarrow> bool" where
  "STAILQ_EMPTY m head \<longleftrightarrow> val m (HeadFirst head) = None"

definition STAILQ_FIRST :: "qmem \<Rightarrow> nat \<Rightarrow> nat option" where
  "STAILQ_FIRST m head = val m (HeadFirst head)"

definition STAILQ_NEXT :: "qmem \<Rightarrow> nat \<Rightarrow> nat option" where
  "STAILQ_NEXT m elm = val m (ElmNext elm)"

definition STAILQ_INIT :: "nat \<Rightarrow> qmem \<Rightarrow> qmem" where
  "STAILQ_INIT head m =
     (let m1 = put (HeadFirst head) None m in put_last head (HeadFirst head) m1)"

definition STAILQ_INSERT_AFTER :: "nat \<Rightarrow> nat \<Rightarrow> nat \<Rightarrow> qmem \<Rightarrow> qmem" where
  "STAILQ_INSERT_AFTER head tqelm elm m =
     (let m1 = put (ElmNext elm) (STAILQ_NEXT m tqelm) m;
          m2 = (if STAILQ_NEXT m1 elm = None then put_last head (ElmNext elm) m1 else m1)
      in put (ElmNext tqelm) (Some elm) m2)"

definition STAILQ_INSERT_HEAD :: "nat \<Rightarrow> nat \<Rightarrow> qmem \<Rightarrow> qmem" where
  "STAILQ_INSERT_HEAD head elm m =
     (let m1 = put (ElmNext elm) (STAILQ_FIRST m head) m;
          m2 = (if STAILQ_NEXT m1 elm = None then put_last head (ElmNext elm) m1 else m1)
      in put (HeadFirst head) (Some elm) m2)"

definition STAILQ_INSERT_TAIL :: "nat \<Rightarrow> nat \<Rightarrow> qmem \<Rightarrow> qmem" where
  "STAILQ_INSERT_TAIL head elm m =
     (let m1 = put (ElmNext elm) None m;
          m2 = put (hlast m1 head) (Some elm) m1
      in put_last head (ElmNext elm) m2)"

definition STAILQ_LAST :: "qmem \<Rightarrow> nat \<Rightarrow> qfault + nat option" where
  "STAILQ_LAST m head =
     (if STAILQ_EMPTY m head then Inr None
      else map_sum id Some (containerof (hlast m head)))"

definition STAILQ_REMOVE_AFTER :: "nat \<Rightarrow> nat \<Rightarrow> qmem \<Rightarrow> qfault + qmem" where
  "STAILQ_REMOVE_AFTER head elm m =
     (case STAILQ_NEXT m elm of
        None \<Rightarrow> Inl NullDeref
      | Some n \<Rightarrow>
          (let m1 = put (ElmNext elm) (STAILQ_NEXT m n) m
           in Inr (if STAILQ_NEXT m1 elm = None then put_last head (ElmNext elm) m1 else m1)))"

definition STAILQ_REMOVE_HEAD :: "nat \<Rightarrow> qmem \<Rightarrow> qfault + qmem" where
  "STAILQ_REMOVE_HEAD head m =
     (case STAILQ_FIRST m head of
        None \<Rightarrow> Inl NullDeref
      | Some f \<Rightarrow>
          (let m1 = put (HeadFirst head) (STAILQ_NEXT m f) m
           in Inr (if STAILQ_FIRST m1 head = None then put_last head (HeadFirst head) m1 else m1)))"

definition STAILQ_REMOVE :: "nat \<Rightarrow> nat \<Rightarrow> qmem \<Rightarrow> (qfault + qmem) option" where
  "STAILQ_REMOVE head elm m =
     (if STAILQ_FIRST m head = Some elm then Some (STAILQ_REMOVE_HEAD head m)
      else (case find_prev (val m) (STAILQ_FIRST m head) elm of
              None \<Rightarrow> None
            | Some (Inl f) \<Rightarrow> Some (Inl f)
            | Some (Inr curelm) \<Rightarrow> Some (STAILQ_REMOVE_AFTER head curelm m)))"

definition STAILQ_CONCAT :: "nat \<Rightarrow> nat \<Rightarrow> qmem \<Rightarrow> qmem" where
  "STAILQ_CONCAT head1 head2 m =
     (if \<not> STAILQ_EMPTY m head2 then
        (let m1 = put (hlast m head1) (STAILQ_FIRST m head2) m;
             m2 = put_last head1 (hlast m1 head2) m1
         in STAILQ_INIT head2 m2)
      else m)"

definition STAILQ_SWAP :: "nat \<Rightarrow> nat \<Rightarrow> qmem \<Rightarrow> qmem" where
  "STAILQ_SWAP head1 head2 m =
     (let swap_first = STAILQ_FIRST m head1;
          swap_last = hlast m head1;
          m1 = put (HeadFirst head1) (STAILQ_FIRST m head2) m;
          m2 = put_last head1 (hlast m1 head2) m1;
          m3 = put (HeadFirst head2) swap_first m2;
          m4 = put_last head2 swap_last m3;
          m5 = (if STAILQ_EMPTY m4 head1 then put_last head1 (HeadFirst head1) m4 else m4)
      in (if STAILQ_EMPTY m5 head2 then put_last head2 (HeadFirst head2) m5 else m5))"

definition STAILQ_FOREACH ::
  "('s \<Rightarrow> qmem) \<Rightarrow> nat \<Rightarrow> (nat \<Rightarrow> 's \<Rightarrow> 'r + 's) \<Rightarrow> 's \<Rightarrow> ('r + 's) option" where
  "STAILQ_FOREACH mem head body s =
     for_each (\<lambda>s. STAILQ_NEXT (mem s)) body (STAILQ_FIRST (mem s) head) s"

definition STAILQ_FOREACH_FROM ::
  "('s \<Rightarrow> qmem) \<Rightarrow> nat option \<Rightarrow> nat \<Rightarrow> (nat \<Rightarrow> 's \<Rightarrow> 'r + 's) \<Rightarrow> 's \<Rightarrow> ('r + 's) option" where
  "STAILQ_FOREACH_FROM mem var head body s =
     for_each (\<lambda>s. STAILQ_NEXT (mem s)) body 
       (case var of Some v \<Rightarrow> Some v | None \<Rightarrow> STAILQ_FIRST (mem s) head) s"

definition STAILQ_FOREACH_SAFE ::
  "('s \<Rightarrow> qmem) \<Rightarrow> nat \<Rightarrow> (nat \<Rightarrow> 's \<Rightarrow> 'r + 's) \<Rightarrow> 's \<Rightarrow> ('r + 's) option" where
  "STAILQ_FOREACH_SAFE mem head body s =
     for_each_safe (\<lambda>s. STAILQ_NEXT (mem s)) body (STAILQ_FIRST (mem s) head) s"

definition STAILQ_FOREACH_FROM_SAFE ::
  "('s \<Rightarrow> qmem) \<Rightarrow> nat option \<Rightarrow> nat \<Rightarrow> (nat \<Rightarrow> 's \<Rightarrow> 'r + 's) \<Rightarrow> 's \<Rightarrow> ('r + 's) option" where
  "STAILQ_FOREACH_FROM_SAFE mem var head body s =
     for_each_safe (\<lambda>s. STAILQ_NEXT (mem s)) body 
       (case var of Some v \<Rightarrow> Some v | None \<Rightarrow> STAILQ_FIRST (mem s) head) s"

lemmas SLIST_reads = SLIST_EMPTY_def SLIST_FIRST_def SLIST_NEXT_def
lemmas STAILQ_reads = STAILQ_EMPTY_def STAILQ_FIRST_def STAILQ_NEXT_def

section \<open>SLIST: effect on the represented sequence\<close>

lemma slist_INIT: "slist (SLIST_INIT h m) h []"
  by (simp add: SLIST_INIT_def slist_def)

lemma slist_INSERT_HEAD: "slist m h xs \<Longrightarrow> x \<notin> set xs \<Longrightarrow> slist (SLIST_INSERT_HEAD h x m) h (x # xs)"
  by (cases xs) (auto simp: SLIST_INSERT_HEAD_def SLIST_reads slist_def Let_def)

lemma slist_INSERT_AFTER:
  "slist m h (xs @ y # ys) \<Longrightarrow> x \<notin> set (xs @ y # ys) \<Longrightarrow>
   slist (SLIST_INSERT_AFTER y x m) h (xs @ y # x # ys)"
  by (cases ys) (auto simp: SLIST_INSERT_AFTER_def SLIST_reads slist_def Let_def)

lemma slist_REMOVE_HEAD:
  "slist m h (x # xs) \<Longrightarrow> \<exists>m'. SLIST_REMOVE_HEAD h m = Inr m' \<and> slist m' h xs"
  by (cases xs) (auto simp: SLIST_REMOVE_HEAD_def SLIST_reads slist_def)

lemma slist_REMOVE_AFTER:
  "slist m h (xs @ y # x # ys) \<Longrightarrow> \<exists>m'. SLIST_REMOVE_AFTER y m = Inr m' \<and> slist m' h (xs @ y # ys)"
  by (cases ys) (auto simp: SLIST_REMOVE_AFTER_def SLIST_reads slist_def)

text \<open>The predecessor search on a well-formed list stops at the element before the one searched.\<close>

lemma slist_find_prev:
  assumes "slist m h (xs @ y # x # ys)"
  shows "find_prev (val m) (val m (HeadFirst h)) x = Some (Inr y)"
proof -
  obtain z zs where z: "xs @ [y] = z # zs" by (cases xs) auto
  then have l: "last (z # zs) = y" by (metis last_snoc)
  have "(xs @ [y]) @ x # ys = z # zs @ x # ys" unfolding z by simp
  moreover have "xs @ y # x # ys = (xs @ [y]) @ x # ys" by simp
  ultimately have w: "slist m h (z # zs @ x # ys)" using assms by argo
  then have "find_prev (val m) (Some z) x = Some (Inr (last (z # zs)))"
    by (intro find_prev_found [of _ "HeadFirst h"]) (auto simp: slist_def)
  moreover have "val m (HeadFirst h) = Some z" using slist_first [OF w] by simp
  ultimately show ?thesis using l by simp
qed

lemma slist_REMOVE:
  assumes "slist m h (xs @ x # ys)"
  shows "\<exists>m'. SLIST_REMOVE h x m = Some (Inr m') \<and> slist m' h (xs @ ys)"
proof (cases xs rule: rev_cases)
  case Nil
  then show ?thesis
    using assms slist_REMOVE_HEAD [of m h x ys] slist_first [OF assms]
    by (auto simp: SLIST_REMOVE_def SLIST_FIRST_def)
next
  case (snoc zs z)
  then have w: "slist m h (zs @ z # x # ys)" using assms by simp
  have "val m (HeadFirst h) \<noteq> Some x"
    using slist_first [OF w] slist_distinct [OF w] by (cases zs) auto
  then show ?thesis
    using slist_find_prev [OF w] slist_REMOVE_AFTER [OF w] snoc
    by (auto simp: SLIST_REMOVE_def SLIST_FIRST_def)
qed

lemma slist_REMOVE_missing:
  assumes "slist m h xs" and "x \<notin> set xs"
  shows "SLIST_REMOVE h x m = Some (Inl NullDeref)"
proof (cases xs)
  case Nil
  then show ?thesis
    using slist_first [OF assms(1)] by (simp add: SLIST_REMOVE_def SLIST_FIRST_def find_prev.simps)
next
  case (Cons y ys)
  then have "find_prev (val m) (Some y) x = Some (Inl NullDeref)"
    using assms by (intro find_prev_missing [of _ "HeadFirst h" _ ys]) (auto simp: slist_def)
  then show ?thesis
    using slist_first [OF assms(1)] assms(2) Cons by (auto simp: SLIST_REMOVE_def SLIST_FIRST_def)
qed

lemma slist_SWAP:
  "\<lbrakk>slist m h1 xs; slist m h2 ys; h1 \<noteq> h2\<rbrakk> \<Longrightarrow>
   slist (SLIST_SWAP h1 h2 m) h1 ys \<and> slist (SLIST_SWAP h1 h2 m) h2 xs"
  by (cases xs; cases ys) (auto simp: SLIST_SWAP_def SLIST_reads slist_def Let_def)

lemma slist_CONCAT:
  assumes "slist m h1 xs" and "slist m h2 ys" and "h1 \<noteq> h2" and "set xs \<inter> set ys = {}"
  shows "\<exists>m'. SLIST_CONCAT h1 h2 m = Some m' \<and> slist m' h1 (xs @ ys) \<and> slist m' h2 []"
proof (cases xs rule: rev_cases)
  case Nil
  then show ?thesis
    using assms by (cases ys) (auto simp: SLIST_CONCAT_def SLIST_reads SLIST_INIT_def slist_def)
next
  case (snoc zs z)
  obtain w ws where w: "xs = w # ws" using snoc by (meson neq_Nil_conv snoc_eq_iff_butlast)
  have "find_last (val m) w = Some z"
    using find_last_last [of "val m" "HeadFirst h1" w ws] assms(1) w snoc
    by (metis last_snoc slist_def)
  moreover have "val m (HeadFirst h1) = Some w" using slist_first [OF assms(1)] w by simp
  ultimately show ?thesis
    using assms(1-4) unfolding snoc
    by (cases ys) (auto simp: SLIST_CONCAT_def SLIST_reads SLIST_INIT_def slist_def)
qed

section \<open>STAILQ: effect on the represented sequence\<close>

lemma stailq_INIT: "stailq (STAILQ_INIT h m) h []"
  by (simp add: STAILQ_INIT_def stailq_def slist_def Let_def)

lemma stailq_INSERT_HEAD:
  "stailq m h xs \<Longrightarrow> x \<notin> set xs \<Longrightarrow> stailq (STAILQ_INSERT_HEAD h x m) h (x # xs)"
  by (cases xs) (auto simp: STAILQ_INSERT_HEAD_def STAILQ_reads stailq_def slist_def Let_def)

lemma stailq_INSERT_AFTER:
  "stailq m h (xs @ y # ys) \<Longrightarrow> x \<notin> set (xs @ y # ys) \<Longrightarrow>
   stailq (STAILQ_INSERT_AFTER h y x m) h (xs @ y # x # ys)"
  by (cases ys) (auto simp: STAILQ_INSERT_AFTER_def STAILQ_reads stailq_def slist_def Let_def)

lemma stailq_INSERT_TAIL:
  "stailq m h xs \<Longrightarrow> x \<notin> set xs \<Longrightarrow> stailq (STAILQ_INSERT_TAIL h x m) h (xs @ [x])"
  by (cases xs rule: rev_cases) (auto simp: STAILQ_INSERT_TAIL_def stailq_def slist_def Let_def)

lemma stailq_LAST: "stailq m h xs \<Longrightarrow> STAILQ_LAST m h = Inr (last_ptr xs)"
  by (cases xs rule: rev_cases)
    (auto simp: STAILQ_LAST_def STAILQ_reads stailq_def slist_first last_ptr_def)

lemma stailq_REMOVE_HEAD:
  "stailq m h (x # xs) \<Longrightarrow> \<exists>m'. STAILQ_REMOVE_HEAD h m = Inr m' \<and> stailq m' h xs"
  by (cases xs) (auto simp: STAILQ_REMOVE_HEAD_def STAILQ_reads stailq_def slist_def Let_def)

lemma stailq_REMOVE_AFTER:
  "stailq m h (xs @ y # x # ys) \<Longrightarrow>
   \<exists>m'. STAILQ_REMOVE_AFTER h y m = Inr m' \<and> stailq m' h (xs @ y # ys)"
  by (cases ys) (auto simp: STAILQ_REMOVE_AFTER_def STAILQ_reads stailq_def slist_def Let_def)

lemma stailq_REMOVE:
  assumes "stailq m h (xs @ x # ys)"
  shows "\<exists>m'. STAILQ_REMOVE h x m = Some (Inr m') \<and> stailq m' h (xs @ ys)"
proof (cases xs rule: rev_cases)
  case Nil
  then show ?thesis
    using assms stailq_REMOVE_HEAD [of m h x ys] slist_first [OF list_kinds_slist(1) [OF assms]]
    by (auto simp: STAILQ_REMOVE_def STAILQ_FIRST_def)
next
  case (snoc zs z)
  then have q: "stailq m h (zs @ z # x # ys)" using assms by simp
  note w = list_kinds_slist(1) [OF q]
  have "val m (HeadFirst h) \<noteq> Some x"
    using slist_first [OF w] slist_distinct [OF w] by (cases zs) auto
  then show ?thesis
    using slist_find_prev [OF w] stailq_REMOVE_AFTER [OF q] snoc
    by (auto simp: STAILQ_REMOVE_def STAILQ_FIRST_def)
qed

lemma stailq_CONCAT:
  "\<lbrakk>stailq m h1 xs; stailq m h2 ys; h1 \<noteq> h2; set xs \<inter> set ys = {}\<rbrakk> \<Longrightarrow>
   stailq (STAILQ_CONCAT h1 h2 m) h1 (xs @ ys) \<and> stailq (STAILQ_CONCAT h1 h2 m) h2 []"
  by (cases xs rule: rev_cases; cases ys)
    (auto simp: STAILQ_CONCAT_def STAILQ_reads STAILQ_INIT_def stailq_def slist_def Let_def)

lemma stailq_SWAP:
  "\<lbrakk>stailq m h1 xs; stailq m h2 ys; h1 \<noteq> h2\<rbrakk> \<Longrightarrow>
   stailq (STAILQ_SWAP h1 h2 m) h1 ys \<and> stailq (STAILQ_SWAP h1 h2 m) h2 xs"
  by (cases xs; cases ys) (auto simp: STAILQ_SWAP_def STAILQ_reads stailq_def slist_def Let_def)

section \<open>The interfaces\<close>

interpretation sl: linked_list slist SLIST_INIT SLIST_FIRST SLIST_NEXT SLIST_INSERT_HEAD
  "\<lambda>h. SLIST_INSERT_AFTER" SLIST_REMOVE
  by unfold_locales
    (simp_all add: slist_distinct slist_INIT SLIST_reads slist_first slist_next slist_INSERT_HEAD
      slist_INSERT_AFTER slist_REMOVE)

interpretation stq: tail_queue stailq STAILQ_INIT STAILQ_FIRST STAILQ_NEXT STAILQ_INSERT_HEAD
  STAILQ_INSERT_AFTER STAILQ_REMOVE STAILQ_INSERT_TAIL
proof unfold_locales
  fix m h xs assume "stailq m h xs"
  then have "slist m h xs" by (rule list_kinds_slist)
  then show "distinct xs" and "STAILQ_FIRST m h = head_ptr xs"
    by (simp_all add: slist_distinct slist_first STAILQ_FIRST_def)
next
  fix m h xs x ys assume "stailq m h (xs @ x # ys)"
  then have "slist m h (xs @ x # ys)" by (rule list_kinds_slist)
  then show "STAILQ_NEXT m x = head_ptr ys" by (simp add: STAILQ_NEXT_def slist_next)
qed (simp_all add: stailq_INIT stailq_INSERT_HEAD stailq_INSERT_AFTER stailq_REMOVE stailq_INSERT_TAIL)

end
