(* ===== verification/Queue_Double.thy ===== *)
theory Queue_Double
  imports Queue_Mem
begin

text \<open>
  The doubly-linked lists (\<open>LIST\<close>) and tail queues (\<open>TAILQ\<close>) of \<open>src/lib/queue.h\<close>, one definition
  per macro in the default build. The consistency checks that a kernel built with
  \<open>INVARIANTS\<close> compiles in (\<open>QMD_LIST_CHECK_*\<close>, \<open>QMD_TAILQ_CHECK_*\<close>) are separate predicates: true
  where the check would panic.

  The lemmas give the effect of every macro on the sequence the list represents, show that the
  checks never fire on a well-formed list, that the reverse traversal visits the reversed
  sequence, and that an operation on one tail queue leaves a disjoint one alone. Both kinds provide
  the list interfaces.
\<close>

section \<open>LIST\<close>

definition LIST_EMPTY :: "qmem \<Rightarrow> nat \<Rightarrow> bool" where
  "LIST_EMPTY m head \<longleftrightarrow> val m (HeadFirst head) = None"

definition LIST_FIRST :: "qmem \<Rightarrow> nat \<Rightarrow> nat option" where
  "LIST_FIRST m head = val m (HeadFirst head)"

definition LIST_NEXT :: "qmem \<Rightarrow> nat \<Rightarrow> nat option" where
  "LIST_NEXT m elm = val m (ElmNext elm)"

definition LIST_PREV :: "qmem \<Rightarrow> nat \<Rightarrow> nat \<Rightarrow> qfault + nat option" where
  "LIST_PREV m elm head =
     (if eprev m elm = HeadFirst head then Inr None
      else map_sum id Some (containerof (eprev m elm)))"

definition QMD_LIST_CHECK_HEAD :: "qmem \<Rightarrow> nat \<Rightarrow> bool" where
  "QMD_LIST_CHECK_HEAD m head =
     (case LIST_FIRST m head of None \<Rightarrow> False | Some f \<Rightarrow> eprev m f \<noteq> HeadFirst head)"

definition QMD_LIST_CHECK_NEXT :: "qmem \<Rightarrow> nat \<Rightarrow> bool" where
  "QMD_LIST_CHECK_NEXT m elm =
     (case LIST_NEXT m elm of None \<Rightarrow> False | Some n \<Rightarrow> eprev m n \<noteq> ElmNext elm)"

definition QMD_LIST_CHECK_PREV :: "qmem \<Rightarrow> nat \<Rightarrow> bool" where
  "QMD_LIST_CHECK_PREV m elm \<longleftrightarrow> val m (eprev m elm) \<noteq> Some elm"

definition LIST_INIT :: "nat \<Rightarrow> qmem \<Rightarrow> qmem" where
  "LIST_INIT head m = put (HeadFirst head) None m"

text \<open>\<open>if (p != NULL) p->field.prev = c\<close>, the shape in which the macros repair a back link.\<close>

definition relink :: "nat option \<Rightarrow> cell \<Rightarrow> qmem \<Rightarrow> qmem" where
  "relink p c m = (case p of None \<Rightarrow> m | Some e \<Rightarrow> put_prev e c m)"

definition LIST_INSERT_AFTER :: "nat \<Rightarrow> nat \<Rightarrow> qmem \<Rightarrow> qmem" where
  "LIST_INSERT_AFTER listelm elm m =
     (let m1 = put (ElmNext elm) (LIST_NEXT m listelm) m;
          m2 = (if LIST_NEXT m1 elm \<noteq> None then relink (LIST_NEXT m1 listelm) (ElmNext elm) m1
                else m1);
          m3 = put (ElmNext listelm) (Some elm) m2
      in put_prev elm (ElmNext listelm) m3)"

definition LIST_INSERT_BEFORE :: "nat \<Rightarrow> nat \<Rightarrow> qmem \<Rightarrow> qmem" where
  "LIST_INSERT_BEFORE listelm elm m =
     (let m1 = put_prev elm (eprev m listelm) m;
          m2 = put (ElmNext elm) (Some listelm) m1;
          m3 = put (eprev m2 listelm) (Some elm) m2
      in put_prev listelm (ElmNext elm) m3)"

definition LIST_INSERT_HEAD :: "nat \<Rightarrow> nat \<Rightarrow> qmem \<Rightarrow> qmem" where
  "LIST_INSERT_HEAD head elm m =
     (let m1 = put (ElmNext elm) (LIST_FIRST m head) m;
          m2 = (if LIST_NEXT m1 elm \<noteq> None then relink (LIST_FIRST m1 head) (ElmNext elm) m1
                else m1);
          m3 = put (HeadFirst head) (Some elm) m2
      in put_prev elm (HeadFirst head) m3)"

definition LIST_REMOVE :: "nat \<Rightarrow> qmem \<Rightarrow> qmem" where
  "LIST_REMOVE elm m =
     (let m1 = relink (LIST_NEXT m elm) (eprev m elm) m
      in put (eprev m1 elm) (LIST_NEXT m1 elm) m1)"

definition LIST_CONCAT :: "nat \<Rightarrow> nat \<Rightarrow> qmem \<Rightarrow> qmem option" where
  "LIST_CONCAT head1 head2 m =
     (case LIST_FIRST m head1 of
        None \<Rightarrow>
          (let m1 = put (HeadFirst head1) (LIST_FIRST m head2) m
           in Some (if LIST_FIRST m1 head1 \<noteq> None
                    then LIST_INIT head2 (relink (LIST_FIRST m1 head2) (HeadFirst head1) m1)
                    else m1))
      | Some curelm \<Rightarrow>
          (if LIST_FIRST m head2 \<noteq> None then
             (case find_last (val m) curelm of
                None \<Rightarrow> None
              | Some l \<Rightarrow>
                  (let m1 = put (ElmNext l) (LIST_FIRST m head2) m
                   in Some (LIST_INIT head2 (relink (LIST_FIRST m1 head2) (ElmNext l) m1))))
           else Some m))"

definition LIST_SWAP :: "nat \<Rightarrow> nat \<Rightarrow> qmem \<Rightarrow> qmem" where
  "LIST_SWAP head1 head2 m =
     (let swap_tmp = LIST_FIRST m head1;
          m1 = put (HeadFirst head1) (LIST_FIRST m head2) m;
          m2 = put (HeadFirst head2) swap_tmp m1;
          m3 = relink (LIST_FIRST m2 head1) (HeadFirst head1) m2
      in relink (LIST_FIRST m3 head2) (HeadFirst head2) m3)"

definition LIST_FOREACH ::
  "('s \<Rightarrow> qmem) \<Rightarrow> nat \<Rightarrow> (nat \<Rightarrow> 's \<Rightarrow> 'r + 's) \<Rightarrow> 's \<Rightarrow> ('r + 's) option" where
  "LIST_FOREACH mem head body s =
     for_each (\<lambda>s. LIST_NEXT (mem s)) body (LIST_FIRST (mem s) head) s"

definition LIST_FOREACH_SAFE ::
  "('s \<Rightarrow> qmem) \<Rightarrow> nat \<Rightarrow> (nat \<Rightarrow> 's \<Rightarrow> 'r + 's) \<Rightarrow> 's \<Rightarrow> ('r + 's) option" where
  "LIST_FOREACH_SAFE mem head body s =
     for_each_safe (\<lambda>s. LIST_NEXT (mem s)) body (LIST_FIRST (mem s) head) s"

definition LIST_FOREACH_FROM ::
  "('s \<Rightarrow> qmem) \<Rightarrow> nat option \<Rightarrow> nat \<Rightarrow> (nat \<Rightarrow> 's \<Rightarrow> 'r + 's) \<Rightarrow> 's \<Rightarrow> ('r + 's) option" where
  "LIST_FOREACH_FROM mem var head body s =
     for_each (\<lambda>s. LIST_NEXT (mem s)) body 
       (case var of Some v \<Rightarrow> Some v | None \<Rightarrow> LIST_FIRST (mem s) head) s"

definition LIST_FOREACH_FROM_SAFE ::
  "('s \<Rightarrow> qmem) \<Rightarrow> nat option \<Rightarrow> nat \<Rightarrow> (nat \<Rightarrow> 's \<Rightarrow> 'r + 's) \<Rightarrow> 's \<Rightarrow> ('r + 's) option" where
  "LIST_FOREACH_FROM_SAFE mem var head body s =
     for_each_safe (\<lambda>s. LIST_NEXT (mem s)) body 
       (case var of Some v \<Rightarrow> Some v | None \<Rightarrow> LIST_FIRST (mem s) head) s"

section \<open>TAILQ\<close>

definition TAILQ_EMPTY :: "qmem \<Rightarrow> nat \<Rightarrow> bool" where
  "TAILQ_EMPTY m head \<longleftrightarrow> val m (HeadFirst head) = None"

definition TAILQ_FIRST :: "qmem \<Rightarrow> nat \<Rightarrow> nat option" where
  "TAILQ_FIRST m head = val m (HeadFirst head)"

definition TAILQ_NEXT :: "qmem \<Rightarrow> nat \<Rightarrow> nat option" where
  "TAILQ_NEXT m elm = val m (ElmNext elm)"

text \<open>
  \<open>((struct headname *)p)->tqh_last\<close> for the address \<open>p\<close> of a place: a head and an entry have the
  same layout, so the cast reads the last field of the head or the prev field of the element
  that the place opens.
\<close>

definition as_head_last :: "qmem \<Rightarrow> cell \<Rightarrow> cell" where
  "as_head_last m c = (case c of HeadFirst h \<Rightarrow> hlast m h | ElmNext e \<Rightarrow> eprev m e)"

definition TAILQ_LAST :: "qmem \<Rightarrow> nat \<Rightarrow> nat option" where
  "TAILQ_LAST m head = val m (as_head_last m (hlast m head))"

definition TAILQ_LAST_FAST :: "qmem \<Rightarrow> nat \<Rightarrow> qfault + nat option" where
  "TAILQ_LAST_FAST m head =
     (if TAILQ_EMPTY m head then Inr None else map_sum id Some (containerof (hlast m head)))"

definition TAILQ_PREV :: "qmem \<Rightarrow> nat \<Rightarrow> nat option" where
  "TAILQ_PREV m elm = val m (as_head_last m (eprev m elm))"

definition TAILQ_PREV_FAST :: "qmem \<Rightarrow> nat \<Rightarrow> nat \<Rightarrow> qfault + nat option" where
  "TAILQ_PREV_FAST m elm head =
     (if eprev m elm = HeadFirst head then Inr None
      else map_sum id Some (containerof (eprev m elm)))"

definition QMD_TAILQ_CHECK_HEAD :: "qmem \<Rightarrow> nat \<Rightarrow> bool" where
  "QMD_TAILQ_CHECK_HEAD m head =
     (case TAILQ_FIRST m head of None \<Rightarrow> False | Some f \<Rightarrow> eprev m f \<noteq> HeadFirst head)"

definition QMD_TAILQ_CHECK_TAIL :: "qmem \<Rightarrow> nat \<Rightarrow> bool" where
  "QMD_TAILQ_CHECK_TAIL m head \<longleftrightarrow> val m (hlast m head) \<noteq> None"

definition QMD_TAILQ_CHECK_NEXT :: "qmem \<Rightarrow> nat \<Rightarrow> bool" where
  "QMD_TAILQ_CHECK_NEXT m elm =
     (case TAILQ_NEXT m elm of None \<Rightarrow> False | Some n \<Rightarrow> eprev m n \<noteq> ElmNext elm)"

definition QMD_TAILQ_CHECK_PREV :: "qmem \<Rightarrow> nat \<Rightarrow> bool" where
  "QMD_TAILQ_CHECK_PREV m elm \<longleftrightarrow> val m (eprev m elm) \<noteq> Some elm"

definition TAILQ_INIT :: "nat \<Rightarrow> qmem \<Rightarrow> qmem" where
  "TAILQ_INIT head m =
     (let m1 = put (HeadFirst head) None m in put_last head (HeadFirst head) m1)"

definition TAILQ_INSERT_AFTER :: "nat \<Rightarrow> nat \<Rightarrow> nat \<Rightarrow> qmem \<Rightarrow> qmem" where
  "TAILQ_INSERT_AFTER head listelm elm m =
     (let m1 = put (ElmNext elm) (TAILQ_NEXT m listelm) m;
          m2 = (if TAILQ_NEXT m1 elm \<noteq> None then relink (TAILQ_NEXT m1 elm) (ElmNext elm) m1
                else put_last head (ElmNext elm) m1);
          m3 = put (ElmNext listelm) (Some elm) m2
      in put_prev elm (ElmNext listelm) m3)"

definition TAILQ_INSERT_BEFORE :: "nat \<Rightarrow> nat \<Rightarrow> qmem \<Rightarrow> qmem" where
  "TAILQ_INSERT_BEFORE listelm elm m =
     (let m1 = put_prev elm (eprev m listelm) m;
          m2 = put (ElmNext elm) (Some listelm) m1;
          m3 = put (eprev m2 listelm) (Some elm) m2
      in put_prev listelm (ElmNext elm) m3)"

definition TAILQ_INSERT_HEAD :: "nat \<Rightarrow> nat \<Rightarrow> qmem \<Rightarrow> qmem" where
  "TAILQ_INSERT_HEAD head elm m =
     (let m1 = put (ElmNext elm) (TAILQ_FIRST m head) m;
          m2 = (if TAILQ_NEXT m1 elm \<noteq> None then relink (TAILQ_FIRST m1 head) (ElmNext elm) m1
                else put_last head (ElmNext elm) m1);
          m3 = put (HeadFirst head) (Some elm) m2
      in put_prev elm (HeadFirst head) m3)"

definition TAILQ_INSERT_TAIL :: "nat \<Rightarrow> nat \<Rightarrow> qmem \<Rightarrow> qmem" where
  "TAILQ_INSERT_TAIL head elm m =
     (let m1 = put (ElmNext elm) None m;
          m2 = put_prev elm (hlast m1 head) m1;
          m3 = put (hlast m2 head) (Some elm) m2
      in put_last head (ElmNext elm) m3)"

definition TAILQ_REMOVE :: "nat \<Rightarrow> nat \<Rightarrow> qmem \<Rightarrow> qmem" where
  "TAILQ_REMOVE head elm m =
     (let m1 = (if TAILQ_NEXT m elm \<noteq> None then relink (TAILQ_NEXT m elm) (eprev m elm) m
                else put_last head (eprev m elm) m)
      in put (eprev m1 elm) (TAILQ_NEXT m1 elm) m1)"

definition TAILQ_CONCAT :: "nat \<Rightarrow> nat \<Rightarrow> qmem \<Rightarrow> qmem" where
  "TAILQ_CONCAT head1 head2 m =
     (if \<not> TAILQ_EMPTY m head2 then
        (let m1 = put (hlast m head1) (TAILQ_FIRST m head2) m;
             m2 = relink (TAILQ_FIRST m1 head2) (hlast m1 head1) m1;
             m3 = put_last head1 (hlast m2 head2) m2
         in TAILQ_INIT head2 m3)
      else m)"

definition TAILQ_SWAP :: "nat \<Rightarrow> nat \<Rightarrow> qmem \<Rightarrow> qmem" where
  "TAILQ_SWAP head1 head2 m =
     (let swap_first = TAILQ_FIRST m head1;
          swap_last = hlast m head1;
          m1 = put (HeadFirst head1) (TAILQ_FIRST m head2) m;
          m2 = put_last head1 (hlast m1 head2) m1;
          m3 = put (HeadFirst head2) swap_first m2;
          m4 = put_last head2 swap_last m3;
          m5 = (case TAILQ_FIRST m4 head1 of
                  Some f \<Rightarrow> put_prev f (HeadFirst head1) m4
                | None \<Rightarrow> put_last head1 (HeadFirst head1) m4)
      in (case TAILQ_FIRST m5 head2 of
            Some f \<Rightarrow> put_prev f (HeadFirst head2) m5
          | None \<Rightarrow> put_last head2 (HeadFirst head2) m5))"

definition TAILQ_FOREACH ::
  "('s \<Rightarrow> qmem) \<Rightarrow> nat \<Rightarrow> (nat \<Rightarrow> 's \<Rightarrow> 'r + 's) \<Rightarrow> 's \<Rightarrow> ('r + 's) option" where
  "TAILQ_FOREACH mem head body s =
     for_each (\<lambda>s. TAILQ_NEXT (mem s)) body (TAILQ_FIRST (mem s) head) s"

definition TAILQ_FOREACH_SAFE ::
  "('s \<Rightarrow> qmem) \<Rightarrow> nat \<Rightarrow> (nat \<Rightarrow> 's \<Rightarrow> 'r + 's) \<Rightarrow> 's \<Rightarrow> ('r + 's) option" where
  "TAILQ_FOREACH_SAFE mem head body s =
     for_each_safe (\<lambda>s. TAILQ_NEXT (mem s)) body (TAILQ_FIRST (mem s) head) s"

definition TAILQ_FOREACH_REVERSE ::
  "('s \<Rightarrow> qmem) \<Rightarrow> nat \<Rightarrow> (nat \<Rightarrow> 's \<Rightarrow> 'r + 's) \<Rightarrow> 's \<Rightarrow> ('r + 's) option" where
  "TAILQ_FOREACH_REVERSE mem head body s =
     for_each (\<lambda>s. TAILQ_PREV (mem s)) body (TAILQ_LAST (mem s) head) s"

definition TAILQ_FOREACH_FROM ::
  "('s \<Rightarrow> qmem) \<Rightarrow> nat option \<Rightarrow> nat \<Rightarrow> (nat \<Rightarrow> 's \<Rightarrow> 'r + 's) \<Rightarrow> 's \<Rightarrow> ('r + 's) option" where
  "TAILQ_FOREACH_FROM mem var head body s =
     for_each (\<lambda>s. TAILQ_NEXT (mem s)) body 
       (case var of Some v \<Rightarrow> Some v | None \<Rightarrow> TAILQ_FIRST (mem s) head) s"

definition TAILQ_FOREACH_FROM_SAFE ::
  "('s \<Rightarrow> qmem) \<Rightarrow> nat option \<Rightarrow> nat \<Rightarrow> (nat \<Rightarrow> 's \<Rightarrow> 'r + 's) \<Rightarrow> 's \<Rightarrow> ('r + 's) option" where
  "TAILQ_FOREACH_FROM_SAFE mem var head body s =
     for_each_safe (\<lambda>s. TAILQ_NEXT (mem s)) body 
       (case var of Some v \<Rightarrow> Some v | None \<Rightarrow> TAILQ_FIRST (mem s) head) s"

definition TAILQ_FOREACH_REVERSE_FROM ::
  "('s \<Rightarrow> qmem) \<Rightarrow> nat option \<Rightarrow> nat \<Rightarrow> (nat \<Rightarrow> 's \<Rightarrow> 'r + 's) \<Rightarrow> 's \<Rightarrow> ('r + 's) option" where
  "TAILQ_FOREACH_REVERSE_FROM mem var head body s =
     for_each (\<lambda>s. TAILQ_PREV (mem s)) body 
       (case var of Some v \<Rightarrow> Some v | None \<Rightarrow> TAILQ_LAST (mem s) head) s"

definition TAILQ_FOREACH_REVERSE_SAFE ::
  "('s \<Rightarrow> qmem) \<Rightarrow> nat \<Rightarrow> (nat \<Rightarrow> 's \<Rightarrow> 'r + 's) \<Rightarrow> 's \<Rightarrow> ('r + 's) option" where
  "TAILQ_FOREACH_REVERSE_SAFE mem head body s =
     for_each_safe (\<lambda>s. TAILQ_PREV (mem s)) body (TAILQ_LAST (mem s) head) s"

definition TAILQ_FOREACH_REVERSE_FROM_SAFE ::
  "('s \<Rightarrow> qmem) \<Rightarrow> nat option \<Rightarrow> nat \<Rightarrow> (nat \<Rightarrow> 's \<Rightarrow> 'r + 's) \<Rightarrow> 's \<Rightarrow> ('r + 's) option" where
  "TAILQ_FOREACH_REVERSE_FROM_SAFE mem var head body s =
     for_each_safe (\<lambda>s. TAILQ_PREV (mem s)) body 
       (case var of Some v \<Rightarrow> Some v | None \<Rightarrow> TAILQ_LAST (mem s) head) s"

lemmas LIST_reads = LIST_EMPTY_def LIST_FIRST_def LIST_NEXT_def
lemmas TAILQ_reads = TAILQ_EMPTY_def TAILQ_FIRST_def TAILQ_NEXT_def

section \<open>LIST: effect on the represented sequence\<close>

lemma relink_simps [simp, queue_simps]:
  "relink None c m = m"
  "relink (Some e) c m = put_prev e c m"
  by (simp_all add: relink_def)

lemma blist_INIT: "blist (LIST_INIT h m) h []"
  by (simp add: LIST_INIT_def blist_def slist_def)

lemma blist_INSERT_HEAD: "blist m h xs \<Longrightarrow> x \<notin> set xs \<Longrightarrow> blist (LIST_INSERT_HEAD h x m) h (x # xs)"
  by (cases xs) (auto simp: LIST_INSERT_HEAD_def LIST_reads blist_def slist_def Let_def)

lemma blist_INSERT_AFTER:
  "blist m h (xs @ y # ys) \<Longrightarrow> x \<notin> set (xs @ y # ys) \<Longrightarrow>
   blist (LIST_INSERT_AFTER y x m) h (xs @ y # x # ys)"
  by (cases ys) (auto simp: LIST_INSERT_AFTER_def LIST_reads blist_def slist_def Let_def)

lemma blist_INSERT_BEFORE:
  "blist m h (xs @ y # ys) \<Longrightarrow> x \<notin> set (xs @ y # ys) \<Longrightarrow>
   blist (LIST_INSERT_BEFORE y x m) h (xs @ x # y # ys)"
  by (cases xs rule: rev_cases)
    (auto simp: LIST_INSERT_BEFORE_def LIST_reads blist_def slist_def Let_def)

lemma blist_REMOVE: "blist m h (xs @ x # ys) \<Longrightarrow> blist (LIST_REMOVE x m) h (xs @ ys)"
  by (cases xs rule: rev_cases; cases ys)
    (auto simp: LIST_REMOVE_def LIST_reads blist_def slist_def Let_def)

lemma blist_SWAP:
  "\<lbrakk>blist m h1 xs; blist m h2 ys; h1 \<noteq> h2; set xs \<inter> set ys = {}\<rbrakk> \<Longrightarrow>
   blist (LIST_SWAP h1 h2 m) h1 ys \<and> blist (LIST_SWAP h1 h2 m) h2 xs"
  by (cases xs; cases ys) (auto simp: LIST_SWAP_def LIST_reads blist_def slist_def Let_def)

lemma blist_CONCAT:
  assumes "blist m h1 xs" and "blist m h2 ys" and "h1 \<noteq> h2" and "set xs \<inter> set ys = {}"
  shows "\<exists>m'. LIST_CONCAT h1 h2 m = Some m' \<and> blist m' h1 (xs @ ys) \<and> blist m' h2 []"
proof (cases xs rule: rev_cases)
  case Nil
  then show ?thesis
    using assms by (cases ys) (auto simp: LIST_CONCAT_def LIST_reads LIST_INIT_def blist_def slist_def Let_def)
next
  case (snoc zs z)
  obtain w ws where w: "xs = w # ws" using snoc by (meson neq_Nil_conv snoc_eq_iff_butlast)
  note s1 = list_kinds_slist(2) [OF assms(1)]
  have "find_last (val m) w = Some z"
    using find_last_last [of "val m" "HeadFirst h1" w ws] s1 w snoc
    by (metis last_snoc slist_def)
  moreover have "val m (HeadFirst h1) = Some w" using slist_first [OF s1] w by simp
  ultimately show ?thesis
    using assms(1-4) unfolding snoc
    by (cases ys) (auto simp: LIST_CONCAT_def LIST_reads LIST_INIT_def blist_def slist_def Let_def)
qed

lemma blist_PREV:
  "blist m h (xs @ x # ys) \<Longrightarrow> LIST_PREV m x h = Inr (last_ptr xs)"
  by (cases xs rule: rev_cases) (auto simp: LIST_PREV_def blist_def)

lemma blist_checks:
  assumes "blist m h xs"
  shows "\<not> QMD_LIST_CHECK_HEAD m h"
    and "x \<in> set xs \<Longrightarrow> \<not> QMD_LIST_CHECK_NEXT m x"
    and "x \<in> set xs \<Longrightarrow> \<not> QMD_LIST_CHECK_PREV m x"
proof -
  show "\<not> QMD_LIST_CHECK_HEAD m h"
    using assms by (cases xs) (auto simp: QMD_LIST_CHECK_HEAD_def LIST_reads blist_def slist_def)
next
  assume "x \<in> set xs"
  then obtain us vs where x: "xs = us @ x # vs" by (meson split_list)
  show "\<not> QMD_LIST_CHECK_NEXT m x"
    using assms unfolding x
    by (cases vs) (auto simp: QMD_LIST_CHECK_NEXT_def LIST_reads blist_def slist_def)
next
  assume "x \<in> set xs"
  then obtain us vs where x: "xs = us @ x # vs" by (meson split_list)
  show "\<not> QMD_LIST_CHECK_PREV m x"
    using assms unfolding x by (auto simp: QMD_LIST_CHECK_PREV_def blist_def slist_def)
qed

section \<open>TAILQ: effect on the represented sequence\<close>

lemma tailq_INIT: "tailq (TAILQ_INIT h m) h []"
  by (simp add: TAILQ_INIT_def tailq_def slist_def Let_def)

lemma tailq_INSERT_HEAD: "tailq m h xs \<Longrightarrow> x \<notin> set xs \<Longrightarrow> tailq (TAILQ_INSERT_HEAD h x m) h (x # xs)"
  by (cases xs) (auto simp: TAILQ_INSERT_HEAD_def TAILQ_reads tailq_def slist_def Let_def)

lemma tailq_INSERT_TAIL:
  "tailq m h xs \<Longrightarrow> x \<notin> set xs \<Longrightarrow> tailq (TAILQ_INSERT_TAIL h x m) h (xs @ [x])"
  by (cases xs rule: rev_cases) (auto simp: TAILQ_INSERT_TAIL_def tailq_def slist_def Let_def)

lemma tailq_INSERT_AFTER:
  "tailq m h (xs @ y # ys) \<Longrightarrow> x \<notin> set (xs @ y # ys) \<Longrightarrow>
   tailq (TAILQ_INSERT_AFTER h y x m) h (xs @ y # x # ys)"
  by (cases ys) (auto simp: TAILQ_INSERT_AFTER_def TAILQ_reads tailq_def slist_def Let_def)

lemma tailq_INSERT_BEFORE:
  "tailq m h (xs @ y # ys) \<Longrightarrow> x \<notin> set (xs @ y # ys) \<Longrightarrow>
   tailq (TAILQ_INSERT_BEFORE y x m) h (xs @ x # y # ys)"
  by (cases xs rule: rev_cases)
    (auto simp: TAILQ_INSERT_BEFORE_def TAILQ_reads tailq_def slist_def Let_def)

lemma tailq_REMOVE: "tailq m h (xs @ x # ys) \<Longrightarrow> tailq (TAILQ_REMOVE h x m) h (xs @ ys)"
  by (cases xs rule: rev_cases; cases ys)
    (auto simp: TAILQ_REMOVE_def TAILQ_reads tailq_def slist_def Let_def)

lemma tailq_CONCAT:
  "\<lbrakk>tailq m h1 xs; tailq m h2 ys; h1 \<noteq> h2; set xs \<inter> set ys = {}\<rbrakk> \<Longrightarrow>
   tailq (TAILQ_CONCAT h1 h2 m) h1 (xs @ ys) \<and> tailq (TAILQ_CONCAT h1 h2 m) h2 []"
  by (cases xs rule: rev_cases; cases ys)
    (auto simp: TAILQ_CONCAT_def TAILQ_reads TAILQ_INIT_def tailq_def slist_def Let_def)

lemma tailq_SWAP:
  "\<lbrakk>tailq m h1 xs; tailq m h2 ys; h1 \<noteq> h2; set xs \<inter> set ys = {}\<rbrakk> \<Longrightarrow>
   tailq (TAILQ_SWAP h1 h2 m) h1 ys \<and> tailq (TAILQ_SWAP h1 h2 m) h2 xs"
  by (cases xs; cases ys) (auto simp: TAILQ_SWAP_def TAILQ_reads tailq_def slist_def Let_def)

lemma tailq_LAST: "tailq m h xs \<Longrightarrow> TAILQ_LAST m h = last_ptr xs"
  by (cases xs rule: rev_cases) (auto simp: TAILQ_LAST_def as_head_last_def tailq_def slist_def)

lemma tailq_LAST_FAST: "tailq m h xs \<Longrightarrow> TAILQ_LAST_FAST m h = Inr (last_ptr xs)"
  by (cases xs rule: rev_cases)
    (auto simp: TAILQ_LAST_FAST_def TAILQ_reads tailq_def slist_first)

text \<open>The type-punned access: the entry before an element is read as if it were a head.\<close>

lemma tailq_PREV:
  assumes "tailq m h (xs @ x # ys)"
  shows "TAILQ_PREV m x = last_ptr xs"
proof (cases xs rule: rev_cases)
  case Nil
  then show ?thesis
    using assms
    by (cases ys rule: rev_cases) (auto simp: TAILQ_PREV_def as_head_last_def tailq_def slist_def)
next
  case (snoc zs z)
  then show ?thesis using assms by (auto simp: TAILQ_PREV_def as_head_last_def tailq_def slist_def)
qed

lemma tailq_PREV_FAST: "tailq m h (xs @ x # ys) \<Longrightarrow> TAILQ_PREV_FAST m x h = Inr (last_ptr xs)"
  by (cases xs rule: rev_cases) (auto simp: TAILQ_PREV_FAST_def tailq_def)

lemma tailq_blist: "tailq m h xs \<Longrightarrow> blist m h xs"
  by (simp add: tailq_def blist_def)

text \<open>The checks of the two kinds agree, and the tail check reads the place after the last element.\<close>

lemma tailq_checks:
  assumes "tailq m h xs"
  shows "\<not> QMD_TAILQ_CHECK_HEAD m h" and "\<not> QMD_TAILQ_CHECK_TAIL m h"
    and "x \<in> set xs \<Longrightarrow> \<not> QMD_TAILQ_CHECK_NEXT m x"
    and "x \<in> set xs \<Longrightarrow> \<not> QMD_TAILQ_CHECK_PREV m x"
  using blist_checks [OF tailq_blist [OF assms]] assms
  by (simp_all add: QMD_TAILQ_CHECK_HEAD_def QMD_LIST_CHECK_HEAD_def QMD_TAILQ_CHECK_NEXT_def
      QMD_LIST_CHECK_NEXT_def QMD_TAILQ_CHECK_PREV_def QMD_LIST_CHECK_PREV_def
      QMD_TAILQ_CHECK_TAIL_def LIST_reads TAILQ_reads tailq_def slist_def)

text \<open>A tail queue depends on its own head and elements only.\<close>

lemma tailq_cong:
  assumes "tailq m h xs" and "val m' (HeadFirst h) = val m (HeadFirst h)"
    and "\<And>x. x \<in> set xs \<Longrightarrow> val m' (ElmNext x) = val m (ElmNext x)"
    and "\<And>x. x \<in> set xs \<Longrightarrow> eprev m' x = eprev m x" and "hlast m' h = hlast m h"
  shows "tailq m' h xs"
proof -
  have "val m' c = val m c" if "c \<in> insert (HeadFirst h) (ElmNext ` set xs)" for c
    using that assms(2,3) by auto
  moreover have "endcell (HeadFirst h) xs \<in> insert (HeadFirst h) (ElmNext ` set xs)"
    by (auto simp: endcell_eq)
  ultimately show ?thesis
    using assms(1,4,5) unfolding tailq_def slist_def
    by (auto intro: seg_cong [of "val m"] prevs_cong [of "eprev m"])
qed

lemma tailq_INSERT_TAIL_frame:
  assumes "tailq m h xs" and "tailq m k ys" and "h \<noteq> k" and "set xs \<inter> set ys = {}" and "x \<notin> set ys"
  shows "tailq (TAILQ_INSERT_TAIL h x m) k ys"
proof -
  have "y \<notin> set xs" if "y \<in> set ys" for y using that assms(4) by blast
  then show ?thesis
    using assms(1,3,5)
    by (intro tailq_cong [OF assms(2)]) (auto simp: TAILQ_INSERT_TAIL_def Let_def tailq_def)
qed

lemma tailq_REMOVE_frame:
  assumes "tailq m h (xs @ x # zs)" and "tailq m k ys" and "h \<noteq> k"
    and "set (xs @ x # zs) \<inter> set ys = {}"
  shows "tailq (TAILQ_REMOVE h x m) k ys"
proof -
  have p: "eprev m x = endcell (HeadFirst h) xs" using assms(1) by (simp add: tailq_def)
  have n: "TAILQ_NEXT m x = head_ptr zs"
    using slist_next [OF list_kinds_slist(3) [OF assms(1)]] by (simp add: TAILQ_NEXT_def)
  have "y \<notin> set (xs @ x # zs)" if "y \<in> set ys" for y using that assms(4) by blast
  then show ?thesis
    using assms(3) p n
    by (intro tailq_cong [OF assms(2)]; cases zs) (auto simp: TAILQ_REMOVE_def Let_def)
qed

section \<open>Reverse traversal\<close>

lemma tailq_reverse:
  assumes "tailq (mem s) h xs"
    and "\<And>x s s'. x \<in> set xs \<Longrightarrow> tailq (mem s) h xs \<Longrightarrow> body x s = Inr s' \<Longrightarrow> tailq (mem s') h xs"
  shows "TAILQ_FOREACH_REVERSE mem h body s = Some (fold_until body (rev xs) s)"
proof -
  have head_rev: "last_ptr us = head_ptr (rev us)" for us :: "nat list"
    by (cases us rule: rev_cases) auto
  have nx: "TAILQ_PREV (mem t) x = head_ptr vs" if "tailq (mem t) h (rev (us @ x # vs))" for t us x vs
    using tailq_PREV [of "mem t" h "rev vs" x "rev us"] that by (simp add: head_rev)
  have "for_each (\<lambda>s. TAILQ_PREV (mem s)) body (head_ptr (rev xs)) s
          = Some (fold_until body (rev xs) s)"
    by (rule for_each_fold_until [where R = "\<lambda>s ys. tailq (mem s) h (rev ys)" and xs = "[]"
          and zs = "rev xs"]) (use assms nx in auto)
  then show ?thesis
    using tailq_LAST [OF assms(1)] by (simp add: TAILQ_FOREACH_REVERSE_def head_rev)
qed

section \<open>The interfaces\<close>

interpretation bl: linked_list blist LIST_INIT LIST_FIRST LIST_NEXT LIST_INSERT_HEAD
  "\<lambda>h. LIST_INSERT_AFTER" "\<lambda>h x m. Some (Inr (LIST_REMOVE x m))"
proof unfold_locales
  fix m h xs assume "blist m h xs"
  then have "slist m h xs" by (rule list_kinds_slist)
  then show "distinct xs" and "LIST_FIRST m h = head_ptr xs"
    by (simp_all add: slist_distinct slist_first LIST_FIRST_def)
next
  fix m h xs x ys assume "blist m h (xs @ x # ys)"
  then have "slist m h (xs @ x # ys)" by (rule list_kinds_slist)
  then show "LIST_NEXT m x = head_ptr ys" by (simp add: LIST_NEXT_def slist_next)
qed (simp_all add: blist_INIT blist_INSERT_HEAD blist_INSERT_AFTER blist_REMOVE)

interpretation tq: tail_queue tailq TAILQ_INIT TAILQ_FIRST TAILQ_NEXT TAILQ_INSERT_HEAD
  TAILQ_INSERT_AFTER "\<lambda>h x m. Some (Inr (TAILQ_REMOVE h x m))" TAILQ_INSERT_TAIL
proof unfold_locales
  fix m h xs assume "tailq m h xs"
  then have "slist m h xs" by (rule list_kinds_slist)
  then show "distinct xs" and "TAILQ_FIRST m h = head_ptr xs"
    by (simp_all add: slist_distinct slist_first TAILQ_FIRST_def)
next
  fix m h xs x ys assume "tailq m h (xs @ x # ys)"
  then have "slist m h (xs @ x # ys)" by (rule list_kinds_slist)
  then show "TAILQ_NEXT m x = head_ptr ys" by (simp add: TAILQ_NEXT_def slist_next)
qed (simp_all add: tailq_INIT tailq_INSERT_HEAD tailq_INSERT_AFTER tailq_REMOVE tailq_INSERT_TAIL)

lemma TAILQ_FOREACH_fold:
  assumes "tailq (mem s) h xs"
    and "\<And>x s s'. x \<in> set xs \<Longrightarrow> tailq (mem s) h xs \<Longrightarrow> body x s = Inr s' \<Longrightarrow> tailq (mem s') h xs"
  shows "TAILQ_FOREACH mem h body s = Some (fold_until body xs s)"
  unfolding TAILQ_FOREACH_def using assms by (rule tq.traverse)

end
