(* ===== verification/Queue_Props.thy ===== *)
theory Queue_Props
  imports Queue_Single Queue_Double
begin

text \<open>
  The properties of \<open>src/lib/queue.h\<close>: the tail queue macros refine operations on finite sequences, with
  the traversals and the debug checks; removal from the single-linked kinds; concatenation and
  exchange of two lists of any kind.
\<close>

section \<open>The abstract queue\<close>

text \<open>
  A client's use of a tail queue: a list of operations. \<open>spec_op\<close> is what an operation does to the sequence,
  \<open>None\<close> where its precondition is not met (the element inserted is already there, the element named is
  not); \<open>tailq_op\<close> is the macro.
\<close>

datatype qop =
  Insert_head nat | Insert_tail nat | Insert_after nat nat | Insert_before nat nat | Remove_elm nat

fun put_after :: "nat \<Rightarrow> nat \<Rightarrow> nat list \<Rightarrow> nat list" where
  "put_after y x [] = []"
| "put_after y x (z # zs) = (if z = y then z # x # zs else z # put_after y x zs)"

fun put_before :: "nat \<Rightarrow> nat \<Rightarrow> nat list \<Rightarrow> nat list" where
  "put_before y x [] = []"
| "put_before y x (z # zs) = (if z = y then x # z # zs else z # put_before y x zs)"

fun spec_op :: "qop \<Rightarrow> nat list \<Rightarrow> nat list option" where
  "spec_op (Insert_head x) xs = (if x \<in> set xs then None else Some (x # xs))"
| "spec_op (Insert_tail x) xs = (if x \<in> set xs then None else Some (xs @ [x]))"
| "spec_op (Insert_after y x) xs = (if x \<in> set xs \<or> y \<notin> set xs then None else Some (put_after y x xs))"
| "spec_op (Insert_before y x) xs = (if x \<in> set xs \<or> y \<notin> set xs then None else Some (put_before y x xs))"
| "spec_op (Remove_elm x) xs = (if x \<notin> set xs then None else Some (remove1 x xs))"

fun tailq_op :: "nat \<Rightarrow> qop \<Rightarrow> qmem \<Rightarrow> qmem" where
  "tailq_op h (Insert_head x) m = TAILQ_INSERT_HEAD h x m"
| "tailq_op h (Insert_tail x) m = TAILQ_INSERT_TAIL h x m"
| "tailq_op h (Insert_after y x) m = TAILQ_INSERT_AFTER h y x m"
| "tailq_op h (Insert_before y x) m = TAILQ_INSERT_BEFORE y x m"
| "tailq_op h (Remove_elm x) m = TAILQ_REMOVE h x m"

primrec spec_run :: "qop list \<Rightarrow> nat list \<Rightarrow> nat list option" where
  "spec_run [] xs = Some xs"
| "spec_run (p # ps) xs = (case spec_op p xs of None \<Rightarrow> None | Some ys \<Rightarrow> spec_run ps ys)"

lemma put_split:
  assumes "y \<notin> set us"
  shows "put_after y x (us @ y # vs) = us @ y # x # vs" "put_before y x (us @ y # vs) = us @ x # y # vs"
  using assms by (induction us) auto

lemma tailq_op_step:
  assumes "tailq m h xs" and "spec_op p xs = Some ys"
  shows "tailq (tailq_op h p m) h ys"
proof -
  have here: "\<exists>us vs. xs = us @ y # vs \<and> y \<notin> set us" if "y \<in> set xs" for y
    using that by (meson split_list_first)
  show ?thesis
  proof (cases p)
    case (Insert_after y x)
    then obtain us vs where "xs = us @ y # vs" "y \<notin> set us" "x \<notin> set xs"
      using assms(2) here [of y] by (auto split: if_splits)
    then show ?thesis using assms tailq_INSERT_AFTER Insert_after by (auto simp: put_split split: if_splits)
  next
    case (Insert_before y x)
    then obtain us vs where "xs = us @ y # vs" "y \<notin> set us" "x \<notin> set xs"
      using assms(2) here [of y] by (auto split: if_splits)
    then show ?thesis using assms tailq_INSERT_BEFORE Insert_before by (auto simp: put_split split: if_splits)
  next
    case (Remove_elm x)
    then obtain us vs where "xs = us @ x # vs" "x \<notin> set us"
      using assms(2) here [of x] by (auto split: if_splits)
    then show ?thesis using assms tailq_REMOVE Remove_elm by (auto simp: remove1_append split: if_splits)
  qed (use assms tailq_INSERT_HEAD tailq_INSERT_TAIL in \<open>auto split: if_splits\<close>)
qed

lemma tailq_run:
  "tailq m h xs \<Longrightarrow> spec_run ps xs = Some ys \<Longrightarrow> tailq (fold (tailq_op h) ps m) h ys"
  by (induction ps arbitrary: m xs) (auto split: option.splits intro: tailq_op_step)

section \<open>Witness memories\<close>

definition qm0 :: qmem where
  "qm0 = \<lparr>val = (\<lambda>_. None), hlast = HeadFirst, eprev = (\<lambda>_. HeadFirst 0)\<rparr>"

lemma qm0_empty: "tailq qm0 h []" "stailq qm0 h []" "blist qm0 h []" "slist qm0 h []"
  by (simp_all add: qm0_def tailq_def stailq_def blist_def slist_def)

definition qm12 :: qmem where
  "qm12 = TAILQ_INSERT_TAIL 9 3 (TAILQ_INSERT_TAIL 0 2 (TAILQ_INSERT_TAIL 0 1 qm0))"

lemma qm12_lists: "tailq qm12 0 [1, 2]" "tailq qm12 9 [3]"
  by (simp_all add: qm12_def qm0_def TAILQ_INSERT_TAIL_def Let_def tailq_def slist_def)

lemma qm12_kinds: "blist qm12 0 [1, 2]" "blist qm12 9 [3]" "stailq qm12 0 [1, 2]" "stailq qm12 9 [3]"
    "slist qm12 0 [1, 2]" "slist qm12 9 [3]"
  using qm12_lists by (simp_all add: tailq_def blist_def stailq_def)

section \<open>Properties\<close>

text \<open>
  C11. The tail queue macros implement a finite sequence: after \<open>TAILQ_INIT\<close> and any operations that are
  legal on sequences, the memory represents exactly the sequence those operations compute; the reads
  at both ends (also the variants that read through the type-punned entry) and the emptiness test give
  its ends, and none of the debug checks of the macros fires.
\<close>

theorem tailq_refines_sequence:
  assumes "spec_run ps [] = Some xs"
  shows "let m' = fold (tailq_op h) ps (TAILQ_INIT h m) in
    tailq m' h xs \<and> TAILQ_FIRST m' h = head_ptr xs \<and> (TAILQ_EMPTY m' h \<longleftrightarrow> xs = []) \<and>
    TAILQ_LAST m' h = last_ptr xs \<and> TAILQ_LAST_FAST m' h = Inr (last_ptr xs) \<and>
    \<not> QMD_TAILQ_CHECK_HEAD m' h \<and> \<not> QMD_TAILQ_CHECK_TAIL m' h \<and>
    (\<forall>x\<in>set xs. \<not> QMD_TAILQ_CHECK_NEXT m' x \<and> \<not> QMD_TAILQ_CHECK_PREV m' x)"
proof -
  let ?m = "fold (tailq_op h) ps (TAILQ_INIT h m)"
  have q: "tailq ?m h xs" using tailq_run [OF tailq_INIT assms] .
  have "TAILQ_FIRST ?m h = head_ptr xs" by (rule tq.rep_first [OF q])
  then show ?thesis
    using q tailq_LAST [OF q] tailq_LAST_FAST [OF q] tailq_checks [OF q]
    by (auto simp: Let_def TAILQ_EMPTY_def TAILQ_FIRST_def)
qed

theorem tailq_refines_sequence_witness:
  "let m' = fold (tailq_op 0) [Insert_tail 5, Insert_head 4, Insert_after 4 6, Remove_elm 5] (TAILQ_INIT 0 qm0) in
    tailq m' 0 [4, 6] \<and> TAILQ_LAST m' 0 = Some 6"
  using tailq_refines_sequence [of "[Insert_tail 5, Insert_head 4, Insert_after 4 6, Remove_elm 5]" "[4, 6]" 0 qm0]
  by (simp add: Let_def last_ptr_def)

text \<open>
  C12. Traversal: with a body that keeps the links, \<open>TAILQ_FOREACH\<close> visits the elements in order and
  \<open>TAILQ_FOREACH_REVERSE\<close> in reverse order, once each, stopping where the body leaves the loop; both ways
  of reading a predecessor agree.
\<close>

theorem tailq_traversals:
  assumes "tailq (qm s) h xs"
    and "\<And>x s s'. x \<in> set xs \<Longrightarrow> tailq (qm s) h xs \<Longrightarrow> body x s = Inr s' \<Longrightarrow> tailq (qm s') h xs"
  shows "TAILQ_FOREACH qm h body s = Some (fold_until body xs s) \<and>
    TAILQ_FOREACH_REVERSE qm h body s = Some (fold_until body (rev xs) s) \<and>
    (\<forall>x\<in>set xs. TAILQ_PREV_FAST (qm s) x h = Inr (TAILQ_PREV (qm s) x))"
proof (intro conjI ballI)
  show "TAILQ_FOREACH qm h body s = Some (fold_until body xs s)" using assms by (rule TAILQ_FOREACH_fold)
  show "TAILQ_FOREACH_REVERSE qm h body s = Some (fold_until body (rev xs) s)" using assms by (rule tailq_reverse)
next
  fix x assume "x \<in> set xs"
  then obtain us vs where "xs = us @ x # vs" by (meson split_list)
  then show "TAILQ_PREV_FAST (qm s) x h = Inr (TAILQ_PREV (qm s) x)"
    using assms(1) tailq_PREV tailq_PREV_FAST by simp
qed

theorem tailq_traversals_witness:
  "TAILQ_FOREACH_REVERSE fst 0 (\<lambda>x (m, l). Inr (m, l @ [x])) (qm12, []) =
     Some (Inr (qm12, [2, 1]) :: unit + qmem \<times> nat list)"
proof -
  have "TAILQ_FOREACH_REVERSE fst 0 (\<lambda>x (m, l). Inr (m, l @ [x])) (qm12, [] :: nat list) =
      Some (fold_until (\<lambda>x (m, l). Inr (m, l @ [x])) (rev [1, 2]) (qm12, []) :: unit + qmem \<times> nat list)"
    by (intro tailq_traversals [THEN conjunct2, THEN conjunct1]) (use qm12_lists(1) in \<open>auto simp del: One_nat_def\<close>)
  then show ?thesis by simp
qed

text \<open>
  Removal by search from the single-linked kinds: on a well-formed list it always ends, and it succeeds
  exactly for members, leaving the list without that element; for anything else \<open>SLIST_REMOVE\<close> runs off the
  end and dereferences NULL.
\<close>

theorem slist_remove_iff_member:
  assumes "slist m h xs"
  shows "(x \<in> set xs \<longrightarrow> (\<exists>m'. SLIST_REMOVE h x m = Some (Inr m') \<and> slist m' h (remove1 x xs))) \<and>
    (x \<notin> set xs \<longrightarrow> SLIST_REMOVE h x m = Some (Inl NullDeref)) \<and>
    (stailq m h xs \<and> x \<in> set xs \<longrightarrow> (\<exists>m'. STAILQ_REMOVE h x m = Some (Inr m') \<and> stailq m' h (remove1 x xs)))"
proof -
  have "\<exists>us vs. xs = us @ x # vs \<and> remove1 x xs = us @ vs" if "x \<in> set xs"
    using that by (metis remove1_append remove1.simps(2) split_list_first)
  then show ?thesis
    using slist_REMOVE [of m h _ x] stailq_REMOVE [of m h _ x] slist_REMOVE_missing [OF assms, of x] assms by fastforce
qed

theorem slist_remove_iff_member_witness:
  "(\<exists>m'. SLIST_REMOVE 0 2 qm12 = Some (Inr m') \<and> slist m' 0 [1]) \<and> SLIST_REMOVE 0 7 qm12 = Some (Inl NullDeref)"
  using slist_remove_iff_member [OF qm12_kinds(5), of 2] slist_remove_iff_member [OF qm12_kinds(5), of 7] by simp

text \<open>
  Joining and exchanging two disjoint lists works for all four kinds: \<open>CONCAT\<close> ends (also where it
  searches the last element), appends the second list to the first and empties the second; \<open>SWAP\<close>
  exchanges their contents.
\<close>

theorem concat_swap_all_kinds:
  assumes "h1 \<noteq> h2" and "set xs \<inter> set ys = {}"
  shows "(slist m h1 xs \<and> slist m h2 ys \<longrightarrow>
      (\<exists>m'. SLIST_CONCAT h1 h2 m = Some m' \<and> slist m' h1 (xs @ ys) \<and> slist m' h2 []) \<and>
      slist (SLIST_SWAP h1 h2 m) h1 ys \<and> slist (SLIST_SWAP h1 h2 m) h2 xs) \<and>
    (stailq m h1 xs \<and> stailq m h2 ys \<longrightarrow>
      stailq (STAILQ_CONCAT h1 h2 m) h1 (xs @ ys) \<and> stailq (STAILQ_CONCAT h1 h2 m) h2 [] \<and>
      stailq (STAILQ_SWAP h1 h2 m) h1 ys \<and> stailq (STAILQ_SWAP h1 h2 m) h2 xs) \<and>
    (blist m h1 xs \<and> blist m h2 ys \<longrightarrow>
      (\<exists>m'. LIST_CONCAT h1 h2 m = Some m' \<and> blist m' h1 (xs @ ys) \<and> blist m' h2 []) \<and>
      blist (LIST_SWAP h1 h2 m) h1 ys \<and> blist (LIST_SWAP h1 h2 m) h2 xs) \<and>
    (tailq m h1 xs \<and> tailq m h2 ys \<longrightarrow>
      tailq (TAILQ_CONCAT h1 h2 m) h1 (xs @ ys) \<and> tailq (TAILQ_CONCAT h1 h2 m) h2 [] \<and>
      tailq (TAILQ_SWAP h1 h2 m) h1 ys \<and> tailq (TAILQ_SWAP h1 h2 m) h2 xs)"
  using assms slist_CONCAT [of m h1 xs h2 ys] slist_SWAP [of m h1 xs h2 ys] stailq_CONCAT [of m h1 xs h2 ys]
    stailq_SWAP [of m h1 xs h2 ys] blist_CONCAT [of m h1 xs h2 ys] blist_SWAP [of m h1 xs h2 ys]
    tailq_CONCAT [of m h1 xs h2 ys] tailq_SWAP [of m h1 xs h2 ys]
  by blast

theorem concat_swap_all_kinds_witness:
  "tailq (TAILQ_CONCAT 0 9 qm12) 0 [1, 2, 3] \<and> blist (LIST_SWAP 0 9 qm12) 9 [1, 2] \<and>
   stailq (STAILQ_SWAP 0 9 qm12) 0 [3] \<and> (\<exists>m'. SLIST_CONCAT 0 9 qm12 = Some m' \<and> slist m' 0 [1, 2, 3])"
  using concat_swap_all_kinds [of 0 9 "[1, 2]" "[3]" qm12] qm12_lists qm12_kinds by auto

end
