(* ===== verification/Kmod_Base.thy ===== *)
theory Kmod_Base
  imports Queue_Double
begin

text \<open>
  The state of the kernel module (\<open>src/kmod\<close>), the kernel functions it calls, and its small
  building blocks: constructor tables (\<open>ctor.c\<close>), allocation accounting (\<open>debug.c\<close>), reference
  counts (\<open>refcount.h\<close>) and the reader/writer lock with a recorded mode (\<open>rwlock.h\<close>). The
  configuration is the one the Makefile builds: \<open>FILTER_PROFILE\<close> and \<open>DEBUG\<close> defined, a kernel of
  version 5.7 or later with kprobes.

  The kernel is not part of the repository: \<open>'w\<close> is the state of everything outside the module and
  the record \<open>kapi\<close> has one field per kernel function or constant the module uses. Log output
  (\<open>pr_info\<close> and its relatives) has no effect on the state and is left out.
\<close>

text \<open>\<open>struct ftrace_ops\<close>, as far as the module fills it in.\<close>

datatype ftrace_func = NoFunc | FilterThunk

record ftrace_ops =
  ops_func :: ftrace_func
  ops_flags :: "64 word"

text \<open>\<open>struct filter\<close>. Pointers are addresses with 0 for NULL.\<close>

record filter =
  flt_fname :: string
  flt_filter :: "64 word"
  flt_real :: "64 word"
  flt_watchdog :: "32 word"
  flt_flags :: "32 word"
  flt_address :: "64 word"
  flt_ops :: ftrace_ops
  flt_error :: int
  flt_count :: "32 word"
  flt_time :: "64 word"
  flt_maxtime :: "64 word"
  flt_time_real :: "64 word"
  flt_maxtime_real :: "64 word"

text \<open>\<open>struct fs_ent\<close>; the file operations are named by the entry they belong to.\<close>

record fs_ent =
  ent_name :: string
  ent_fops :: string
  ent_dentry :: "64 word"

text \<open>The module's global variables together with the world outside it.\<close>

record 'w kmod =
  world :: 'w
  switch_on :: int
  lasttime :: "64 word"
  flts :: qmem
  filters :: "nat \<Rightarrow> filter"
  kallsyms_lookup_name :: "64 word"
  fsents :: qmem
  ents :: "nat \<Rightarrow> fs_ent"
  dirent :: "64 word"
  alloc_count :: "32 word"

text \<open>
  The kernel. An \<open>ftrace_ops\<close> is passed by the identity of the filter that contains it and by its
  contents. \<open>register_kprobe\<close> returns the error code and the address it stored in the probe;
  \<open>call_kallsyms\<close> is a call through the address of \<open>kallsyms_lookup_name\<close>.
\<close>

record 'w kapi =
  ktime_get :: "'w \<Rightarrow> 64 word \<times> 'w"
  ktime_to_ms :: "64 word \<Rightarrow> 64 word"
  ktime_to_ns :: "64 word \<Rightarrow> 64 word"
  register_kprobe :: "string \<Rightarrow> 'w \<Rightarrow> (int \<times> 64 word) \<times> 'w"
  unregister_kprobe :: "string \<Rightarrow> 'w \<Rightarrow> 'w"
  call_kallsyms :: "64 word \<Rightarrow> string \<Rightarrow> 'w \<Rightarrow> 64 word \<times> 'w"
  ftrace_set_filter_ip :: "nat \<Rightarrow> ftrace_ops \<Rightarrow> 64 word \<Rightarrow> bool \<Rightarrow> bool \<Rightarrow> 'w \<Rightarrow> int \<times> 'w"
  register_ftrace_function :: "nat \<Rightarrow> ftrace_ops \<Rightarrow> 'w \<Rightarrow> int \<times> 'w"
  unregister_ftrace_function :: "nat \<Rightarrow> ftrace_ops \<Rightarrow> 'w \<Rightarrow> int \<times> 'w"
  within_module :: "64 word \<Rightarrow> 'w \<Rightarrow> bool"
  misc_register :: "'w \<Rightarrow> int \<times> 'w"
  misc_deregister :: "'w \<Rightarrow> 'w"
  securityfs_create_dir :: "string \<Rightarrow> 'w \<Rightarrow> 64 word \<times> 'w"
  securityfs_create_file :: "string \<Rightarrow> nat \<Rightarrow> 64 word \<Rightarrow> 64 word \<Rightarrow> string \<Rightarrow> 'w \<Rightarrow> 64 word \<times> 'w"
  securityfs_remove :: "64 word \<Rightarrow> 'w \<Rightarrow> 'w"
  is_err_or_null :: "64 word \<Rightarrow> bool"
  ptr_err :: "64 word \<Rightarrow> int"
  kmalloc :: "64 word \<Rightarrow> 32 word \<Rightarrow> 'w \<Rightarrow> 64 word \<times> 'w"
  kzalloc :: "64 word \<Rightarrow> 32 word \<Rightarrow> 'w \<Rightarrow> 64 word \<times> 'w"
  kfree :: "64 word \<Rightarrow> 'w \<Rightarrow> 'w"
  MCOUNT_INSN_SIZE :: "64 word"
  FTRACE_OPS_FL_SAVE_REGS :: "64 word"
  FTRACE_OPS_FL_IPMODIFY :: "64 word"

text \<open>A call of a kernel function that acts on the world only.\<close>

definition call_world :: "('w \<Rightarrow> 'a \<times> 'w) \<Rightarrow> 'w kmod \<Rightarrow> 'a \<times> 'w kmod" where
  "call_world f s = (let (r, w) = f (world s) in (r, s\<lparr>world := w\<rparr>))"

section \<open>Constructor tables\<close>

text \<open>
  \<open>ctor_init\<close> and \<open>dtor_exit\<close> walk the pointer table from \<open>start\<close> to \<open>end\<close> and call the entries that
  are not NULL.
\<close>

function ctor_walk :: "('s \<Rightarrow> 's) option list \<Rightarrow> nat \<Rightarrow> 's \<Rightarrow> 's" where
  "ctor_walk table start s =
     (if start < length table then
        ctor_walk table (start + 1) (case table ! start of None \<Rightarrow> s | Some f \<Rightarrow> f s)
      else s)"
  by auto
termination by (relation "measure (\<lambda>(table, start, _). length table - start)") auto

definition ctor_init :: "('s \<Rightarrow> 's) option list \<Rightarrow> 's \<Rightarrow> 's" where
  "ctor_init ctor_table s = ctor_walk ctor_table 0 s"

definition dtor_exit :: "('s \<Rightarrow> 's) option list \<Rightarrow> 's \<Rightarrow> 's" where
  "dtor_exit dtor_table s = ctor_walk dtor_table 0 s"

section \<open>Allocation accounting\<close>

definition os_kmalloc :: "'w kapi \<Rightarrow> 64 word \<Rightarrow> 32 word \<Rightarrow> 'w kmod \<Rightarrow> 64 word \<times> 'w kmod" where
  "os_kmalloc k sz fl s =
     (let (ret, s1) = call_world (kmalloc k sz fl) s
      in (ret, if ret \<noteq> 0 then s1\<lparr>alloc_count := alloc_count s1 + 1\<rparr> else s1))"

definition os_kzalloc :: "'w kapi \<Rightarrow> 64 word \<Rightarrow> 32 word \<Rightarrow> 'w kmod \<Rightarrow> 64 word \<times> 'w kmod" where
  "os_kzalloc k sz fl s =
     (let (ret, s1) = call_world (kzalloc k sz fl) s
      in (ret, if ret \<noteq> 0 then s1\<lparr>alloc_count := alloc_count s1 + 1\<rparr> else s1))"

definition os_kfree :: "'w kapi \<Rightarrow> 64 word \<Rightarrow> 'w kmod \<Rightarrow> 'w kmod" where
  "os_kfree k p s =
     (let s1 = (if p \<noteq> 0 then s\<lparr>alloc_count := alloc_count s - 1\<rparr> else s)
      in s1\<lparr>world := kfree k p (world s1)\<rparr>)"

text \<open>\<open>BUG_ON\<close> stops the kernel: \<open>None\<close>.\<close>

definition kmem_alloc_sanity :: "'w kmod \<Rightarrow> 'w kmod option" where
  "kmem_alloc_sanity s = (if alloc_count s \<noteq> 0 then None else Some s)"

text \<open>The counter agrees with the blocks in use, modulo its width.\<close>

definition accounted :: "('w \<Rightarrow> 64 word set) \<Rightarrow> 'w kmod \<Rightarrow> bool" where
  "accounted live s \<longleftrightarrow> alloc_count s = of_nat (card (live (world s)))"

section \<open>Reference counts\<close>

text \<open>
  A count is an \<open>atomic_t\<close>, a signed 32 bit integer. The first component of a result is the value of
  the \<open>KASSERT\<close> condition, whose failure is only logged. \<open>UINT_MAX\<close> is unsigned, so the comparison
  in \<open>refcount_acquire\<close> converts the count to unsigned.
\<close>

definition refcount_init :: "64 word \<Rightarrow> 32 word" where
  "refcount_init value = ucast value"

definition refcount_acquire :: "32 word \<Rightarrow> bool \<times> 32 word" where
  "refcount_acquire count = (count < (- 1 :: 32 word), count + 1)"

definition refcount_release :: "32 word \<Rightarrow> bool \<times> 32 word \<times> bool" where
  "refcount_release count = (let n = count - 1 in (sint n \<ge> 0, n, n = 0))"

section \<open>The reader/writer lock\<close>

datatype lock_state = LS_free | LS_read | LS_write

record 'l rw_lock =
  rwl_lock :: 'l
  rwl_state :: lock_state

record 'l rwapi =
  rwlock_init :: "'l \<Rightarrow> 'l"
  read_lock :: "'l \<Rightarrow> 'l"
  write_lock :: "'l \<Rightarrow> 'l"
  read_unlock :: "'l \<Rightarrow> 'l"
  write_unlock :: "'l \<Rightarrow> 'l"

definition k_rwlock_init :: "'l rwapi \<Rightarrow> 'l rw_lock \<Rightarrow> int \<times> 'l rw_lock" where
  "k_rwlock_init a l =
     (let l1 = l\<lparr>rwl_state := LS_free\<rparr> in (0, l1\<lparr>rwl_lock := rwlock_init a (rwl_lock l1)\<rparr>))"

definition k_rwlock_deinit :: "'l rw_lock \<Rightarrow> 'l rw_lock" where
  "k_rwlock_deinit l = l"

definition k_rwlock_lock_read :: "'l rwapi \<Rightarrow> 'l rw_lock \<Rightarrow> 'l rw_lock" where
  "k_rwlock_lock_read a l =
     (let l1 = l\<lparr>rwl_lock := read_lock a (rwl_lock l)\<rparr> in l1\<lparr>rwl_state := LS_read\<rparr>)"

definition k_rwlock_lock_write :: "'l rwapi \<Rightarrow> 'l rw_lock \<Rightarrow> 'l rw_lock" where
  "k_rwlock_lock_write a l =
     (let l1 = l\<lparr>rwl_lock := write_lock a (rwl_lock l)\<rparr> in l1\<lparr>rwl_state := LS_write\<rparr>)"

definition k_rwlock_unlock :: "'l rwapi \<Rightarrow> 'l rw_lock \<Rightarrow> 'l rw_lock" where
  "k_rwlock_unlock a l =
     (let st = rwl_state l
      in if st = LS_read then l\<lparr>rwl_lock := read_unlock a (rwl_lock l)\<rparr>
         else if st = LS_write then
           (let l1 = l\<lparr>rwl_state := LS_free\<rparr> in l1\<lparr>rwl_lock := write_unlock a (rwl_lock l1)\<rparr>)
         else l)"

section \<open>Lemmas\<close>

lemma call_world_simps [simp, kmod_simps]:
  "fst (call_world f s) = fst (f (world s))"
  "snd (call_world f s) = s\<lparr>world := snd (f (world s))\<rparr>"
  by (simp_all add: call_world_def split: prod.splits)

declare ctor_walk.simps [simp del]

lemma ctor_walk_fold:
  "ctor_walk table start s = fold (\<lambda>f. f) (List.map_filter (\<lambda>f. f) (drop start table)) s"
proof (induction table start s rule: ctor_walk.induct)
  case (1 table start s)
  show ?case
  proof (cases "start < length table")
    case True
    then have "drop start table = table ! start # drop (start + 1) table"
      by (simp add: Cons_nth_drop_Suc)
    with True 1 show ?thesis
      by (subst ctor_walk.simps) (simp add: List.map_filter_simps split: option.splits)
  next
    case False
    then show ?thesis by (subst ctor_walk.simps) (simp add: List.map_filter_simps)
  qed
qed

text \<open>
  The constructor table runs every constructor that is not NULL exactly once, in table order.
\<close>

lemma ctor_init_runs_all:
  "ctor_init table s = fold (\<lambda>f. f) (map the (List.filter (\<lambda>f. f \<noteq> None) table)) s"
proof -
  have "List.map_filter (\<lambda>f. f) table = map the (List.filter (\<lambda>f. f \<noteq> None) table)"
    by (induction table) (auto simp: List.map_filter_simps split: option.splits)
  then show ?thesis by (simp add: ctor_init_def ctor_walk_fold)
qed

text \<open>
  What an allocator promises: a non-NULL result of \<open>kmalloc\<close> or \<open>kzalloc\<close> is a new live block, and
  \<open>kfree\<close> releases a live block and ignores NULL. \<open>live\<close> is the set of blocks in use by the module.
\<close>

locale kernel_alloc =
  fixes k :: "'w kapi" and live :: "'w \<Rightarrow> 64 word set"
  assumes live_finite: "finite (live w)"
    and live_nonnull: "0 \<notin> live w"
    and kmalloc_null: "kmalloc k n g w = (0, w') \<Longrightarrow> live w' = live w"
    and kmalloc_live: "kmalloc k n g w = (p, w') \<Longrightarrow> p \<noteq> 0 \<Longrightarrow> p \<notin> live w \<and> live w' = insert p (live w)"
    and kzalloc_null: "kzalloc k n g w = (0, w') \<Longrightarrow> live w' = live w"
    and kzalloc_live: "kzalloc k n g w = (p, w') \<Longrightarrow> p \<noteq> 0 \<Longrightarrow> p \<notin> live w \<and> live w' = insert p (live w)"
    and kfree_null: "live (kfree k 0 w) = live w"
    and kfree_live: "p \<in> live w \<Longrightarrow> live (kfree k p w) = live w - {p}"
begin

lemma accounted_kmalloc:
  assumes "accounted live s" shows "accounted live (snd (os_kmalloc k n g s))"
proof -
  obtain p w' where c: "kmalloc k n g (world s) = (p, w')" by (cases "kmalloc k n g (world s)")
  show ?thesis
    using assms kmalloc_null [of n g "world s" w'] kmalloc_live [OF c] c live_finite [of "world s"]
    by (cases "p = 0") (auto simp: accounted_def os_kmalloc_def call_world_def)
qed

lemma accounted_kzalloc:
  assumes "accounted live s" shows "accounted live (snd (os_kzalloc k n g s))"
proof -
  obtain p w' where c: "kzalloc k n g (world s) = (p, w')" by (cases "kzalloc k n g (world s)")
  show ?thesis
    using assms kzalloc_null [of n g "world s" w'] kzalloc_live [OF c] c live_finite [of "world s"]
    by (cases "p = 0") (auto simp: accounted_def os_kzalloc_def call_world_def)
qed

lemma accounted_kfree:
  assumes "accounted live s" and "p \<in> insert 0 (live (world s))"
  shows "accounted live (os_kfree k p s)"
proof (cases "p = 0")
  case True
  then show ?thesis using assms by (simp add: accounted_def os_kfree_def kfree_null)
next
  case False
  then have "p \<in> live (world s)" using assms by simp
  moreover from this have "0 < card (live (world s))"
    using live_finite card_gt_0_iff by blast
  ultimately show ?thesis
    using assms False live_finite [of "world s"]
    by (simp add: accounted_def os_kfree_def kfree_live card_Diff_singleton of_nat_diff)
qed

text \<open>The final check stops the kernel exactly when blocks are left (unless their number is a multiple of two to the 32).\<close>

lemma sanity_iff_no_leak:
  assumes "accounted live s" and "card (live (world s)) < 2 ^ 32"
  shows "kmem_alloc_sanity s = (if live (world s) = {} then Some s else None)"
proof -
  have "of_nat (card (live (world s))) = (0 :: 32 word) \<longleftrightarrow> card (live (world s)) = 0"
    using assms(2) by (auto simp: word_of_nat_eq_0_iff dest!: dvd_imp_le)
  then show ?thesis
    using assms(1) live_finite [of "world s"] by (simp add: accounted_def kmem_alloc_sanity_def)
qed

end

end
