(* ===== verification/Kmod_Filter.thy ===== *)
theory Kmod_Filter
  imports Kmod_Base
begin

text \<open>
  The filter core of the kernel module, \<open>src/kmod/filter.c\<close>: the switch and the time-out that turn
  all filters off, the registration queue, symbol lookup through a kprobe, the ftrace hook of one
  filter with its roll-back, hooking and unhooking of all filters, and the wait for calls in
  flight before the module goes away.

  Returning values: C functions that change state return the value and the new state. Loops over
  the queue return \<open>None\<close> when the queue is so damaged that the loop does not end; the wait loop
  returns \<open>None\<close> when it waits forever.
\<close>

definition FILTER_TIMEOUT_MS :: int where
  "FILTER_TIMEOUT_MS = 30 * 1000"

text \<open>The queue head \<open>flts\<close> is head number 0 of its memory.\<close>

definition flts_head :: nat where
  "flts_head = 0"

definition upd_filter :: "nat \<Rightarrow> (filter \<Rightarrow> filter) \<Rightarrow> 'w kmod \<Rightarrow> 'w kmod" where
  "upd_filter flt f s = s\<lparr>filters := (filters s)(flt := f (filters s flt))\<rparr>"

definition filter_set_status :: "int \<Rightarrow> 'w kmod \<Rightarrow> int \<times> 'w kmod" where
  "filter_set_status enable s =
     (switch_on s, s\<lparr>switch_on := (if enable \<noteq> 0 then 1 else 0)\<rparr>)"

definition filter_lasttime_update :: "'w kapi \<Rightarrow> 'w kmod \<Rightarrow> 'w kmod" where
  "filter_lasttime_update k s =
     (let (t, s1) = call_world (ktime_get k) s in s1\<lparr>lasttime := ktime_to_ms k t\<rparr>)"

definition filter_timeout :: "'w kapi \<Rightarrow> 'w kmod \<Rightarrow> bool \<times> 'w kmod" where
  "filter_timeout k s =
     (if lasttime s = 0 then (False, s)
      else (let (t, s1) = call_world (ktime_get k) s
            in (sint (ktime_to_ms k t - lasttime s1) > FILTER_TIMEOUT_MS, s1)))"

definition filter_disabled :: "'w kapi \<Rightarrow> 'w kmod \<Rightarrow> bool \<times> 'w kmod" where
  "filter_disabled k s = (if switch_on s = 0 then (True, s) else filter_timeout k s)"

definition filter_register :: "nat \<Rightarrow> 'w kmod \<Rightarrow> 'w kmod" where
  "filter_register flt s = s\<lparr>flts := TAILQ_INSERT_TAIL flts_head flt (flts s)\<rparr>"

text \<open>One line of the profile file; the fields are the arguments of the \<open>seq_printf\<close> call.\<close>

datatype profile_line =
    ProfileTitle
  | ProfileColumns
  | ProfileRow string "32 word" "64 word" "64 word" "64 word"
  | ProfileError string int

definition profile_row :: "filter \<Rightarrow> profile_line" where
  "profile_row flt =
     (if flt_error flt \<ge> 0 then
        (let n = flt_count flt;
             total = flt_time flt;
             real = flt_time_real flt
         in ProfileRow (flt_fname flt) n (total - real)
              (if n \<noteq> 0 then (total - real) div (scast n) else 0) real)
      else ProfileError (flt_fname flt) (flt_error flt))"

definition profile_show :: "'w kmod \<Rightarrow> (int \<times> profile_line list) option" where
  "profile_show s =
     (case TAILQ_FOREACH (\<lambda>_. flts s) flts_head
            (\<lambda>flt out. Inr (out @ [profile_row (filters s flt)]) :: profile_line list + _)
            [ProfileTitle, ProfileColumns] of
        None \<Rightarrow> None
      | Some (Inl out) \<Rightarrow> Some (0, out)
      | Some (Inr out) \<Rightarrow> Some (0, out))"

definition handler_pre :: int where
  "handler_pre = 0"

definition sym_lookup_by_kprobe :: "'w kapi \<Rightarrow> string \<Rightarrow> 'w kmod \<Rightarrow> 64 word \<times> 'w kmod" where
  "sym_lookup_by_kprobe k name s =
     (let ((err, addr), s1) = call_world (register_kprobe k name) s
      in if err \<noteq> 0 then (0, s1)
         else (addr, s1\<lparr>world := unregister_kprobe k name (world s1)\<rparr>))"

definition sym_lookup :: "'w kapi \<Rightarrow> string \<Rightarrow> 'w kmod \<Rightarrow> 64 word \<times> 'w kmod" where
  "sym_lookup k name s =
     (let s1 = (if kallsyms_lookup_name s = 0 then
                  (let (p, t) = sym_lookup_by_kprobe k ''kallsyms_lookup_name'' s
                   in t\<lparr>kallsyms_lookup_name := p\<rparr>)
                else s)
      in if kallsyms_lookup_name s1 = 0 then (0, s1)
         else call_world (call_kallsyms k (kallsyms_lookup_name s1) name) s1)"

text \<open>
  The ftrace callback: the instruction pointer the traced function continues at. Calls made by the
  module itself are not redirected.
\<close>

definition filter_ftrace_thunk :: "'w kapi \<Rightarrow> nat \<Rightarrow> 64 word \<Rightarrow> 64 word \<Rightarrow> 'w kmod \<Rightarrow> 64 word" where
  "filter_ftrace_thunk k flt parent_ip regs_ip s =
     (if \<not> within_module k parent_ip (world s) then flt_filter (filters s flt) else regs_ip)"

definition filter_set_ftrace :: "'w kapi \<Rightarrow> nat \<Rightarrow> 'w kmod \<Rightarrow> int \<times> 'w kmod" where
  "filter_set_ftrace k flt s =
     (let (addr, s1) = sym_lookup k (flt_fname (filters s flt)) s
      in if addr = 0 then (- ENOENT, s1)
         else
           (let s2 = upd_filter flt (\<lambda>f. f\<lparr>flt_address := addr, flt_real := addr + MCOUNT_INSN_SIZE k,
                       flt_ops := \<lparr>ops_func = FilterThunk,
                                    ops_flags = or (FTRACE_OPS_FL_SAVE_REGS k)
                                                   (FTRACE_OPS_FL_IPMODIFY k)\<rparr>\<rparr>) s1;
                fops = flt_ops (filters s2 flt);
                (err, s3) = call_world (ftrace_set_filter_ip k flt fops addr False False) s2
            in if err \<noteq> 0 then (err, s3)
               else
                 (let (err, s4) = call_world (register_ftrace_function k flt fops) s3
                  in if err \<noteq> 0 then
                       (let (_, s5) = call_world (ftrace_set_filter_ip k flt fops addr True False) s4
                        in (err, s5))
                     else (0, s4))))"

definition filter_remove_ftrace :: "'w kapi \<Rightarrow> nat \<Rightarrow> 'w kmod \<Rightarrow> int \<times> 'w kmod" where
  "filter_remove_ftrace k flt s =
     (let fops = flt_ops (filters s flt);
          (err, s1) = call_world (unregister_ftrace_function k flt fops) s
      in if err \<noteq> 0 then (err, s1)
         else
           (let (err, s2) = call_world (ftrace_set_filter_ip k flt fops
                              (flt_address (filters s1 flt)) True False) s1
            in if err \<noteq> 0 then (err, s2) else (0, s2)))"

text \<open>The loop bodies work on the module state and the local counter.\<close>

definition hook_body :: "'w kapi \<Rightarrow> nat \<Rightarrow> 'w kmod \<times> int \<Rightarrow> (int \<times> 'w kmod) + ('w kmod \<times> int)" where
  "hook_body k flt = (\<lambda>(s, n).
     let (err, s1) = filter_set_ftrace k flt s;
         s2 = upd_filter flt (\<lambda>f. f\<lparr>flt_error := err\<rparr>) s1
     in Inr (s2, if flt_error (filters s2 flt) = 0 then n + 1 else n))"

definition filter_hook :: "'w kapi \<Rightarrow> 'w kmod \<Rightarrow> (int \<times> 'w kmod) option" where
  "filter_hook k s =
     (case TAILQ_FOREACH (\<lambda>st. flts (fst st)) flts_head (hook_body k) (s, 0) of
        None \<Rightarrow> None
      | Some (Inl r) \<Rightarrow> Some r
      | Some (Inr (s', n)) \<Rightarrow> Some (n, s'))"

definition filter_restore_sanity :: "'w kmod \<Rightarrow> (32 word) option" where
  "filter_restore_sanity s =
     (case TAILQ_FOREACH (\<lambda>_. flts s) flts_head
            (\<lambda>flt inuse. Inr (inuse + flt_watchdog (filters s flt)) :: 32 word + _) 0 of
        None \<Rightarrow> None
      | Some (Inl inuse) \<Rightarrow> Some inuse
      | Some (Inr inuse) \<Rightarrow> Some inuse)"

text \<open>
  Sleeping lets other CPUs run, so it may change the whole state: \<open>msleep\<close> is an argument.
\<close>

partial_function (option) sanity_wait ::
  "(nat \<Rightarrow> 'w kmod \<Rightarrow> 'w kmod) \<Rightarrow> 32 word \<Rightarrow> 'w kmod \<Rightarrow> (32 word \<times> 'w kmod) option" where
  "sanity_wait msleep elapse s =
     (case filter_restore_sanity s of
        None \<Rightarrow> None
      | Some inuse \<Rightarrow>
          if inuse \<noteq> 0 then sanity_wait msleep (elapse + 10) (msleep 10 s) else Some (elapse, s))"

declare sanity_wait.simps [code]

definition filter_sanity :: "(nat \<Rightarrow> 'w kmod \<Rightarrow> 'w kmod) \<Rightarrow> 'w kmod \<Rightarrow> (int \<times> 'w kmod) option" where
  "filter_sanity msleep s =
     (case sanity_wait msleep 0 s of
        None \<Rightarrow> None
      | Some (elapse, s1) \<Rightarrow> Some (0, msleep 10 s1))"

definition unhook_body :: "'w kapi \<Rightarrow> nat \<Rightarrow> 'w kmod \<times> int \<Rightarrow> (int \<times> 'w kmod) + ('w kmod \<times> int)" where
  "unhook_body k flt = (\<lambda>(s, n).
     if flt_real (filters s flt) = 0 \<or> flt_error (filters s flt) < 0 then Inr (s, n)
     else (let (err, s1) = filter_remove_ftrace k flt s in Inr (s1, n + 1)))"

definition filter_unhook ::
  "'w kapi \<Rightarrow> (nat \<Rightarrow> 'w kmod \<Rightarrow> 'w kmod) \<Rightarrow> 'w kmod \<Rightarrow> (int \<times> 'w kmod) option" where
  "filter_unhook k msleep s =
     (case TAILQ_FOREACH (\<lambda>st. flts (fst st)) flts_head (unhook_body k) (s, 0) of
        None \<Rightarrow> None
      | Some (Inl r) \<Rightarrow> Some r
      | Some (Inr (s', n)) \<Rightarrow> filter_sanity msleep s')"

text \<open>The module state is well formed when its filter queue is a tail queue of the given filters.\<close>

definition queued :: "'w kmod \<Rightarrow> nat list \<Rightarrow> bool" where
  "queued s fs \<longleftrightarrow> tailq (flts s) flts_head fs"

section \<open>State updates\<close>

lemma upd_filter_simps [simp, kmod_simps]:
  "filters (upd_filter flt f s) = (filters s)(flt := f (filters s flt))"
  "world (upd_filter flt f s) = world s"
  "flts (upd_filter flt f s) = flts s"
  "lasttime (upd_filter flt f s) = lasttime s"
  "switch_on (upd_filter flt f s) = switch_on s"
  "kallsyms_lookup_name (upd_filter flt f s) = kallsyms_lookup_name s"
  by (simp_all add: upd_filter_def)

text \<open>The lookup touches the world and the cached address only.\<close>

lemma sym_lookup_frame [simp]:
  assumes "sym_lookup k name s = (a, s')"
  shows "flts s' = flts s" "filters s' = filters s" "fsents s' = fsents s" "ents s' = ents s"
    "dirent s' = dirent s" "alloc_count s' = alloc_count s"
  using assms
  by (auto simp: sym_lookup_def sym_lookup_by_kprobe_def call_world_def Let_def
      split: prod.splits if_splits)

text \<open>
  The other variables of the module that hooking and unhooking leave alone.
\<close>

definition same_rest :: "'w kmod \<Rightarrow> 'w kmod \<Rightarrow> bool" where
  "same_rest s s' \<longleftrightarrow> flts s' = flts s \<and> fsents s' = fsents s \<and> ents s' = ents s \<and>
     dirent s' = dirent s \<and> alloc_count s' = alloc_count s"

lemma same_rest_refl [simp]: "same_rest s s"
  by (simp add: same_rest_def)

lemma same_rest_trans: "same_rest s t \<Longrightarrow> same_rest t u \<Longrightarrow> same_rest s u"
  by (simp add: same_rest_def)

lemma same_rest_queued: "same_rest s s' \<Longrightarrow> queued s' fs \<longleftrightarrow> queued s fs"
  by (simp add: same_rest_def queued_def)

lemma set_ftrace_same_rest: "same_rest s (snd (filter_set_ftrace k flt s))"
  by (auto simp: same_rest_def filter_set_ftrace_def call_world_def Let_def upd_filter_def
      split: prod.splits)

lemma remove_ftrace_same_rest: "same_rest s (snd (filter_remove_ftrace k flt s))"
  by (auto simp: same_rest_def filter_remove_ftrace_def call_world_def Let_def split: prod.splits)

section \<open>The ftrace contract\<close>

text \<open>
  What the kernel promises about ftrace: \<open>registered w\<close> are the operations that are active, \<open>ips w i\<close>
  the addresses the operations of filter \<open>i\<close> apply to. A call that returns 0 has its documented
  effect, a call that fails returns a negative code and changes nothing; reading the clock and
  looking up symbols change nothing either. A kernel text address is not so close to the top of
  the address space that skipping the call instruction would wrap to 0.
\<close>

locale kernel_ftrace =
  fixes k :: "'w kapi" and registered :: "'w \<Rightarrow> nat set" and ips :: "'w \<Rightarrow> nat \<Rightarrow> 64 word set"
  assumes kprobe_frame:
      "registered (snd (register_kprobe k name w)) = registered w \<and> ips (snd (register_kprobe k name w)) = ips w"
    and kprobe_remove_frame:
      "registered (unregister_kprobe k name w) = registered w \<and> ips (unregister_kprobe k name w) = ips w"
    and lookup_frame:
      "registered (snd (call_kallsyms k p name w)) = registered w \<and> ips (snd (call_kallsyms k p name w)) = ips w"
    and lookup_addr: "call_kallsyms k p name w = (a, w') \<Longrightarrow> a \<noteq> 0 \<Longrightarrow> a + MCOUNT_INSN_SIZE k \<noteq> 0"
    and set_ip_ok:
      "ftrace_set_filter_ip k i fo a False False w = (0, w') \<Longrightarrow>
       registered w' = registered w \<and> ips w' = (ips w)(i := insert a (ips w i))"
    and remove_ip_ok:
      "ftrace_set_filter_ip k i fo a True False w = (0, w') \<Longrightarrow>
       registered w' = registered w \<and> ips w' = (ips w)(i := ips w i - {a})"
    and set_ip_fail:
      "ftrace_set_filter_ip k i fo a rem False w = (e, w') \<Longrightarrow> e \<noteq> 0 \<Longrightarrow>
       e < 0 \<and> registered w' = registered w \<and> ips w' = ips w"
    and register_ok:
      "register_ftrace_function k i fo w = (0, w') \<Longrightarrow>
       registered w' = insert i (registered w) \<and> ips w' = ips w"
    and register_fail:
      "register_ftrace_function k i fo w = (e, w') \<Longrightarrow> e \<noteq> 0 \<Longrightarrow>
       e < 0 \<and> registered w' = registered w \<and> ips w' = ips w"
    and unregister_ok:
      "unregister_ftrace_function k i fo w = (0, w') \<Longrightarrow>
       registered w' = registered w - {i} \<and> ips w' = ips w"
    and unregister_fail:
      "unregister_ftrace_function k i fo w = (e, w') \<Longrightarrow> e \<noteq> 0 \<Longrightarrow>
       e < 0 \<and> registered w' = registered w \<and> ips w' = ips w"

text \<open>A kernel on which undoing what was done does not fail.\<close>

locale kernel_ftrace_total = kernel_ftrace +
  assumes remove_ip_succeeds: "a \<in> ips w i \<Longrightarrow> fst (ftrace_set_filter_ip k i fo a True False w) = 0"
    and unregister_succeeds: "i \<in> registered w \<Longrightarrow> fst (unregister_ftrace_function k i fo w) = 0"

text \<open>
  The part of the state that belongs to one filter, and the two states a filter can be in after
  hooking: active on exactly its address, or failed with nothing left behind.
\<close>

definition fview :: "('w \<Rightarrow> nat set) \<Rightarrow> ('w \<Rightarrow> nat \<Rightarrow> 64 word set) \<Rightarrow> 'w kmod \<Rightarrow> nat \<Rightarrow>
    filter \<times> bool \<times> 64 word set" where
  "fview registered ips s i = (filters s i, i \<in> registered (world s), ips (world s) i)"

definition idle :: "filter \<times> bool \<times> 64 word set \<Rightarrow> bool" where
  "idle = (\<lambda>(f, r, a). \<not> r \<and> a = {})"

definition settled :: "filter \<times> bool \<times> 64 word set \<Rightarrow> bool" where
  "settled = (\<lambda>(f, r, a).
     if flt_error f = 0 then r \<and> a = {flt_address f} \<and> flt_real f \<noteq> 0
     else flt_error f < 0 \<and> \<not> r \<and> a = {})"

definition hook1 :: "'w kapi \<Rightarrow> nat \<Rightarrow> 'w kmod \<Rightarrow> 'w kmod" where
  "hook1 k flt s =
     (let (err, s1) = filter_set_ftrace k flt s in upd_filter flt (\<lambda>f. f\<lparr>flt_error := err\<rparr>) s1)"

definition unhook1 :: "'w kapi \<Rightarrow> nat \<Rightarrow> 'w kmod \<Rightarrow> 'w kmod" where
  "unhook1 k flt s =
     (if flt_real (filters s flt) = 0 \<or> flt_error (filters s flt) < 0 then s
      else snd (filter_remove_ftrace k flt s))"

lemma hook1_same_rest: "same_rest s (hook1 k flt s)"
  using set_ftrace_same_rest [of s k flt]
  by (auto simp: hook1_def same_rest_def upd_filter_def split: prod.splits)

lemma unhook1_same_rest: "same_rest s (unhook1 k flt s)"
  by (simp add: unhook1_def remove_ftrace_same_rest)

lemma hook_body_eq:
  "hook_body k flt (s, n) =
     Inr (hook1 k flt s, if flt_error (filters (hook1 k flt s) flt) = 0 then n + 1 else n)"
  by (simp add: hook_body_def hook1_def Let_def split: prod.splits)

lemma unhook_body_eq: "\<exists>m. unhook_body k flt (s, n) = Inr (unhook1 k flt s, m)"
  by (auto simp: unhook_body_def unhook1_def split: prod.splits)

text \<open>On a well-formed queue both loops run through the queued filters in order.\<close>

lemma filter_hook_fold_until:
  assumes "queued s fs"
  shows "TAILQ_FOREACH (\<lambda>st. flts (fst st)) flts_head (hook_body k) (s, n)
           = Some (fold_until (hook_body k) fs (s, n))"
proof (rule TAILQ_FOREACH_fold)
  fix x st st' assume "tailq (flts (fst st)) flts_head fs" "hook_body k x st = Inr st'"
  then show "tailq (flts (fst st')) flts_head fs"
    using hook1_same_rest [of "fst st" k x] by (cases st) (auto simp: hook_body_eq same_rest_def)
qed (use assms in \<open>simp add: queued_def\<close>)

lemma filter_unhook_fold_until:
  assumes "queued s fs"
  shows "TAILQ_FOREACH (\<lambda>st. flts (fst st)) flts_head (unhook_body k) (s, n)
           = Some (fold_until (unhook_body k) fs (s, n))"
proof (rule TAILQ_FOREACH_fold)
  fix x st st' assume *: "tailq (flts (fst st)) flts_head fs" "unhook_body k x st = Inr st'"
  obtain t m where st: "st = (t, m)" by (cases st)
  obtain m' where "unhook_body k x (t, m) = Inr (unhook1 k x t, m')" using unhook_body_eq by blast
  then show "tailq (flts (fst st')) flts_head fs"
    using * st unhook1_same_rest [of t k x] by (auto simp: same_rest_def)
qed (use assms in \<open>simp add: queued_def\<close>)

lemma filter_hook_step:
  "fold_until (hook_body k) fs (s, n) = Inr (s', n') \<Longrightarrow> s' = fold (hook1 k) fs s"
  by (induction fs arbitrary: s n) (auto simp: hook_body_eq split: if_splits)

lemma filter_unhook_step:
  "\<exists>m. fold_until (unhook_body k) fs (s, n) = Inr (fold (unhook1 k) fs s, m)"
proof (induction fs arbitrary: s n)
  case Nil
  then show ?case by simp
next
  case (Cons f fs)
  obtain m where "unhook_body k f (s, n) = Inr (unhook1 k f s, m)" using unhook_body_eq by blast
  then show ?case using Cons.IH [of "unhook1 k f s" m] by simp
qed

lemma hook1_filters: "j \<noteq> i \<Longrightarrow> filters (hook1 k i s) j = filters s j"
  by (auto simp: hook1_def filter_set_ftrace_def call_world_def Let_def
      split: prod.splits if_splits)

lemma unhook1_filters: "filters (unhook1 k i s) = filters s"
  by (auto simp: unhook1_def filter_remove_ftrace_def call_world_def Let_def
      split: prod.splits if_splits)

lemma fold_hook1_filters: "j \<notin> set fs \<Longrightarrow> filters (fold (hook1 k) fs s) j = filters s j"
  by (rule fold_keeps [where h = "\<lambda>s. filters s j"]) (metis hook1_filters)

lemma filter_hook_eq:
  assumes "distinct fs"
  shows "fold_until (hook_body k) fs (s, n) =
    Inr (fold (hook1 k) fs s,
         n + int (length (List.filter (\<lambda>i. flt_error (filters (fold (hook1 k) fs s) i) = 0) fs)))"
  using assms
proof (induction fs arbitrary: s n)
  case Nil
  then show ?case by simp
next
  case (Cons f fs)
  then show ?case
    using fold_hook1_filters [of f fs k "hook1 k f s"] by (simp add: hook_body_eq)
qed

lemma filter_hook_result:
  assumes "queued s fs"
  shows "filter_hook k s =
    Some (int (length (List.filter (\<lambda>i. flt_error (filters (fold (hook1 k) fs s) i) = 0) fs)),
          fold (hook1 k) fs s)"
proof -
  have "distinct fs" using assms tq.rep_distinct by (auto simp: queued_def)
  then show ?thesis
    by (simp add: filter_hook_def filter_hook_fold_until [OF assms] filter_hook_eq)
qed

lemma filter_unhook_result:
  assumes "queued s fs"
  shows "filter_unhook k msleep s = filter_sanity msleep (fold (unhook1 k) fs s)"
  using filter_unhook_step [of k fs s 0]
  by (auto simp: filter_unhook_def filter_unhook_fold_until [OF assms])

lemma fold_same_rest:
  "(\<And>x s. same_rest s (f x s)) \<Longrightarrow> same_rest s (fold f fs s)"
  by (induction fs arbitrary: s) (auto intro: same_rest_trans)

end
