(* ===== verification/Ref_Kernel.thy ===== *)
theory Ref_Kernel
  imports Kmod_Filter
begin

text \<open>
  A reference kernel: a concrete, executable instance of the kernel interface of
  \<open>Kmod_Base\<close> that behaves as documented and can be told to fail. It has a clock, a
  symbol table, the set of active ftrace operations with their address filters, a misc device, the
  dentries of securityfs and a heap. It shows that the contracts assumed of the kernel can hold
  and gives the concrete inputs on which theorems are exercised.
\<close>

record kworld =
  w_now :: "64 word"
  w_syms :: "(string \<times> 64 word) list"
  w_registered :: "nat set"
  w_ips :: "nat \<Rightarrow> 64 word set"
  w_set_fail :: "nat \<Rightarrow> nat"
  w_reg_fail :: "nat \<Rightarrow> nat"
  w_misc :: bool
  w_misc_fail :: nat
  w_dentries :: "64 word set"
  w_next_dentry :: "64 word"
  w_bad_names :: "string list"
  w_live :: "64 word set"
  w_brk :: "64 word"

definition ref_lookup :: "string \<Rightarrow> kworld \<Rightarrow> 64 word" where
  "ref_lookup name w =
     (case map_of (w_syms w) name of None \<Rightarrow> 0 | Some a \<Rightarrow> if a + 5 = 0 then 0 else a)"

definition ref_set_ip :: "nat \<Rightarrow> ftrace_ops \<Rightarrow> 64 word \<Rightarrow> bool \<Rightarrow> bool \<Rightarrow> kworld \<Rightarrow> int \<times> kworld" where
  "ref_set_ip i fo a rem res w =
     (if rem then
        (if a \<in> w_ips w i then (0, w\<lparr>w_ips := (w_ips w)(i := w_ips w i - {a})\<rparr>) else (- EINVAL, w))
      else if w_set_fail w i \<noteq> 0 then (- int (w_set_fail w i), w)
      else (0, w\<lparr>w_ips := (w_ips w)(i := insert a (w_ips w i))\<rparr>))"

definition ref_register :: "nat \<Rightarrow> ftrace_ops \<Rightarrow> kworld \<Rightarrow> int \<times> kworld" where
  "ref_register i fo w =
     (if i \<in> w_registered w then (- EBUSY, w)
      else if w_reg_fail w i \<noteq> 0 then (- int (w_reg_fail w i), w)
      else (0, w\<lparr>w_registered := insert i (w_registered w)\<rparr>))"

definition ref_unregister :: "nat \<Rightarrow> ftrace_ops \<Rightarrow> kworld \<Rightarrow> int \<times> kworld" where
  "ref_unregister i fo w =
     (if i \<in> w_registered w then (0, w\<lparr>w_registered := w_registered w - {i}\<rparr>) else (- EBUSY, w))"

text \<open>Error pointers are the last 4095 addresses.\<close>

definition ref_is_err_or_null :: "64 word \<Rightarrow> bool" where
  "ref_is_err_or_null p \<longleftrightarrow> p = 0 \<or> p \<ge> - 4095"

definition ref_new_dentry :: "string \<Rightarrow> kworld \<Rightarrow> 64 word \<times> kworld" where
  "ref_new_dentry name w =
     (if name \<in> set (w_bad_names w) \<or> ref_is_err_or_null (w_next_dentry w)
         \<or> w_next_dentry w \<in> w_dentries w
      then (- 12, w)
      else (w_next_dentry w,
            w\<lparr>w_dentries := insert (w_next_dentry w) (w_dentries w),
              w_next_dentry := w_next_dentry w + 8\<rparr>))"

definition ref_alloc :: "64 word \<Rightarrow> 32 word \<Rightarrow> kworld \<Rightarrow> 64 word \<times> kworld" where
  "ref_alloc n g w =
     (if w_brk w = 0 \<or> w_brk w \<in> w_live w then (0, w)
      else (w_brk w, w\<lparr>w_live := insert (w_brk w) (w_live w), w_brk := w_brk w + n + 16\<rparr>))"

text \<open>The clock advances by one microsecond per reading and saturates below two to the 63.\<close>

definition ref_clock :: "kworld \<Rightarrow> 64 word" where
  "ref_clock w = min (w_now w) 0x7FFFFFFFFFFFFFFF"

definition ref_ktime_get :: "kworld \<Rightarrow> 64 word \<times> kworld" where
  "ref_ktime_get w =
     (ref_clock w, if w_now w < 0x4000000000000000 then w\<lparr>w_now := w_now w + 1000\<rparr> else w)"

definition ref_kernel :: "kworld kapi" where
  "ref_kernel =
     \<lparr>ktime_get = ref_ktime_get,
      ktime_to_ms = (\<lambda>t. t div 1000000),
      ktime_to_ns = (\<lambda>t. t),
      register_kprobe = (\<lambda>name w.
        if ref_lookup name w = 0 then ((- ENOENT, 0), w) else ((0, ref_lookup name w), w)),
      unregister_kprobe = (\<lambda>name w. w),
      call_kallsyms = (\<lambda>p name w. (ref_lookup name w, w)),
      ftrace_set_filter_ip = ref_set_ip,
      register_ftrace_function = ref_register,
      unregister_ftrace_function = ref_unregister,
      within_module = (\<lambda>a w. False),
      misc_register = (\<lambda>w. if w_misc w then (- EBUSY, w)
         else if w_misc_fail w \<noteq> 0 then (- int (w_misc_fail w), w) else (0, w\<lparr>w_misc := True\<rparr>)),
      misc_deregister = (\<lambda>w. w\<lparr>w_misc := False\<rparr>),
      securityfs_create_dir = ref_new_dentry,
      securityfs_create_file = (\<lambda>name mode parent data fo. ref_new_dentry name),
      securityfs_remove = (\<lambda>d w. w\<lparr>w_dentries := w_dentries w - {d}\<rparr>),
      is_err_or_null = ref_is_err_or_null,
      ptr_err = (\<lambda>p. sint p),
      kmalloc = ref_alloc,
      kzalloc = ref_alloc,
      kfree = (\<lambda>p w. w\<lparr>w_live := w_live w - {p}\<rparr>),
      MCOUNT_INSN_SIZE = 5,
      FTRACE_OPS_FL_SAVE_REGS = 4,
      FTRACE_OPS_FL_IPMODIFY = 8192\<rparr>"

text \<open>A world with two kernel functions to hook besides the lookup function itself.\<close>

definition world0 :: kworld where
  "world0 =
     \<lparr>w_now = 5000000,
      w_syms = [(''kallsyms_lookup_name'', 4096), (''wake_up_new_task'', 8192), (''ptrace_attach'', 12288)],
      w_registered = {}, w_ips = (\<lambda>_. {}), w_set_fail = (\<lambda>_. 0), w_reg_fail = (\<lambda>_. 0),
      w_misc = False, w_misc_fail = 0, w_dentries = {}, w_next_dentry = 64, w_bad_names = [],
      w_live = {}, w_brk = 4096\<rparr>"

definition filter0 :: "string \<Rightarrow> 64 word \<Rightarrow> filter" where
  "filter0 name fn =
     \<lparr>flt_fname = name, flt_filter = fn, flt_real = 0, flt_watchdog = 0, flt_flags = 0,
      flt_address = 0, flt_ops = \<lparr>ops_func = NoFunc, ops_flags = 0\<rparr>, flt_error = 0, flt_count = 0,
      flt_time = 0, flt_maxtime = 0, flt_time_real = 0, flt_maxtime_real = 0\<rparr>"

text \<open>The module's static data as the loader leaves it: empty queues, everything else zero.\<close>

definition qmem0 :: qmem where
  "qmem0 = \<lparr>val = (\<lambda>_. None), hlast = HeadFirst, eprev = ElmNext\<rparr>"

definition kmod0 :: "(nat \<Rightarrow> filter) \<Rightarrow> (nat \<Rightarrow> fs_ent) \<Rightarrow> 'w \<Rightarrow> 'w kmod" where
  "kmod0 fs es w =
     \<lparr>world = w, switch_on = 1, lasttime = 0, flts = qmem0, filters = fs, kallsyms_lookup_name = 0,
      fsents = qmem0, ents = es, dirent = 0, alloc_count = 0\<rparr>"

section \<open>The reference kernel keeps the contracts\<close>

lemmas ref_defs = ref_set_ip_def ref_register_def ref_unregister_def

lemma ref_kernel_simps [simp, kmod_simps]:
  "ftrace_set_filter_ip ref_kernel = ref_set_ip"
  "register_ftrace_function ref_kernel = ref_register"
  "unregister_ftrace_function ref_kernel = ref_unregister"
  "register_kprobe ref_kernel name w =
     (if ref_lookup name w = 0 then ((- ENOENT, 0), w) else ((0, ref_lookup name w), w))"
  "unregister_kprobe ref_kernel name w = w"
  "call_kallsyms ref_kernel p name w = (ref_lookup name w, w)"
  "ktime_get ref_kernel = ref_ktime_get"
  "ktime_to_ms ref_kernel t = t div 1000000"
  "ktime_to_ns ref_kernel t = t"
  "within_module ref_kernel a w = False"
  "kmalloc ref_kernel = ref_alloc"
  "kzalloc ref_kernel = ref_alloc"
  "kfree ref_kernel p w = w\<lparr>w_live := w_live w - {p}\<rparr>"
  "MCOUNT_INSN_SIZE ref_kernel = 5"
  "misc_register ref_kernel w = (if w_misc w then (- EBUSY, w)
     else if w_misc_fail w \<noteq> 0 then (- int (w_misc_fail w), w) else (0, w\<lparr>w_misc := True\<rparr>))"
  "misc_deregister ref_kernel w = w\<lparr>w_misc := False\<rparr>"
  "securityfs_create_dir ref_kernel = ref_new_dentry"
  "securityfs_create_file ref_kernel name mode parent data fo = ref_new_dentry name"
  "securityfs_remove ref_kernel d w = w\<lparr>w_dentries := w_dentries w - {d}\<rparr>"
  "is_err_or_null ref_kernel = ref_is_err_or_null"
  "ptr_err ref_kernel p = sint p"
  by (simp_all add: ref_kernel_def)

interpretation rk: kernel_ftrace_total ref_kernel w_registered w_ips
  by unfold_locales
    (auto simp: ref_defs ref_lookup_def split: if_splits option.splits)

interpretation rka: kernel_alloc ref_kernel "\<lambda>w. w_live w - {0}"
  by unfold_locales (auto simp: ref_alloc_def split: if_splits)

lemma tailq_qmem0 [simp]: "tailq qmem0 h []"
  by (simp add: qmem0_def tailq_def slist_def)

lemma kmod0_queued: "queued (kmod0 fs es w) []"
  by (simp add: queued_def kmod0_def)

text \<open>Registering filters one after the other queues them in that order.\<close>

lemma filter_register_queued:
  assumes "queued s fs" and "distinct (fs @ gs)"
  shows "queued (fold filter_register gs s) (fs @ gs)"
proof -
  have "flts (fold filter_register gs s) = fold (TAILQ_INSERT_TAIL flts_head) gs (flts s)"
    by (induction gs arbitrary: s) (simp_all add: filter_register_def)
  then show ?thesis
    using tq.insert_tail_all [of "flts s" flts_head fs gs] assms by (simp add: queued_def)
qed

lemma filter_register_rest [simp]:
  "world (filter_register f s) = world s" "filters (filter_register f s) = filters s"
  "fsents (filter_register f s) = fsents s" "ents (filter_register f s) = ents s"
  "lasttime (filter_register f s) = lasttime s" "switch_on (filter_register f s) = switch_on s"
  "kallsyms_lookup_name (filter_register f s) = kallsyms_lookup_name s"
  "dirent (filter_register f s) = dirent s" "alloc_count (filter_register f s) = alloc_count s"
  by (simp_all add: filter_register_def)

end
