(* ===== verification/Filter_Hook.thy ===== *)
theory Filter_Hook
  imports Ref_Kernel
begin

text \<open>
  Correctness of hooking, unhooking and draining in \<open>src/kmod/filter.c\<close> on a kernel that
  keeps the ftrace contract: every queued filter ends up active on exactly its address or failed
  with nothing left behind, the returned number counts the active ones, unhooking undoes hooking,
  and the final wait returns exactly when the calls in flight drain.
\<close>

context kernel_ftrace
begin

lemma sym_lookup_world:
  assumes "sym_lookup k name s = (a, s')"
  shows "registered (world s') = registered (world s)" and "ips (world s') = ips (world s)"
    and "a \<noteq> 0 \<Longrightarrow> a + MCOUNT_INSN_SIZE k \<noteq> 0"
proof -
  have probe: "registered (world t) = registered (world s) \<and> ips (world t) = ips (world s)"
    if "sym_lookup_by_kprobe k n s = (b, t)" for n b t
    using that kprobe_frame [of n "world s"]
      kprobe_remove_frame [of n "snd (register_kprobe k n (world s))"]
    by (auto simp: sym_lookup_by_kprobe_def call_world_def Let_def split: prod.splits if_splits)
  show "registered (world s') = registered (world s)" "ips (world s') = ips (world s)"
    using assms probe lookup_frame
    by (auto simp: sym_lookup_def call_world_def Let_def split: prod.splits if_splits)
      (metis probe lookup_frame snd_conv)+
  show "a + MCOUNT_INSN_SIZE k \<noteq> 0" if "a \<noteq> 0"
    using assms that lookup_addr
    by (auto simp: sym_lookup_def call_world_def Let_def split: prod.splits if_splits)
qed

text \<open>No ftrace call for one filter affects another one, whether it succeeds or not.\<close>

lemma set_ip_frame:
  assumes "ftrace_set_filter_ip k i fo a rem False w = (e, w')"
  shows "registered w' = registered w" and "j \<noteq> i \<Longrightarrow> ips w' j = ips w j"
  using assms set_ip_fail [OF assms] set_ip_ok remove_ip_ok by (cases rem; cases "e = 0"; fastforce)+

lemma register_frame:
  assumes "register_ftrace_function k i fo w = (e, w')"
  shows "ips w' = ips w" and "j \<noteq> i \<Longrightarrow> j \<in> registered w' \<longleftrightarrow> j \<in> registered w"
  using assms register_fail [OF assms] register_ok by (cases "e = 0"; auto)+

lemma unregister_frame:
  assumes "unregister_ftrace_function k i fo w = (e, w')"
  shows "ips w' = ips w" and "j \<noteq> i \<Longrightarrow> j \<in> registered w' \<longleftrightarrow> j \<in> registered w"
  using assms unregister_fail [OF assms] unregister_ok by (cases "e = 0"; auto)+

lemma hook1_other:
  assumes "j \<noteq> i"
  shows "fview registered ips (hook1 k i s) j = fview registered ips s j"
  using assms hook1_filters [OF assms, of k s]
  by (auto simp: fview_def hook1_def filter_set_ftrace_def call_world_def Let_def sym_lookup_world
      set_ip_frame register_frame split: prod.splits if_splits)

lemma unhook1_other:
  assumes "j \<noteq> i"
  shows "fview registered ips (unhook1 k i s) j = fview registered ips s j"
  using assms unhook1_filters [of k i s]
  by (auto simp: fview_def unhook1_def filter_remove_ftrace_def call_world_def Let_def
      set_ip_frame unregister_frame split: prod.splits if_splits)

end

context kernel_ftrace_total
begin

lemma hook1_settles:
  assumes "idle (fview registered ips s i)"
  shows "settled (fview registered ips (hook1 k i s) i)"
proof -
  obtain a s1 where a: "sym_lookup k (flt_fname (filters s i)) s = (a, s1)" by fastforce
  note w1 = sym_lookup_world [OF a]
  show ?thesis
  proof (cases "a = 0")
    case True
    then show ?thesis
      using assms a w1 by (simp add: hook1_def filter_set_ftrace_def settled_def fview_def idle_def)
  next
    case False
    define fo where "fo = \<lparr>ops_func = FilterThunk,
      ops_flags = or (FTRACE_OPS_FL_SAVE_REGS k) (FTRACE_OPS_FL_IPMODIFY k)\<rparr>"
    obtain e2 w2 where set: "ftrace_set_filter_ip k i fo a False False (world s1) = (e2, w2)" by fastforce
    obtain e3 w3 where reg: "register_ftrace_function k i fo w2 = (e3, w3)" by fastforce
    obtain e4 w4 where rem: "ftrace_set_filter_ip k i fo a True False w3 = (e4, w4)" by fastforce
    note eqs = assms a w1 False set reg rem
    show ?thesis
    proof (cases "e2 = 0")
      case False
      then show ?thesis
        using eqs set_ip_fail [OF set]
        by (simp add: hook1_def filter_set_ftrace_def settled_def fview_def idle_def call_world_def
            fo_def)
    next
      case set_ok: True
      note s2 = set_ip_ok [OF set [unfolded set_ok]]
      show ?thesis
      proof (cases "e3 = 0")
        case True
        then show ?thesis
          using eqs set_ok s2 register_ok [of i fo w2 w3]
          by (simp add: hook1_def filter_set_ftrace_def settled_def fview_def idle_def
              call_world_def fo_def)
      next
        case False
        note s3 = register_fail [OF reg False]
        have "a \<in> ips w3 i" using s2 s3 by simp
        then have "e4 = 0" using remove_ip_succeeds [of a w3 i fo] rem by simp
        then show ?thesis
          using eqs set_ok False s2 s3 remove_ip_ok [of i fo a w3 w4]
          by (simp add: hook1_def filter_set_ftrace_def settled_def fview_def idle_def
              call_world_def fo_def)
      qed
    qed
  qed
qed

lemma unhook1_idles:
  assumes "settled (fview registered ips s i)"
  shows "idle (fview registered ips (unhook1 k i s) i)"
proof (cases "flt_error (filters s i) = 0")
  case False
  then show ?thesis using assms by (simp add: unhook1_def settled_def fview_def idle_def)
next
  case True
  define fo where "fo = flt_ops (filters s i)"
  define a where "a = flt_address (filters s i)"
  obtain e1 w1 where un: "unregister_ftrace_function k i fo (world s) = (e1, w1)" by fastforce
  obtain e2 w2 where rem: "ftrace_set_filter_ip k i fo a True False w1 = (e2, w2)" by fastforce
  have r: "i \<in> registered (world s)" "ips (world s) i = {a}" "flt_real (filters s i) \<noteq> 0"
    using assms True by (simp_all add: settled_def fview_def a_def)
  then have z1: "e1 = 0" using unregister_succeeds [of i "world s" fo] un by simp
  note s1 = unregister_ok [OF un [unfolded z1]]
  have z2: "e2 = 0" using remove_ip_succeeds [of a w1 i fo] rem r s1 by simp
  show ?thesis
    using True r un rem s1 z1 remove_ip_ok [OF rem [unfolded z2]]
    by (simp add: unhook1_def filter_remove_ftrace_def call_world_def idle_def fview_def fo_def a_def)
qed

lemma hook_all:
  assumes "distinct fs" and "\<And>i. i \<in> set fs \<Longrightarrow> idle (fview registered ips s i)"
  shows "\<forall>i\<in>set fs. settled (fview registered ips (fold (hook1 k) fs s) i)"
  by (rule fold_each [where Q = "\<lambda>i s. idle (fview registered ips s i)"])
    (use assms in \<open>auto simp: hook1_settles hook1_other\<close>)

lemma unhook_all:
  assumes "distinct fs" and "\<And>i. i \<in> set fs \<Longrightarrow> settled (fview registered ips s i)"
  shows "\<forall>i\<in>set fs. idle (fview registered ips (fold (unhook1 k) fs s) i)"
  by (rule fold_each [where Q = "\<lambda>i s. settled (fview registered ips s i)"])
    (use assms in \<open>auto simp: unhook1_idles unhook1_other\<close>)

lemma unhook_others:
  assumes "i \<notin> set fs"
  shows "fview registered ips (fold (unhook1 k) fs (fold (hook1 k) fs s)) i = fview registered ips s i"
proof -
  have "fview registered ips (fold (unhook1 k) fs t) i = fview registered ips t i" for t
    by (rule fold_keeps) (metis assms unhook1_other)
  moreover have "fview registered ips (fold (hook1 k) fs s) i = fview registered ips s i"
    by (rule fold_keeps) (metis assms hook1_other)
  ultimately show ?thesis by simp
qed

text \<open>Hooking followed by unhooking gives the kernel back as it was.\<close>

lemma hook_unhook_world:
  assumes "distinct fs" and "\<And>i. i \<in> set fs \<Longrightarrow> idle (fview registered ips s i)"
  defines "t \<equiv> fold (unhook1 k) fs (fold (hook1 k) fs s)"
  shows "registered (world t) = registered (world s)" and "ips (world t) = ips (world s)"
proof -
  have "snd (fview registered ips t i) = snd (fview registered ips s i)" for i
  proof (cases "i \<in> set fs")
    case True
    then have "idle (fview registered ips t i)"
      unfolding t_def using unhook_all [OF assms(1), of "fold (hook1 k) fs s"] hook_all [OF assms(1,2)]
      by simp
    then show ?thesis using assms(2) [OF True] by (simp add: idle_def fview_def)
  next
    case False
    then show ?thesis using unhook_others unfolding t_def by simp
  qed
  then show "registered (world t) = registered (world s)" and "ips (world t) = ips (world s)"
    by (auto simp: fview_def fun_eq_iff)
qed

end

section \<open>Draining\<close>

definition inuse :: "'w kmod \<Rightarrow> nat list \<Rightarrow> 32 word" where
  "inuse s fs = sum_list (map (\<lambda>i. flt_watchdog (filters s i)) fs)"

lemma restore_sanity_inuse:
  assumes "queued s fs"
  shows "filter_restore_sanity s = Some (inuse s fs)"
proof -
  have "fold (\<lambda>i acc. acc + flt_watchdog (filters s i)) fs a = a + inuse s fs" for a
    by (induction fs arbitrary: a) (simp_all add: inuse_def add.assoc)
  moreover have "TAILQ_FOREACH (\<lambda>_. flts s) flts_head
      (\<lambda>flt acc. Inr (acc + flt_watchdog (filters s flt)) :: 32 word + 32 word) 0
      = Some (fold_until (\<lambda>flt acc. Inr (acc + flt_watchdog (filters s flt))) fs 0)"
    by (rule TAILQ_FOREACH_fold) (use assms in \<open>simp_all add: queued_def\<close>)
  ultimately show ?thesis by (simp add: filter_restore_sanity_def fold_until_Inr)
qed

text \<open>The total is 0 exactly when every counter is, as long as it does not wrap around.\<close>

lemma inuse_unat:
  "(\<Sum>i\<leftarrow>fs. unat (flt_watchdog (filters s i))) < 2 ^ 32 \<Longrightarrow>
   unat (inuse s fs) = (\<Sum>i\<leftarrow>fs. unat (flt_watchdog (filters s i)))"
proof (induction fs)
  case Nil
  then show ?case by (simp add: inuse_def)
next
  case (Cons i fs)
  then have "unat (inuse s fs) = (\<Sum>i\<leftarrow>fs. unat (flt_watchdog (filters s i)))" by simp
  then show ?case
    using Cons.prems unat_add_lem [of "flt_watchdog (filters s i)" "inuse s fs"]
    by (simp add: inuse_def)
qed

lemma inuse_zero_iff:
  assumes "(\<Sum>i\<leftarrow>fs. unat (flt_watchdog (filters s i))) < 2 ^ 32"
  shows "inuse s fs = 0 \<longleftrightarrow> (\<forall>i\<in>set fs. flt_watchdog (filters s i) = 0)"
proof -
  have "inuse s fs = 0 \<longleftrightarrow> (\<Sum>i\<leftarrow>fs. unat (flt_watchdog (filters s i))) = 0"
    using inuse_unat [OF assms] by (metis unat_eq_zero)
  also have "\<dots> \<longleftrightarrow> (\<forall>i\<in>set fs. flt_watchdog (filters s i) = 0)"
    by (auto simp: sum_list_eq_0_iff unat_eq_zero)
  finally show ?thesis .
qed

lemma sanity_wait_drains:
  assumes "\<And>t. queued t fs \<Longrightarrow> queued (msleep 10 t) fs" and "queued s fs"
    and "inuse ((msleep 10 ^^ n) s) fs = 0"
  shows "\<exists>e m. m \<le> n \<and> inuse ((msleep 10 ^^ m) s) fs = 0 \<and>
     sanity_wait msleep e0 s = Some (e, (msleep 10 ^^ m) s)"
  using assms(2,3)
proof (induction n arbitrary: s e0)
  case 0
  then show ?case by (auto simp: sanity_wait.simps [of _ _ s] restore_sanity_inuse)
next
  case (Suc n)
  show ?case
  proof (cases "inuse s fs = 0")
    case True
    then show ?thesis
      using Suc.prems by (intro exI [of _ e0] exI [of _ 0])
        (simp add: sanity_wait.simps [of _ _ s] restore_sanity_inuse)
  next
    case False
    have q: "queued (msleep 10 s) fs" using assms(1) Suc.prems(1) .
    obtain e m where "m \<le> n" "inuse ((msleep 10 ^^ m) (msleep 10 s)) fs = 0"
      "sanity_wait msleep (e0 + 10) (msleep 10 s) = Some (e, (msleep 10 ^^ m) (msleep 10 s))"
      using Suc.IH [OF q, of "e0 + 10"] Suc.prems(2) by (auto simp: funpow_swap1)
    then show ?thesis
      using False Suc.prems(1)
      by (intro exI [of _ e] exI [of _ "Suc m"])
        (simp add: sanity_wait.simps [of _ e0 s] restore_sanity_inuse funpow_swap1)
  qed
qed

lemma sanity_wait_result:
  assumes "sanity_wait msleep e s = Some y"
  shows "filter_restore_sanity (snd y) = Some 0 \<and> (\<exists>n. snd y = (msleep 10 ^^ n) s)"
proof (rule sanity_wait.raw_induct [where P = "\<lambda>msleep e s y. filter_restore_sanity (snd y) = Some 0 \<and>
      (\<exists>n. snd y = (msleep 10 ^^ n) s)", OF _ assms], goal_cases)
  case (1 wait msleep e s y)
  show ?case
  proof (cases "filter_restore_sanity s = Some 0")
    case True
    then show ?thesis using 1(2) by (auto intro: exI [of _ 0])
  next
    case False
    then have w: "wait msleep (e + 10) (msleep 10 s) = Some y"
      using 1(2) by (auto split: option.splits if_splits)
    obtain n where "snd y = (msleep 10 ^^ n) (msleep 10 s)" "filter_restore_sanity (snd y) = Some 0"
      using 1(1) [OF w] by blast
    then show ?thesis by (auto intro!: exI [of _ "Suc n"] simp: funpow_swap1)
  qed
qed

lemma settled_registered:
  "settled (fview registered ips s i) \<Longrightarrow> flt_error (filters s i) = 0 \<longleftrightarrow> i \<in> registered (world s)"
  by (auto simp: settled_def fview_def split: if_splits)

lemma filter_sanity_keeps:
  assumes "filter_sanity msleep s = Some (r, s')" and "\<And>n t. h (msleep n t) = h t"
  shows "h s' = h s"
proof -
  have "h ((msleep 10 ^^ n) s) = h s" for n by (induction n) (simp_all add: assms(2))
  then show ?thesis
    using assms sanity_wait_result [of msleep 0 s]
    by (fastforce simp: filter_sanity_def split: option.splits)
qed

lemma sanity_total:
  assumes "\<And>t. queued t fs \<Longrightarrow> queued (msleep 10 t) fs" and "queued s fs"
    and "inuse ((msleep 10 ^^ n) s) fs = 0"
  shows "\<exists>s'. filter_sanity msleep s = Some (0, s')"
proof -
  obtain e m where "sanity_wait msleep 0 s = Some (e, (msleep 10 ^^ m) s)"
    using sanity_wait_drains [of fs msleep s n 0] assms by blast
  then show ?thesis by (simp add: filter_sanity_def)
qed

section \<open>Concrete states\<close>

text \<open>
  Two filters queued on the reference kernel. In \<open>demo\<close> the second registration fails with
  \<open>EBUSY\<close>; in \<open>busy\<close> one call is in flight.
\<close>

definition two_filters :: "nat \<Rightarrow> filter" where
  "two_filters i = (if i = 1 then filter0 ''wake_up_new_task'' 64 else filter0 ''ptrace_attach'' 128)"

definition demo :: "kworld kmod" where
  "demo = fold filter_register [1, 2]
     (kmod0 two_filters (\<lambda>_. \<lparr>ent_name = [], ent_fops = [], ent_dentry = 0\<rparr>)
        (world0\<lparr>w_reg_fail := (\<lambda>i. if i = 2 then 16 else 0)\<rparr>))"

lemma demo_simps [simp]:
  "queued demo [1, 2]"
  "world demo = world0\<lparr>w_reg_fail := (\<lambda>i. if i = 2 then 16 else 0)\<rparr>"
  "filters demo = two_filters"
  "kallsyms_lookup_name demo = 0"
  using filter_register_queued [OF kmod0_queued, of "[1, 2]" two_filters]
  by (simp_all add: demo_def kmod0_def)

lemma demo_idle: "idle (fview w_registered w_ips demo i)"
  by (simp add: idle_def fview_def world0_def)

section \<open>Properties\<close>

text \<open>
  C3. Hooking: on a kernel that keeps the ftrace contract, \<open>filter_hook\<close> processes every queued filter;
  afterwards each one either is active on exactly its own address, or carries a negative error
  code and has left neither a registration nor an address filter behind (the roll-back of
  \<open>filter_set_ftrace\<close>). The result is the number of active filters and the queue is unchanged.
\<close>

theorem filter_hook_settles:
  assumes "kernel_ftrace_total k registered ips" and "queued s fs"
    and "\<forall>i\<in>set fs. idle (fview registered ips s i)"
  shows "\<exists>s'. filter_hook k s = Some (int (card {i \<in> set fs. i \<in> registered (world s')}), s') \<and>
    (\<forall>i\<in>set fs. settled (fview registered ips s' i)) \<and> queued s' fs"
proof -
  let ?s' = "fold (hook1 k) fs s"
  have d: "distinct fs" using assms(2) tq.rep_distinct by (auto simp: queued_def)
  have st: "\<forall>i\<in>set fs. settled (fview registered ips ?s' i)"
    using kernel_ftrace_total.hook_all [OF assms(1) d] assms(3) by blast
  then have "List.filter (\<lambda>i. flt_error (filters ?s' i) = 0) fs
      = List.filter (\<lambda>i. i \<in> registered (world ?s')) fs"
    by (intro filter_cong) (auto simp: settled_registered)
  then have "filter_hook k s = Some (int (card {i \<in> set fs. i \<in> registered (world ?s')}), ?s')"
    using filter_hook_result [OF assms(2), of k] d by (simp flip: set_filter add: distinct_card)
  moreover have "queued ?s' fs"
    using fold_same_rest [of "hook1 k" s fs] hook1_same_rest assms(2) same_rest_queued by blast
  ultimately show ?thesis using st by blast
qed

theorem filter_hook_settles_witness:
  "\<exists>s'. filter_hook ref_kernel demo =
      Some (int (card {i \<in> set [1, 2]. i \<in> w_registered (world s')}), s') \<and>
    (\<forall>i\<in>set [1, 2]. settled (fview w_registered w_ips s' i)) \<and> queued s' [1, 2]"
  using filter_hook_settles [OF rk.kernel_ftrace_total_axioms demo_simps(1)] demo_idle by blast

text \<open>
  C4. Unhooking undoes hooking: when undoing does not fail, sleeping changes neither the queue nor
  ftrace, and the calls in flight drain, \<open>filter_hook\<close> followed by \<open>filter_unhook\<close> returns 0 and leaves
  the active operations and all address filters of the kernel as they were.
\<close>

theorem filter_unhook_undoes_hook:
  assumes "kernel_ftrace_total k registered ips" and "queued s fs"
    and "\<forall>i\<in>set fs. idle (fview registered ips s i)"
    and "\<And>n t. registered (world (msleep n t)) = registered (world t)"
    and "\<And>n t. ips (world (msleep n t)) = ips (world t)"
    and "\<And>n t. flts (msleep n t) = flts t"
    and "\<And>t. \<exists>n. inuse ((msleep 10 ^^ n) t) fs = 0"
  shows "\<exists>n s1 s2. filter_hook k s = Some (n, s1) \<and> filter_unhook k msleep s1 = Some (0, s2) \<and>
    registered (world s2) = registered (world s) \<and> ips (world s2) = ips (world s)"
proof -
  let ?s1 = "fold (hook1 k) fs s"
  let ?t = "fold (unhook1 k) fs ?s1"
  have d: "distinct fs" using assms(2) tq.rep_distinct by (auto simp: queued_def)
  have q1: "queued ?s1 fs"
    using fold_same_rest [of "hook1 k" s fs] hook1_same_rest assms(2) same_rest_queued by blast
  then have qt: "queued ?t fs"
    using fold_same_rest [of "unhook1 k" ?s1 fs] unhook1_same_rest same_rest_queued by blast
  obtain n where "inuse ((msleep 10 ^^ n) ?t) fs = 0" using assms(7) by blast
  then obtain s2 where s2: "filter_sanity msleep ?t = Some (0, s2)"
    using sanity_total [of fs msleep ?t n] qt assms(6) by (force simp: queued_def)
  then have "filter_unhook k msleep ?s1 = Some (0, s2)" using filter_unhook_result [OF q1] by simp
  moreover have "registered (world s2) = registered (world ?t)" "ips (world s2) = ips (world ?t)"
    using filter_sanity_keeps [OF s2, of "\<lambda>s. registered (world s)"]
      filter_sanity_keeps [OF s2, of "\<lambda>s. ips (world s)"] assms(4,5) by auto
  ultimately show ?thesis
    using filter_hook_result [OF assms(2), of k] assms(3)
      kernel_ftrace_total.hook_unhook_world [OF assms(1) d, of s] by auto
qed

theorem filter_unhook_undoes_hook_witness:
  "\<exists>n s1 s2. filter_hook ref_kernel demo = Some (n, s1) \<and>
    filter_unhook ref_kernel (\<lambda>n t. t\<lparr>filters := two_filters\<rparr>) s1 = Some (0, s2) \<and>
    w_registered (world s2) = {} \<and> w_ips (world s2) = (\<lambda>_. {})"
proof -
  have "inuse (((\<lambda>t. t\<lparr>filters := two_filters\<rparr>) ^^ 1) t) [1, 2] = 0" for t :: "kworld kmod"
    by (simp add: inuse_def two_filters_def filter0_def)
  then have drains: "\<exists>n. inuse (((\<lambda>t. t\<lparr>filters := two_filters\<rparr>) ^^ n) t) [1, 2] = 0" for t :: "kworld kmod"
    by blast
  show ?thesis
    using filter_unhook_undoes_hook [OF rk.kernel_ftrace_total_axioms demo_simps(1),
        of "\<lambda>n t. t\<lparr>filters := two_filters\<rparr>"] drains demo_idle
    by (simp add: world0_def)
qed

text \<open>
  C5. The wait before unloading is exact: with a queue that sleeping keeps intact, \<open>filter_sanity\<close>
  returns if and only if after some number of 10 ms sleeps the counters of calls in flight add up
  to 0; otherwise it waits forever. When it returns, it slept once more after the counters were
  seen at 0.
\<close>

theorem filter_sanity_iff_drained:
  assumes "queued s fs" and "\<And>t. queued t fs \<Longrightarrow> queued (msleep 10 t) fs"
  shows "((\<exists>r. filter_sanity msleep s = Some r) \<longleftrightarrow> (\<exists>n. inuse ((msleep 10 ^^ n) s) fs = 0)) \<and>
    (\<forall>r s'. filter_sanity msleep s = Some (r, s') \<longrightarrow>
      r = 0 \<and> (\<exists>n. inuse ((msleep 10 ^^ n) s) fs = 0 \<and> s' = msleep 10 ((msleep 10 ^^ n) s)))"
proof -
  have q: "queued ((msleep 10 ^^ n) s) fs" for n
    using assms by (induction n) auto
  have result: "r = 0 \<and> (\<exists>n. inuse ((msleep 10 ^^ n) s) fs = 0 \<and> s' = msleep 10 ((msleep 10 ^^ n) s))"
    if r: "filter_sanity msleep s = Some (r, s')" for r s'
  proof -
    obtain e t where t: "sanity_wait msleep 0 s = Some (e, t)" "r = 0" "s' = msleep 10 t"
      using r by (auto simp: filter_sanity_def split: option.splits)
    then obtain n where "t = (msleep 10 ^^ n) s" "filter_restore_sanity t = Some 0"
      using sanity_wait_result [OF t(1)] by auto
    then show ?thesis using t restore_sanity_inuse [OF q [of n]] by auto
  qed
  moreover have "\<exists>r. filter_sanity msleep s = Some r" if "inuse ((msleep 10 ^^ n) s) fs = 0" for n
    using sanity_total [of fs msleep s n] assms that by blast
  ultimately show ?thesis by fast
qed

theorem filter_sanity_iff_drained_witness:
  "\<exists>s'. filter_sanity (\<lambda>n t. t\<lparr>filters := two_filters\<rparr>)
      (demo\<lparr>filters := (\<lambda>i. (two_filters i)\<lparr>flt_watchdog := 3\<rparr>)\<rparr>) = Some (0, s')"
proof -
  let ?sleep = "\<lambda>(n :: nat) (t :: kworld kmod). t\<lparr>filters := two_filters\<rparr>"
  let ?s = "demo\<lparr>filters := (\<lambda>i. (two_filters i)\<lparr>flt_watchdog := 3\<rparr>)\<rparr>"
  have "inuse ((?sleep 10 ^^ 1) ?s) [1, 2] = 0" by (simp add: inuse_def two_filters_def filter0_def)
  then have "\<exists>n. inuse ((?sleep 10 ^^ n) ?s) [1, 2] = 0" by blast
  moreover have "queued ?s [1, 2]" using demo_simps(1) by (simp add: queued_def)
  ultimately show ?thesis
    using filter_sanity_iff_drained [of ?s "[1, 2]" ?sleep] by (fastforce simp: queued_def)
qed

text \<open>
  The 32 bit total that the wait loop tests is 0 exactly when no queued filter has a call in flight,
  provided the true total stays below two to the 32.
\<close>

theorem filter_restore_sanity_zero:
  assumes "queued s fs" and "(\<Sum>i\<leftarrow>fs. unat (flt_watchdog (filters s i))) < 2 ^ 32"
  shows "filter_restore_sanity s = Some 0 \<longleftrightarrow> (\<forall>i\<in>set fs. flt_watchdog (filters s i) = 0)"
  using restore_sanity_inuse [OF assms(1)] inuse_zero_iff [OF assms(2)] by simp

theorem filter_restore_sanity_zero_witness:
  "filter_restore_sanity demo = Some 0 \<longleftrightarrow>
     (\<forall>i\<in>set [1, 2]. flt_watchdog (filters demo i) = 0)"
  by (rule filter_restore_sanity_zero) (simp_all add: two_filters_def filter0_def del: One_nat_def)

text \<open>
  A filter is bypassed exactly when it is switched off, or a time stamp was set and the clock is
  more than 30 seconds past it (in the signed 64 bit milliseconds of \<open>ktime_to_ms\<close>). The switch
  and the time stamp are not changed by asking.
\<close>

theorem filter_disabled_iff:
  "(fst (filter_disabled k s) \<longleftrightarrow>
     switch_on s = 0 \<or>
     (lasttime s \<noteq> 0 \<and> sint (ktime_to_ms k (fst (ktime_get k (world s))) - lasttime s) > 30000)) \<and>
   switch_on (snd (filter_disabled k s)) = switch_on s \<and>
   lasttime (snd (filter_disabled k s)) = lasttime s"
  by (auto simp: filter_disabled_def filter_timeout_def call_world_def FILTER_TIMEOUT_MS_def
      split: prod.splits)

end
