(* ===== verification/Filter_Wrap.thy ===== *)
theory Filter_Wrap
  imports Filter_Hook
begin

text \<open>
  What runs when a hooked kernel function is called: the wrapper that \<open>FILTER_DEFINEx\<close> of
  \<open>src/kmod/filter.h\<close> generates, with its profiling, and the three filters of
  \<open>src/kmod/flt_kernel.c\<close>.

  \<open>call_real\<close> is the call of the kernel function at an address with the arguments of the wrapper:
  kernel code, hence an argument of the definitions. It may change the whole state, since the
  kernel function may call hooked functions in turn.
\<close>

type_synonym ('a, 'r, 'w) call = "64 word \<Rightarrow> 'a \<Rightarrow> 'w kmod \<Rightarrow> 'r \<times> 'w kmod"

definition REAL :: "'w kapi \<Rightarrow> ('a, 'r, 'w) call \<Rightarrow> nat \<Rightarrow> 'a \<Rightarrow> 'w kmod \<Rightarrow> 'r \<times> 'w kmod" where
  "REAL k call_real flt args s =
     (let (start, s1) = call_world (ktime_get k) s;
          (r, s2) = call_real (flt_real (filters s1 flt)) args s1;
          (now, s3) = call_world (ktime_get k) s2;
          delta = ktime_to_ns k now - ktime_to_ns k start;
          s4 = (if flt_maxtime_real (filters s3 flt) < delta
                then upd_filter flt (\<lambda>f. f\<lparr>flt_maxtime_real := delta\<rparr>) s3 else s3);
          s5 = upd_filter flt (\<lambda>f. f\<lparr>flt_time_real := flt_time_real f + delta\<rparr>) s4
      in (r, s5))"

definition START_PROFILE :: "'w kapi \<Rightarrow> nat \<Rightarrow> 'w kmod \<Rightarrow> 64 word \<times> 'w kmod" where
  "START_PROFILE k flt s =
     (let (start, s1) = call_world (ktime_get k) s
      in (start, upd_filter flt (\<lambda>f. f\<lparr>flt_count := flt_count f + 1\<rparr>) s1))"

definition END_PROFILE :: "'w kapi \<Rightarrow> nat \<Rightarrow> 64 word \<Rightarrow> 'w kmod \<Rightarrow> 'w kmod" where
  "END_PROFILE k flt start s =
     (let (now, s1) = call_world (ktime_get k) s;
          delta = ktime_to_ns k now - ktime_to_ns k start;
          s2 = (if flt_maxtime (filters s1 flt) < delta
                then upd_filter flt (\<lambda>f. f\<lparr>flt_maxtime := delta\<rparr>) s1 else s1)
      in upd_filter flt (\<lambda>f. f\<lparr>flt_time := flt_time f + delta\<rparr>) s2)"

definition FILTER_FLAGS :: "nat \<Rightarrow> 32 word \<Rightarrow> 'w kmod \<Rightarrow> 'w kmod" where
  "FILTER_FLAGS flt x s = upd_filter flt (\<lambda>f. f\<lparr>flt_flags := or (flt_flags f) x\<rparr>) s"

text \<open>The wrapper; \<open>body\<close> is the filter function \<open>__filter_name\<close>.\<close>

definition wrapfilter ::
  "'w kapi \<Rightarrow> ('a, 'r, 'w) call \<Rightarrow> (nat \<Rightarrow> 'a \<Rightarrow> 'w kmod \<Rightarrow> 'r \<times> 'w kmod) \<Rightarrow> nat \<Rightarrow> 'a \<Rightarrow> 'w kmod \<Rightarrow>
     'r \<times> 'w kmod" where
  "wrapfilter k call_real body flt args s =
     (let s1 = upd_filter flt (\<lambda>f. f\<lparr>flt_watchdog := flt_watchdog f + 1\<rparr>) s;
          (start, s2) = START_PROFILE k flt s1;
          (off, s3) = filter_disabled k s2;
          (ret, s4) = (if off then REAL k call_real flt args s3 else body flt args s3);
          s5 = END_PROFILE k flt start s4;
          s6 = upd_filter flt (\<lambda>f. f\<lparr>flt_watchdog := flt_watchdog f - 1\<rparr>) s5
      in (ret, s6))"

text \<open>The three filters of \<open>flt_kernel.c\<close>.\<close>

definition filter_wake_up_new_task ::
  "'w kapi \<Rightarrow> ('a, int, 'w) call \<Rightarrow> nat \<Rightarrow> 'a \<Rightarrow> 'w kmod \<Rightarrow> int \<times> 'w kmod" where
  "filter_wake_up_new_task k call_real flt args s = REAL k call_real flt args s"

definition filter_security_task_kill ::
  "'w kapi \<Rightarrow> ('a, int, 'w) call \<Rightarrow> nat \<Rightarrow> 'a \<Rightarrow> 'w kmod \<Rightarrow> int \<times> 'w kmod" where
  "filter_security_task_kill k call_real flt args s =
     (let (ret, s1) = REAL k call_real flt args s
      in if ret < 0 then (ret, s1) else (ret, s1))"

definition filter_ptrace_attach ::
  "'w kapi \<Rightarrow> ('a, int, 'w) call \<Rightarrow> nat \<Rightarrow> 'a \<Rightarrow> 'w kmod \<Rightarrow> int \<times> 'w kmod" where
  "filter_ptrace_attach k call_real flt args s = REAL k call_real flt args s"

text \<open>The static filter object and the constructor that \<open>FILTER_DEFINEx\<close> emits.\<close>

definition FILTER_DEFINEx :: "string \<Rightarrow> 64 word \<Rightarrow> filter" where
  "FILTER_DEFINEx name wrap =
     \<lparr>flt_fname = name, flt_filter = wrap, flt_real = 0, flt_watchdog = 0, flt_flags = 0,
      flt_address = 0, flt_ops = \<lparr>ops_func = NoFunc, ops_flags = 0\<rparr>, flt_error = 0, flt_count = 0,
      flt_time = 0, flt_maxtime = 0, flt_time_real = 0, flt_maxtime_real = 0\<rparr>"

section \<open>Lemmas\<close>

text \<open>
  All three filters pass the call on, so the wrapper makes exactly one call of the real function
  whether the filters are disabled or not.
\<close>

lemmas pass_filters = filter_wake_up_new_task_def filter_security_task_kill_def
  filter_ptrace_attach_def

lemma pass_filters_REAL:
  "filter_wake_up_new_task k c = REAL k c"
  "filter_security_task_kill k c = REAL k c"
  "filter_ptrace_attach k c = REAL k c"
  by (auto simp: pass_filters fun_eq_iff split: prod.splits)

lemma disabled_cases:
  "snd (filter_disabled k s) = s \<or> snd (filter_disabled k s) = s\<lparr>world := snd (ktime_get k (world s))\<rparr>"
  by (auto simp: filter_disabled_def filter_timeout_def call_world_def split: prod.splits)

lemma disabled_filters [simp]: "filters (snd (filter_disabled k s)) = filters s"
  using disabled_cases [of k s] by auto

lemma wrap_REAL:
  "wrapfilter k c (REAL k c) flt args s =
     (let s1 = upd_filter flt (\<lambda>f. f\<lparr>flt_watchdog := flt_watchdog f + 1\<rparr>) s;
          (start, s2) = START_PROFILE k flt s1;
          s3 = snd (filter_disabled k s2);
          (ret, s4) = REAL k c flt args s3;
          s5 = END_PROFILE k flt start s4
      in (ret, upd_filter flt (\<lambda>f. f\<lparr>flt_watchdog := flt_watchdog f - 1\<rparr>) s5))"
  by (simp add: wrapfilter_def split: prod.splits)

lemma REAL_simps:
  "fst (REAL k c flt args s) =
     fst (c (flt_real (filters s flt)) args (s\<lparr>world := snd (ktime_get k (world s))\<rparr>))"
  "flt_watchdog (filters (snd (REAL k c flt args s)) i) =
     flt_watchdog (filters (snd (c (flt_real (filters s flt)) args
        (s\<lparr>world := snd (ktime_get k (world s))\<rparr>))) i)"
  by (auto simp: REAL_def call_world_def Let_def split: prod.splits)

lemma START_PROFILE_simps:
  "fst (START_PROFILE k flt s) = fst (ktime_get k (world s))"
  "world (snd (START_PROFILE k flt s)) = snd (ktime_get k (world s))"
  "filters (snd (START_PROFILE k flt s)) =
     (filters s)(flt := (filters s flt)\<lparr>flt_count := flt_count (filters s flt) + 1\<rparr>)"
  by (auto simp: START_PROFILE_def call_world_def split: prod.splits)

lemma END_PROFILE_simps:
  "flt_watchdog (filters (END_PROFILE k flt start s) i) = flt_watchdog (filters s i)"
  "flt_time_real (filters (END_PROFILE k flt start s) i) = flt_time_real (filters s i)"
  "flt_count (filters (END_PROFILE k flt start s) i) = flt_count (filters s i)"
  "flt_time (filters (END_PROFILE k flt start s) flt) =
     flt_time (filters s flt) + (ktime_to_ns k (fst (ktime_get k (world s))) - ktime_to_ns k start)"
  by (auto simp: END_PROFILE_def call_world_def Let_def split: prod.splits)

section \<open>The clock\<close>

text \<open>
  What the profile relies on: the nanosecond clock does not run backwards and stays in the range of
  a signed 64 bit integer.
\<close>

locale kernel_clock =
  fixes k :: "'w kapi" and clk :: "'w \<Rightarrow> 64 word"
  assumes clock_reads: "ktime_to_ns k (fst (ktime_get k w)) = clk w"
    and clock_forward: "clk w \<le> clk (snd (ktime_get k w))"
    and clock_range: "clk w < 0x8000000000000000"

text \<open>The profile of a filter is sound: the time spent in real calls is part of the total time.\<close>

definition prof_ok :: "filter \<Rightarrow> bool" where
  "prof_ok f \<longleftrightarrow> flt_time_real f \<le> flt_time f"

lemma nested_interval:
  fixes t0 t1 t2 t3 x y :: "64 word"
  assumes "t0 \<le> t1" "t1 \<le> t2" "t2 \<le> t3" "t3 < 0x8000000000000000" "y \<le> x" "x < 0x8000000000000000"
  shows "y + (t2 - t1) \<le> x + (t3 - t0)"
proof -
  have u: "unat t0 \<le> unat t1" "unat t1 \<le> unat t2" "unat t2 \<le> unat t3" "unat t3 < 2 ^ 63"
      "unat y \<le> unat x" "unat x < 2 ^ 63"
    using assms by (simp_all add: word_le_nat_alt word_less_nat_alt)
  have "t0 \<le> t3" using assms by order
  then have "unat (t3 - t0) = unat t3 - unat t0" by (rule unat_sub)
  moreover have "unat (t2 - t1) = unat t2 - unat t1" using assms(2) by (rule unat_sub)
  moreover have "unat (x + (t3 - t0)) = unat x + unat (t3 - t0)"
    by (intro iffD1 [OF unat_add_lem]) (use u calculation in simp)
  moreover have "unat (y + (t2 - t1)) = unat y + unat (t2 - t1)"
    by (intro iffD1 [OF unat_add_lem]) (use u calculation in simp)
  ultimately show ?thesis using u by (simp add: word_le_nat_alt)
qed

lemma REAL_profile:
  assumes "c (flt_real (filters s flt)) args (s\<lparr>world := snd (ktime_get k (world s))\<rparr>) = (r, t)"
  shows "flt_time_real (filters (snd (REAL k c flt args s)) flt) = flt_time_real (filters t flt) +
      (ktime_to_ns k (fst (ktime_get k (world t))) - ktime_to_ns k (fst (ktime_get k (world s))))"
    and "flt_time (filters (snd (REAL k c flt args s)) flt) = flt_time (filters t flt)"
    and "world (snd (REAL k c flt args s)) = snd (ktime_get k (world t))"
    and "i \<noteq> flt \<Longrightarrow> filters (snd (REAL k c flt args s)) i = filters t i"
  using assms by (auto simp: REAL_def call_world_def Let_def split: prod.splits)

lemma END_PROFILE_other: "i \<noteq> flt \<Longrightarrow> filters (END_PROFILE k flt start s) i = filters s i"
  by (auto simp: END_PROFILE_def call_world_def Let_def split: prod.splits)

context kernel_clock
begin

lemma clock_disabled: "clk (world s) \<le> clk (world (snd (filter_disabled k s)))"
  using disabled_cases [of k s] clock_forward [of "world s"] by auto

text \<open>
  One call through a wrapper keeps every profile sound, if the real function does (it may itself run
  wrapped calls) and the accumulated time has room left.
\<close>

lemma wrap_prof_ok:
  assumes fwd: "\<And>a x t. clk (world t) \<le> clk (world (snd (c a x t)))"
    and keep: "\<And>a x t. \<forall>i. prof_ok (filters t i) \<Longrightarrow> \<forall>i. prof_ok (filters (snd (c a x t)) i)"
    and room: "\<And>a x t i. flt_time (filters (snd (c a x t)) i) < 0x8000000000000000"
    and ok: "\<forall>i. prof_ok (filters s i)"
  shows "\<forall>i. prof_ok (filters (snd (wrapfilter k c (REAL k c) flt args s)) i)"
proof -
  define s1 where "s1 = upd_filter flt (\<lambda>f. f\<lparr>flt_watchdog := flt_watchdog f + 1\<rparr>) s"
  define s2 where "s2 = snd (START_PROFILE k flt s1)"
  define s3 where "s3 = snd (filter_disabled k s2)"
  define s3' where "s3' = s3\<lparr>world := snd (ktime_get k (world s3))\<rparr>"
  obtain r t where t: "c (flt_real (filters s3 flt)) args s3' = (r, t)" by fastforce
  define s4 where "s4 = snd (REAL k c flt args s3)"
  define s5 where "s5 = END_PROFILE k flt (fst (START_PROFILE k flt s1)) s4"
  note real = REAL_profile [of c s3 flt args k, OF t [unfolded s3'_def], folded s4_def]
  have t_eq: "t = snd (c (flt_real (filters s3 flt)) args s3')" using t by simp
  have "\<forall>i. prof_ok (filters s3' i)"
    using ok by (simp add: s3'_def s3_def s2_def s1_def START_PROFILE_simps prof_ok_def)
  then have t_ok: "\<forall>i. prof_ok (filters t i)" unfolding t_eq by (rule keep)
  have c0: "clk (world s1) \<le> clk (world s3)"
    using clock_forward [of "world s1"] clock_disabled [of s2]
    by (simp add: s2_def s3_def START_PROFILE_simps)
  have c1: "clk (world s3) \<le> clk (world t)"
    using clock_forward [of "world s3"] fwd [of s3'] unfolding t_eq s3'_def by (force intro: order_trans)
  have c2: "clk (world t) \<le> clk (world s4)" using real(3) clock_forward [of "world t"] by simp
  have "prof_ok (filters s5 flt)"
    using nested_interval [OF c0 c1 c2 clock_range, of "flt_time_real (filters t flt)"
        "flt_time (filters t flt)"] t_ok room t_eq
    by (simp add: prof_ok_def s5_def END_PROFILE_simps START_PROFILE_simps real clock_reads)
  moreover have "prof_ok (filters s5 i)" if "i \<noteq> flt" for i
    using t_ok that by (simp add: s5_def END_PROFILE_other real(4))
  ultimately have "\<forall>i. prof_ok (filters s5 i)" by metis
  then show ?thesis
    by (simp add: wrap_REAL Let_def split_beta s5_def s4_def s3_def s2_def s1_def prof_ok_def)
qed

end

interpretation rkc: kernel_clock ref_kernel ref_clock
proof unfold_locales
  fix w :: kworld
  have "w_now w < 0x4000000000000000 \<Longrightarrow> w_now w \<le> w_now w + 1000"
    by (simp add: word_le_nat_alt word_less_nat_alt unat_word_ariths)
  then show "ref_clock w \<le> ref_clock (snd (ktime_get ref_kernel w))"
    by (auto simp: ref_ktime_get_def ref_clock_def min_def)
  show "ktime_to_ns ref_kernel (fst (ktime_get ref_kernel w)) = ref_clock w"
    by (simp add: ref_ktime_get_def)
  show "ref_clock w < 0x8000000000000000"
    by (simp add: ref_clock_def min_less_iff_disj)
qed

text \<open>
  A wrapped call of a passing filter is one call of the real function, made while the wrapper holds
  one count of the watchdog.
\<close>

lemma wrap_REAL_call:
  defines "at_call t s flt \<equiv> flt_real (filters t flt) = flt_real (filters s flt) \<and>
     (\<forall>i. flt_watchdog (filters t i) = flt_watchdog (filters s i) + (if i = flt then 1 else 0))"
  shows "\<exists>t. at_call t s flt \<and>
    fst (wrapfilter k c (REAL k c) flt args s) = fst (c (flt_real (filters s flt)) args t) \<and>
    (\<forall>i. flt_watchdog (filters (snd (wrapfilter k c (REAL k c) flt args s)) i) =
       flt_watchdog (filters (snd (c (flt_real (filters s flt)) args t)) i) - (if i = flt then 1 else 0))"
proof -
  define s1 where "s1 = upd_filter flt (\<lambda>f. f\<lparr>flt_watchdog := flt_watchdog f + 1\<rparr>) s"
  define s3 where "s3 = snd (filter_disabled k (snd (START_PROFILE k flt s1)))"
  define t where "t = s3\<lparr>world := snd (ktime_get k (world s3))\<rparr>"
  have r: "flt_real (filters s3 flt) = flt_real (filters s flt)"
    by (simp add: s3_def s1_def START_PROFILE_simps)
  have "at_call t s flt"
    by (auto simp: at_call_def t_def s3_def s1_def START_PROFILE_simps)
  moreover have "fst (wrapfilter k c (REAL k c) flt args s) = fst (REAL k c flt args s3)"
    by (simp add: wrap_REAL Let_def split_beta s3_def s1_def)
  moreover have "flt_watchdog (filters (snd (wrapfilter k c (REAL k c) flt args s)) i) =
      flt_watchdog (filters (snd (REAL k c flt args s3)) i) - (if i = flt then 1 else 0)" for i
    by (simp add: wrap_REAL Let_def split_beta s3_def s1_def END_PROFILE_simps)
  ultimately show ?thesis by (auto simp: REAL_simps t_def r)
qed

section \<open>Properties\<close>

text \<open>
  C9. The three filters are transparent and balanced: a call of a hooked function returns exactly what
  one call of the real function returns, whether filtering is enabled, disabled or timed out;
  during that call the watchdog of the filter is one higher than before, and if the
  real function leaves the watchdogs as it found them, so does the wrapper.
\<close>

theorem wrapfilter_transparent:
  assumes "body \<in> {filter_wake_up_new_task k c, filter_security_task_kill k c, filter_ptrace_attach k c}"
  shows "\<exists>t. fst (wrapfilter k c body flt args s) = fst (c (flt_real (filters s flt)) args t) \<and>
    flt_watchdog (filters t flt) = flt_watchdog (filters s flt) + 1 \<and>
    ((\<forall>i. flt_watchdog (filters (snd (c (flt_real (filters s flt)) args t)) i) = flt_watchdog (filters t i)) \<longrightarrow>
     (\<forall>i. flt_watchdog (filters (snd (wrapfilter k c body flt args s)) i) = flt_watchdog (filters s i)))"
proof -
  have body: "body = REAL k c" using assms by (auto simp: pass_filters_REAL)
  show ?thesis
    unfolding body using wrap_REAL_call [where s = s and flt = flt and k = k and c = c and args = args]
    by (elim exE conjE) (rule exI, auto)
qed

theorem wrapfilter_transparent_witness:
  "fst (wrapfilter ref_kernel (\<lambda>a x s. (7, s)) (filter_ptrace_attach ref_kernel (\<lambda>a x s. (7, s))) 2 () demo)
     = (7 :: int) \<and>
   (\<forall>i. flt_watchdog (filters (snd (wrapfilter ref_kernel (\<lambda>a x s. (7 :: int, s))
      (filter_ptrace_attach ref_kernel (\<lambda>a x s. (7, s))) 2 () demo)) i) = flt_watchdog (filters demo i))"
  using wrapfilter_transparent [of "filter_ptrace_attach ref_kernel (\<lambda>a x s. (7, s))" ref_kernel
      "\<lambda>a x s. (7, s)" 2 "()" demo]
  by auto



end
