(* ===== verification/Kmain.thy ===== *)
theory Kmain
  imports Filter_Wrap
begin

text \<open>
  The files of the module in securityfs (\<open>src/kmod/securityfs.c\<close>, \<open>securityfs.h\<close>) and its entry and
  exit points (\<open>src/kmod/kmain.c\<close>) with their unwinding on failure, composed from the constructor
  tables, the filter core and the kernel.
\<close>

definition fsents_head :: nat where
  "fsents_head = 0"

definition BASENAME :: string where
  "BASENAME = ''sysmon''"

definition fsent_register :: "nat \<Rightarrow> 'w kmod \<Rightarrow> 'w kmod" where
  "fsent_register ent s = s\<lparr>fsents := TAILQ_INSERT_TAIL fsents_head ent (fsents s)\<rparr>"

text \<open>The static entry \<open>__ent_name\<close> of \<open>SYSFS_ENT_DEFINE\<close>.\<close>

definition SYSFS_ENT_DEFINE :: "string \<Rightarrow> fs_ent" where
  "SYSFS_ENT_DEFINE name = \<lparr>ent_name = name, ent_fops = name, ent_dentry = 0\<rparr>"

definition exit_body :: "'w kapi \<Rightarrow> nat \<Rightarrow> 'w kmod \<Rightarrow> unit + 'w kmod" where
  "exit_body k ent s =
     Inr (if ent_dentry (ents s ent) \<noteq> 0
          then s\<lparr>world := securityfs_remove k (ent_dentry (ents s ent)) (world s)\<rparr> else s)"

definition securityfs_exit :: "'w kapi \<Rightarrow> 'w kmod \<Rightarrow> 'w kmod option" where
  "securityfs_exit k s =
     (case TAILQ_FOREACH fsents fsents_head (exit_body k) s of
        Some (Inr s1) \<Rightarrow>
          Some (if \<not> is_err_or_null k (dirent s1)
                then s1\<lparr>world := securityfs_remove k (dirent s1) (world s1)\<rparr> else s1)
      | _ \<Rightarrow> None)"

definition init_body :: "'w kapi \<Rightarrow> nat \<Rightarrow> 'w kmod \<Rightarrow> (int \<times> 'w kmod) option + 'w kmod" where
  "init_body k ent s =
     (let (d, s1) = call_world (securityfs_create_file k (ent_name (ents s ent)) 384 (dirent s) 1
                       (ent_fops (ents s ent))) s
      in if is_err_or_null k d
         then Inl (case securityfs_exit k s1 of None \<Rightarrow> None | Some s2 \<Rightarrow> Some (- EFAULT, s2))
         else Inr (s1\<lparr>ents := (ents s1)(ent := (ents s1 ent)\<lparr>ent_dentry := d\<rparr>)\<rparr>))"

definition securityfs_init :: "'w kapi \<Rightarrow> 'w kmod \<Rightarrow> (int \<times> 'w kmod) option" where
  "securityfs_init k s =
     (let (d, s1) = call_world (securityfs_create_dir k BASENAME) s;
          s2 = s1\<lparr>dirent := d\<rparr>
      in if is_err_or_null k d then Some (ptr_err k d, s2)
         else (case TAILQ_FOREACH fsents fsents_head (init_body k) s2 of
                 None \<Rightarrow> None
               | Some (Inl r) \<Rightarrow> r
               | Some (Inr s3) \<Rightarrow> Some (0, s3)))"

text \<open>
  The file operations of the misc device and of the version file.
\<close>

definition kmod_open :: "'w kmod \<Rightarrow> int \<times> 'w kmod" where
  "kmod_open s = (0, s)"

definition kmod_release :: "'w kmod \<Rightarrow> int \<times> 'w kmod" where
  "kmod_release s = (0, s)"

definition kmod_ioctl :: "32 word \<Rightarrow> 64 word \<Rightarrow> 'w kmod \<Rightarrow> int \<times> 'w kmod" where
  "kmod_ioctl cmd arg s = (0, s)"

definition kmod_compat_ioctl :: "32 word \<Rightarrow> 64 word \<Rightarrow> 'w kmod \<Rightarrow> int \<times> 'w kmod" where
  "kmod_compat_ioctl cmd arg s = (0, s)"

definition kmain_init ::
  "'w kapi \<Rightarrow> ('w kmod \<Rightarrow> 'w kmod) option list \<Rightarrow> ('w kmod \<Rightarrow> 'w kmod) option list \<Rightarrow> 'w kmod \<Rightarrow>
     (int \<times> 'w kmod) option" where
  "kmain_init k ctors dtors s =
     (let s1 = ctor_init ctors s
      in case securityfs_init k s1 of
           None \<Rightarrow> None
         | Some (ret, s2) \<Rightarrow>
             if ret < 0 then Some (ret, dtor_exit dtors s2)
             else
               (let (ret, s3) = call_world (misc_register k) s2
                in if ret \<noteq> 0 then
                     (case securityfs_exit k s3 of
                        None \<Rightarrow> None
                      | Some s4 \<Rightarrow> Some (ret, dtor_exit dtors s4))
                   else
                     (case filter_hook k s3 of
                        None \<Rightarrow> None
                      | Some (ret, s4) \<Rightarrow>
                          if ret < 0 then
                            (let s5 = s4\<lparr>world := misc_deregister k (world s4)\<rparr>
                             in case securityfs_exit k s5 of
                                  None \<Rightarrow> None
                                | Some s6 \<Rightarrow> Some (ret, dtor_exit dtors s6))
                          else Some (0, s4))))"

definition kmain_exit ::
  "'w kapi \<Rightarrow> (nat \<Rightarrow> 'w kmod \<Rightarrow> 'w kmod) \<Rightarrow> ('w kmod \<Rightarrow> 'w kmod) option list \<Rightarrow> 'w kmod \<Rightarrow>
     'w kmod option" where
  "kmain_exit k msleep dtors s =
     (case filter_unhook k msleep s of
        None \<Rightarrow> None
      | Some (_, s1) \<Rightarrow>
          (let s2 = s1\<lparr>world := misc_deregister k (world s1)\<rparr>
           in case securityfs_exit k s2 of
                None \<Rightarrow> None
              | Some s3 \<Rightarrow> kmem_alloc_sanity (dtor_exit dtors s3)))"

text \<open>
  The constructors the sources register, in link order: the version file (\<open>kmain.c\<close>), the profile
  file (\<open>filter.c\<close>) and the three filters (\<open>flt_kernel.c\<close>). No destructor is registered.
\<close>

definition module_ctors :: "('w kmod \<Rightarrow> 'w kmod) option list" where
  "module_ctors = [Some (fsent_register 1), Some (fsent_register 2),
     Some (filter_register 1), Some (filter_register 2), Some (filter_register 3)]"

definition module_filters :: "nat \<Rightarrow> filter" where
  "module_filters i =
     (if i = 1 then FILTER_DEFINEx ''wake_up_new_task'' 0xA000
      else if i = 2 then FILTER_DEFINEx ''security_task_kill'' 0xB000
      else FILTER_DEFINEx ''ptrace_attach'' 0xC000)"

definition module_ents :: "nat \<Rightarrow> fs_ent" where
  "module_ents i = (if i = 1 then SYSFS_ENT_DEFINE ''version'' else SYSFS_ENT_DEFINE ''profile'')"

definition listed :: "'w kmod \<Rightarrow> nat list \<Rightarrow> bool" where
  "listed s es \<longleftrightarrow> tailq (fsents s) fsents_head es"

section \<open>The device contract\<close>

text \<open>
  What the kernel promises about devices: \<open>misc w\<close> says whether the misc device is registered,
  \<open>dentries w\<close> are the securityfs dentries in existence. Creation returns a fresh dentry or an error
  pointer and then changes nothing.
\<close>

locale kernel_devices =
  fixes k :: "'w kapi" and misc :: "'w \<Rightarrow> bool" and dentries :: "'w \<Rightarrow> 64 word set"
  assumes err_null: "is_err_or_null k 0" and ptr_err_null: "ptr_err k 0 = 0"
    and ptr_err_neg: "is_err_or_null k d \<Longrightarrow> d \<noteq> 0 \<Longrightarrow> ptr_err k d < 0"
    and create_dir_ok:
      "securityfs_create_dir k n w = (d, w') \<Longrightarrow> \<not> is_err_or_null k d \<Longrightarrow>
       d \<notin> dentries w \<and> dentries w' = insert d (dentries w) \<and> misc w' = misc w"
    and create_dir_fail:
      "securityfs_create_dir k n w = (d, w') \<Longrightarrow> is_err_or_null k d \<Longrightarrow>
       dentries w' = dentries w \<and> misc w' = misc w"
    and create_file_ok:
      "securityfs_create_file k n mode p key fo w = (d, w') \<Longrightarrow> \<not> is_err_or_null k d \<Longrightarrow>
       d \<notin> dentries w \<and> dentries w' = insert d (dentries w) \<and> misc w' = misc w"
    and create_file_fail:
      "securityfs_create_file k n mode p key fo w = (d, w') \<Longrightarrow> is_err_or_null k d \<Longrightarrow>
       dentries w' = dentries w \<and> misc w' = misc w"
    and sfs_remove:
      "dentries (securityfs_remove k d w) = dentries w - {d} \<and> misc (securityfs_remove k d w) = misc w"
    and misc_register_ok:
      "misc_register k w = (0, w') \<Longrightarrow> misc w' \<and> dentries w' = dentries w"
    and misc_register_fail:
      "misc_register k w = (e, w') \<Longrightarrow> e \<noteq> 0 \<Longrightarrow> misc w' = misc w \<and> dentries w' = dentries w"
    and misc_deregister_ok:
      "\<not> misc (misc_deregister k w) \<and> dentries (misc_deregister k w) = dentries w"

interpretation rkd: kernel_devices ref_kernel w_misc w_dentries
proof unfold_locales
  fix d :: "64 word" assume "is_err_or_null ref_kernel d" "d \<noteq> 0"
  then have "- 4095 \<le> d" by (simp add: ref_is_err_or_null_def)
  then have lo: "2 ^ 64 - 4095 \<le> uint d" by (simp add: word_le_def)
  have hi: "uint d < 2 ^ 64" using uint_lt2p [of d] by simp
  have "sint d = (uint d + 2 ^ 63) mod 2 ^ 64 - 2 ^ 63"
    by (simp add: sint_uint signed_take_bit_eq_take_bit_shift take_bit_eq_mod)
  moreover have "(uint d + 2 ^ 63) mod 2 ^ 64 = uint d + 2 ^ 63 - 2 ^ 64"
    using lo hi by (simp add: mod_pos_geq)
  ultimately show "ptr_err ref_kernel d < 0" using hi by simp
qed (auto simp: ref_new_dentry_def ref_is_err_or_null_def split: if_splits)

section \<open>securityfs\<close>

definition made :: "'w kmod \<Rightarrow> nat list \<Rightarrow> 64 word set" where
  "made s es = (\<lambda>e. ent_dentry (ents s e)) ` set es - {0}"

text \<open>The variables that the securityfs functions leave alone.\<close>

definition same_core :: "'w kmod \<Rightarrow> 'w kmod \<Rightarrow> bool" where
  "same_core s s' \<longleftrightarrow> flts s' = flts s \<and> filters s' = filters s \<and> fsents s' = fsents s \<and>
     switch_on s' = switch_on s \<and> lasttime s' = lasttime s \<and> alloc_count s' = alloc_count s \<and>
     kallsyms_lookup_name s' = kallsyms_lookup_name s"

lemma same_core_listed: "same_core s s' \<Longrightarrow> listed s' es \<longleftrightarrow> listed s es"
  by (simp add: same_core_def listed_def)

lemma same_core_queued: "same_core s s' \<Longrightarrow> queued s' fs \<longleftrightarrow> queued s fs"
  by (simp add: same_core_def queued_def)

lemma same_core_trans: "same_core s t \<Longrightarrow> same_core t u \<Longrightarrow> same_core s u"
  by (simp add: same_core_def)

text \<open>
  While the files are being created, the dentries are those of the start, the directory, and one
  per entry processed so far.
\<close>

definition sfs_inv :: "'w kapi \<Rightarrow> ('w \<Rightarrow> 64 word set) \<Rightarrow> 64 word set \<Rightarrow> nat list \<Rightarrow> 'w kmod \<Rightarrow> bool" where
  "sfs_inv k dentries D es s \<longleftrightarrow> \<not> is_err_or_null k (dirent s) \<and>
     dentries (world s) = D \<union> insert (dirent s) (made s es) \<and> insert (dirent s) (made s es) \<inter> D = {}"

definition drop_dentry :: "'w kapi \<Rightarrow> nat \<Rightarrow> 'w kmod \<Rightarrow> 'w kmod" where
  "drop_dentry k ent s =
     (if ent_dentry (ents s ent) \<noteq> 0
      then s\<lparr>world := securityfs_remove k (ent_dentry (ents s ent)) (world s)\<rparr> else s)"

lemma exit_body_eq: "exit_body k = (\<lambda>e s. Inr (drop_dentry k e s))"
  by (simp add: exit_body_def drop_dentry_def fun_eq_iff)

lemma fold_drop_dentry: "\<exists>w. fold (drop_dentry k) es s = s\<lparr>world := w\<rparr>"
proof (induction es arbitrary: s)
  case Nil
  have "s = s\<lparr>world := world s\<rparr>" by simp
  then show ?case by (metis fold_simps(1))
next
  case (Cons e es)
  have "\<exists>v. drop_dentry k e s = s\<lparr>world := v\<rparr>" by (auto simp: drop_dentry_def intro: exI [of _ "world s"])
  then obtain v where "drop_dentry k e s = s\<lparr>world := v\<rparr>" ..
  then show ?case using Cons.IH [of "s\<lparr>world := v\<rparr>"] by auto
qed

lemma securityfs_exit_fold:
  assumes "listed s es"
  shows "securityfs_exit k s =
    (let s1 = fold (drop_dentry k) es s
     in Some (if \<not> is_err_or_null k (dirent s1)
              then s1\<lparr>world := securityfs_remove k (dirent s1) (world s1)\<rparr> else s1))"
proof -
  have "TAILQ_FOREACH fsents fsents_head (exit_body k) s = Some (fold_until (exit_body k) es s)"
    by (rule TAILQ_FOREACH_fold)
      (use assms in \<open>auto simp: listed_def exit_body_eq drop_dentry_def split: if_splits\<close>)
  then show ?thesis by (simp add: securityfs_exit_def exit_body_eq fold_until_Inr Let_def)
qed

text \<open>Removing the files touches the world only, and there only what removal touches.\<close>

lemma securityfs_exit_world:
  assumes "listed s es" and "\<And>d w. h (securityfs_remove k d w) = h w"
  shows "\<exists>w. securityfs_exit k s = Some (s\<lparr>world := w\<rparr>) \<and> h w = h (world s)"
proof -
  obtain v where v: "fold (drop_dentry k) es s = s\<lparr>world := v\<rparr>" using fold_drop_dentry [of k es s] by blast
  have "h (world (fold (drop_dentry k) es s)) = h (world s)"
    by (rule fold_keeps [where h = "\<lambda>s. h (world s)"]) (simp add: drop_dentry_def assms(2))
  then show ?thesis
    by (cases "is_err_or_null k (dirent s)")
      (auto simp: securityfs_exit_fold [OF assms(1)] v assms(2))
qed

context kernel_devices
begin

lemma fold_drop_dentry_dentries:
  "dentries (world (fold (drop_dentry k) es s)) = dentries (world s) - made s es"
proof (induction es arbitrary: s)
  case Nil
  then show ?case by (simp add: made_def)
next
  case (Cons e es)
  have "made (drop_dentry k e s) es = made s es" by (simp add: made_def drop_dentry_def)
  moreover have "dentries (world (drop_dentry k e s)) =
      dentries (world s) - ({ent_dentry (ents s e)} - {0})"
    by (simp add: drop_dentry_def sfs_remove)
  moreover have "made s (e # es) = ({ent_dentry (ents s e)} - {0}) \<union> made s es"
    by (auto simp: made_def)
  ultimately show ?case using Cons.IH [of "drop_dentry k e s"] by (simp add: Diff_eq Int_assoc)
qed

lemma securityfs_exit_dentries:
  assumes "listed s es"
  shows "\<exists>w. securityfs_exit k s = Some (s\<lparr>world := w\<rparr>) \<and> misc w = misc (world s) \<and>
    dentries w = dentries (world s) - made s es - (if is_err_or_null k (dirent s) then {} else {dirent s})"
proof -
  obtain v where v: "fold (drop_dentry k) es s = s\<lparr>world := v\<rparr>"
    using fold_drop_dentry [of k es s] by blast
  have "misc (world (fold (drop_dentry k) es s)) = misc (world s)"
    by (rule fold_keeps [where h = "\<lambda>s. misc (world s)"]) (simp add: drop_dentry_def sfs_remove)
  then have "misc v = misc (world s)" "dentries v = dentries (world s) - made s es"
    using fold_drop_dentry_dentries [of es s] v by simp_all
  then show ?thesis
    using sfs_remove
    by (intro exI [of _ "if is_err_or_null k (dirent s) then v else securityfs_remove k (dirent s) v"])
      (simp add: securityfs_exit_fold [OF assms] v)
qed

lemma sfs_inv_exit:
  assumes "sfs_inv k dentries D es s" and "listed s es"
  shows "\<exists>w. securityfs_exit k s = Some (s\<lparr>world := w\<rparr>) \<and> misc w = misc (world s) \<and> dentries w = D"
  using securityfs_exit_dentries [OF assms(2)] assms(1) by (auto simp: sfs_inv_def)

lemma init_body_ok:
  assumes "sfs_inv k dentries D es s" and "e \<in> set es" and "ent_dentry (ents s e) = 0"
    and "init_body k e s = Inr s'"
  shows "sfs_inv k dentries D es s' \<and> misc (world s') = misc (world s) \<and> same_core s s' \<and>
    (\<forall>i. i \<noteq> e \<longrightarrow> ents s' i = ents s i) \<and> ent_dentry (ents s' e) \<noteq> 0"
proof -
  obtain d w where c: "securityfs_create_file k (ent_name (ents s e)) 384 (dirent s) 1
      (ent_fops (ents s e)) (world s) = (d, w)" by fastforce
  have ok: "\<not> is_err_or_null k d"
    and s': "s' = s\<lparr>world := w, ents := (ents s)(e := (ents s e)\<lparr>ent_dentry := d\<rparr>)\<rparr>"
    using assms(4) c by (auto simp: init_body_def call_world_def split: if_splits)
  note fresh = create_file_ok [OF c ok]
  have "d \<noteq> 0" using ok err_null by auto
  then have "made s' es = insert d (made s es)"
    using assms(2,3) unfolding s' made_def by (auto simp: image_iff split: if_splits)
  then show ?thesis
    using assms(1) fresh \<open>d \<noteq> 0\<close> by (auto simp: sfs_inv_def same_core_def s')
qed

lemma init_body_fail:
  assumes "sfs_inv k dentries D es s" and "listed s es" and "init_body k e s = Inl r"
  shows "\<exists>s'. r = Some (- EFAULT, s') \<and> dentries (world s') = D \<and> misc (world s') = misc (world s) \<and>
    same_core s s'"
proof -
  obtain d w where c: "securityfs_create_file k (ent_name (ents s e)) 384 (dirent s) 1
      (ent_fops (ents s e)) (world s) = (d, w)" by fastforce
  have err: "is_err_or_null k d"
    and r: "r = (case securityfs_exit k (s\<lparr>world := w\<rparr>) of None \<Rightarrow> None | Some s2 \<Rightarrow> Some (- EFAULT, s2))"
    using assms(3) c by (auto simp: init_body_def call_world_def split: if_splits)
  note same = create_file_fail [OF c err]
  have "sfs_inv k dentries D es (s\<lparr>world := w\<rparr>)" "listed (s\<lparr>world := w\<rparr>) es"
    using assms(1,2) same by (auto simp: sfs_inv_def listed_def made_def)
  from sfs_inv_exit [OF this] show ?thesis using r same by (auto simp: same_core_def)
qed

lemma init_loop:
  assumes "sfs_inv k dentries D es s" and "listed s es" and "distinct ys" and "set ys \<subseteq> set es"
    and "\<forall>e\<in>set ys. ent_dentry (ents s e) = 0"
  shows "case fold_until (init_body k) ys s of
      Inl r \<Rightarrow> \<exists>s'. r = Some (- EFAULT, s') \<and> dentries (world s') = D \<and> misc (world s') = misc (world s) \<and>
        same_core s s'
    | Inr s' \<Rightarrow> sfs_inv k dentries D es s' \<and> misc (world s') = misc (world s) \<and> same_core s s'"
  using assms
proof (induction ys arbitrary: s)
  case Nil
  then show ?case by (simp add: same_core_def)
next
  case (Cons y ys)
  show ?case
  proof (cases "init_body k y s")
    case (Inl r)
    then show ?thesis using init_body_fail [OF Cons.prems(1,2)] by simp
  next
    case (Inr t)
    note t = init_body_ok [OF Cons.prems(1) _ _ Inr]
    have t': "sfs_inv k dentries D es t" "misc (world t) = misc (world s)" "same_core s t"
      "\<forall>i. i \<noteq> y \<longrightarrow> ents t i = ents s i"
      using t Cons.prems by auto
    have "listed t es" using t'(3) Cons.prems(2) same_core_listed by blast
    moreover have "\<forall>e\<in>set ys. ent_dentry (ents t e) = 0" using Cons.prems(3,5) t'(4) by auto
    ultimately show ?thesis
      using Cons.IH [OF t'(1)] Cons.prems(3,4) Inr t'(2,3)
      by (auto split: sum.splits intro: same_core_trans)
  qed
qed

text \<open>
  Creating the files either fails and leaves the dentries as they were, or leaves the invariant that
  removal needs. A NULL directory is reported as success.
\<close>

lemma securityfs_init_cases:
  assumes "listed s es" and "\<forall>e\<in>set es. ent_dentry (ents s e) = 0"
  shows "\<exists>r s'. securityfs_init k s = Some (r, s') \<and> same_core s s' \<and> misc (world s') = misc (world s) \<and>
    (if r < 0 then dentries (world s') = dentries (world s)
     else r = 0 \<and> (sfs_inv k dentries (dentries (world s)) es s' \<or>
        dirent s' = 0 \<and> made s' es = {} \<and> dentries (world s') = dentries (world s)))"
proof -
  obtain d w where c: "securityfs_create_dir k BASENAME (world s) = (d, w)" by fastforce
  define s2 where "s2 = s\<lparr>world := w, dirent := d\<rparr>"
  have core2: "same_core s s2" by (simp add: s2_def same_core_def)
  show ?thesis
  proof (cases "is_err_or_null k d")
    case True
    then show ?thesis
      using c create_dir_fail [OF c True] ptr_err_neg [OF True] ptr_err_null core2 assms(2)
      by (auto simp: securityfs_init_def call_world_def s2_def made_def)
  next
    case False
    note fresh = create_dir_ok [OF c False]
    have inv: "sfs_inv k dentries (dentries (world s)) es s2"
      using fresh False assms(2) by (auto simp: sfs_inv_def s2_def made_def)
    have l2: "listed s2 es" using core2 assms(1) same_core_listed by blast
    have d: "distinct es" using assms(1) tq.rep_distinct by (auto simp: listed_def)
    have "TAILQ_FOREACH fsents fsents_head (init_body k) s2 = Some (fold_until (init_body k) es s2)"
      by (rule TAILQ_FOREACH_fold)
        (use l2 in \<open>auto simp: listed_def init_body_def call_world_def Let_def split: prod.splits if_splits\<close>)
    then have "securityfs_init k s = (case fold_until (init_body k) es s2 of Inl r \<Rightarrow> r | Inr s3 \<Rightarrow> Some (0, s3))"
      using c False by (simp add: securityfs_init_def call_world_def s2_def split: sum.splits)
    moreover have "\<forall>e\<in>set es. ent_dentry (ents s2 e) = 0" using assms(2) by (simp add: s2_def)
    note init_loop [OF inv l2 d _ this]
    ultimately show ?thesis
      using fresh same_core_trans [OF core2] by (force simp: s2_def split: sum.splits)
  qed
qed

end

section \<open>Load and unload\<close>

text \<open>A whole kernel: the ftrace and the device contract, neither affecting the other's state.\<close>

locale kernel = kernel_ftrace_total k registered ips + kernel_devices k misc dentries
  for k :: "'w kapi" and registered :: "'w \<Rightarrow> nat set" and ips :: "'w \<Rightarrow> nat \<Rightarrow> 64 word set"
    and misc :: "'w \<Rightarrow> bool" and dentries :: "'w \<Rightarrow> 64 word set" +
  assumes dir_ft: "registered (snd (securityfs_create_dir k n w)) = registered w \<and>
        ips (snd (securityfs_create_dir k n w)) = ips w"
    and file_ft: "registered (snd (securityfs_create_file k n mode p key fo w)) = registered w \<and>
        ips (snd (securityfs_create_file k n mode p key fo w)) = ips w"
    and remove_ft: "registered (securityfs_remove k d w) = registered w \<and> ips (securityfs_remove k d w) = ips w"
    and misc_reg_ft: "registered (snd (misc_register k w)) = registered w \<and> ips (snd (misc_register k w)) = ips w"
    and misc_dereg_ft: "registered (misc_deregister k w) = registered w \<and> ips (misc_deregister k w) = ips w"
    and kprobe_dv: "misc (snd (register_kprobe k n w)) = misc w \<and> dentries (snd (register_kprobe k n w)) = dentries w"
    and unkprobe_dv: "misc (unregister_kprobe k n w) = misc w \<and> dentries (unregister_kprobe k n w) = dentries w"
    and lookup_dv: "misc (snd (call_kallsyms k a n w)) = misc w \<and> dentries (snd (call_kallsyms k a n w)) = dentries w"
    and set_ip_dv: "misc (snd (ftrace_set_filter_ip k i ft a rem res w)) = misc w \<and>
        dentries (snd (ftrace_set_filter_ip k i ft a rem res w)) = dentries w"
    and register_dv: "misc (snd (register_ftrace_function k i ft w)) = misc w \<and>
        dentries (snd (register_ftrace_function k i ft w)) = dentries w"
    and unregister_dv: "misc (snd (unregister_ftrace_function k i ft w)) = misc w \<and>
        dentries (snd (unregister_ftrace_function k i ft w)) = dentries w"

interpretation rkk: kernel ref_kernel w_registered w_ips w_misc w_dentries
  by unfold_locales
    (auto simp: ref_defs ref_new_dentry_def split: if_splits)

text \<open>What hooking and unhooking one filter may touch in the world.\<close>

lemma hook1_world:
  assumes "\<And>n w. h (snd (register_kprobe k n w)) = h w" and "\<And>n w. h (unregister_kprobe k n w) = h w"
    and "\<And>a n w. h (snd (call_kallsyms k a n w)) = h w"
    and "\<And>i ft a rem res w. h (snd (ftrace_set_filter_ip k i ft a rem res w)) = h w"
    and "\<And>i ft w. h (snd (register_ftrace_function k i ft w)) = h w"
  shows "h (world (hook1 k i s)) = h (world s)"
proof -
  have probe: "h (world (snd (sym_lookup_by_kprobe k n t))) = h (world t)" for n t
    using assms(1) [of n "world t"] assms(2)
    by (auto simp: sym_lookup_by_kprobe_def call_world_def split: prod.splits)
  have "h (world (snd (sym_lookup k n s))) = h (world s)" for n
    by (auto simp: sym_lookup_def Let_def split_beta probe assms(3))
  then have look: "h (world t) = h (world s)" if "sym_lookup k n s = (a, t)" for n a t
    using that by (metis snd_conv)
  have ipr: "h w' = h w" if "ftrace_set_filter_ip k i ft a rem res w = (e, w')" for i ft a rem res w e w'
    using that assms(4) by (metis snd_conv)
  have rgr: "h w' = h w" if "register_ftrace_function k i ft w = (e, w')" for i ft w e w'
    using that assms(5) by (metis snd_conv)
  show ?thesis
    by (auto simp: hook1_def filter_set_ftrace_def call_world_def Let_def look ipr rgr
        split: prod.splits if_splits)
qed

lemma unhook1_world:
  assumes "\<And>i ft a rem res w. h (snd (ftrace_set_filter_ip k i ft a rem res w)) = h w"
    and "\<And>i ft w. h (snd (unregister_ftrace_function k i ft w)) = h w"
  shows "h (world (unhook1 k i s)) = h (world s)"
proof -
  have ipr: "h w' = h w" if "ftrace_set_filter_ip k i ft a rem res w = (e, w')" for i ft a rem res w e w'
    using that assms(1) by (metis snd_conv)
  have rgr: "h w' = h w" if "unregister_ftrace_function k i ft w = (e, w')" for i ft w e w'
    using that assms(2) by (metis snd_conv)
  show ?thesis
    by (auto simp: unhook1_def filter_remove_ftrace_def call_world_def Let_def ipr rgr
        split: prod.splits if_splits)
qed

lemma same_rest_listed: "same_rest s s' \<Longrightarrow> listed s' es \<longleftrightarrow> listed s es"
  by (simp add: same_rest_def listed_def)

context kernel
begin

lemma sfs_exit_ft:
  assumes "listed s es"
  shows "\<exists>w. securityfs_exit k s = Some (s\<lparr>world := w\<rparr>) \<and>
    registered w = registered (world s) \<and> ips w = ips (world s)"
  using securityfs_exit_world [OF assms, of "\<lambda>w. (registered w, ips w)"] remove_ft by simp

lemma securityfs_exit_all:
  assumes "listed s es"
  shows "\<exists>w. securityfs_exit k s = Some (s\<lparr>world := w\<rparr>) \<and>
    registered w = registered (world s) \<and> ips w = ips (world s) \<and> misc w = misc (world s) \<and>
    dentries w = dentries (world s) - made s es - (if is_err_or_null k (dirent s) then {} else {dirent s})"
proof -
  obtain w where w: "securityfs_exit k s = Some (s\<lparr>world := w\<rparr>)" "registered w = registered (world s)"
      "ips w = ips (world s)" using sfs_exit_ft [OF assms] by blast
  obtain v where v: "securityfs_exit k s = Some (s\<lparr>world := v\<rparr>)" "misc v = misc (world s)"
      "dentries v = dentries (world s) - made s es - (if is_err_or_null k (dirent s) then {} else {dirent s})"
    using securityfs_exit_dentries [OF assms] by blast
  have "world (s\<lparr>world := w\<rparr>) = world (s\<lparr>world := v\<rparr>)" using w(1) v(1) by (metis option.inject)
  then have "w = v" by simp
  then show ?thesis using w v by blast
qed

lemma sfs_init_ft:
  assumes "listed s es" and "securityfs_init k s = Some (r, s')"
  shows "registered (world s') = registered (world s) \<and> ips (world s') = ips (world s)"
proof -
  let ?same = "\<lambda>t. registered (world t) = registered (world s) \<and> ips (world t) = ips (world s) \<and> listed t es"
  have step: "case init_body k e t of
      Inl r \<Rightarrow> (\<forall>c u. r = Some (c, u) \<longrightarrow> ?same u) | Inr u \<Rightarrow> ?same u" if "?same t" for e t
  proof -
    obtain d w where c: "securityfs_create_file k (ent_name (ents t e)) 384 (dirent t) 1
        (ent_fops (ents t e)) (world t) = (d, w)" by fastforce
    have ft: "registered w = registered (world s)" "ips w = ips (world s)"
      using file_ft [of "ent_name (ents t e)" 384 "dirent t" 1 "ent_fops (ents t e)" "world t"] c that
      by simp_all
    have "listed (t\<lparr>world := w\<rparr>) es" using that by (simp add: listed_def)
    from sfs_exit_ft [OF this] show ?thesis
      using c ft that by (auto simp: init_body_def call_world_def listed_def)
  qed
  obtain d w where c: "securityfs_create_dir k BASENAME (world s) = (d, w)" by fastforce
  define s2 where "s2 = s\<lparr>world := w, dirent := d\<rparr>"
  have s2: "?same s2" using assms(1) dir_ft [of BASENAME "world s"] c by (simp add: s2_def listed_def)
  have "TAILQ_FOREACH fsents fsents_head (init_body k) s2 = Some (fold_until (init_body k) es s2)"
    by (rule TAILQ_FOREACH_fold)
      (use s2 in \<open>auto simp: listed_def init_body_def call_world_def Let_def split: prod.splits if_splits\<close>)
  moreover have "case fold_until (init_body k) es s2 of
      Inl r \<Rightarrow> (\<forall>c u. r = Some (c, u) \<longrightarrow> ?same u) | Inr u \<Rightarrow> ?same u"
    by (rule fold_until_invariant) (use s2 step in auto)
  ultimately show ?thesis
    using assms(2) c s2
    by (auto simp: securityfs_init_def call_world_def s2_def [symmetric] split: if_splits sum.splits)
qed

lemma fold_hook_dv:
  "misc (world (fold (hook1 k) fs s)) = misc (world s)"
  "dentries (world (fold (hook1 k) fs s)) = dentries (world s)"
proof -
  have "(misc (world (hook1 k i s)), dentries (world (hook1 k i s))) = (misc (world s), dentries (world s))" for i s
    using hook1_world [of "\<lambda>w. (misc w, dentries w)" k i s] kprobe_dv unkprobe_dv lookup_dv set_ip_dv
      register_dv by simp
  then show "misc (world (fold (hook1 k) fs s)) = misc (world s)"
    "dentries (world (fold (hook1 k) fs s)) = dentries (world s)"
    by (induction fs arbitrary: s) auto
qed

lemma fold_unhook_dv:
  "misc (world (fold (unhook1 k) fs s)) = misc (world s)"
  "dentries (world (fold (unhook1 k) fs s)) = dentries (world s)"
proof -
  have "(misc (world (unhook1 k i s)), dentries (world (unhook1 k i s))) = (misc (world s), dentries (world s))" for i s
    using unhook1_world [of "\<lambda>w. (misc w, dentries w)" k i s] set_ip_dv unregister_dv by simp
  then show "misc (world (fold (unhook1 k) fs s)) = misc (world s)"
    "dentries (world (fold (unhook1 k) fs s)) = dentries (world s)"
    by (induction fs arbitrary: s) auto
qed

end

text \<open>Everything outside the module is as in \<open>s1\<close>, as far as the module could have changed it.\<close>

definition clean :: "('w \<Rightarrow> nat set) \<Rightarrow> ('w \<Rightarrow> nat \<Rightarrow> 64 word set) \<Rightarrow> ('w \<Rightarrow> bool) \<Rightarrow> ('w \<Rightarrow> 64 word set) \<Rightarrow>
    'w kmod \<Rightarrow> 'w kmod \<Rightarrow> bool" where
  "clean registered ips misc dentries s1 t \<longleftrightarrow>
     registered (world t) = registered (world s1) \<and> ips (world t) = ips (world s1) \<and>
     misc (world t) = misc (world s1) \<and> dentries (world t) = dentries (world s1)"

text \<open>The state between the registration of the device and the hooking of the filters.\<close>

definition ready :: "'w kapi \<Rightarrow> ('w \<Rightarrow> nat set) \<Rightarrow> ('w \<Rightarrow> nat \<Rightarrow> 64 word set) \<Rightarrow> ('w \<Rightarrow> bool) \<Rightarrow>
    ('w \<Rightarrow> 64 word set) \<Rightarrow> nat list \<Rightarrow> 'w kmod \<Rightarrow> 'w kmod \<Rightarrow> bool" where
  "ready k registered ips misc dentries es s1 s3 \<longleftrightarrow>
     same_core s1 s3 \<and> misc (world s3) \<and>
     registered (world s3) = registered (world s1) \<and> ips (world s3) = ips (world s1) \<and>
     (sfs_inv k dentries (dentries (world s1)) es s3 \<or>
      dirent s3 = 0 \<and> made s3 es = {} \<and> dentries (world s3) = dentries (world s1))"

context kernel
begin

lemma removal_restores:
  assumes "sfs_inv k dentries D es s \<or> dirent s = 0 \<and> made s es = {} \<and> dentries (world s) = D"
  shows "dentries (world s) - made s es - (if is_err_or_null k (dirent s) then {} else {dirent s}) = D"
  using assms err_null by (auto simp: sfs_inv_def)

lemma kmain_init_cases:
  assumes "queued s1 fs" and "listed s1 es" and "\<forall>e\<in>set es. ent_dentry (ents s1 e) = 0"
    and "\<not> misc (world s1)" and "s1 = ctor_init ctors s"
  shows "(\<exists>s3. kmain_init k ctors dtors s = Some (0, fold (hook1 k) fs s3) \<and>
            ready k registered ips misc dentries es s1 s3) \<or>
    (\<exists>r t. r \<noteq> 0 \<and> kmain_init k ctors dtors s = Some (r, dtor_exit dtors t) \<and>
            clean registered ips misc dentries s1 t)"
proof -
  obtain r s2 where i: "securityfs_init k s1 = Some (r, s2)" "same_core s1 s2"
      "misc (world s2) = misc (world s1)"
      "if r < 0 then dentries (world s2) = dentries (world s1)
       else r = 0 \<and> (sfs_inv k dentries (dentries (world s1)) es s2 \<or>
          dirent s2 = 0 \<and> made s2 es = {} \<and> dentries (world s2) = dentries (world s1))"
    using securityfs_init_cases [OF assms(2,3)] by blast
  note ft = sfs_init_ft [OF assms(2) i(1)]
  have q2: "queued s2 fs" "listed s2 es" using i(2) assms(1,2) same_core_queued same_core_listed by blast+
  show ?thesis
  proof (cases "r < 0")
    case True
    then have "kmain_init k ctors dtors s = Some (r, dtor_exit dtors s2)"
      using i(1) assms(5) by (simp add: kmain_init_def)
    moreover have "clean registered ips misc dentries s1 s2"
      using True i ft by (simp add: clean_def)
    moreover have "r \<noteq> 0" using True by simp
    ultimately show ?thesis by blast
  next
    case False
    obtain e w where m: "misc_register k (world s2) = (e, w)" by fastforce
    define s3 where "s3 = s2\<lparr>world := w\<rparr>"
    have q3: "queued s3 fs" "listed s3 es" using q2 by (simp_all add: s3_def queued_def listed_def)
    have ft3: "registered w = registered (world s1)" "ips w = ips (world s1)"
      using misc_reg_ft [of "world s2"] m ft by simp_all
    have dv3: "dentries w = dentries (world s2)"
      using misc_register_ok [of "world s2" w] misc_register_fail [OF m] m by (cases "e = 0") auto
    then have sfs3: "sfs_inv k dentries (dentries (world s1)) es s3 \<or>
        dirent s3 = 0 \<and> made s3 es = {} \<and> dentries (world s3) = dentries (world s1)"
      using i(4) False by (auto simp: s3_def sfs_inv_def made_def)
    show ?thesis
    proof (cases "e = 0")
      case True
      have "kmain_init k ctors dtors s = Some (0, fold (hook1 k) fs s3)"
        using i(1) assms(5) False m True filter_hook_result [OF q3(1), of k]
        by (simp add: kmain_init_def call_world_def s3_def)
      moreover have "ready k registered ips misc dentries es s1 s3"
        using i(2) sfs3 ft3 misc_register_ok [of "world s2" w] m True
        by (auto simp: ready_def same_core_def s3_def)
      ultimately show ?thesis by blast
    next
      case False
      note e = False
      obtain v where v: "securityfs_exit k s3 = Some (s3\<lparr>world := v\<rparr>)" "registered v = registered (world s3)"
          "ips v = ips (world s3)" "misc v = misc (world s3)" "dentries v = dentries (world s1)"
        using securityfs_exit_all [OF q3(2)] removal_restores [OF sfs3] by auto
      have "kmain_init k ctors dtors s = Some (e, dtor_exit dtors (s3\<lparr>world := v\<rparr>))"
        using i(1) assms(5) \<open>\<not> r < 0\<close> m e v(1) by (simp add: kmain_init_def call_world_def s3_def)
      moreover have "clean registered ips misc dentries s1 (s3\<lparr>world := v\<rparr>)"
        using v ft3 i(3) misc_register_fail [OF m e] by (simp add: clean_def s3_def)
      ultimately show ?thesis using e by blast
    qed
  qed
qed

end

section \<open>The module as shipped\<close>

lemma fsent_register_rest [simp]:
  "world (fsent_register e s) = world s" "flts (fsent_register e s) = flts s"
  "filters (fsent_register e s) = filters s" "ents (fsent_register e s) = ents s"
  "alloc_count (fsent_register e s) = alloc_count s"
  by (simp_all add: fsent_register_def)

lemma module_ctors_world:
  fixes w :: 'w
  defines "s \<equiv> ctor_init module_ctors (kmod0 module_filters module_ents w)"
  shows "world s = w" "filters s = module_filters" "ents s = module_ents" "alloc_count s = 0"
  unfolding s_def by (simp_all add: ctor_init_runs_all module_ctors_def) (simp_all add: kmod0_def)

lemma fsents_after:
  "listed (fold fsent_register es (kmod0 fs en w)) es" if "distinct es"
proof -
  have "fsents (fold fsent_register es s) = fold (TAILQ_INSERT_TAIL fsents_head) es (fsents s)" for s :: "'a kmod"
    by (induction es arbitrary: s) (simp_all add: fsent_register_def)
  then show ?thesis
    using tq.insert_tail_all [of qmem0 fsents_head "[]" es] that by (simp add: listed_def kmod0_def)
qed

lemma module_ctors_queued:
  "queued (ctor_init module_ctors (kmod0 module_filters module_ents w)) [1, 2, 3]"
  "listed (ctor_init module_ctors (kmod0 module_filters module_ents w)) [1, 2]"
proof -
  let ?e = "fold fsent_register [1, 2] (kmod0 module_filters module_ents w)"
  have eq: "ctor_init module_ctors (kmod0 module_filters module_ents w) = fold filter_register [1, 2, 3] ?e"
    by (simp add: ctor_init_runs_all module_ctors_def)
  have "queued ?e []" using kmod0_queued by (simp add: queued_def)
  then have "queued (fold filter_register [1, 2, 3] ?e) [1, 2, 3]"
    using filter_register_queued [of ?e "[]" "[1, 2, 3]"] by simp
  moreover have "listed (fold filter_register [1, 2, 3] ?e) [1, 2]"
    using fsents_after [of "[1, 2]" module_filters module_ents w] by (simp add: listed_def)
  ultimately show "queued (ctor_init module_ctors (kmod0 module_filters module_ents w)) [1, 2, 3]"
    "listed (ctor_init module_ctors (kmod0 module_filters module_ents w)) [1, 2]"
    unfolding eq by simp_all
qed

section \<open>Properties\<close>

text \<open>
  Start-up of the module as shipped: from the zero-initialised data the constructor table queues
  exactly the three filters of \<open>flt_kernel.c\<close> and exactly the two files, in link order.
\<close>

theorem module_ctors_queue:
  "queued (ctor_init module_ctors (kmod0 module_filters module_ents w)) [1, 2, 3] \<and>
   listed (ctor_init module_ctors (kmod0 module_filters module_ents w)) [1, 2]"
  by (intro conjI module_ctors_queued)

text \<open>
  C2. Loading either succeeds with the device registered and every filter settled, or fails with a
  non-zero code after having released everything it acquired: whatever step failed, what the
  destructors then see is a kernel with the same ftrace operations, address filters, device and
  securityfs dentries as before the load.
\<close>

theorem kmain_init_all_or_nothing:
  assumes "kernel k registered ips misc dentries"
    and "queued (ctor_init ctors s) fs" and "listed (ctor_init ctors s) es"
    and "\<forall>e\<in>set es. ent_dentry (ents (ctor_init ctors s) e) = 0"
    and "\<forall>i\<in>set fs. idle (fview registered ips (ctor_init ctors s) i)"
    and "\<not> misc (world (ctor_init ctors s))"
  shows "\<exists>r s'. kmain_init k ctors dtors s = Some (r, s') \<and>
    (if r = 0 then misc (world s') \<and> (\<forall>i\<in>set fs. settled (fview registered ips s' i))
     else \<exists>t. s' = dtor_exit dtors t \<and> clean registered ips misc dentries (ctor_init ctors s) t)"
proof -
  consider (ok) s3 where "kmain_init k ctors dtors s = Some (0, fold (hook1 k) fs s3)"
      "ready k registered ips misc dentries es (ctor_init ctors s) s3"
    | (fail) r t where "r \<noteq> 0" "kmain_init k ctors dtors s = Some (r, dtor_exit dtors t)"
      "clean registered ips misc dentries (ctor_init ctors s) t"
    using kernel.kmain_init_cases [OF assms(1-4,6) refl, of dtors] by blast
  then show ?thesis
  proof cases
    case ok
    have ft: "kernel_ftrace_total k registered ips" using assms(1) by (simp add: kernel_def)
    have "distinct fs" using assms(2) tq.rep_distinct by (auto simp: queued_def)
    moreover have "\<forall>i\<in>set fs. idle (fview registered ips s3 i)"
      using assms(5) ok(2) by (simp add: ready_def fview_def idle_def)
    ultimately have "\<forall>i\<in>set fs. settled (fview registered ips (fold (hook1 k) fs s3) i)"
      using kernel_ftrace_total.hook_all [OF ft] by blast
    moreover have "misc (world (fold (hook1 k) fs s3))"
      using ok(2) kernel.fold_hook_dv [OF assms(1)] by (simp add: ready_def)
    ultimately show ?thesis using ok(1) by simp
  next
    case fail
    then show ?thesis by auto
  qed
qed

lemma module_start:
  defines "s1 \<equiv> ctor_init module_ctors (kmod0 module_filters module_ents world0)"
  shows "queued s1 [1, 2, 3]" "listed s1 [1, 2]" "\<forall>e\<in>set [1, 2]. ent_dentry (ents s1 e) = 0"
    "\<forall>i\<in>set [1, 2, 3]. idle (fview w_registered w_ips s1 i)" "\<not> w_misc (world s1)"
    "alloc_count s1 = 0" "w_registered (world s1) = {}" "w_dentries (world s1) = {}"
    "w_ips (world s1) = (\<lambda>_. {})"
  using module_ctors_queued [of world0] module_ctors_world [of world0]
  by (simp_all add: s1_def module_ents_def SYSFS_ENT_DEFINE_def fview_def idle_def world0_def)

theorem kmain_init_all_or_nothing_witness:
  "\<exists>r s'. kmain_init ref_kernel module_ctors [] (kmod0 module_filters module_ents world0) = Some (r, s') \<and>
    (if r = 0 then w_misc (world s') \<and> (\<forall>i\<in>set [1, 2, 3]. settled (fview w_registered w_ips s' i))
     else \<exists>t. s' = dtor_exit [] t \<and> clean w_registered w_ips w_misc w_dentries
       (ctor_init module_ctors (kmod0 module_filters module_ents world0)) t)"
  by (rule kmain_init_all_or_nothing [OF rkk.kernel_axioms module_start(1-5)])

lemma same_core_rest: "same_core s t \<Longrightarrow> alloc_count t = alloc_count s"
  by (simp add: same_core_def)

lemma sanity_same_rest:
  assumes "filter_sanity msleep s = Some (r, s')" and "\<And>n t. same_rest t (msleep n t)"
  shows "same_rest s s'"
  using filter_sanity_keeps [OF assms(1), of "\<lambda>t. (flts t, fsents t, ents t, dirent t, alloc_count t)"]
    assms(2) by (simp add: same_rest_def)

context kernel
begin

text \<open>Unloading from the state that loading left: the wait ends and everything is undone.\<close>

lemma kmain_exit_clean:
  assumes ready: "ready k registered ips misc dentries es s1 s3"
    and "queued s1 fs" and "listed s1 es" and "\<forall>i\<in>set fs. idle (fview registered ips s1 i)"
    and "\<not> misc (world s1)" and "alloc_count s1 = 0"
    and sleep: "\<And>n t. same_rest t (msleep n t)"
    and views: "\<And>n t. clean registered ips misc dentries t (msleep n t)"
    and drains: "\<And>t. \<exists>n. inuse ((msleep 10 ^^ n) t) fs = 0"
  shows "\<exists>t. kmain_exit k msleep [] (fold (hook1 k) fs s3) = Some t \<and> clean registered ips misc dentries s1 t"
proof -
  let ?h = "fold (hook1 k) fs s3"
  let ?u = "fold (unhook1 k) fs ?h"
  have core: "same_core s1 s3" using ready by (simp add: ready_def)
  have q3: "queued s3 fs" "listed s3 es"
    using core assms(2,3) same_core_queued same_core_listed by blast+
  have rest: "same_rest s3 ?h" "same_rest ?h ?u"
    by (rule fold_same_rest, rule hook1_same_rest unhook1_same_rest)+
  then have qh: "queued ?h fs" "queued ?u fs" "listed ?u es"
    using q3 same_rest_queued same_rest_listed by blast+
  obtain n where "inuse ((msleep 10 ^^ n) ?u) fs = 0" using drains by blast
  then obtain s4 where s4: "filter_sanity msleep ?u = Some (0, s4)"
    using sanity_total [of fs msleep ?u n] qh(2) sleep same_rest_queued by blast
  then have un: "filter_unhook k msleep ?h = Some (0, s4)" using filter_unhook_result [OF qh(1)] by simp
  have r4: "same_rest s3 s4" using sanity_same_rest [OF s4 sleep] rest same_rest_trans by blast
  have "distinct fs" using assms(2) tq.rep_distinct by (auto simp: queued_def)
  moreover have "\<And>i. i \<in> set fs \<Longrightarrow> idle (fview registered ips s3 i)"
    using assms(4) ready by (simp add: ready_def fview_def idle_def)
  ultimately have "registered (world ?u) = registered (world s3)" "ips (world ?u) = ips (world s3)"
    using hook_unhook_world [of fs s3] by blast+
  moreover have "registered (world s4) = registered (world ?u)" "ips (world s4) = ips (world ?u)"
      "misc (world s4) = misc (world ?u)" "dentries (world s4) = dentries (world ?u)"
    using filter_sanity_keeps [OF s4, of "\<lambda>t. (registered (world t), ips (world t), misc (world t), dentries (world t))"]
      views by (simp_all add: clean_def)
  ultimately have w4: "registered (world s4) = registered (world s1)" "ips (world s4) = ips (world s1)"
      "dentries (world s4) = dentries (world s3)"
    using ready by (simp_all add: ready_def fold_hook_dv fold_unhook_dv)
  define s5 where "s5 = s4\<lparr>world := misc_deregister k (world s4)\<rparr>"
  have l5: "listed s5 es" using r4 q3(2) same_rest_listed by (simp add: s5_def listed_def same_rest_def)
  have "sfs_inv k dentries (dentries (world s1)) es s5 \<or>
      dirent s5 = 0 \<and> made s5 es = {} \<and> dentries (world s5) = dentries (world s1)"
    using ready r4 w4(3) misc_deregister_ok [of "world s4"]
    by (simp add: ready_def s5_def sfs_inv_def made_def same_rest_def)
  note gone = removal_restores [OF this]
  obtain v where v: "securityfs_exit k s5 = Some (s5\<lparr>world := v\<rparr>)" "registered v = registered (world s5)"
      "ips v = ips (world s5)" "misc v = misc (world s5)" "dentries v = dentries (world s1)"
    using securityfs_exit_all [OF l5] gone by auto
  have "alloc_count s5 = 0" using r4 core assms(6) by (simp add: s5_def same_rest_def same_core_def)
  then have "kmain_exit k msleep [] ?h = Some (s5\<lparr>world := v\<rparr>)"
    using un v(1) by (simp add: kmain_exit_def s5_def dtor_exit_def ctor_walk_fold kmem_alloc_sanity_def
        List.map_filter_simps)
  moreover have "clean registered ips misc dentries s1 (s5\<lparr>world := v\<rparr>)"
    using v w4 misc_dereg_ft [of "world s4"] misc_deregister_ok [of "world s4"] assms(5)
    by (simp add: clean_def s5_def)
  ultimately show ?thesis by blast
qed

end

text \<open>
  C1. Load and unload is a round trip: after a successful load, if the calls in flight drain and the
  module holds no memory, unloading ends without a bug check and leaves ftrace, the device and
  securityfs as they were before the load.
\<close>

theorem kmain_load_unload:
  assumes "kernel k registered ips misc dentries"
    and "queued (ctor_init ctors s) fs" and "listed (ctor_init ctors s) es"
    and "\<forall>e\<in>set es. ent_dentry (ents (ctor_init ctors s) e) = 0"
    and "\<forall>i\<in>set fs. idle (fview registered ips (ctor_init ctors s) i)"
    and "\<not> misc (world (ctor_init ctors s))" and "alloc_count (ctor_init ctors s) = 0"
    and "\<And>n t. same_rest t (msleep n t)" and "\<And>n t. clean registered ips misc dentries t (msleep n t)"
    and "\<And>t. \<exists>n. inuse ((msleep 10 ^^ n) t) fs = 0"
    and "kmain_init k ctors [] s = Some (0, s')"
  shows "\<exists>t. kmain_exit k msleep [] s' = Some t \<and> clean registered ips misc dentries (ctor_init ctors s) t"
proof -
  obtain s3 where "s' = fold (hook1 k) fs s3"
      "ready k registered ips misc dentries es (ctor_init ctors s) s3"
    using kernel.kmain_init_cases [OF assms(1-4,6) refl, of "[]"] assms(11) by fastforce
  then show ?thesis
    using kernel.kmain_exit_clean [OF assms(1) _ assms(2,3,5,6,7)] assms(8-10) by blast
qed

text \<open>A sleep that lets all calls finish.\<close>

definition quiet_sleep :: "nat \<Rightarrow> 'w kmod \<Rightarrow> 'w kmod" where
  "quiet_sleep n s = s\<lparr>filters := (\<lambda>i. (filters s i)\<lparr>flt_watchdog := 0\<rparr>)\<rparr>"

lemma module_loads:
  "map_option fst (kmain_init ref_kernel module_ctors [] (kmod0 module_filters module_ents world0)) = Some 0"
  by code_simp

theorem kmain_load_unload_witness:
  "\<exists>s' t. kmain_init ref_kernel module_ctors [] (kmod0 module_filters module_ents world0) = Some (0, s') \<and>
    kmain_exit ref_kernel quiet_sleep [] s' = Some t \<and> clean w_registered w_ips w_misc w_dentries
      (ctor_init module_ctors (kmod0 module_filters module_ents world0)) t"
proof -
  obtain s' where s': "kmain_init ref_kernel module_ctors [] (kmod0 module_filters module_ents world0) = Some (0, s')"
    using module_loads by auto
  have "same_rest t (quiet_sleep n t)" "clean w_registered w_ips w_misc w_dentries t (quiet_sleep n t)"
    for n and t :: "kworld kmod"
    by (simp_all add: quiet_sleep_def same_rest_def clean_def)
  moreover have "inuse ((quiet_sleep 10 ^^ 1) t) [1, 2, 3] = 0" for t :: "kworld kmod"
    by (simp add: inuse_def quiet_sleep_def)
  then have "\<exists>n. inuse ((quiet_sleep 10 ^^ n) t) [1, 2, 3] = 0" for t :: "kworld kmod" by blast
  ultimately show ?thesis
    using kmain_load_unload [OF rkk.kernel_axioms module_start(1-6), of quiet_sleep s'] s' by blast
qed

end
