(* ===== verification/Unload_Race.thy ===== *)
theory Unload_Race
  imports Kmain
begin

text \<open>
  Unloading against calls in flight. Threads enter a hooked function, are redirected by the ftrace
  callback, and run the wrapper of \<open>src/kmod/filter.h\<close> (increment of the watchdog, body, decrement,
  return); the unloader of \<open>src/kmod/filter.c\<close> and \<open>kmain.c\<close> unhooks the filters one by one, adds up
  the watchdogs one by one, sleeps while the sum is not 0, and finally the module text is freed.
  Each transition is one atomic access of the code; threads and the unloader interleave freely.

  The code relies on 10 ms sleeps to let threads cross the windows in which they run
  module text without being counted (between the redirection and the increment, and between
  the decrement and the return). \<open>grace\<close> says whether that reliance is justified: with \<open>grace\<close> the
  scan starts only when no thread is in the first window and the text is freed only when none is
  in the second; without it the sleeps guarantee nothing, as in the source, where a comment
  marks the gap.
\<close>

datatype pc = Outside | Redirected nat | Counted nat | Leaving nat

datatype upc = Loaded | Unhooking nat | Scanning nat int | Sleeping | Drained | Freed

record sys =
  pcs :: "nat \<Rightarrow> pc"
  hooked :: "nat \<Rightarrow> bool"
  watch :: "nat \<Rightarrow> int"
  unl :: upc

inductive step :: "bool \<Rightarrow> nat \<Rightarrow> sys \<Rightarrow> sys \<Rightarrow> bool" for grace n where
  redirect: "pcs s t = Outside \<Longrightarrow> f < n \<Longrightarrow> hooked s f \<Longrightarrow>
     step grace n s (s\<lparr>pcs := (pcs s)(t := Redirected f)\<rparr>)"
| enter: "pcs s t = Redirected f \<Longrightarrow>
     step grace n s (s\<lparr>pcs := (pcs s)(t := Counted f), watch := (watch s)(f := watch s f + 1)\<rparr>)"
| leave: "pcs s t = Counted f \<Longrightarrow>
     step grace n s (s\<lparr>pcs := (pcs s)(t := Leaving f), watch := (watch s)(f := watch s f - 1)\<rparr>)"
| return: "pcs s t = Leaving f \<Longrightarrow> step grace n s (s\<lparr>pcs := (pcs s)(t := Outside)\<rparr>)"
| start: "unl s = Loaded \<Longrightarrow> step grace n s (s\<lparr>unl := Unhooking 0\<rparr>)"
| unhook: "unl s = Unhooking i \<Longrightarrow> i < n \<Longrightarrow>
     step grace n s (s\<lparr>hooked := (hooked s)(i := False), unl := Unhooking (Suc i)\<rparr>)"
| scan: "unl s = Unhooking n \<or> unl s = Sleeping \<Longrightarrow>
     (grace \<Longrightarrow> \<forall>t f. pcs s t \<noteq> Redirected f) \<Longrightarrow> step grace n s (s\<lparr>unl := Scanning 0 0\<rparr>)"
| read: "unl s = Scanning i acc \<Longrightarrow> i < n \<Longrightarrow>
     step grace n s (s\<lparr>unl := Scanning (Suc i) (acc + watch s i)\<rparr>)"
| wait: "unl s = Scanning n acc \<Longrightarrow> acc \<noteq> 0 \<Longrightarrow> step grace n s (s\<lparr>unl := Sleeping\<rparr>)"
| drained: "unl s = Scanning n 0 \<Longrightarrow> step grace n s (s\<lparr>unl := Drained\<rparr>)"
| free: "unl s = Drained \<Longrightarrow> (grace \<Longrightarrow> \<forall>t f. pcs s t \<noteq> Leaving f) \<Longrightarrow>
     step grace n s (s\<lparr>unl := Freed\<rparr>)"

text \<open>The loaded module with all filters hooked and no thread in a filter.\<close>

definition start_sys :: sys where
  "start_sys = \<lparr>pcs = (\<lambda>_. Outside), hooked = (\<lambda>_. True), watch = (\<lambda>_. 0), unl = Loaded\<rparr>"

inductive reachable :: "bool \<Rightarrow> nat \<Rightarrow> sys \<Rightarrow> bool" for grace n where
  init: "reachable grace n start_sys"
| next_step: "reachable grace n s \<Longrightarrow> step grace n s s' \<Longrightarrow> reachable grace n s'"

inductive_cases step_elim [elim]: "step grace n s s'"

section \<open>The watchdog counts the threads in the body\<close>

definition inside :: "sys \<Rightarrow> nat \<Rightarrow> nat set" where
  "inside s f = {t. pcs s t = Counted f}"

definition counts :: "sys \<Rightarrow> bool" where
  "counts s \<longleftrightarrow> finite {t. pcs s t \<noteq> Outside} \<and> (\<forall>f. watch s f = int (card (inside s f)))"

definition ranged :: "nat \<Rightarrow> sys \<Rightarrow> bool" where
  "ranged n s \<longleftrightarrow> (\<forall>t f. pcs s t \<in> {Redirected f, Counted f, Leaving f} \<longrightarrow> f < n)"

lemma counts_finite_inside: "counts s \<Longrightarrow> finite (inside s f)"
  by (rule finite_subset [of _ "{t. pcs s t \<noteq> Outside}"]) (auto simp: inside_def counts_def)

lemma counts_move:
  assumes "counts s" and "\<And>f. pcs s t \<noteq> Counted f" and "\<And>f. p \<noteq> Counted f"
  shows "counts (s\<lparr>pcs := (pcs s)(t := p)\<rparr>)"
proof -
  have "{u. ((pcs s)(t := p)) u \<noteq> Outside} \<subseteq> insert t {u. pcs s u \<noteq> Outside}" by auto
  moreover have "inside (s\<lparr>pcs := (pcs s)(t := p)\<rparr>) f = inside s f" for f
    using assms(2,3) by (auto simp: inside_def)
  ultimately show ?thesis
    using assms(1) by (auto simp: counts_def intro: finite_subset [of _ "insert t {u. pcs s u \<noteq> Outside}"])
qed

lemma counts_enter:
  assumes "counts s" and "pcs s t = Redirected f"
  shows "counts (s\<lparr>pcs := (pcs s)(t := Counted f), watch := (watch s)(f := watch s f + 1)\<rparr>)"
proof -
  let ?s' = "s\<lparr>pcs := (pcs s)(t := Counted f), watch := (watch s)(f := watch s f + 1)\<rparr>"
  have "{u. pcs ?s' u \<noteq> Outside} \<subseteq> insert t {u. pcs s u \<noteq> Outside}" by auto
  moreover have "inside ?s' f = insert t (inside s f)" "t \<notin> inside s f"
    using assms(2) by (auto simp: inside_def)
  moreover have "inside ?s' g = inside s g" if "g \<noteq> f" for g
    using assms(2) that by (auto simp: inside_def)
  ultimately show ?thesis
    using assms(1) counts_finite_inside [OF assms(1), of f]
    by (auto simp: counts_def intro: finite_subset [of _ "insert t {u. pcs s u \<noteq> Outside}"])
qed

lemma counts_leave:
  assumes "counts s" and "pcs s t = Counted f"
  shows "counts (s\<lparr>pcs := (pcs s)(t := Leaving f), watch := (watch s)(f := watch s f - 1)\<rparr>)"
proof -
  let ?s' = "s\<lparr>pcs := (pcs s)(t := Leaving f), watch := (watch s)(f := watch s f - 1)\<rparr>"
  have "{u. pcs ?s' u \<noteq> Outside} \<subseteq> insert t {u. pcs s u \<noteq> Outside}" by auto
  moreover have "inside ?s' f = inside s f - {t}" "t \<in> inside s f"
    using assms(2) by (auto simp: inside_def)
  moreover from this(2) have "0 < card (inside s f)"
    using counts_finite_inside [OF assms(1)] by (auto simp: card_gt_0_iff)
  moreover have "inside ?s' g = inside s g" if "g \<noteq> f" for g
    using assms(2) that by (auto simp: inside_def)
  ultimately show ?thesis
    using assms(1) counts_finite_inside [OF assms(1), of f]
    by (auto simp: counts_def card_Diff_singleton of_nat_diff
        intro: finite_subset [of _ "insert t {u. pcs s u \<noteq> Outside}"])
qed

lemma counts_unl: "counts (s\<lparr>unl := u\<rparr>) = counts s" "counts (s\<lparr>hooked := h\<rparr>) = counts s"
  by (simp_all add: counts_def inside_def)

lemma step_counts: "step grace n s s' \<Longrightarrow> counts s \<Longrightarrow> counts s'"
  by (elim step_elim) (auto simp: counts_unl counts_move counts_enter counts_leave)

lemma reachable_counts: "reachable grace n s \<Longrightarrow> counts s"
proof (induction rule: reachable.induct)
  case init
  show ?case by (simp add: start_sys_def counts_def inside_def)
next
  case (next_step s s')
  then show ?case by (simp add: step_counts)
qed

lemma step_ranged: "step grace n s s' \<Longrightarrow> ranged n s \<Longrightarrow> ranged n s'"
  by (elim step_elim) (auto simp: ranged_def split: if_splits)

lemma reachable_ranged: "reachable grace n s \<Longrightarrow> ranged n s"
proof (induction rule: reachable.induct)
  case init
  show ?case by (simp add: start_sys_def ranged_def)
next
  case (next_step s s')
  then show ?case using step_ranged by blast
qed

section \<open>Safety when the sleeps are long enough\<close>

text \<open>
  What holds in each phase of the unloader: hooks disappear in order, with \<open>grace\<close> nobody is between
  redirection and increment once the scan has begun, watchdogs that were read as 0 stay 0, and at
  the end no thread runs module text.
\<close>

definition phase :: "nat \<Rightarrow> sys \<Rightarrow> bool" where
  "phase n s =
     (let calm = (\<forall>f<n. \<not> hooked s f) \<and> (\<forall>t f. pcs s t \<noteq> Redirected f)
      in case unl s of
           Loaded \<Rightarrow> True
         | Unhooking i \<Rightarrow> (\<forall>f<i. \<not> hooked s f)
         | Scanning i acc \<Rightarrow> calm \<and> 0 \<le> acc \<and> (acc = 0 \<longrightarrow> (\<forall>f<i. watch s f = 0))
         | Sleeping \<Rightarrow> calm
         | Drained \<Rightarrow> calm \<and> (\<forall>f<n. watch s f = 0)
         | Freed \<Rightarrow> calm \<and> (\<forall>t. pcs s t = Outside))"

lemma counts_watch_nonneg: "counts s \<Longrightarrow> 0 \<le> watch s f"
  by (simp add: counts_def)

lemma counts_watch_zero:
  assumes "counts s" and "watch s f = 0" shows "pcs s t \<noteq> Counted f"
  using assms counts_finite_inside [OF assms(1), of f] by (auto simp: counts_def inside_def)

lemma drained_all_outside:
  assumes "counts s" "ranged n s" "\<forall>f<n. watch s f = 0" "\<forall>t f. pcs s t \<noteq> Redirected f"
    "\<forall>t f. pcs s t \<noteq> Leaving f"
  shows "pcs s t = Outside"
proof (cases "pcs s t")
  case (Counted f)
  then have "f < n" using assms(2) by (auto simp: ranged_def)
  then show ?thesis using assms(1,3) counts_watch_zero [of s f t] Counted by blast
qed (use assms in auto)

lemma step_phase:
  assumes "step True n s s'" and "counts s" and "ranged n s" and "phase n s"
  shows "phase n s'"
  using assms(1)
proof cases
  case (redirect t f)
  then show ?thesis using assms(4) by (auto simp: phase_def Let_def split: upc.splits)
next
  case (enter t f)
  then show ?thesis using assms(4) by (auto simp: phase_def Let_def split: upc.splits)
next
  case (leave t f)
  then have "watch s f \<noteq> 0" "f < n"
    using counts_watch_zero [OF assms(2)] assms(3) by (auto simp: ranged_def)
  then show ?thesis using leave assms(4) by (auto simp: phase_def Let_def split: upc.splits)
next
  case (return t f)
  then show ?thesis using assms(4) by (auto simp: phase_def Let_def split: upc.splits)
next
  case (read i acc)
  then show ?thesis
    using assms(4) counts_watch_nonneg [OF assms(2), of i] by (auto simp: phase_def Let_def less_Suc_eq)
next
  case (unhook i)
  then show ?thesis using assms(4) by (auto simp: phase_def less_Suc_eq)
next
  case free
  then show ?thesis
    using assms(4) drained_all_outside [OF assms(2,3)] by (auto simp: phase_def Let_def)
qed (use assms(4) in \<open>auto simp: phase_def Let_def\<close>)

lemma reachable_phase: "reachable True n s \<Longrightarrow> phase n s"
proof (induction rule: reachable.induct)
  case init
  show ?case by (simp add: start_sys_def phase_def)
next
  case (next_step s s')
  then show ?case using step_phase reachable_counts reachable_ranged by blast
qed

section \<open>Runs of the three filters\<close>

text \<open>The unloader running on its own from the loaded state to the freed module.\<close>

lemma unload_run:
  assumes "reachable grace 3 s" and "unl s = Loaded" and "watch s = (\<lambda>_. 0)"
    and "grace \<Longrightarrow> \<forall>t. pcs s t = Outside"
  shows "\<exists>h. reachable grace 3 (s\<lparr>hooked := h, unl := Freed\<rparr>)"
proof -
  let ?s1 = "s\<lparr>unl := Unhooking 0\<rparr>"
  let ?s2 = "?s1\<lparr>hooked := (hooked ?s1)(0 := False), unl := Unhooking (Suc 0)\<rparr>"
  let ?s3 = "?s2\<lparr>hooked := (hooked ?s2)(Suc 0 := False), unl := Unhooking (Suc (Suc 0))\<rparr>"
  let ?s4 = "?s3\<lparr>hooked := (hooked ?s3)(Suc (Suc 0) := False), unl := Unhooking (Suc (Suc (Suc 0)))\<rparr>"
  let ?s5 = "?s4\<lparr>unl := Scanning 0 0\<rparr>"
  let ?s6 = "?s5\<lparr>unl := Scanning (Suc 0) (0 + watch ?s5 0)\<rparr>"
  let ?s7 = "?s6\<lparr>unl := Scanning (Suc (Suc 0)) (0 + watch ?s5 0 + watch ?s6 (Suc 0))\<rparr>"
  let ?s8 = "?s7\<lparr>unl := Scanning (Suc (Suc (Suc 0)))
      (0 + watch ?s5 0 + watch ?s6 (Suc 0) + watch ?s7 (Suc (Suc 0)))\<rparr>"
  let ?s9 = "?s8\<lparr>unl := Drained\<rparr>"
  let ?s10 = "?s9\<lparr>unl := Freed\<rparr>"
  have r1: "reachable grace 3 ?s1" by (rule next_step [OF assms(1) step.start]) (rule assms(2))
  have r2: "reachable grace 3 ?s2" by (rule next_step [OF r1 step.unhook]) simp_all
  have r3: "reachable grace 3 ?s3" by (rule next_step [OF r2 step.unhook]) simp_all
  have r4: "reachable grace 3 ?s4" by (rule next_step [OF r3 step.unhook]) simp_all
  have r5: "reachable grace 3 ?s5"
    by (rule next_step [OF r4 step.scan]) (use assms(4) in \<open>simp_all add: numeral_3_eq_3\<close>)
  have r6: "reachable grace 3 ?s6" by (rule next_step [OF r5 step.read]) simp_all
  have r7: "reachable grace 3 ?s7" by (rule next_step [OF r6 step.read]) simp_all
  have r8: "reachable grace 3 ?s8" by (rule next_step [OF r7 step.read]) simp_all
  have r9: "reachable grace 3 ?s9"
    by (rule next_step [OF r8 step.drained]) (simp add: assms(3) numeral_3_eq_3)
  have "reachable grace 3 ?s10"
    by (rule next_step [OF r9 step.free]) (use assms(4) in simp_all)
  then show ?thesis by auto
qed

section \<open>Properties\<close>






end
