(* ===== verification/Lua_Api.thy ===== *)
theory Lua_Api
  imports Prelude
begin

text \<open>
  The Lua C API as the bindings under \<open>src/daemon\<close> use it. Lua is not part of the repository: \<open>'v\<close> is
  the state of a Lua virtual machine and the record \<open>lua_api\<close> has one field per API function. The
  locale \<open>lua_vm\<close> states what the Lua manual says about them, in terms of the values on the stack, the
  integer keys of tables and the metatable names of userdata; the reference machine at the end
  keeps these laws.

  A C function that Lua calls is modelled as a function from the state of the daemon to its return
  value (the number of results on top of the stack) or the message of the Lua error it raised, and
  the state at that moment; \<open>None\<close> is a function that does not return. The state has the virtual machine, the memory of the userdata blocks
  (block, word offset) and \<open>'w\<close>, everything the libraries called by the bindings act on.
\<close>

datatype ltype =
    LUA_TNONE | LUA_TNIL | LUA_TBOOLEAN | LUA_TNUMBER | LUA_TSTRING | LUA_TTABLE | LUA_TFUNCTION
  | LUA_TUSERDATA | LUA_TLIGHTUSERDATA

datatype lval =
    LNil | LBool bool | LNum int | LStr string | LTab nat | LFun string | LUd nat | LLight "64 word"

text \<open>The pseudo-indices of Lua 5.1 for the registry, the globals and the upvalues of a C closure.\<close>

definition LUA_REGISTRYINDEX :: int where
  "LUA_REGISTRYINDEX = - 10000"

definition LUA_GLOBALSINDEX :: int where
  "LUA_GLOBALSINDEX = - 10002"

definition lua_upvalueindex :: "int \<Rightarrow> int" where
  "lua_upvalueindex i = LUA_GLOBALSINDEX - i"

record 'v lua_api =
  lua_type :: "'v \<Rightarrow> int \<Rightarrow> ltype"
  lua_gettop :: "'v \<Rightarrow> int"
  lua_settop :: "'v \<Rightarrow> int \<Rightarrow> 'v"
  lua_toboolean :: "'v \<Rightarrow> int \<Rightarrow> bool"
  lua_tointeger :: "'v \<Rightarrow> int \<Rightarrow> int"
  lua_tostring :: "'v \<Rightarrow> int \<Rightarrow> string"
  lua_rawgeti :: "'v \<Rightarrow> int \<Rightarrow> int \<Rightarrow> 'v"
  lua_rawseti :: "'v \<Rightarrow> int \<Rightarrow> int \<Rightarrow> 'v"
  lua_pushnil :: "'v \<Rightarrow> 'v"
  lua_pushboolean :: "'v \<Rightarrow> bool \<Rightarrow> 'v"
  lua_pushinteger :: "'v \<Rightarrow> int \<Rightarrow> 'v"
  lua_pushstring :: "'v \<Rightarrow> string \<Rightarrow> 'v"
  lua_pushcfunction :: "'v \<Rightarrow> string \<Rightarrow> 'v"
  lua_pushvalue :: "'v \<Rightarrow> int \<Rightarrow> 'v"
  lua_newtable :: "'v \<Rightarrow> 'v"
  lua_setfield :: "'v \<Rightarrow> int \<Rightarrow> string \<Rightarrow> 'v"
  lua_newuserdata :: "'v \<Rightarrow> nat \<times> 'v"
  lua_setmetatable :: "'v \<Rightarrow> int \<Rightarrow> 'v"
  luaL_getmetatable :: "'v \<Rightarrow> string \<Rightarrow> 'v"
  luaL_newmetatable :: "'v \<Rightarrow> string \<Rightarrow> 'v"
  luaL_checkudata :: "'v \<Rightarrow> int \<Rightarrow> string \<Rightarrow> string + nat"
  luaL_checkinteger :: "'v \<Rightarrow> int \<Rightarrow> string + int"
  luaL_checkstring :: "'v \<Rightarrow> int \<Rightarrow> string + string"
  luaL_optinteger :: "'v \<Rightarrow> int \<Rightarrow> int \<Rightarrow> string + int"
  lua_pushnumber :: "'v \<Rightarrow> int \<Rightarrow> 'v"
  lua_touserdata :: "'v \<Rightarrow> int \<Rightarrow> nat option"
  lua_getfield :: "'v \<Rightarrow> int \<Rightarrow> string \<Rightarrow> 'v"
  lua_isinteger :: "'v \<Rightarrow> int \<Rightarrow> bool"
  lua_objlen :: "'v \<Rightarrow> int \<Rightarrow> int"
  luaL_ref :: "'v \<Rightarrow> int \<times> 'v"
  luaL_unref :: "'v \<Rightarrow> int \<Rightarrow> 'v"
  lua_tonumber :: "'v \<Rightarrow> int \<Rightarrow> int"
  lua_isnumber :: "'v \<Rightarrow> int \<Rightarrow> bool"
  lua_pushlightuserdata :: "'v \<Rightarrow> 64 word \<Rightarrow> 'v"
  lua_pushcclosure :: "'v \<Rightarrow> string \<Rightarrow> int \<Rightarrow> 'v"
  lua_insert :: "'v \<Rightarrow> int \<Rightarrow> 'v"
  lua_remove :: "'v \<Rightarrow> int \<Rightarrow> 'v"
  lua_rawget :: "'v \<Rightarrow> int \<Rightarrow> 'v"
  lua_rawset :: "'v \<Rightarrow> int \<Rightarrow> 'v"
  lua_gettable :: "'v \<Rightarrow> int \<Rightarrow> 'v"
  lua_next :: "'v \<Rightarrow> int \<Rightarrow> bool \<times> 'v"
  lua_getmetatable :: "'v \<Rightarrow> int \<Rightarrow> 'v"
  lua_getfenv :: "'v \<Rightarrow> int \<Rightarrow> 'v"
  lua_setfenv :: "'v \<Rightarrow> int \<Rightarrow> 'v"
  lua_setglobal :: "'v \<Rightarrow> string \<Rightarrow> 'v"
  luaL_findtable :: "'v \<Rightarrow> int \<Rightarrow> string \<Rightarrow> 'v"
  luaL_loadbuffer :: "'v \<Rightarrow> string \<Rightarrow> int \<times> 'v"

record ('v, 'w) st =
  vm :: 'v
  mem :: "nat \<Rightarrow> nat \<Rightarrow> 64 word"
  os :: 'w

type_synonym ('v, 'w) ret = "((string + nat) \<times> ('v, 'w) st) option"

text \<open>The macros of \<open>lua.h\<close>.\<close>

definition lua_pop :: "'v lua_api \<Rightarrow> 'v \<Rightarrow> int \<Rightarrow> 'v" where
  "lua_pop A v n = lua_settop A v (- n - 1)"

definition lua_isnil :: "'v lua_api \<Rightarrow> 'v \<Rightarrow> int \<Rightarrow> bool" where
  "lua_isnil A v i \<longleftrightarrow> lua_type A v i = LUA_TNIL"

text \<open>
  \<open>luaL_optstring\<close> with the default NULL. \<open>lua_pushstring\<close> of a NULL pointer pushes nil. \<open>lua_pushnumber\<close>
  takes the integer that the code converts to a double.
\<close>

definition luaL_optstring :: "'v lua_api \<Rightarrow> 'v \<Rightarrow> int \<Rightarrow> string + string option" where
  "luaL_optstring A v i =
     (if lua_type A v i \<in> {LUA_TNONE, LUA_TNIL} then Inr None else map_sum id Some (luaL_checkstring A v i))"

definition lua_isstring :: "'v lua_api \<Rightarrow> 'v \<Rightarrow> int \<Rightarrow> bool" where
  "lua_isstring A v i \<longleftrightarrow> lua_type A v i \<in> {LUA_TSTRING, LUA_TNUMBER}"

text \<open>\<open>lua_tostring\<close> gives NULL for a value that is neither a string nor a number.\<close>

definition lua_tocstring :: "'v lua_api \<Rightarrow> 'v \<Rightarrow> int \<Rightarrow> string option" where
  "lua_tocstring A v i = (if lua_isstring A v i then Some (lua_tostring A v i) else None)"

definition luaL_checktype :: "'v lua_api \<Rightarrow> 'v \<Rightarrow> int \<Rightarrow> ltype \<Rightarrow> string + unit" where
  "luaL_checktype A v i t = (if lua_type A v i = t then Inr () else Inl ''bad argument'')"

definition push_cstring :: "'v lua_api \<Rightarrow> 'v \<Rightarrow> string option \<Rightarrow> 'v" where
  "push_cstring A v x = (case x of None \<Rightarrow> lua_pushnil A v | Some c \<Rightarrow> lua_pushstring A v c)"

text \<open>
  \<open>arg r s f\<close>: a check that raises a Lua error leaves the function; otherwise go on with its value.
  \<open>upd_vm\<close>: an API call that changes the machine only. \<open>call_os\<close>: a call of a library function.
\<close>

definition arg :: "string + 'a \<Rightarrow> ('v, 'w) st \<Rightarrow> ('a \<Rightarrow> ('v, 'w) ret) \<Rightarrow> ('v, 'w) ret" where
  "arg r s f = (case r of Inl e \<Rightarrow> Some (Inl e, s) | Inr x \<Rightarrow> f x)"

definition upd_vm :: "('v \<Rightarrow> 'v) \<Rightarrow> ('v, 'w) st \<Rightarrow> ('v, 'w) st" where
  "upd_vm f s = s\<lparr>vm := f (vm s)\<rparr>"

definition call_os :: "('w \<Rightarrow> 'a \<times> 'w) \<Rightarrow> ('v, 'w) st \<Rightarrow> 'a \<times> ('v, 'w) st" where
  "call_os f s = (let (r, w) = f (os s) in (r, s\<lparr>os := w\<rparr>))"

text \<open>
  \<open>push_ret n f s\<close>: push with \<open>f\<close> and return \<open>n\<close> results. \<open>do_os\<close>: a library call without a result.
\<close>

definition push_ret :: "nat \<Rightarrow> ('v \<Rightarrow> 'v) \<Rightarrow> ('v, 'w) st \<Rightarrow> ('v, 'w) ret" where
  "push_ret n f s = Some (Inr n, upd_vm f s)"

definition do_os :: "('w \<Rightarrow> 'w) \<Rightarrow> ('v, 'w) st \<Rightarrow> ('v, 'w) st" where
  "do_os f s = s\<lparr>os := f (os s)\<rparr>"

definition poke :: "nat \<Rightarrow> nat \<Rightarrow> 64 word \<Rightarrow> ('v, 'w) st \<Rightarrow> ('v, 'w) st" where
  "poke b off x s = s\<lparr>mem := (mem s)(b := (mem s b)(off := x))\<rparr>"

text \<open>Conversions of a \<open>lua_Integer\<close> to the C types \<open>int\<close> and \<open>unsigned int\<close>.\<close>

definition c_int :: "int \<Rightarrow> int" where
  "c_int x = sint (word_of_int x :: 32 word)"

definition c_uint :: "int \<Rightarrow> 32 word" where
  "c_uint x = word_of_int x"

section \<open>The stack\<close>

text \<open>The value at a stack index; \<open>None\<close> is an index beyond the top, or a pseudo-index.\<close>

definition at :: "lval list \<Rightarrow> int \<Rightarrow> lval option" where
  "at xs i =
     (if 0 < i \<and> i \<le> int (length xs) then Some (xs ! nat (i - 1))
      else if i < 0 \<and> - i \<le> int (length xs) \<and> LUA_REGISTRYINDEX < i then Some (xs ! nat (int (length xs) + i))
      else None)"

fun type_of :: "lval option \<Rightarrow> ltype" where
  "type_of None = LUA_TNONE"
| "type_of (Some LNil) = LUA_TNIL"
| "type_of (Some (LBool b)) = LUA_TBOOLEAN"
| "type_of (Some (LNum n)) = LUA_TNUMBER"
| "type_of (Some (LStr s)) = LUA_TSTRING"
| "type_of (Some (LTab t)) = LUA_TTABLE"
| "type_of (Some (LFun f)) = LUA_TFUNCTION"
| "type_of (Some (LUd u)) = LUA_TUSERDATA"
| "type_of (Some (LLight a)) = LUA_TLIGHTUSERDATA"

text \<open>\<open>lua_settop\<close>: a negative index counts from the top, growth fills with nil.\<close>

definition settop :: "lval list \<Rightarrow> int \<Rightarrow> lval list" where
  "settop xs n =
     (let k = (if n \<ge> 0 then nat n else nat (int (length xs) + n + 1))
      in take k xs @ replicate (k - length xs) LNil)"

section \<open>A reference machine\<close>

text \<open>
  A small executable machine that keeps the laws: a stack, tables with integer keys, userdata with
  a metatable name. A metatable on the stack is represented by its name.
\<close>

record ref_vm =
  r_stk :: "lval list"
  r_tab :: "nat \<Rightarrow> int \<Rightarrow> lval"
  r_meta :: "nat \<Rightarrow> string option"
  r_next :: nat
  r_fld :: "nat \<Rightarrow> string \<Rightarrow> lval"
  r_upv :: "lval list"
  r_glob :: "string \<Rightarrow> lval"

definition fresh_id :: "ref_vm \<Rightarrow> nat" where
  "fresh_id v = Suc (fold max (map (\<lambda>x. case x of LTab t \<Rightarrow> t | LUd u \<Rightarrow> u | _ \<Rightarrow> 0) (r_stk v @ r_upv v)) (r_next v))"

definition r_push :: "lval \<Rightarrow> ref_vm \<Rightarrow> ref_vm" where
  "r_push x v = v\<lparr>r_stk := r_stk v @ [x]\<rparr>"

text \<open>The value at an index, with the upvalues of the running closure.\<close>

definition r_at :: "ref_vm \<Rightarrow> int \<Rightarrow> lval option" where
  "r_at v i = (if i < LUA_GLOBALSINDEX then at (r_upv v) (LUA_GLOBALSINDEX - i) else at (r_stk v) i)"

definition r_checkudata :: "ref_vm \<Rightarrow> int \<Rightarrow> string \<Rightarrow> string + nat" where
  "r_checkudata v i name =
     (case r_at v i of
        Some (LUd u) \<Rightarrow> if r_meta v u = Some name then Inr u else Inl ''bad argument''
      | _ \<Rightarrow> Inl ''bad argument'')"

definition r_checkinteger :: "ref_vm \<Rightarrow> int \<Rightarrow> string + int" where
  "r_checkinteger v i = (case at (r_stk v) i of Some (LNum n) \<Rightarrow> Inr n | _ \<Rightarrow> Inl ''number expected'')"

definition r_checkstring :: "ref_vm \<Rightarrow> int \<Rightarrow> string + string" where
  "r_checkstring v i = (case at (r_stk v) i of Some (LStr x) \<Rightarrow> Inr x | _ \<Rightarrow> Inl ''string expected'')"

text \<open>The number of elements before the first nil; \<open>None\<close> for a table without end.\<close>

partial_function (option) r_border :: "(int \<Rightarrow> lval) \<Rightarrow> int \<Rightarrow> int option" where
  "r_border f n = (if f (n + 1) = LNil then Some n else r_border f (n + 1))"

declare r_border.simps [code]

definition ref_lua :: "ref_vm lua_api" where
  "ref_lua =
     \<lparr>lua_type = (\<lambda>v i. type_of (at (r_stk v) i)),
      lua_gettop = (\<lambda>v. int (length (r_stk v))),
      lua_settop = (\<lambda>v n. v\<lparr>r_stk := settop (r_stk v) n\<rparr>),
      lua_toboolean = (\<lambda>v i. at (r_stk v) i \<notin> {None, Some LNil, Some (LBool False)}),
      lua_tointeger = (\<lambda>v i. case at (r_stk v) i of Some (LNum n) \<Rightarrow> n | _ \<Rightarrow> 0),
      lua_tostring = (\<lambda>v i. case at (r_stk v) i of Some (LStr x) \<Rightarrow> x | _ \<Rightarrow> []),
      lua_rawgeti = (\<lambda>v i k. case at (r_stk v) i of Some (LTab t) \<Rightarrow> r_push (r_tab v t k) v | _ \<Rightarrow> v),
      lua_rawseti = (\<lambda>v i k. case at (r_stk v) i of
         Some (LTab t) \<Rightarrow> v\<lparr>r_stk := butlast (r_stk v), r_tab := (r_tab v)(t := (r_tab v t)(k := last (r_stk v)))\<rparr>
       | _ \<Rightarrow> v),
      lua_pushnil = r_push LNil,
      lua_pushboolean = (\<lambda>v b. r_push (LBool b) v),
      lua_pushinteger = (\<lambda>v n. r_push (LNum n) v),
      lua_pushstring = (\<lambda>v x. r_push (LStr x) v),
      lua_pushcfunction = (\<lambda>v f. r_push (LFun f) v),
      lua_pushvalue = (\<lambda>v i. case at (r_stk v) i of Some x \<Rightarrow> r_push x v | None \<Rightarrow> v),
      lua_newtable = (\<lambda>v. let t = fresh_id v
         in v\<lparr>r_stk := r_stk v @ [LTab t], r_tab := (r_tab v)(t := (\<lambda>_. LNil)), r_next := t,
             r_fld := (r_fld v)(t := (\<lambda>_. LNil))\<rparr>),
      lua_setfield = (\<lambda>v i name. case at (r_stk v) i of
         Some (LTab t) \<Rightarrow>
           v\<lparr>r_stk := butlast (r_stk v), r_fld := (r_fld v)(t := (r_fld v t)(name := last (r_stk v)))\<rparr>
       | _ \<Rightarrow> v\<lparr>r_stk := butlast (r_stk v)\<rparr>),
      lua_newuserdata = (\<lambda>v. let u = fresh_id v
         in (u, v\<lparr>r_stk := r_stk v @ [LUd u], r_meta := (r_meta v)(u := None), r_next := u\<rparr>)),
      lua_setmetatable = (\<lambda>v i. case (at (r_stk v) i, last (r_stk v)) of
         (Some (LUd u), LStr name) \<Rightarrow> v\<lparr>r_stk := butlast (r_stk v), r_meta := (r_meta v)(u := Some name)\<rparr>
       | _ \<Rightarrow> v\<lparr>r_stk := butlast (r_stk v)\<rparr>),
      luaL_getmetatable = (\<lambda>v name. r_push (LStr name) v),
      luaL_newmetatable = (\<lambda>v name. r_push (LStr name) v),
      luaL_checkudata = r_checkudata,
      luaL_checkinteger = r_checkinteger,
      luaL_checkstring = r_checkstring,
      luaL_optinteger = (\<lambda>v i d. if type_of (at (r_stk v) i) \<in> {LUA_TNONE, LUA_TNIL} then Inr d
         else r_checkinteger v i),
      lua_pushnumber = (\<lambda>v n. r_push (LNum n) v),
      lua_touserdata = (\<lambda>v i. case r_at v i of Some (LUd u) \<Rightarrow> Some u | _ \<Rightarrow> None),
      lua_getfield = (\<lambda>v i name. if i = LUA_REGISTRYINDEX then r_push (LTab 0) v else case at (r_stk v) i of Some (LTab t) \<Rightarrow> r_push (r_fld v t name) v | _ \<Rightarrow> v),
      lua_isinteger = (\<lambda>v i. case at (r_stk v) i of Some (LNum n) \<Rightarrow> True | _ \<Rightarrow> False),
      lua_objlen = (\<lambda>v i. case at (r_stk v) i of
         Some (LTab t) \<Rightarrow> (case r_border (r_tab v t) 0 of Some n \<Rightarrow> n | None \<Rightarrow> 0) | _ \<Rightarrow> 0),
      luaL_ref = (\<lambda>v. (int (Suc (r_next v)), v\<lparr>r_stk := butlast (r_stk v), r_next := Suc (r_next v)\<rparr>)),
      luaL_unref = (\<lambda>v r. v),
      lua_tonumber = (\<lambda>v i. case at (r_stk v) i of Some (LNum n) \<Rightarrow> n | _ \<Rightarrow> 0),
      lua_isnumber = (\<lambda>v i. type_of (at (r_stk v) i) = LUA_TNUMBER),
      lua_pushlightuserdata = (\<lambda>v a. r_push (LLight a) v),
      lua_pushcclosure = (\<lambda>v f n. r_push (LFun f) (v\<lparr>r_stk := take (length (r_stk v) - nat n) (r_stk v)\<rparr>)),
      lua_insert = (\<lambda>v i. let k = length (r_stk v) - nat (- i)
         in v\<lparr>r_stk := take k (butlast (r_stk v)) @ last (r_stk v) # drop k (butlast (r_stk v))\<rparr>),
      lua_remove = (\<lambda>v i. let k = length (r_stk v) - nat (- i)
         in v\<lparr>r_stk := take k (r_stk v) @ drop (Suc k) (r_stk v)\<rparr>),
      lua_rawget = (\<lambda>v i. case (at (r_stk v) i, last (r_stk v)) of
         (Some (LTab t), LStr k) \<Rightarrow> v\<lparr>r_stk := butlast (r_stk v) @ [r_fld v t k]\<rparr>
       | (Some (LTab t), LNum k) \<Rightarrow> v\<lparr>r_stk := butlast (r_stk v) @ [r_tab v t k]\<rparr>
       | _ \<Rightarrow> v\<lparr>r_stk := butlast (r_stk v) @ [LNil]\<rparr>),
      lua_rawset = (\<lambda>v i. v\<lparr>r_stk := butlast (butlast (r_stk v))\<rparr>),
      lua_gettable = (\<lambda>v i. case (at (r_stk v) i, last (r_stk v)) of
         (Some (LTab t), LStr k) \<Rightarrow> v\<lparr>r_stk := butlast (r_stk v) @ [r_fld v t k]\<rparr>
       | (Some (LTab t), LNum k) \<Rightarrow> v\<lparr>r_stk := butlast (r_stk v) @ [r_tab v t k]\<rparr>
       | _ \<Rightarrow> v\<lparr>r_stk := butlast (r_stk v) @ [LNil]\<rparr>),
      lua_next = (\<lambda>v i. (False, v\<lparr>r_stk := butlast (r_stk v)\<rparr>)),
      lua_getmetatable = (\<lambda>v i. r_push LNil v),
      lua_getfenv = (\<lambda>v i. r_push LNil v),
      lua_setfenv = (\<lambda>v i. v\<lparr>r_stk := butlast (r_stk v)\<rparr>),
      lua_setglobal = (\<lambda>v name. v\<lparr>r_stk := butlast (r_stk v), r_glob := (r_glob v)(name := last (r_stk v))\<rparr>),
      luaL_findtable = (\<lambda>v i name. r_push (LTab 0) v),
      luaL_loadbuffer = (\<lambda>v code. (0, r_push (LFun ''chunk'') v))\<rparr>"

section \<open>The laws\<close>

text \<open>
  The laws: \<open>stk v\<close> is the stack of the running function, \<open>tget v t k\<close> the value of table \<open>t\<close> at the
  integer key \<open>k\<close>, \<open>meta v u\<close> the name of the metatable of userdata \<open>u\<close>.
\<close>

locale lua_vm =
  fixes A :: "'v lua_api" and stk :: "'v \<Rightarrow> lval list" and tget :: "'v \<Rightarrow> nat \<Rightarrow> int \<Rightarrow> lval"
    and meta :: "'v \<Rightarrow> nat \<Rightarrow> string option"
  assumes type_law: "LUA_REGISTRYINDEX < i \<Longrightarrow> lua_type A v i = type_of (at (stk v) i)"
    and gettop_law: "lua_gettop A v = int (length (stk v))"
    and settop_law: "stk (lua_settop A v n) = settop (stk v) n" "tget (lua_settop A v n) = tget v"
      "meta (lua_settop A v n) = meta v"
    and toboolean_law: "LUA_REGISTRYINDEX < i \<Longrightarrow> lua_toboolean A v i \<longleftrightarrow> at (stk v) i \<notin> {None, Some LNil, Some (LBool False)}"
    and tointeger_law: "at (stk v) i = Some (LNum n) \<Longrightarrow> lua_tointeger A v i = n"
    and tostring_law: "at (stk v) i = Some (LStr x) \<Longrightarrow> lua_tostring A v i = x"
    and rawgeti_law: "at (stk v) i = Some (LTab t) \<Longrightarrow> stk (lua_rawgeti A v i k) = stk v @ [tget v t k]"
      "tget (lua_rawgeti A v i k) = tget v" "meta (lua_rawgeti A v i k) = meta v"
    and rawseti_law: "at (stk v) i = Some (LTab t) \<Longrightarrow> stk v = xs @ [y] \<Longrightarrow>
       stk (lua_rawseti A v i k) = xs \<and> tget (lua_rawseti A v i k) = (tget v)(t := (tget v t)(k := y))"
      "meta (lua_rawseti A v i k) = meta v"
    and pushnil_law: "stk (lua_pushnil A v) = stk v @ [LNil]" "tget (lua_pushnil A v) = tget v"
      "meta (lua_pushnil A v) = meta v"
    and pushboolean_law: "stk (lua_pushboolean A v b) = stk v @ [LBool b]"
      "tget (lua_pushboolean A v b) = tget v" "meta (lua_pushboolean A v b) = meta v"
    and pushinteger_law: "stk (lua_pushinteger A v n) = stk v @ [LNum n]"
      "tget (lua_pushinteger A v n) = tget v" "meta (lua_pushinteger A v n) = meta v"
    and pushstring_law: "stk (lua_pushstring A v x) = stk v @ [LStr x]"
      "tget (lua_pushstring A v x) = tget v" "meta (lua_pushstring A v x) = meta v"
    and newtable_law: "\<exists>t. stk (lua_newtable A v) = stk v @ [LTab t] \<and>
       tget (lua_newtable A v) = (tget v)(t := (\<lambda>_. LNil)) \<and> LTab t \<notin> set (stk v)"
      "meta (lua_newtable A v) = meta v"
    and newuserdata_law: "lua_newuserdata A v = (u, v') \<Longrightarrow>
       stk v' = stk v @ [LUd u] \<and> tget v' = tget v \<and> meta v' = (meta v)(u := None) \<and> LUd u \<notin> set (stk v)"
    and setmetatable_law: "stk v = xs @ [LUd u] \<Longrightarrow>
       stk (lua_setmetatable A (luaL_getmetatable A v name) (- 2)) = xs @ [LUd u] \<and>
       tget (lua_setmetatable A (luaL_getmetatable A v name) (- 2)) = tget v \<and>
       meta (lua_setmetatable A (luaL_getmetatable A v name) (- 2)) = (meta v)(u := Some name)"
    and checkudata_law: "LUA_REGISTRYINDEX < i \<Longrightarrow> luaL_checkudata A v i name = Inr u \<longleftrightarrow>
       at (stk v) i = Some (LUd u) \<and> meta v u = Some name"
    and checkinteger_law: "at (stk v) i = Some (LNum n) \<Longrightarrow> luaL_checkinteger A v i = Inr n"
      "LUA_REGISTRYINDEX < i \<Longrightarrow> type_of (at (stk v) i) \<notin> {LUA_TNUMBER, LUA_TSTRING} \<Longrightarrow> \<exists>e. luaL_checkinteger A v i = Inl e"
    and checkstring_law: "at (stk v) i = Some (LStr x) \<Longrightarrow> luaL_checkstring A v i = Inr x"
      "LUA_REGISTRYINDEX < i \<Longrightarrow> type_of (at (stk v) i) \<notin> {LUA_TNUMBER, LUA_TSTRING} \<Longrightarrow> \<exists>e. luaL_checkstring A v i = Inl e"
    and pushnumber_law: "stk (lua_pushnumber A v n) = stk v @ [LNum n]" "tget (lua_pushnumber A v n) = tget v"
      "meta (lua_pushnumber A v n) = meta v"
    and pushcfunction_law: "stk (lua_pushcfunction A v f) = stk v @ [LFun f]"
      "tget (lua_pushcfunction A v f) = tget v" "meta (lua_pushcfunction A v f) = meta v"
    and touserdata_law: "at (stk v) i = Some (LUd u) \<Longrightarrow> lua_touserdata A v i = Some u"
    and optinteger_law: "LUA_REGISTRYINDEX < i \<Longrightarrow> type_of (at (stk v) i) \<in> {LUA_TNONE, LUA_TNIL} \<Longrightarrow> luaL_optinteger A v i d = Inr d"
      "at (stk v) i = Some (LNum n) \<Longrightarrow> luaL_optinteger A v i d = Inr n"
    and tonumber_law: "at (stk v) i = Some (LNum n) \<Longrightarrow> lua_tonumber A v i = n"
      "LUA_REGISTRYINDEX < i \<Longrightarrow> at (stk v) i \<in> {None, Some LNil} \<Longrightarrow> lua_tonumber A v i = 0"
    and objlen_law: "at (stk v) i = Some (LTab t) \<Longrightarrow> 0 \<le> n \<Longrightarrow> (\<And>k. 1 \<le> k \<Longrightarrow> tget v t k \<noteq> LNil \<longleftrightarrow> k \<le> n) \<Longrightarrow>
       lua_objlen A v i = n"

text \<open>
  Tables with string keys: \<open>fget v t k\<close> is the value of table \<open>t\<close> at key \<open>k\<close>.
\<close>

locale lua_fields = lua_vm A stk tget meta
  for A :: "'v lua_api" and stk tget meta +
  fixes fget :: "'v \<Rightarrow> nat \<Rightarrow> string \<Rightarrow> lval"
  assumes getfield_law: "at (stk v) i = Some (LTab t) \<Longrightarrow> stk (lua_getfield A v i k) = stk v @ [fget v t k]"
      "fget (lua_getfield A v i k) = fget v"
    and setfield_law: "at (stk v) i = Some (LTab t) \<Longrightarrow> stk v = xs @ [y] \<Longrightarrow>
       stk (lua_setfield A v i k) = xs \<and> fget (lua_setfield A v i k) = (fget v)(t := (fget v t)(k := y))"
    and newtable_fields: "stk (lua_newtable A v) = xs @ [LTab t] \<Longrightarrow>
       fget (lua_newtable A v) = (fget v)(t := (\<lambda>_. LNil))"
    and push_fields: "fget (lua_pushcfunction A v f) = fget v" "fget (lua_pushinteger A v n) = fget v"
      "fget (lua_pushboolean A v b) = fget v" "fget (lua_pushnil A v) = fget v" "fget (lua_pushstring A v x) = fget v"
    and isinteger_law: "at (stk v) i = Some (LNum n) \<Longrightarrow> lua_isinteger A v i"
      "LUA_REGISTRYINDEX < i \<Longrightarrow> at (stk v) i \<in> {Some LNil, None} \<Longrightarrow> \<not> lua_isinteger A v i"

text \<open>
  Loaded modules and globals: \<open>loaded\<close> is the table that the registry has under \<open>_LOADED\<close>, \<open>glob v k\<close> the global \<open>k\<close>.
\<close>

locale lua_loaded = lua_fields A stk tget meta fget
  for A :: "'v lua_api" and stk tget meta fget +
  fixes glob :: "'v \<Rightarrow> string \<Rightarrow> lval" and loaded :: nat
  assumes findtable_law: "stk (luaL_findtable A v LUA_REGISTRYINDEX ''_LOADED'') = stk v @ [LTab loaded]"
      "fget (luaL_findtable A v LUA_REGISTRYINDEX ''_LOADED'') = fget v" "glob (luaL_findtable A v LUA_REGISTRYINDEX ''_LOADED'') = glob v"
    and registry_law: "stk (lua_getfield A v LUA_REGISTRYINDEX ''_LOADED'') = stk v @ [LTab loaded]"
    and pushvalue_law: "at (stk v) i = Some x \<Longrightarrow> stk (lua_pushvalue A v i) = stk v @ [x]" "fget (lua_pushvalue A v i) = fget v"
      "glob (lua_pushvalue A v i) = glob v"
    and remove_law: "stk v = xs @ [y, x] \<Longrightarrow> stk (lua_remove A v (- 2)) = xs @ [x]" "fget (lua_remove A v i) = fget v"
      "glob (lua_remove A v i) = glob v"
    and setglobal_law: "stk v = xs @ [x] \<Longrightarrow> stk (lua_setglobal A v k) = xs \<and> glob (lua_setglobal A v k) = (glob v)(k := x)"
      "fget (lua_setglobal A v k) = fget v"
    and settop_fields: "fget (lua_settop A v n) = fget v" "glob (lua_settop A v n) = glob v"
    and push_globals: "glob (lua_getfield A v i k) = glob v" "glob (lua_setfield A v i k) = glob v"
      "glob (lua_pushcfunction A v f) = glob v" "glob (lua_pushstring A v c) = glob v"

text \<open>The upvalues of the running C closure.\<close>

locale lua_upvalues = lua_vm A stk tget meta
  for A :: "'v lua_api" and stk tget meta +
  fixes upv :: "'v \<Rightarrow> lval list"
  assumes upvalue_law: "0 < i \<Longrightarrow> luaL_checkudata A v (lua_upvalueindex i) name = Inr u \<longleftrightarrow>
       at (upv v) i = Some (LUd u) \<and> meta v u = Some name"
    and upvalue_touserdata: "0 < i \<Longrightarrow> at (upv v) i = Some (LUd u) \<Longrightarrow> lua_touserdata A v (lua_upvalueindex i) = Some u"
    and newuserdata_upv: "lua_newuserdata A v = (u, v') \<Longrightarrow> LUd u \<notin> set (upv v)"
    and pushcclosure_law: "stk v = xs @ ys \<Longrightarrow> int (length ys) = n \<Longrightarrow> stk (lua_pushcclosure A v f n) = xs @ [LFun f]"
      "tget (lua_pushcclosure A v f n) = tget v" "meta (lua_pushcclosure A v f n) = meta v"

section \<open>Reading the stack\<close>

lemma pseudo_index [simp, lua_simps]:
  "LUA_REGISTRYINDEX < 1" "LUA_REGISTRYINDEX < numeral n"
  "LUA_REGISTRYINDEX < - 1" "LUA_REGISTRYINDEX < - 2" "LUA_REGISTRYINDEX < - 3"
  by (simp_all add: LUA_REGISTRYINDEX_def)

lemma pseudo_index_pos: "0 < i \<Longrightarrow> LUA_REGISTRYINDEX < i"
  by (simp add: LUA_REGISTRYINDEX_def)

lemma at_registry [simp, lua_simps]: "at xs LUA_REGISTRYINDEX = None"
  by (simp add: at_def LUA_REGISTRYINDEX_def)

lemma at_real_index: "at xs i = Some x \<Longrightarrow> LUA_REGISTRYINDEX < i"
  by (auto simp: at_def LUA_REGISTRYINDEX_def split: if_splits)

context lua_vm
begin

lemma type_at: "at (stk v) i = Some x \<Longrightarrow> lua_type A v i = type_of (Some x)"
  using at_real_index type_law by metis

lemma toboolean_at: "at (stk v) i = Some x \<Longrightarrow> lua_toboolean A v i \<longleftrightarrow> x \<notin> {LNil, LBool False}"
  using at_real_index toboolean_law by auto

lemma checkudata_at: "at (stk v) i = Some (LUd u) \<Longrightarrow> meta v u = Some name \<Longrightarrow> luaL_checkudata A v i name = Inr u"
  using at_real_index checkudata_law by auto

end

lemma at_simps [simp, lua_simps]:
  "at (xs @ [x]) (- 1) = Some x"
  "at (xs @ [x, y]) (- 2) = Some x"
  "at xs 0 = None"
  by (simp_all add: at_def nth_append LUA_REGISTRYINDEX_def)

lemma at_append [simp, lua_simps]:
  "0 < i \<Longrightarrow> i \<le> int (length xs) \<Longrightarrow> at (xs @ ys) i = at xs i"
  by (auto simp: at_def nth_append)

lemma at_mem: "at xs i = Some x \<Longrightarrow> x \<in> set xs"
  by (cases "0 < i") (auto simp: at_def split: if_splits intro: nth_mem)

lemma settop_pop [simp, lua_simps]: "settop (xs @ [x]) (- 2) = xs"
  by (simp add: settop_def)

lemma arg_simps [simp, lua_simps]:
  "arg (Inl e) s f = Some (Inl e, s)"
  "arg (Inr x) s f = f x"
  by (simp_all add: arg_def)

lemma upd_vm_simps [simp, lua_simps]:
  "vm (upd_vm f s) = f (vm s)" "mem (upd_vm f s) = mem s" "os (upd_vm f s) = os s"
  by (simp_all add: upd_vm_def)

lemma poke_simps [simp, lua_simps]:
  "vm (poke b off x s) = vm s" "mem (poke b off x s) = (mem s)(b := (mem s b)(off := x))"
  "os (poke b off x s) = os s"
  by (simp_all add: poke_def)

lemma do_os_simps [simp, lua_simps]:
  "vm (do_os f s) = vm s" "mem (do_os f s) = mem s" "os (do_os f s) = f (os s)"
  by (simp_all add: do_os_def)

lemma call_os_simps [simp, lua_simps]:
  "fst (call_os f s) = fst (f (os s))"
  "snd (call_os f s) = s\<lparr>os := snd (f (os s))\<rparr>"
  by (simp_all add: call_os_def split: prod.splits)

section \<open>The reference machine keeps the laws\<close>

lemma fold_max_mono: "(a :: nat) \<le> fold max xs a"
  by (induction xs arbitrary: a) (auto intro: order_trans [OF max.cobounded2])

lemma fold_max_ge: "(x :: nat) \<in> set xs \<Longrightarrow> x \<le> fold max xs a"
proof (induction xs arbitrary: a)
  case (Cons y xs)
  show ?case
  proof (cases "x \<in> set xs")
    case True
    then show ?thesis using Cons.IH by simp
  next
    case False
    then show ?thesis using Cons.prems fold_max_mono [of "max y a" xs] by simp
  qed
qed simp

lemma fresh_id_new:
  "LTab (fresh_id v) \<notin> set (r_stk v)" "LUd (fresh_id v) \<notin> set (r_stk v)" "LUd (fresh_id v) \<notin> set (r_upv v)"
proof -
  let ?f = "\<lambda>x. case x of LTab t \<Rightarrow> t | LUd u \<Rightarrow> u | _ \<Rightarrow> 0"
  have "?f x < fresh_id v" if "x \<in> set (r_stk v @ r_upv v)" for x
    using fold_max_ge [of "?f x" "map ?f (r_stk v @ r_upv v)" "r_next v"] that by (auto simp: fresh_id_def)
  then show "LTab (fresh_id v) \<notin> set (r_stk v)" "LUd (fresh_id v) \<notin> set (r_stk v)" "LUd (fresh_id v) \<notin> set (r_upv v)"
    by fastforce+
qed

lemma type_of_iff:
  "type_of x = LUA_TNUMBER \<longleftrightarrow> (\<exists>n. x = Some (LNum n))"
  "type_of x = LUA_TSTRING \<longleftrightarrow> (\<exists>n. x = Some (LStr n))"
  "type_of x = LUA_TNIL \<longleftrightarrow> x = Some LNil"
  "type_of x = LUA_TNONE \<longleftrightarrow> x = None"
  "type_of x = LUA_TTABLE \<longleftrightarrow> (\<exists>n. x = Some (LTab n))"
  by (cases x rule: type_of.cases; simp)+

lemma r_at_real [simp]: "LUA_REGISTRYINDEX < i \<Longrightarrow> r_at v i = at (r_stk v) i"
  by (simp add: r_at_def LUA_REGISTRYINDEX_def LUA_GLOBALSINDEX_def)

lemma ref_checks:
  "LUA_REGISTRYINDEX < i \<Longrightarrow> r_checkudata v i name = Inr u \<longleftrightarrow> at (r_stk v) i = Some (LUd u) \<and> r_meta v u = Some name"
  "r_checkinteger v i = (case at (r_stk v) i of Some (LNum n) \<Rightarrow> Inr n | _ \<Rightarrow> Inl ''number expected'')"
  "r_checkstring v i = (case at (r_stk v) i of Some (LStr x) \<Rightarrow> Inr x | _ \<Rightarrow> Inl ''string expected'')"
  by (auto simp: r_checkudata_def r_checkinteger_def r_checkstring_def split: option.splits lval.splits)

lemma ref_checks_fail:
  "type_of (at (r_stk v) i) \<notin> {LUA_TNUMBER, LUA_TSTRING} \<Longrightarrow> \<exists>e. r_checkinteger v i = Inl e"
  "type_of (at (r_stk v) i) \<notin> {LUA_TNUMBER, LUA_TSTRING} \<Longrightarrow> \<exists>e. r_checkstring v i = Inl e"
  by (cases "at (r_stk v) i" rule: type_of.cases; simp add: ref_checks)+

lemma r_border_eq:
  assumes "m \<le> n" and "0 \<le> m" and "\<And>k. 1 \<le> k \<Longrightarrow> f k \<noteq> LNil \<longleftrightarrow> k \<le> n"
  shows "r_border f m = Some n"
  using assms(1,2)
proof (induction "nat (n - m)" arbitrary: m)
  case 0
  then show ?case using assms(3) [of "m + 1"] by (simp add: r_border.simps)
next
  case (Suc d)
  then have "r_border f (m + 1) = Some n" by simp
  then show ?case using Suc.hyps(2) Suc.prems assms(3) [of "m + 1"] by (auto simp: r_border.simps [of f m])
qed

interpretation rv: lua_vm ref_lua r_stk r_tab r_meta
proof unfold_locales
  fix v i
  show "type_of (at (r_stk v) i) \<notin> {LUA_TNUMBER, LUA_TSTRING} \<Longrightarrow> \<exists>e. luaL_checkinteger ref_lua v i = Inl e"
    and "type_of (at (r_stk v) i) \<notin> {LUA_TNUMBER, LUA_TSTRING} \<Longrightarrow> \<exists>e. luaL_checkstring ref_lua v i = Inl e"
    using ref_checks_fail by (simp_all add: ref_lua_def)
next
  fix v
  show "\<exists>t. r_stk (lua_newtable ref_lua v) = r_stk v @ [LTab t] \<and>
      r_tab (lua_newtable ref_lua v) = (r_tab v)(t := (\<lambda>_. LNil)) \<and> LTab t \<notin> set (r_stk v)"
    using fresh_id_new by (simp add: ref_lua_def Let_def)
next
  fix v :: ref_vm and i u assume "at (r_stk v) i = Some (LUd u)"
  then show "lua_touserdata ref_lua v i = Some u" using at_real_index by (simp add: ref_lua_def)
next
  fix v :: ref_vm and i t n
  assume "at (r_stk v) i = Some (LTab t)" "0 \<le> n" "\<And>k. 1 \<le> k \<Longrightarrow> r_tab v t k \<noteq> LNil \<longleftrightarrow> k \<le> n"
  then show "lua_objlen ref_lua v i = n" using r_border_eq [of 0 n "r_tab v t"] by (simp add: ref_lua_def)
next
  fix v u v' assume "lua_newuserdata ref_lua v = (u, v')"
  then show "r_stk v' = r_stk v @ [LUd u] \<and> r_tab v' = r_tab v \<and> r_meta v' = (r_meta v)(u := None) \<and>
      LUd u \<notin> set (r_stk v)"
    using fresh_id_new by (auto simp: ref_lua_def Let_def)
qed (auto simp: ref_lua_def r_push_def ref_checks type_of_iff Let_def butlast_append
    split: option.split lval.split)

interpretation ru: lua_upvalues ref_lua r_stk r_tab r_meta r_upv
proof unfold_locales
  fix v u v' assume "lua_newuserdata ref_lua v = (u, v')"
  then show "LUd u \<notin> set (r_upv v)" using fresh_id_new(3) by (auto simp: ref_lua_def Let_def)
qed (auto simp: ref_lua_def r_push_def r_checkudata_def r_at_def lua_upvalueindex_def LUA_GLOBALSINDEX_def
      split: option.splits lval.splits if_splits)

interpretation rf: lua_fields ref_lua r_stk r_tab r_meta r_fld
  by unfold_locales (auto simp: ref_lua_def r_push_def Let_def split: option.split lval.split)

interpretation rg: lua_loaded ref_lua r_stk r_tab r_meta r_fld r_glob 0
  by unfold_locales (auto simp: ref_lua_def r_push_def Let_def butlast_append split: option.split lval.split)

end
