(* ===== verification/Lua_Aux.thy ===== *)
theory Lua_Aux
  imports Lua_Api "HOL-Library.Monad_Syntax"
begin

text \<open>
  The helpers of \<open>src/daemon/luauxlib.c\<close> and \<open>luauxlib.h\<close> that all bindings share: conversion between
  option names and C flags, creation of a userdata that holds a C pointer, and checked access to
  it.
\<close>

text \<open>\<open>struct cflag_opt\<close>; the terminating entry with a NULL name is the end of the list.\<close>

type_synonym cflag_opt = "string \<times> 32 word"

definition c_tolower :: "char \<Rightarrow> char" where
  "c_tolower c = (if 65 \<le> (of_char c :: nat) \<and> (of_char c :: nat) \<le> 90
     then char_of ((of_char c :: nat) + 32) else c)"

text \<open>\<open>strcasecmp(s, t) == 0\<close>\<close>

definition strcaseeq :: "string \<Rightarrow> string \<Rightarrow> bool" where
  "strcaseeq s t \<longleftrightarrow> map c_tolower s = map c_tolower t"

fun opt_flag :: "string \<Rightarrow> cflag_opt list \<Rightarrow> 32 word \<Rightarrow> 32 word" where
  "opt_flag s [] flags = flags"
| "opt_flag s ((name, flag) # opts) flags =
     (if \<not> strcaseeq s name then opt_flag s opts flags else or flags flag)"

text \<open>The loop over a table of names, entered with element \<open>k\<close> on top of the stack.\<close>

partial_function (option) tocflags_table ::
  "'v lua_api \<Rightarrow> int \<Rightarrow> cflag_opt list \<Rightarrow> int \<Rightarrow> 32 word \<Rightarrow> 'v \<Rightarrow> (32 word \<times> 'v) option" where
  "tocflags_table A idx opts k flags v =
     (if lua_isnil A v (- 1) then Some (flags, lua_pop A v 1)
      else
        (let flags' = (if lua_type A v (- 1) \<noteq> LUA_TSTRING then flags
                       else opt_flag (lua_tostring A v (- 1)) opts flags)
         in tocflags_table A idx opts (k + 1) flags' (lua_rawgeti A (lua_pop A v 1) idx (k + 1))))"

declare tocflags_table.simps [code]

definition tocflags ::
  "'v lua_api \<Rightarrow> int \<Rightarrow> cflag_opt list \<Rightarrow> 32 word \<Rightarrow> ('v, 'w) st \<Rightarrow> (32 word \<times> ('v, 'w) st) option" where
  "tocflags A idx opts d s =
     (case lua_type A (vm s) idx of
        LUA_TSTRING \<Rightarrow> Some (opt_flag (lua_tostring A (vm s) idx) opts 0, s)
      | LUA_TTABLE \<Rightarrow> do {
          (flags, v) \<leftarrow> tocflags_table A idx opts 1 0 (lua_rawgeti A (vm s) idx 1);
          Some (flags, s\<lparr>vm := v\<rparr>)
        }
      | LUA_TNUMBER \<Rightarrow> Some (c_uint (lua_tointeger A (vm s) idx), s)
      | LUA_TBOOLEAN \<Rightarrow> Some (if lua_toboolean A (vm s) idx then 0 else d, s)
      | LUA_TNONE \<Rightarrow> Some (d, s)
      | LUA_TNIL \<Rightarrow> Some (d, s)
      | _ \<Rightarrow> Some (0, s))"

fun fromcflags :: "cflag_opt list \<Rightarrow> 32 word \<Rightarrow> string \<Rightarrow> string" where
  "fromcflags [] flag d = d"
| "fromcflags ((name, f) # opts) flag d = (if f = flag then name else fromcflags opts flag d)"

text \<open>A new userdata holding a NULL pointer; the result is its block.\<close>

definition newcptr :: "'v lua_api \<Rightarrow> string \<Rightarrow> ('v, 'w) st \<Rightarrow> nat \<times> ('v, 'w) st" where
  "newcptr A metatable s =
     (let (p, v) = lua_newuserdata A (vm s);
          s1 = poke p 0 0 (s\<lparr>vm := v\<rparr>)
      in (p, upd_vm (\<lambda>v. lua_setmetatable A (luaL_getmetatable A v metatable) (- 2)) s1))"

text \<open>A \<open>luaL_Reg\<close> table without its NULL entry; \<open>luaL_register\<close> stores each C function under its name.\<close>

type_synonym luaL_Reg = "(string \<times> string) list"

definition register_methods :: "'v lua_api \<Rightarrow> luaL_Reg \<Rightarrow> 'v \<Rightarrow> 'v" where
  "register_methods A meth v = fold (\<lambda>(name, f) v. lua_setfield A (lua_pushcfunction A v f) (- 2) name) meth v"

text \<open>\<open>luaL_newlib\<close>: a new table with the functions of a library.\<close>

definition luaL_newlib :: "'v lua_api \<Rightarrow> luaL_Reg \<Rightarrow> 'v \<Rightarrow> 'v" where
  "luaL_newlib A lib v = register_methods A lib (lua_newtable A v)"

definition createmeta :: "'v lua_api \<Rightarrow> string \<Rightarrow> luaL_Reg \<Rightarrow> 'v \<Rightarrow> 'v" where
  "createmeta A tname meth v =
     (let v1 = luaL_newmetatable A v tname;
          v2 = lua_pushvalue A v1 (- 1);
          v3 = lua_setfield A v2 (- 2) ''__index'';
          v4 = register_methods A meth v3
      in lua_pop A v4 1)"

text \<open>\<open>DEFINE_LUA_UDATA\<close>: the pointer stored in a checked userdata.\<close>

definition toudatap :: "'v lua_api \<Rightarrow> string \<Rightarrow> int \<Rightarrow> ('v, 'w) st \<Rightarrow> string + nat" where
  "toudatap A metatable idx s = luaL_checkudata A (vm s) idx metatable"

definition toudata :: "'v lua_api \<Rightarrow> string \<Rightarrow> int \<Rightarrow> ('v, 'w) st \<Rightarrow> string + 64 word" where
  "toudata A metatable idx s = map_sum id (\<lambda>b. mem s b 0) (toudatap A metatable idx s)"

text \<open>\<open>if (*p) { unref( *p); *p = NULL; } return 0;\<close>\<close>

definition free_cptr :: "'v lua_api \<Rightarrow> string \<Rightarrow> (64 word \<Rightarrow> 'w \<Rightarrow> 'w) \<Rightarrow> ('v, 'w) st \<Rightarrow> ('v, 'w) ret" where
  "free_cptr A metatable unref s =
     arg (toudatap A metatable 1 s) s (\<lambda>p.
       Some (Inr 0, if mem s p 0 \<noteq> 0 then poke p 0 0 (do_os (unref (mem s p 0)) s) else s))"

section \<open>Option names\<close>

text \<open>The flag of the first option whose name matches, ignoring case.\<close>

definition flag_of :: "cflag_opt list \<Rightarrow> string \<Rightarrow> 32 word" where
  "flag_of opts s = (case List.find (\<lambda>(n, f). strcaseeq s n) opts of None \<Rightarrow> 0 | Some (n, f) \<Rightarrow> f)"

lemma opt_flag_eq: "opt_flag s opts flags = or flags (flag_of opts s)"
  by (induction s opts flags rule: opt_flag.induct) (auto simp: flag_of_def)

lemma strcaseeq_refl [simp]: "strcaseeq s s"
  by (simp add: strcaseeq_def)

lemma flag_of_fromcflags:
  assumes "distinct (map snd opts)" and "(n, f) \<in> set opts"
  shows "fromcflags opts f d = n"
  using assms by (induction opts) (auto simp: rev_image_eqI)

lemma flag_of_member:
  assumes "(n, f) \<in> set opts" and "\<And>n' f'. (n', f') \<in> set opts \<Longrightarrow> strcaseeq n n' \<Longrightarrow> f' = f"
  shows "flag_of opts n = f"
proof (cases "List.find (\<lambda>(n', f'). strcaseeq n n') opts")
  case None
  then show ?thesis using assms(1) by (auto simp: find_None_iff)
next
  case (Some p)
  obtain n' f' where p: "p = (n', f')" by fastforce
  then have "(n', f') \<in> set opts" "strcaseeq n n'"
    using Some by (auto simp: find_Some_iff in_set_conv_nth)
  then show ?thesis using assms(2) Some p by (simp add: flag_of_def)
qed

section \<open>The conversion\<close>

text \<open>The flags a Lua value stands for: names and lists of names are looked up and combined.\<close>

fun list_flags :: "cflag_opt list \<Rightarrow> lval list \<Rightarrow> 32 word" where
  "list_flags opts [] = 0"
| "list_flags opts (LStr s # xs) = or (flag_of opts s) (list_flags opts xs)"
| "list_flags opts (_ # xs) = list_flags opts xs"

context lua_vm
begin

lemma isnil_top [simp]: "stk v = xs @ [x] \<Longrightarrow> lua_isnil A v (- 1) \<longleftrightarrow> x = LNil"
  by (cases x) (simp_all add: lua_isnil_def type_law)

lemma pop_top: "stk v = xs @ [x] \<Longrightarrow> stk (lua_pop A v 1) = xs \<and> tget (lua_pop A v 1) = tget v \<and>
    meta (lua_pop A v 1) = meta v"
  by (simp add: lua_pop_def settop_law)

text \<open>
  The table loop returns for every table with a nil key, with the flags of the elements before the
  first nil, and leaves the stack as it was.
\<close>

lemma tocflags_table_result:
  assumes "\<And>i. i < length ys \<Longrightarrow> tget v t (k + int i) = ys ! i" and "LNil \<notin> set ys"
    and "tget v t (k + int (length ys)) = LNil"
    and "stk v = xs @ [tget v t k]" and "at xs idx = Some (LTab t)" and "0 < idx"
  shows "\<exists>v'. tocflags_table A idx opts k flags v = Some (or flags (list_flags opts ys), v') \<and>
    stk v' = xs \<and> tget v' = tget v \<and> meta v' = meta v"
  using assms
proof (induction ys arbitrary: k flags v)
  case Nil
  then show ?case using pop_top [OF Nil.prems(4)] by (simp add: tocflags_table.simps)
next
  case (Cons y ys)
  have y: "tget v t k = y" using Cons.prems(1) [of 0] by simp
  define w where "w = lua_rawgeti A (lua_pop A v 1) idx (k + 1)"
  have p: "stk (lua_pop A v 1) = xs" "tget (lua_pop A v 1) = tget v" "meta (lua_pop A v 1) = meta v"
    using pop_top [OF Cons.prems(4)] by auto
  have w: "stk w = xs @ [tget w t (k + 1)]" "tget w = tget v" "meta w = meta v"
    using rawgeti_law(1) [where v = "lua_pop A v 1" and i = idx and t = t and k = "k + 1"]
      rawgeti_law(2,3) p Cons.prems(5) by (simp_all add: w_def)
  have ne: "\<not> lua_isnil A v (- 1)" using Cons.prems(2,4) y by auto
  define fl where "fl = (if lua_type A v (- 1) \<noteq> LUA_TSTRING then flags
      else opt_flag (lua_tostring A v (- 1)) opts flags)"
  have fl: "or fl (list_flags opts ys) = or flags (list_flags opts (y # ys))"
    using Cons.prems(4) y
    by (cases y) (simp_all add: fl_def type_law opt_flag_eq tostring_law ac_simps)
  obtain v' where "tocflags_table A idx opts (k + 1) fl w = Some (or fl (list_flags opts ys), v')"
      "stk v' = xs" "tget v' = tget w" "meta v' = meta w"
    using Cons.IH [of w "k + 1" fl] Cons.prems w by (force simp: ac_simps)
  then show ?case
    using ne fl w by (subst tocflags_table.simps) (simp add: w_def [symmetric] fl_def [symmetric])
qed

end

context lua_vm
begin

lemma tocflags_of_table:
  assumes "at (stk (vm s)) idx = Some (LTab t)" and "0 < idx"
    and "\<And>i. i < length ys \<Longrightarrow> tget (vm s) t (1 + int i) = ys ! i" and "LNil \<notin> set ys"
    and "tget (vm s) t (1 + int (length ys)) = LNil"
  shows "\<exists>s'. tocflags A idx opts d s = Some (list_flags opts ys, s') \<and> stk (vm s') = stk (vm s) \<and>
    tget (vm s') = tget (vm s) \<and> mem s' = mem s \<and> os s' = os s"
proof -
  define w where "w = lua_rawgeti A (vm s) idx 1"
  have w: "stk w = stk (vm s) @ [tget w t 1]" "tget w = tget (vm s)"
    using rawgeti_law(1) [OF assms(1), of 1] rawgeti_law(2) by (simp_all add: w_def)
  obtain v' where "tocflags_table A idx opts 1 0 w = Some (or 0 (list_flags opts ys), v')"
      "stk v' = stk (vm s)" "tget v' = tget w"
    using tocflags_table_result [of ys w t 1 "stk (vm s)" idx opts 0] assms w by auto
  then show ?thesis using assms(1) w by (simp add: tocflags_def type_at w_def)
qed

end

section \<open>New userdata\<close>

context lua_vm
begin

lemma newcptr_new:
  assumes "newcptr A name s = (b, s')"
  shows "stk (vm s') = stk (vm s) @ [LUd b]" "LUd b \<notin> set (stk (vm s))" "os s' = os s"
    "mem s' = (mem s)(b := (mem s b)(0 := 0))" "meta (vm s') b = Some name"
proof -
  obtain u v where u: "lua_newuserdata A (vm s) = (u, v)" by fastforce
  note new = newuserdata_law [OF u]
  have s': "b = u" "s' = upd_vm (\<lambda>v. lua_setmetatable A (luaL_getmetatable A v name) (- 2)) (poke u 0 0 (s\<lparr>vm := v\<rparr>))"
    using assms u by (auto simp: newcptr_def)
  show "stk (vm s') = stk (vm s) @ [LUd b]" "LUd b \<notin> set (stk (vm s))" "os s' = os s"
    "mem s' = (mem s)(b := (mem s b)(0 := 0))" "meta (vm s') b = Some name"
    using s' new setmetatable_law [of v "stk (vm s)" u name] by simp_all
qed

end

context lua_upvalues
begin

lemma newcptr_upv: "newcptr A name s = (b, s') \<Longrightarrow> LUd b \<notin> set (upv (vm s))"
  using newuserdata_upv [of "vm s"] by (auto simp: newcptr_def Let_def split: prod.splits)

end

section \<open>Properties\<close>

text \<open>
  C30. Conversion of option names: given a table, \<open>tocflags\<close> returns, with the combined flags of the names
  before the first nil (non-strings and unknown names contribute nothing, case is ignored) and the
  Lua stack as it was; given one name it returns the flag of the first option that matches, and
  for a missing or nil argument the default.
\<close>

theorem tocflags_flags:
  assumes "lua_vm A stk tget meta" and "0 < idx"
  shows "(\<forall>t ys. at (stk (vm s)) idx = Some (LTab t) \<and> (\<forall>i<length ys. tget (vm s) t (1 + int i) = ys ! i) \<and>
      LNil \<notin> set ys \<and> tget (vm s) t (1 + int (length ys)) = LNil \<longrightarrow>
        (\<exists>s'. tocflags A idx opts d s = Some (list_flags opts ys, s') \<and> stk (vm s') = stk (vm s) \<and>
          tget (vm s') = tget (vm s) \<and> mem s' = mem s \<and> os s' = os s)) \<and>
    (\<forall>n. at (stk (vm s)) idx = Some (LStr n) \<longrightarrow> tocflags A idx opts d s = Some (flag_of opts n, s)) \<and>
    (at (stk (vm s)) idx \<in> {None, Some LNil} \<longrightarrow> tocflags A idx opts d s = Some (d, s))"
proof -
  have tab: "\<exists>s'. tocflags A idx opts d s = Some (list_flags opts ys, s') \<and> stk (vm s') = stk (vm s) \<and>
      tget (vm s') = tget (vm s) \<and> mem s' = mem s \<and> os s' = os s"
    if "at (stk (vm s)) idx = Some (LTab t)" "\<forall>i<length ys. tget (vm s) t (1 + int i) = ys ! i"
      "LNil \<notin> set ys" "tget (vm s) t (1 + int (length ys)) = LNil" for t ys
    by (rule lua_vm.tocflags_of_table [OF assms(1) that(1) assms(2)]) (use that in auto)
  have "tocflags A idx opts d s = Some (flag_of opts n, s)" if "at (stk (vm s)) idx = Some (LStr n)" for n
    using lua_vm.tostring_law [OF assms(1) that] lua_vm.type_at [OF assms(1) that] that
    by (simp add: tocflags_def opt_flag_eq)
  moreover have "tocflags A idx opts d s = Some (d, s)" if "at (stk (vm s)) idx \<in> {None, Some LNil}"
    using lua_vm.type_law [OF assms(1) pseudo_index_pos [OF assms(2)], of "vm s"] that by (auto simp: tocflags_def)
  ultimately show ?thesis using tab by blast
qed

text \<open>The reference machine with a list of names as its only argument.\<close>

definition names_vm :: "lval list \<Rightarrow> ref_vm" where
  "names_vm ys = \<lparr>r_stk = [LTab 1], r_tab = (\<lambda>t k. if t = 1 \<and> 1 \<le> k \<and> k \<le> int (length ys) then ys ! nat (k - 1)
     else LNil), r_meta = (\<lambda>_. None), r_next = 1, r_fld = (\<lambda>_ _. LNil), r_upv = [], r_glob = (\<lambda>_. LNil)\<rparr>"

theorem tocflags_flags_witness:
  "\<exists>s'. tocflags ref_lua 1 [(''read'', 1), (''write'', 2)] 0
      \<lparr>vm = names_vm [LStr ''WRITE'', LNum 5, LStr ''read''], mem = (\<lambda>_ _. 0), os = ()\<rparr> = Some (3, s') \<and>
    r_stk (vm s') = [LTab 1]"
proof -
  let ?ys = "[LStr ''WRITE'', LNum 5, LStr ''read'']"
  let ?s = "\<lparr>vm = names_vm ?ys, mem = (\<lambda>_ _. 0), os = ()\<rparr>"
  let ?o = "[(''read'', 1), (''write'', 2)] :: cflag_opt list"
  have "at (r_stk (vm ?s)) 1 = Some (LTab 1)" by (simp add: names_vm_def at_def)
  moreover have "\<forall>i<length ?ys. r_tab (vm ?s) 1 (1 + int i) = ?ys ! i" by (simp add: names_vm_def)
  moreover have "r_tab (vm ?s) 1 (1 + int (length ?ys)) = LNil" by (simp add: names_vm_def)
  moreover have "list_flags ?o ?ys = 3" by code_simp
  moreover have "r_stk (vm ?s) = [LTab 1]" by (simp add: names_vm_def)
  ultimately show ?thesis
    using tocflags_flags [OF rv.lua_vm_axioms zero_less_one, of ?s ?o 0, THEN conjunct1, THEN spec,
        THEN spec, of 1 ?ys] by auto
qed

text \<open>
  Round trip of option names: in an option table whose flags are distinct and whose names differ in
  more than case, \<open>tocflags\<close> maps the name of an option to its flag and \<open>fromcflags\<close> maps the flag back.
\<close>

theorem cflags_round_trip:
  assumes "lua_vm A stk tget meta" and "at (stk (vm s)) idx = Some (LStr n)"
    and "distinct (map snd opts)" and "distinct (map (\<lambda>p. map c_tolower (fst p)) opts)"
    and "(n, f) \<in> set opts"
  shows "\<exists>s'. tocflags A idx opts d s = Some (f, s') \<and> fromcflags opts f e = n"
proof -
  have uniq: "f' = f" if "(n', f') \<in> set opts" "strcaseeq n n'" for n' f'
  proof -
    have inj: "inj_on (\<lambda>p. map c_tolower (fst p)) (set opts)" using assms(4) by (simp add: distinct_map)
    show ?thesis using inj_onD [OF inj, of "(n', f')" "(n, f)"] that assms(5) by (simp add: strcaseeq_def)
  qed
  have "flag_of opts n = f" by (rule flag_of_member [OF assms(5)]) (rule uniq)
  moreover have "tocflags A idx opts d s = Some (flag_of opts n, s)"
    using lua_vm.tostring_law [OF assms(1,2)] lua_vm.type_at [OF assms(1,2)] assms(2)
    by (simp add: tocflags_def opt_flag_eq)
  ultimately show ?thesis using flag_of_fromcflags [OF assms(3,5)] by simp
qed

theorem cflags_round_trip_witness:
  "\<exists>s'. tocflags ref_lua 1 [(''read'', 1), (''write'', 2)] 0
      \<lparr>vm = \<lparr>r_stk = [LStr ''write''], r_tab = (\<lambda>_ _. LNil), r_meta = (\<lambda>_. None), r_next = 0, r_fld = (\<lambda>_ _. LNil), r_upv = [], r_glob = (\<lambda>_. LNil)\<rparr>,
        mem = (\<lambda>_ _. 0), os = ()\<rparr> = Some (2, s') \<and> fromcflags [(''read'', 1), (''write'', 2)] 2 [] = ''write''"
proof -
  let ?o = "[(''read'', 1), (''write'', 2)] :: cflag_opt list"
  let ?s = "\<lparr>vm = \<lparr>r_stk = [LStr ''write''], r_tab = (\<lambda>_ _. LNil), r_meta = (\<lambda>_. None), r_next = 0, r_fld = (\<lambda>_ _. LNil), r_upv = [], r_glob = (\<lambda>_. LNil)\<rparr>,
        mem = (\<lambda>_ _. 0), os = ()\<rparr>"
  have 1: "distinct (map (\<lambda>p. map c_tolower (fst p)) ?o)" by code_simp
  have 2: "distinct (map snd ?o)" by simp
  have 3: "at (r_stk (vm ?s)) 1 = Some (LStr ''write'')" by (simp add: at_def)
  have 4: "(''write'', 2) \<in> set ?o" by simp
  show ?thesis by (rule cflags_round_trip [OF rv.lua_vm_axioms 3 2 1 4])
qed

end
