(* ===== verification/Kmod_Sign.thy ===== *)
theory Kmod_Sign
  imports Prelude
begin

unbundle bit_operations_syntax

text \<open>
  Signing and verifying kernel modules (\<open>src/daemon/lua_kmod.c\<close>, the part below the Lua functions). The
  record \<open>sapi\<close> has the OpenSSL and libc functions the code calls; \<open>'w\<close> is what they act on. A handle
  is its address, 0 is NULL. \<open>peek\<close> reads a byte of mapped memory. A C string whose address is compared
  is a pair of its address and its characters.

  The locale \<open>ssl_owner\<close> is the ownership contract of these libraries (which handles the caller has to
  release), the locale \<open>file_bio\<close> the contract of file BIOs and of mapped files.
\<close>

type_synonym cstring = "64 word \<times> string"

record 'w sapi =
  BIO_new_file :: "string option \<Rightarrow> string \<Rightarrow> 'w \<Rightarrow> 64 word \<times> 'w"
  BIO_new_mem_buf :: "64 word \<Rightarrow> int \<Rightarrow> 'w \<Rightarrow> 64 word \<times> 'w"
  BIO_free :: "64 word \<Rightarrow> 'w \<Rightarrow> 'w"
  BIO_read :: "64 word \<Rightarrow> nat \<Rightarrow> 'w \<Rightarrow> (int \<times> 8 word list) \<times> 'w"
  BIO_write :: "64 word \<Rightarrow> 8 word list \<Rightarrow> 'w \<Rightarrow> int \<times> 'w"
  BIO_reset :: "64 word \<Rightarrow> 'w \<Rightarrow> int \<times> 'w"
  BIO_number_written :: "64 word \<Rightarrow> 'w \<Rightarrow> 64 word"
  PEM_read_bio_PrivateKey :: "64 word \<Rightarrow> 'w \<Rightarrow> 64 word \<times> 'w"
  PEM_read_bio_X509 :: "64 word \<Rightarrow> 'w \<Rightarrow> 64 word \<times> 'w"
  d2i_X509_bio :: "64 word \<Rightarrow> 'w \<Rightarrow> 64 word \<times> 'w"
  d2i_PKCS7_bio :: "64 word \<Rightarrow> 'w \<Rightarrow> 64 word \<times> 'w"
  EVP_get_digestbyname :: "string \<Rightarrow> 64 word"
  EVP_PKEY_free :: "64 word \<Rightarrow> 'w \<Rightarrow> 'w"
  X509_free :: "64 word \<Rightarrow> 'w \<Rightarrow> 'w"
  X509_STORE_new :: "'w \<Rightarrow> 64 word \<times> 'w"
  X509_STORE_add_cert :: "64 word \<Rightarrow> 64 word \<Rightarrow> 'w \<Rightarrow> int \<times> 'w"
  X509_STORE_free :: "64 word \<Rightarrow> 'w \<Rightarrow> 'w"
  CMS_sign :: "32 word \<Rightarrow> 'w \<Rightarrow> 64 word \<times> 'w"
  CMS_add1_signer :: "64 word \<Rightarrow> 64 word \<Rightarrow> 64 word \<Rightarrow> 64 word \<Rightarrow> 32 word \<Rightarrow> 'w \<Rightarrow> 64 word \<times> 'w"
  CMS_final :: "64 word \<Rightarrow> 64 word \<Rightarrow> 32 word \<Rightarrow> 'w \<Rightarrow> int \<times> 'w"
  CMS_ContentInfo_free :: "64 word \<Rightarrow> 'w \<Rightarrow> 'w"
  i2d_CMS_bio_stream :: "64 word \<Rightarrow> 64 word \<Rightarrow> 'w \<Rightarrow> int \<times> 'w"
  PKCS7_verify :: "64 word \<Rightarrow> 64 word \<Rightarrow> 64 word \<Rightarrow> 32 word \<Rightarrow> 'w \<Rightarrow> int \<times> 'w"
  PKCS7_free :: "64 word \<Rightarrow> 'w \<Rightarrow> 'w"
  CMS_NOCERTS :: "32 word"
  CMS_BINARY :: "32 word"
  CMS_PARTIAL :: "32 word"
  CMS_DETACHED :: "32 word"
  CMS_STREAM :: "32 word"
  CMS_NOSMIMECAP :: "32 word"
  CMS_NOATTR :: "32 word"
  PKCS7_NOVERIFY :: "32 word"
  s_asprintf :: "string \<Rightarrow> 'w \<Rightarrow> (int \<times> 64 word) \<times> 'w"
  s_free :: "64 word \<Rightarrow> 'w \<Rightarrow> 'w"
  s_rename :: "string \<Rightarrow> string \<Rightarrow> 'w \<Rightarrow> int \<times> 'w"
  s_open :: "string option \<Rightarrow> 'w \<Rightarrow> int \<times> 'w"
  s_errno :: "'w \<Rightarrow> int"
  s_fstat :: "int \<Rightarrow> 'w \<Rightarrow> (int \<times> 64 word) \<times> 'w"
  s_mmap :: "64 word \<Rightarrow> int \<Rightarrow> 'w \<Rightarrow> 64 word \<times> 'w"
  s_munmap :: "64 word \<Rightarrow> 64 word \<Rightarrow> 'w \<Rightarrow> 'w"
  s_close :: "int \<Rightarrow> 'w \<Rightarrow> 'w"
  peek :: "64 word \<Rightarrow> 'w \<Rightarrow> 8 word"

section \<open>The appended signature\<close>

text \<open>
  \<open>struct module_signature\<close>, 12 bytes: algo, hash, id type, signer length, key id length, three bytes of
  padding and the length of the signature as a big endian 32 bit number.
\<close>

record module_signature =
  sig_algo :: "8 word"
  sig_hash :: "8 word"
  sig_id_type :: "8 word"
  signer_len :: "8 word"
  key_id_len :: "8 word"
  sig_len :: "32 word"

definition PKEY_ID_PKCS7 :: "8 word" where
  "PKEY_ID_PKCS7 = 2"

definition SIG_MAGIC :: "8 word list" where
  "SIG_MAGIC = map (of_nat \<circ> of_char) (''~Module signature appended~'' @ [CHR 0x0A])"

text \<open>The bytes of a 32 bit number in network order (\<open>htonl\<close>, \<open>be32toh\<close>).\<close>

definition be32_bytes :: "32 word \<Rightarrow> 8 word list" where
  "be32_bytes n = [ucast (drop_bit 24 n), ucast (drop_bit 16 n), ucast (drop_bit 8 n), ucast n]"

definition be32_word :: "8 word list \<Rightarrow> 32 word" where
  "be32_word bs =
     push_bit 24 (ucast (bs ! 0)) OR push_bit 16 (ucast (bs ! 1)) OR push_bit 8 (ucast (bs ! 2)) OR ucast (bs ! 3)"

definition siginfo_bytes :: "module_signature \<Rightarrow> 8 word list" where
  "siginfo_bytes g =
     [sig_algo g, sig_hash g, sig_id_type g, signer_len g, key_id_len g, 0, 0, 0] @ be32_bytes (sig_len g)"

definition new_siginfo :: module_signature where
  "new_siginfo =
     \<lparr>sig_algo = 0, sig_hash = 0, sig_id_type = PKEY_ID_PKCS7, signer_len = 0, key_id_len = 0, sig_len = 0\<rparr>"

definition peek_bytes :: "'w sapi \<Rightarrow> 'w \<Rightarrow> 64 word \<Rightarrow> nat \<Rightarrow> 8 word list" where
  "peek_bytes S w p n = map (\<lambda>i. peek S (p + of_nat i) w) [0..<n]"

definition get_siginfo :: "8 word list \<Rightarrow> module_signature" where
  "get_siginfo bs =
     \<lparr>sig_algo = bs ! 0, sig_hash = bs ! 1, sig_id_type = bs ! 2, signer_len = bs ! 3, key_id_len = bs ! 4,
      sig_len = be32_word (drop 8 bs)\<rparr>"

section \<open>Reading keys and certificates\<close>

definition read_private_key :: "'w sapi \<Rightarrow> string \<Rightarrow> 'w \<Rightarrow> 64 word \<times> 'w" where
  "read_private_key S privkey_file w =
     (let (b, w1) = BIO_new_file S (Some privkey_file) ''rb'' w
      in if b = 0 then (0, w1)
         else (let (privkey, w2) = PEM_read_bio_PrivateKey S b w1 in (privkey, BIO_free S b w2)))"

definition read_x509 :: "'w sapi \<Rightarrow> string \<Rightarrow> 'w \<Rightarrow> 64 word \<times> 'w" where
  "read_x509 S x509_file w =
     (let (b, w1) = BIO_new_file S (Some x509_file) ''rb'' w
      in if b = 0 then (0, w1)
         else
           (let ((n, buf), w2) = BIO_read S b 2 w1;
                (x509, w3) =
                  (if n \<noteq> 2 then (0, w2)
                   else (let (r, w') = BIO_reset S b w2
                         in if r \<noteq> 0 then (0, w')
                            else if buf ! 0 = 0x30 \<and> buf ! 1 \<ge> 0x81 \<and> buf ! 1 \<le> 0x84 then d2i_X509_bio S b w'
                            else PEM_read_bio_X509 S b w'))
            in (x509, BIO_free S b w3)))"

definition read_x509_store :: "'w sapi \<Rightarrow> string \<Rightarrow> 'w \<Rightarrow> 64 word \<times> 'w" where
  "read_x509_store S cert_file w =
     (let (bio, w1) = BIO_new_file S (Some cert_file) ''r'' w
      in if bio = 0 then (0, w1)
         else
           (let (cert, w2) = PEM_read_bio_X509 S bio w1;
                w3 = BIO_free S bio w2
            in if cert = 0 then (0, w3)
               else
                 (let (store, w4) = X509_STORE_new S w3
                  in if store = 0 then (0, X509_free S cert w4)
                     else
                       (let (r, w5) = X509_STORE_add_cert S store cert w4
                        in if r \<noteq> 0 then (store, w5)
                           else (0, X509_free S cert (X509_STORE_free S store w5))))))"

section \<open>Signing\<close>

definition cms_sign_file :: "'w sapi \<Rightarrow> string \<Rightarrow> string \<Rightarrow> string \<Rightarrow> string option \<Rightarrow> 'w \<Rightarrow> 64 word \<times> 'w" where
  "cms_sign_file S hash_algo privkey_file x509_file file w =
     (let flags = CMS_NOCERTS S OR CMS_BINARY S;
          md = EVP_get_digestbyname S hash_algo
      in if md = 0 then (0, w)
         else
           (let (privkey, w1) = read_private_key S privkey_file w
            in if privkey = 0 then (0, w1)
               else
                 (let (x509, w2) = read_x509 S x509_file w1
                  in if x509 = 0 then (0, EVP_PKEY_free S privkey w2)
                     else
                       (let (b, w3) = BIO_new_file S file ''rb'' w2;
                            err_free_x509 = (\<lambda>w. EVP_PKEY_free S privkey (X509_free S x509 w));
                            err_free_bio = (\<lambda>w. err_free_x509 (BIO_free S b w))
                        in if b = 0 then (0, err_free_x509 w3)
                           else
                             (let (cms, w4) = CMS_sign S (flags OR CMS_PARTIAL S OR CMS_DETACHED S OR CMS_STREAM S) w3;
                                  err_free_cms = (\<lambda>w. err_free_bio (CMS_ContentInfo_free S cms w))
                              in if cms = 0 then (0, err_free_bio w4)
                                 else
                                   (let (si, w5) = CMS_add1_signer S cms x509 privkey md
                                          (flags OR CMS_NOSMIMECAP S OR CMS_NOATTR S) w4
                                    in if si = 0 then (0, err_free_cms w5)
                                       else
                                         (let (r, w6) = CMS_final S cms b flags w5
                                          in if r < 0 then (0, err_free_cms w6)
                                             else (cms, EVP_PKEY_free S privkey (X509_free S x509 (BIO_free S b w6))))))))))"

text \<open>
  \<open>while ((n = BIO_read(bm, buffer, sizeof(buffer))) > 0) { if ((n = BIO_write(bd, buffer, n)) < 0) break; }\<close>:
  the value of \<open>n\<close> after the loop.
\<close>

partial_function (option) copy_module :: "'w sapi \<Rightarrow> 64 word \<Rightarrow> 64 word \<Rightarrow> 'w \<Rightarrow> (int \<times> 'w) option" where
  "copy_module S bm bd w =
     (let ((n, buffer), w1) = BIO_read S bm 4096 w
      in if n > 0 then
           (let (n', w2) = BIO_write S bd (take (nat n) buffer) w1
            in if n' < 0 then Some (n', w2) else copy_module S bm bd w2)
         else Some (n, w1))"

declare copy_module.simps [code]

definition write_signature :: "'w sapi \<Rightarrow> 64 word \<Rightarrow> 64 word \<Rightarrow> 'w \<Rightarrow> int \<times> 'w" where
  "write_signature S bd cms w =
     (let msize = BIO_number_written S bd w;
          (r, w1) = i2d_CMS_bio_stream S bd cms w
      in if r < 0 then (- EBUSY, w1)
         else
           (let sigsize = BIO_number_written S bd w1 - msize;
                siginfo = new_siginfo\<lparr>sig_len := ucast sigsize\<rparr>;
                (r, w2) = BIO_write S bd (siginfo_bytes siginfo) w1
            in if r < 0 then (- EBUSY, w2)
               else
                 (let (r, w3) = BIO_write S bd SIG_MAGIC w2
                  in if r < 0 then (- EBUSY, w3) else (0, w3))))"

definition kmod_sign_file :: "'w sapi \<Rightarrow> 64 word \<Rightarrow> string option \<Rightarrow> string option \<Rightarrow> 'w \<Rightarrow> (int \<times> 'w) option" where
  "kmod_sign_file S cms srcfile dstfile w =
     (let (bm, w1) = BIO_new_file S srcfile ''rb'' w
      in if bm = 0 then Some (- EINVAL, w1)
         else
           (let (bd, w2) = BIO_new_file S dstfile ''wb'' w1
            in if bd = 0 then Some (- EINVAL, BIO_free S bm w2)
               else
                 (case copy_module S bm bd w2 of
                    None \<Rightarrow> None
                  | Some (n, w3) \<Rightarrow>
                      (let (err, w4) = (if n < 0 then (- EINVAL, w3) else write_signature S bd cms w3)
                       in Some (err, BIO_free S bm (BIO_free S bd w4))))))"

text \<open>Signing in place: sign into \<open>module_file.~signed~\<close> and rename it over the module.\<close>

definition sign_in_place :: "'w sapi \<Rightarrow> 64 word \<Rightarrow> string option \<Rightarrow> 'w \<Rightarrow> (int \<times> 'w) option" where
  "sign_in_place S cms module_file w =
     (let name = (case module_file of None \<Rightarrow> ''(null)'' | Some m \<Rightarrow> m) @ ''.~signed~'';
          ((r, dest), w1) = s_asprintf S name w
      in if r < 0 then Some (- ENOMEM, w1)
         else
           (case kmod_sign_file S cms module_file (Some name) w1 of
              None \<Rightarrow> None
            | Some (err, w2) \<Rightarrow>
                (let (err, w3) =
                       (if err \<ge> 0 then
                          (let (r, w') = s_rename S name (case module_file of None \<Rightarrow> [] | Some m \<Rightarrow> m) w2
                           in (if r \<ge> 0 then 0 else - ENOENT, w'))
                        else (err, w2))
                 in Some (err, s_free S dest w3))))"

definition do_kmod_sign ::
  "'w sapi \<Rightarrow> cstring option \<Rightarrow> string \<Rightarrow> string \<Rightarrow> string \<Rightarrow> cstring option \<Rightarrow> bool \<Rightarrow> 'w \<Rightarrow> (int \<times> 'w) option" where
  "do_kmod_sign S module_file hash_algo privkey_file x509_file dst_file save_sig w =
     (let src = map_option snd module_file;
          (cms, w1) = cms_sign_file S hash_algo privkey_file x509_file src w;
          finish = map_option (\<lambda>(err, w). (err, CMS_ContentInfo_free S cms w))
      in if cms = 0 then Some (- EINVAL, w1)
         else if save_sig then
           finish
             (let (bd, w2) = BIO_new_file S (map_option snd dst_file) ''wb'' w1
              in if bd = 0 then Some (- EFAULT, w2)
                 else
                   (let (r, w3) = i2d_CMS_bio_stream S bd cms w2
                    in Some (if r \<ge> 0 then 0 else - EFAULT, BIO_free S bd w3)))
         else if dst_file = None \<or> map_option fst dst_file = map_option fst module_file then
           finish (sign_in_place S cms src w1)
         else finish (kmod_sign_file S cms src (map_option snd dst_file) w1))"

section \<open>Verifying\<close>

definition pkcs7_verify :: "'w sapi \<Rightarrow> 64 word \<Rightarrow> 64 word \<Rightarrow> string \<Rightarrow> 'w \<Rightarrow> int \<times> 'w" where
  "pkcs7_verify S inb sigb cert_file w =
     (let (store, w1) = read_x509_store S cert_file w
      in if store = 0 then (- ENOENT, w1)
         else
           (let (p7, w2) = d2i_PKCS7_bio S sigb w1
            in if p7 = 0 then (- EBADMSG, X509_STORE_free S store w2)
               else
                 (let (r, w3) = PKCS7_verify S p7 store inb (PKCS7_NOVERIFY S) w2
                  in (if r \<noteq> 0 then 0 else - EBADF, X509_STORE_free S store (PKCS7_free S p7 w3)))))"

definition do_verify_sig :: "'w sapi \<Rightarrow> string option \<Rightarrow> string \<Rightarrow> string \<Rightarrow> 'w \<Rightarrow> int \<times> 'w" where
  "do_verify_sig S filename cert_file sig_file w =
     (let (inb, w1) = BIO_new_file S filename ''rb'' w
      in if inb = 0 then (- EINVAL, w1)
         else
           (let (sigb, w2) = BIO_new_file S (Some sig_file) ''rb'' w1
            in if sigb = 0 then (- EINVAL, BIO_free S inb w2)
               else
                 (let (err, w3) = pkcs7_verify S inb sigb cert_file w2
                  in (err, BIO_free S inb (BIO_free S sigb w3)))))"

text \<open>
  What \<open>do_kmod_map\<close> stores through its pointers: the address of the mapping, its length, the address
  of the signature and the length of the signature.
\<close>

record kmap =
  map_mem :: "64 word"
  map_len :: "64 word"
  map_sig :: "64 word"
  map_siglen :: "64 word"

text \<open>
  The checks on the mapped bytes. \<open>siglen\<close> is a C \<open>int\<close>, so a length of two to the 31 or more is negative;
  the sum with the two length bytes is an \<open>int\<close> too (overflow wraps here).
\<close>

definition parse_map :: "'w sapi \<Rightarrow> 64 word \<Rightarrow> 64 word \<Rightarrow> 'w \<Rightarrow> int + kmap" where
  "parse_map S mem st_size w =
     (if st_size < 40 then Inl (- ERANGE)
      else
        (let sz = st_size - 28
         in if peek_bytes S w (mem + sz) 28 \<noteq> SIG_MAGIC then Inl (- EBADMSG)
            else
              (let sz = sz - 12;
                   g = get_siginfo (peek_bytes S w (mem + sz) 12);
                   siglen = sig_len g
               in if siglen = 0 \<or> sint (siglen + ucast (signer_len g) + ucast (key_id_len g)) > sint sz then
                    Inl (- EBADMSG)
                  else
                    (let sz = sz - scast siglen
                     in Inr \<lparr>map_mem = mem, map_len = st_size, map_sig = mem + sz, map_siglen = scast siglen\<rparr>))))"

definition do_kmod_map :: "'w sapi \<Rightarrow> string option \<Rightarrow> 'w \<Rightarrow> (int + kmap) \<times> 'w" where
  "do_kmod_map S filename w =
     (let (fd, w1) = s_open S filename w
      in if fd < 0 then (Inl (- s_errno S w1), w1)
         else
           (let ((r, st_size), w2) = s_fstat S fd w1
            in if r < 0 then (Inl (- EINVAL), s_close S fd w2)
               else
                 (let (mem, w3) = s_mmap S st_size fd w2
                  in if mem = - 1 then (Inl (- EINVAL), s_close S fd w3)
                     else
                       (case parse_map S mem st_size w3 of
                          Inl err \<Rightarrow> (Inl err, s_close S fd (s_munmap S mem st_size w3))
                        | Inr m \<Rightarrow> (Inr m, s_close S fd w3)))))"

definition do_verify_kmod :: "'w sapi \<Rightarrow> string option \<Rightarrow> string \<Rightarrow> 'w \<Rightarrow> int \<times> 'w" where
  "do_verify_kmod S filename cert_file w =
     (case do_kmod_map S filename w of
        (Inl err, w1) \<Rightarrow> (err, w1)
      | (Inr m, w1) \<Rightarrow>
          (let (inb, w2) = BIO_new_mem_buf S (map_mem m) (sint (ucast (map_sig m - map_mem m) :: 32 word)) w1;
               unmap = s_munmap S (map_mem m) (map_len m)
           in if inb = 0 then (0, unmap w2)
              else
                (let (sigb, w3) = BIO_new_mem_buf S (map_sig m) (sint (ucast (map_siglen m) :: 32 word)) w2
                 in if sigb = 0 then (0, unmap (BIO_free S inb w3))
                    else
                      (let (err, w4) = pkcs7_verify S inb sigb cert_file w3
                       in (err, unmap (BIO_free S inb (BIO_free S sigb w4)))))))"

section \<open>Ownership\<close>

text \<open>
  What the caller has to give back: handles, descriptors and mappings. \<open>makes\<close>: a constructor that
  returns NULL changes nothing, otherwise the result is one new owned handle. \<open>keeps\<close>: a call that
  transfers no ownership.
\<close>

datatype res = Handle "64 word" | Fd int | Mapping "64 word"

definition makes :: "('w \<Rightarrow> res set) \<Rightarrow> ('w \<Rightarrow> 64 word \<times> 'w) \<Rightarrow> bool" where
  "makes owned f \<longleftrightarrow> (\<forall>w h w'. f w = (h, w') \<longrightarrow>
     (if h = 0 then owned w' = owned w else Handle h \<notin> owned w \<and> owned w' = insert (Handle h) (owned w)))"

definition keeps :: "('w \<Rightarrow> res set) \<Rightarrow> ('w \<Rightarrow> 'a \<times> 'w) \<Rightarrow> bool" where
  "keeps owned f \<longleftrightarrow> (\<forall>w. owned (snd (f w)) = owned w)"

lemma makesD:
  assumes "makes owned f" and "f w = (h, w')"
  shows "h = 0 \<and> owned w' = owned w \<or> h \<noteq> 0 \<and> Handle h \<notin> owned w \<and> owned w' = insert (Handle h) (owned w)"
  using assms unfolding makes_def by metis

lemma keepsD: "keeps owned f \<Longrightarrow> f w = (r, w') \<Longrightarrow> owned w' = owned w"
  unfolding keeps_def by (metis snd_conv)

lemma makesI:
  assumes "\<And>w h w'. f w = (h, w') \<Longrightarrow>
    (if h = 0 then owned w' = owned w else Handle h \<notin> owned w \<and> owned w' = insert (Handle h) (owned w))"
  shows "makes owned f"
  using assms unfolding makes_def by auto

lemma diff_below: "h \<notin> A \<Longrightarrow> h \<noteq> c \<Longrightarrow> insert c (insert h A) - {h} = insert c A"
  by auto

lemma one_more: "Handle c \<notin> A \<Longrightarrow> \<exists>d. Handle d \<notin> A \<and> insert (Handle c) A = insert (Handle d) A"
  by auto

locale ssl_owner =
  fixes S :: "'w sapi" and owned :: "'w \<Rightarrow> res set"
  assumes new_file: "makes owned (BIO_new_file S path mode)"
    and new_mem_buf: "makes owned (BIO_new_mem_buf S p n)"
    and read_key: "makes owned (PEM_read_bio_PrivateKey S b)"
    and pem_x509: "makes owned (PEM_read_bio_X509 S b)"
    and der_x509: "makes owned (d2i_X509_bio S b)"
    and der_pkcs7: "makes owned (d2i_PKCS7_bio S b)"
    and store_new: "makes owned (X509_STORE_new S)"
    and cms_sign: "makes owned (CMS_sign S flags)"
    and bio_read: "keeps owned (BIO_read S b k)"
    and bio_write: "keeps owned (BIO_write S b bs)"
    and bio_reset: "keeps owned (BIO_reset S b)"
    and add_cert: "keeps owned (X509_STORE_add_cert S store cert)"
    and add1_signer: "keeps owned (CMS_add1_signer S cms x509 key md flags)"
    and cms_final: "keeps owned (CMS_final S cms b flags)"
    and i2d_cms: "keeps owned (i2d_CMS_bio_stream S b cms)"
    and p7_verify: "keeps owned (PKCS7_verify S p7 store b flags)"
    and rename: "keeps owned (s_rename S old new)"
    and fstat: "keeps owned (s_fstat S fd)"
    and frees [simp]: "owned (BIO_free S h w) = owned w - {Handle h}"
      "owned (EVP_PKEY_free S h w) = owned w - {Handle h}" "owned (X509_free S h w) = owned w - {Handle h}"
      "owned (X509_STORE_free S h w) = owned w - {Handle h}" "owned (PKCS7_free S h w) = owned w - {Handle h}"
      "owned (CMS_ContentInfo_free S h w) = owned w - {Handle h}" "owned (s_free S h w) = owned w - {Handle h}"
      "owned (s_close S fd w) = owned w - {Fd fd}" "owned (s_munmap S a len w) = owned w - {Mapping a}"
    and asprintf: "s_asprintf S x w = ((r, p), w') \<Longrightarrow>
      (if r < 0 then owned w' = owned w else Handle p \<notin> owned w \<and> owned w' = insert (Handle p) (owned w))"
    and opens: "s_open S f w = (fd, w') \<Longrightarrow>
      (if fd < 0 then owned w' = owned w else Fd fd \<notin> owned w \<and> owned w' = insert (Fd fd) (owned w))"
    and mmap: "s_mmap S len fd w = (a, w') \<Longrightarrow>
      (if a = - 1 then owned w' = owned w else Mapping a \<notin> owned w \<and> owned w' = insert (Mapping a) (owned w))"
begin

text \<open>The contract in the form in which the proofs use it.\<close>

lemmas makes_dest =
  makesD [OF new_file] makesD [OF new_mem_buf] makesD [OF read_key] makesD [OF pem_x509] makesD [OF der_x509]
  makesD [OF der_pkcs7] makesD [OF store_new] makesD [OF cms_sign]

lemmas keeps_dest =
  keepsD [OF bio_read] keepsD [OF bio_write] keepsD [OF bio_reset] keepsD [OF add_cert] keepsD [OF add1_signer]
  keepsD [OF cms_final] keepsD [OF i2d_cms] keepsD [OF p7_verify] keepsD [OF rename] keepsD [OF fstat]

lemma read_private_key_makes: "makes owned (read_private_key S f)"
  by (rule makesI)
    (auto simp: read_private_key_def split: prod.splits if_splits dest!: makes_dest)

lemma read_x509_makes: "makes owned (read_x509 S f)"
  by (rule makesI)
    (auto simp: read_x509_def Let_def split: prod.splits if_splits dest!: makes_dest keeps_dest)

lemma cms_sign_file_makes: "makes owned (cms_sign_file S hash_algo privkey_file x509_file file)"
  by (rule makesI)
    (auto simp: cms_sign_file_def Let_def split: prod.splits if_splits
      dest!: makes_dest keeps_dest makesD [OF read_private_key_makes] makesD [OF read_x509_makes])

lemma copy_module_keeps: "copy_module S bm bd w = Some (n, w') \<Longrightarrow> owned w' = owned w"
proof -
  assume run: "copy_module S bm bd w = Some (n, w')"
  have "S = S \<longrightarrow> owned (snd (n, w')) = owned w"
  proof (rule copy_module.raw_induct [where P = "\<lambda>S' bm bd w y. S' = S \<longrightarrow> owned (snd y) = owned w", OF _ run])
    fix copy S' bm bd w and y :: "int \<times> 'w"
    assume "\<And>S' bm bd w y. copy S' bm bd w = Some y \<Longrightarrow> S' = S \<longrightarrow> owned (snd y) = owned w"
      and "(let ((n, buffer), w1) = BIO_read S' bm 4096 w
            in if n > 0 then
                 (let (n', w2) = BIO_write S' bd (take (nat n) buffer) w1
                  in if n' < 0 then Some (n', w2) else copy S' bm bd w2)
               else Some (n, w1)) = Some y"
    then show "S' = S \<longrightarrow> owned (snd y) = owned w"
      using keepsD [OF bio_write] keepsD [OF bio_read]
      by (cases y) (fastforce simp: Let_def split: prod.splits if_splits)
  qed
  then show ?thesis by simp
qed

lemma write_signature_keeps: "write_signature S bd cms w = (err, w') \<Longrightarrow> owned w' = owned w"
  by (auto simp: write_signature_def Let_def split: prod.splits if_splits dest!: keeps_dest)

lemma kmod_sign_file_keeps: "kmod_sign_file S cms src dst w = Some (err, w') \<Longrightarrow> owned w' = owned w"
  by (auto simp: kmod_sign_file_def Let_def split: prod.splits if_splits option.splits
      dest!: makes_dest copy_module_keeps write_signature_keeps)

lemma sign_in_place_keeps: "sign_in_place S cms src w = Some (err, w') \<Longrightarrow> owned w' = owned w"
  by (auto simp: sign_in_place_def Let_def split: prod.splits if_splits option.splits
      dest!: asprintf keeps_dest kmod_sign_file_keeps)

lemma do_kmod_sign_keeps:
  "do_kmod_sign S m hash_algo privkey_file x509_file dst save_sig w = Some (err, w') \<Longrightarrow> owned w' = owned w"
  by (auto simp: do_kmod_sign_def Let_def split: prod.splits if_splits
      dest!: makes_dest keeps_dest makesD [OF cms_sign_file_makes] kmod_sign_file_keeps sign_in_place_keeps)

text \<open>A certificate store holds its own reference: the one of the certificate read is left to the caller.\<close>

lemma read_x509_store_owned:
  assumes "read_x509_store S cert_file w = (store, w')"
  shows "if store = 0 then owned w' = owned w
    else \<exists>cert. Handle cert \<notin> owned w \<and> store \<noteq> cert \<and> Handle store \<notin> owned w \<and>
      owned w' = insert (Handle cert) (insert (Handle store) (owned w))"
  using assms
  by (auto simp: read_x509_store_def Let_def split: prod.splits if_splits dest!: makes_dest keeps_dest)

lemma pkcs7_verify_owned:
  assumes "pkcs7_verify S inb sigb cert_file w = (err, w')"
  shows "err = - ENOENT \<and> owned w' = owned w \<or>
    err \<in> {0, - EBADMSG, - EBADF} \<and> (\<exists>cert. Handle cert \<notin> owned w \<and> owned w' = insert (Handle cert) (owned w))"
  using assms
  by (auto simp: pkcs7_verify_def Let_def diff_below split: prod.splits if_splits
      intro!: one_more
      dest!: makes_dest keeps_dest read_x509_store_owned)

lemma do_verify_sig_owned:
  assumes "do_verify_sig S filename cert_file sig_file w = (err, w')"
  shows "err \<in> {- ENOENT, - EINVAL} \<and> owned w' = owned w \<or>
    err \<in> {0, - EBADMSG, - EBADF} \<and> (\<exists>cert. Handle cert \<notin> owned w \<and> owned w' = insert (Handle cert) (owned w))"
  using assms
  by (auto simp: do_verify_sig_def Let_def diff_below split: prod.splits if_splits intro!: one_more
      dest!: makes_dest pkcs7_verify_owned)
   

lemma do_kmod_map_owned:
  assumes "do_kmod_map S filename w = (r, w')"
  shows "case r of Inl err \<Rightarrow> owned w' = owned w
    | Inr m \<Rightarrow> Mapping (map_mem m) \<notin> owned w \<and> owned w' = insert (Mapping (map_mem m)) (owned w)"
  using assms
  by (auto simp: do_kmod_map_def parse_map_def Let_def split: prod.splits if_splits sum.splits
      dest!: opens mmap keeps_dest)

lemma do_verify_kmod_owned:
  assumes "do_verify_kmod S filename cert_file w = (err, w')"
  shows "owned w' = owned w \<or> (\<exists>cert. Handle cert \<notin> owned w \<and> owned w' = insert (Handle cert) (owned w))"
  using assms
  by (auto simp: do_verify_kmod_def Let_def diff_below split: prod.splits if_splits sum.splits intro!: one_more
      dest!: makes_dest pkcs7_verify_owned do_kmod_map_owned)

end

end
