(* ===== verification/Lua_Kmod.thy ===== *)
theory Lua_Kmod
  imports Lua_Aux Kmod_Sign
begin

text \<open>
  The Lua functions of \<open>src/daemon/lua_kmod.c\<close>. The record \<open>kmodapi\<close> has the libkmod functions they call;
  families of functions that the source generates with a macro (\<open>kmod_config_get_ ## name\<close> and so on) are one
  field with the name as argument. A call with an out parameter returns its return value and the
  content of the out parameter, which the code has set to NULL before. A NULL string is \<open>None\<close>.
  \<open>str_addr\<close> is the address of the characters of a Lua string.

  The end of the theory has the tables of the library and \<open>luaopen_kmod\<close>.
\<close>

record 'w kmodapi =
  k_strerror :: "int \<Rightarrow> string"
  str_addr :: "string \<Rightarrow> 64 word"
  kmod_new :: "string option \<Rightarrow> 'w \<Rightarrow> 64 word \<times> 'w"
  kmod_unref :: "64 word \<Rightarrow> 'w \<Rightarrow> 'w"
  kmod_get_dirname :: "64 word \<Rightarrow> 'w \<Rightarrow> string option"
  kmod_load_resources :: "64 word \<Rightarrow> 'w \<Rightarrow> int \<times> 'w"
  kmod_unload_resources :: "64 word \<Rightarrow> 'w \<Rightarrow> 'w"
  kmod_validate_resources :: "64 word \<Rightarrow> 'w \<Rightarrow> int \<times> 'w"
  KMOD_RESOURCES_OK :: int
  KMOD_RESOURCES_MUST_RELOAD :: int
  KMOD_RESOURCES_MUST_RECREATE :: int
  kmod_config_get :: "string \<Rightarrow> 64 word \<Rightarrow> 'w \<Rightarrow> 64 word \<times> 'w"
  kmod_config_iter_next :: "64 word \<Rightarrow> 'w \<Rightarrow> bool \<times> 'w"
  kmod_config_iter_get_key :: "64 word \<Rightarrow> 'w \<Rightarrow> string option"
  kmod_config_iter_get_value :: "64 word \<Rightarrow> 'w \<Rightarrow> string option"
  kmod_config_iter_free_iter :: "64 word \<Rightarrow> 'w \<Rightarrow> 'w"
  kmod_module_new_from_name :: "64 word \<Rightarrow> string \<Rightarrow> 'w \<Rightarrow> (int \<times> 64 word) \<times> 'w"
  kmod_module_new_from_path :: "64 word \<Rightarrow> string \<Rightarrow> 'w \<Rightarrow> (int \<times> 64 word) \<times> 'w"
  kmod_module_new_from_name_lookup :: "64 word \<Rightarrow> string \<Rightarrow> 'w \<Rightarrow> (int \<times> 64 word) \<times> 'w"
  kmod_module_new_from_lookup :: "64 word \<Rightarrow> string \<Rightarrow> 'w \<Rightarrow> (int \<times> 64 word) \<times> 'w"
  kmod_module_new_from_loaded :: "64 word \<Rightarrow> 'w \<Rightarrow> (int \<times> 64 word) \<times> 'w"
  kmod_module_get_module :: "64 word \<Rightarrow> 'w \<Rightarrow> 64 word \<times> 'w"
  kmod_list_next :: "64 word \<Rightarrow> 64 word \<Rightarrow> 'w \<Rightarrow> 64 word"
  kmod_module_unref :: "64 word \<Rightarrow> 'w \<Rightarrow> 'w"
  kmod_module_get_str :: "string \<Rightarrow> 64 word \<Rightarrow> 'w \<Rightarrow> cstring option"
  kmod_module_insert_module :: "64 word \<Rightarrow> 32 word \<Rightarrow> string option \<Rightarrow> 'w \<Rightarrow> int \<times> 'w"
  kmod_module_remove_module :: "64 word \<Rightarrow> 32 word \<Rightarrow> 'w \<Rightarrow> int \<times> 'w"
  kmod_module_probe_insert_module ::
    "64 word \<Rightarrow> 32 word \<Rightarrow> string option \<Rightarrow> (64 word \<Rightarrow> string \<Rightarrow> 'w \<Rightarrow> int \<times> 'w) \<Rightarrow>
       (64 word \<Rightarrow> bool \<Rightarrow> string \<Rightarrow> 'w \<Rightarrow> 'w) \<Rightarrow> 'w \<Rightarrow> int \<times> 'w"
  kmod_module_get_initstate :: "64 word \<Rightarrow> 'w \<Rightarrow> int \<times> 'w"
  kmod_module_initstate_str :: "int \<Rightarrow> string option"
  kmod_module_get_refcnt :: "64 word \<Rightarrow> 'w \<Rightarrow> int \<times> 'w"
  kmod_module_get_size :: "64 word \<Rightarrow> 'w \<Rightarrow> int \<times> 'w"
  kmod_module_get_list :: "string \<Rightarrow> 64 word \<Rightarrow> 'w \<Rightarrow> 64 word \<times> 'w"
  kmod_module_fill_list :: "string \<Rightarrow> 64 word \<Rightarrow> 'w \<Rightarrow> (int \<times> 64 word) \<times> 'w"
  kmod_module_section_get_name :: "64 word \<Rightarrow> 'w \<Rightarrow> string option"
  kmod_module_section_get_address :: "64 word \<Rightarrow> 'w \<Rightarrow> 64 word"
  kmod_module_info_get_key :: "64 word \<Rightarrow> 'w \<Rightarrow> string option"
  kmod_module_info_get_value_n :: "64 word \<Rightarrow> 'w \<Rightarrow> string"
  kmod_module_version_get_symbol :: "64 word \<Rightarrow> 'w \<Rightarrow> string option"
  kmod_module_version_get_crc :: "64 word \<Rightarrow> 'w \<Rightarrow> 64 word"
  kmod_module_symbol_get_symbol :: "64 word \<Rightarrow> 'w \<Rightarrow> string option"
  kmod_module_symbol_get_crc :: "64 word \<Rightarrow> 'w \<Rightarrow> 64 word"
  kmod_module_dependency_symbol_get_symbol :: "64 word \<Rightarrow> 'w \<Rightarrow> string option"
  kmod_module_dependency_symbol_get_crc :: "64 word \<Rightarrow> 'w \<Rightarrow> 64 word"
  kmod_module_dependency_symbol_get_bind :: "64 word \<Rightarrow> 'w \<Rightarrow> int"
  KMOD_SYMBOL_NONE :: int
  KMOD_SYMBOL_LOCAL :: int
  KMOD_SYMBOL_GLOBAL :: int
  KMOD_SYMBOL_WEAK :: int
  KMOD_SYMBOL_UNDEF :: int
  kmod_module_free_list :: "string \<Rightarrow> 64 word \<Rightarrow> 'w \<Rightarrow> 'w"
  KMOD_INSERT_FORCE_VERMAGIC :: "32 word"
  KMOD_INSERT_FORCE_MODVERSION :: "32 word"
  KMOD_REMOVE_FORCE :: "32 word"
  KMOD_REMOVE_NOWAIT :: "32 word"
  KMOD_REMOVE_NOLOG :: "32 word"
  KMOD_PROBE_FORCE_VERMAGIC :: "32 word"
  KMOD_PROBE_FORCE_MODVERSION :: "32 word"
  KMOD_PROBE_IGNORE_COMMAND :: "32 word"
  KMOD_PROBE_IGNORE_LOADED :: "32 word"
  KMOD_PROBE_DRY_RUN :: "32 word"
  KMOD_PROBE_FAIL_ON_LOADED :: "32 word"

unbundle bit_operations_syntax

definition METH_KMOD_CTX :: string where "METH_KMOD_CTX = ''meth_kmod_ctx''"
definition METH_KMOD_CONFIG :: string where "METH_KMOD_CONFIG = ''meth_kmod_config''"
definition METH_KMOD_MODULE :: string where "METH_KMOD_MODULE = ''meth_kmod_module''"
definition METH_KMOD_LIST_MODULE :: string where "METH_KMOD_LIST_MODULE = ''meth_kmod_list_module''"
definition METH_KMOD_LIST_MOD_SECTION :: string where "METH_KMOD_LIST_MOD_SECTION = ''meth_kmod_list_mod_section''"
definition METH_KMOD_LIST_MOD_INFO :: string where "METH_KMOD_LIST_MOD_INFO = ''meth_kmod_list_mod_info''"
definition METH_KMOD_LIST_MOD_VERSION :: string where "METH_KMOD_LIST_MOD_VERSION = ''meth_kmod_list_mod_version''"
definition METH_KMOD_LIST_MOD_SYMBOL :: string where "METH_KMOD_LIST_MOD_SYMBOL = ''meth_kmod_list_mod_symbol''"
definition METH_KMOD_LIST_MOD_DEP_SYMBOL :: string where "METH_KMOD_LIST_MOD_DEP_SYMBOL = ''meth_kmod_list_mod_dep_symbol''"

text \<open>\<open>struct list\<close> is a userdata block: word 0 is the head, word 1 the cursor.\<close>

definition newlist :: "'v lua_api \<Rightarrow> string \<Rightarrow> ('v, 'w) st \<Rightarrow> nat \<times> ('v, 'w) st" where
  "newlist A metatable s =
     (let (l, v) = lua_newuserdata A (vm s);
          s1 = poke l 1 0 (poke l 0 0 (s\<lparr>vm := v\<rparr>))
      in (l, upd_vm (\<lambda>v. lua_setmetatable A (luaL_getmetatable A v metatable) (- 2)) s1))"

definition toctx :: "'v lua_api \<Rightarrow> int \<Rightarrow> ('v, 'w) st \<Rightarrow> string + 64 word" where
  "toctx A idx s = toudata A METH_KMOD_CTX idx s"

definition toconfig :: "'v lua_api \<Rightarrow> int \<Rightarrow> ('v, 'w) st \<Rightarrow> string + 64 word" where
  "toconfig A idx s = toudata A METH_KMOD_CONFIG idx s"

definition tomodule :: "'v lua_api \<Rightarrow> int \<Rightarrow> ('v, 'w) st \<Rightarrow> string + 64 word" where
  "tomodule A idx s = toudata A METH_KMOD_MODULE idx s"

definition kmod_error :: "'v lua_api \<Rightarrow> 'w kmodapi \<Rightarrow> int \<Rightarrow> ('v, 'w) st \<Rightarrow> ('v, 'w) ret" where
  "kmod_error A K err s =
     Some (Inr 3, upd_vm (\<lambda>v. lua_pushstring A (lua_pushinteger A (lua_pushnil A v) err) (k_strerror K err)) s)"

text \<open>\<open>if (err < 0) return kmod_error(L, -err); lua_pushboolean(L, 1); return 1;\<close>\<close>

definition kmod_result :: "'v lua_api \<Rightarrow> 'w kmodapi \<Rightarrow> int \<Rightarrow> ('v, 'w) st \<Rightarrow> ('v, 'w) ret" where
  "kmod_result A K err s =
     (if err < 0 then kmod_error A K (- err) s
      else Some (Inr 1, upd_vm (\<lambda>v. lua_pushboolean A v True) s))"

section \<open>The context\<close>

definition ctx_unref :: "'v lua_api \<Rightarrow> 'w kmodapi \<Rightarrow> ('v, 'w) st \<Rightarrow> ('v, 'w) ret" where
  "ctx_unref A K s = arg (toctx A 1 s) s (\<lambda>ctx. Some (Inr 0, s\<lparr>os := kmod_unref K ctx (os s)\<rparr>))"

definition ctx_dirname :: "'v lua_api \<Rightarrow> 'w kmodapi \<Rightarrow> ('v, 'w) st \<Rightarrow> ('v, 'w) ret" where
  "ctx_dirname A K s =
     arg (toctx A 1 s) s (\<lambda>ctx. Some (Inr 1, upd_vm (\<lambda>v. push_cstring A v (kmod_get_dirname K ctx (os s))) s))"

definition ctx_load_resources :: "'v lua_api \<Rightarrow> 'w kmodapi \<Rightarrow> ('v, 'w) st \<Rightarrow> ('v, 'w) ret" where
  "ctx_load_resources A K s =
     arg (toctx A 1 s) s (\<lambda>ctx. let (err, s1) = call_os (kmod_load_resources K ctx) s in kmod_result A K err s1)"

definition ctx_unload_resources :: "'v lua_api \<Rightarrow> 'w kmodapi \<Rightarrow> ('v, 'w) st \<Rightarrow> ('v, 'w) ret" where
  "ctx_unload_resources A K s =
     arg (toctx A 1 s) s (\<lambda>ctx. Some (Inr 0, s\<lparr>os := kmod_unload_resources K ctx (os s)\<rparr>))"

definition ctx_validate_resources :: "'v lua_api \<Rightarrow> 'w kmodapi \<Rightarrow> ('v, 'w) st \<Rightarrow> ('v, 'w) ret" where
  "ctx_validate_resources A K s =
     arg (toctx A 1 s) s (\<lambda>ctx.
       let (r, s1) = call_os (kmod_validate_resources K ctx) s;
           x = (if r = KMOD_RESOURCES_OK K then ''ok''
                else if r = KMOD_RESOURCES_MUST_RELOAD K then ''reload''
                else if r = KMOD_RESOURCES_MUST_RECREATE K then ''recreate''
                else ''unknown'')
       in Some (Inr 1, upd_vm (\<lambda>v. lua_pushstring A v x) s1))"

text \<open>
  \<open>CONFIG_FOR_FUNCTION(name)\<close>: called with the context alone it starts a generic \<open>for\<close> (the function
  itself and an iterator object), otherwise it delivers the next key and value.
\<close>

definition CONFIG_FOR_FUNCTION :: "string \<Rightarrow> 'v lua_api \<Rightarrow> 'w kmodapi \<Rightarrow> ('v, 'w) st \<Rightarrow> ('v, 'w) ret" where
  "CONFIG_FOR_FUNCTION name A K s =
     (if lua_gettop A (vm s) = 1 then
        arg (toctx A 1 s) s (\<lambda>ctx.
          let s1 = upd_vm (\<lambda>v. lua_pushcfunction A v (''ctx_config_'' @ name)) s;
              (b, s2) = newcptr A METH_KMOD_CONFIG s1;
              (iter, s3) = call_os (kmod_config_get K name ctx) s2
          in Some (Inr 2, poke b 0 iter s3))
      else
        arg (toconfig A 1 s) s (\<lambda>iter.
          let (more, s1) = call_os (kmod_config_iter_next K iter) s
          in if \<not> more then Some (Inr 1, upd_vm (lua_pushnil A) s1)
             else Some (Inr 2, upd_vm (\<lambda>v. push_cstring A (push_cstring A v (kmod_config_iter_get_key K iter (os s1)))
                    (kmod_config_iter_get_value K iter (os s1))) s1)))"

text \<open>The body the three constructors of modules share: make a userdata and let the library fill it.\<close>

definition new_module ::
  "(64 word \<Rightarrow> string \<Rightarrow> 'w \<Rightarrow> (int \<times> 64 word) \<times> 'w) \<Rightarrow> 'v lua_api \<Rightarrow> 'w kmodapi \<Rightarrow> ('v, 'w) st \<Rightarrow> ('v, 'w) ret" where
  "new_module lookup A K s =
     arg (toctx A 1 s) s (\<lambda>ctx.
       arg (luaL_checkstring A (vm s) 2) s (\<lambda>name.
         let (b, s1) = newcptr A METH_KMOD_MODULE s;
             ((err, m), s2) = call_os (lookup ctx name) s1;
             s3 = poke b 0 m s2
         in if err < 0 then kmod_error A K (- err) s3 else Some (Inr 1, s3)))"

definition ctx_module_from_name :: "'v lua_api \<Rightarrow> 'w kmodapi \<Rightarrow> ('v, 'w) st \<Rightarrow> ('v, 'w) ret" where
  "ctx_module_from_name A K s = new_module (kmod_module_new_from_name K) A K s"

definition ctx_module_from_path :: "'v lua_api \<Rightarrow> 'w kmodapi \<Rightarrow> ('v, 'w) st \<Rightarrow> ('v, 'w) ret" where
  "ctx_module_from_path A K s = new_module (kmod_module_new_from_path K) A K s"

definition ctx_module_from_name_lookup :: "'v lua_api \<Rightarrow> 'w kmodapi \<Rightarrow> ('v, 'w) st \<Rightarrow> ('v, 'w) ret" where
  "ctx_module_from_name_lookup A K s = new_module (kmod_module_new_from_name_lookup K) A K s"

text \<open>
  Iterating over a \<open>struct list\<close>. The start pushes the generator and a list object filled by \<open>fill\<close>; a
  step reads the list object without checking its type, ends with nil at a NULL cursor and otherwise
  pushes what \<open>vars\<close> says about the element and advances. \<open>None\<close> is a crash: the first argument is no
  userdata, so a NULL pointer is dereferenced.
\<close>

definition list_start ::
  "string \<Rightarrow> string \<Rightarrow> ('w \<Rightarrow> (int \<times> 64 word) \<times> 'w) \<Rightarrow> 'v lua_api \<Rightarrow> 'w kmodapi \<Rightarrow> ('v, 'w) st \<Rightarrow> ('v, 'w) ret" where
  "list_start gen metatable fill A K s =
     (let s1 = upd_vm (\<lambda>v. lua_pushcfunction A v gen) s;
          (l, s2) = newlist A metatable s1;
          ((err, h), s3) = call_os fill s2;
          s4 = poke l 0 h s3
      in if err < 0 then kmod_error A K (- err) s4 else Some (Inr 2, poke l 1 h s4))"

definition list_step ::
  "(64 word \<Rightarrow> ('v, 'w) st \<Rightarrow> nat \<times> ('v, 'w) st) \<Rightarrow> 'v lua_api \<Rightarrow> 'w kmodapi \<Rightarrow> ('v, 'w) st \<Rightarrow> ('v, 'w) ret" where
  "list_step vars A K s =
     (case lua_touserdata A (vm s) 1 of
        None \<Rightarrow> None
      | Some l \<Rightarrow>
          if mem s l 1 = 0 then Some (Inr 1, upd_vm (lua_pushnil A) s)
          else (let (n, s1) = vars (mem s l 1) s
                in Some (Inr n, poke l 1 (kmod_list_next K (mem s1 l 0) (mem s1 l 1) (os s1)) s1)))"

text \<open>\<open>VARS_module\<close>: a new module object holding a reference to the module of the element.\<close>

definition VARS_module :: "'v lua_api \<Rightarrow> 'w kmodapi \<Rightarrow> 64 word \<Rightarrow> ('v, 'w) st \<Rightarrow> nat \<times> ('v, 'w) st" where
  "VARS_module A K e s =
     (let (b, s1) = newcptr A METH_KMOD_MODULE s;
          (m, s2) = call_os (kmod_module_get_module K e) s1
      in (1, poke b 0 m s2))"

definition ctx_modules_from_lookup :: "'v lua_api \<Rightarrow> 'w kmodapi \<Rightarrow> ('v, 'w) st \<Rightarrow> ('v, 'w) ret" where
  "ctx_modules_from_lookup A K s =
     (if lua_gettop A (vm s) = 1 then
        arg (toctx A 1 s) s (\<lambda>ctx.
          arg (luaL_checkstring A (vm s) 2) s (\<lambda>alias.
            list_start ''ctx_modules_from_lookup'' METH_KMOD_LIST_MODULE (kmod_module_new_from_lookup K ctx alias) A K s))
      else list_step (VARS_module A K) A K s)"

definition ctx_modules_from_loaded :: "'v lua_api \<Rightarrow> 'w kmodapi \<Rightarrow> ('v, 'w) st \<Rightarrow> ('v, 'w) ret" where
  "ctx_modules_from_loaded A K s =
     (if lua_gettop A (vm s) = 1 then
        arg (toctx A 1 s) s (\<lambda>ctx.
          list_start ''ctx_modules_from_loaded'' METH_KMOD_LIST_MODULE (kmod_module_new_from_loaded K ctx) A K s)
      else list_step (VARS_module A K) A K s)"

section \<open>Config iterators\<close>

definition config_iter_free :: "'v lua_api \<Rightarrow> 'w kmodapi \<Rightarrow> ('v, 'w) st \<Rightarrow> ('v, 'w) ret" where
  "config_iter_free A K s =
     arg (toconfig A 1 s) s (\<lambda>iter.
       Some (Inr 0, if iter \<noteq> 0 then s\<lparr>os := kmod_config_iter_free_iter K iter (os s)\<rparr> else s))"

section \<open>Modules\<close>

definition module_unref :: "'v lua_api \<Rightarrow> 'w kmodapi \<Rightarrow> ('v, 'w) st \<Rightarrow> ('v, 'w) ret" where
  "module_unref A K s = arg (tomodule A 1 s) s (\<lambda>md. Some (Inr 0, s\<lparr>os := kmod_module_unref K md (os s)\<rparr>))"

text \<open>\<open>METH_MODULE_DEF(name)\<close>: name, path, options and the install and remove commands.\<close>

definition METH_MODULE_DEF :: "string \<Rightarrow> 'v lua_api \<Rightarrow> 'w kmodapi \<Rightarrow> ('v, 'w) st \<Rightarrow> ('v, 'w) ret" where
  "METH_MODULE_DEF name A K s =
     arg (tomodule A 1 s) s (\<lambda>md.
       Some (Inr 1, upd_vm (\<lambda>v. push_cstring A v (map_option snd (kmod_module_get_str K name md (os s)))) s))"

definition insert_opts :: "'w kmodapi \<Rightarrow> cflag_opt list" where
  "insert_opts K =
     [(''force'', KMOD_INSERT_FORCE_VERMAGIC K OR KMOD_INSERT_FORCE_MODVERSION K),
      (''force_vermagic'', KMOD_INSERT_FORCE_VERMAGIC K),
      (''force_modversion'', KMOD_INSERT_FORCE_MODVERSION K)]"

definition module_insert :: "'v lua_api \<Rightarrow> 'w kmodapi \<Rightarrow> ('v, 'w) st \<Rightarrow> ('v, 'w) ret" where
  "module_insert A K s =
     arg (tomodule A 1 s) s (\<lambda>md.
       (case tocflags A 2 (insert_opts K) 0 s of
          None \<Rightarrow> None
        | Some (flags, s1) \<Rightarrow>
            arg (luaL_optstring A (vm s1) 3) s1 (\<lambda>options.
              let (err, s2) = call_os (kmod_module_insert_module K md flags options) s1 in kmod_result A K err s2)))"

definition remove_opts :: "'w kmodapi \<Rightarrow> cflag_opt list" where
  "remove_opts K = [(''force'', KMOD_REMOVE_FORCE K), (''nowait'', KMOD_REMOVE_NOWAIT K), (''nolog'', KMOD_REMOVE_NOLOG K)]"

definition module_remove :: "'v lua_api \<Rightarrow> 'w kmodapi \<Rightarrow> ('v, 'w) st \<Rightarrow> ('v, 'w) ret" where
  "module_remove A K s =
     arg (tomodule A 1 s) s (\<lambda>md.
       (case tocflags A 2 (remove_opts K) 0 s of
          None \<Rightarrow> None
        | Some (flags, s1) \<Rightarrow>
            (let (err, s2) = call_os (kmod_module_remove_module K md flags) s1 in kmod_result A K err s2)))"

definition run_install :: "64 word \<Rightarrow> string \<Rightarrow> 'w \<Rightarrow> int \<times> 'w" where
  "run_install md cmdline w = (0, w)"

definition print_action :: "64 word \<Rightarrow> bool \<Rightarrow> string \<Rightarrow> 'w \<Rightarrow> 'w" where
  "print_action md install options w = w"

definition probe_opts :: "'w kmodapi \<Rightarrow> cflag_opt list" where
  "probe_opts K =
     [(''force'', KMOD_PROBE_FORCE_VERMAGIC K OR KMOD_PROBE_FORCE_MODVERSION K),
      (''ignore'', KMOD_PROBE_IGNORE_COMMAND K OR KMOD_PROBE_IGNORE_LOADED K),
      (''dry_run'', KMOD_PROBE_DRY_RUN K),
      (''fail_on_loaded'', KMOD_PROBE_FAIL_ON_LOADED K),
      (''force_vermagic'', KMOD_PROBE_FORCE_VERMAGIC K),
      (''force_modversion'', KMOD_PROBE_FORCE_MODVERSION K),
      (''ignore_command'', KMOD_PROBE_IGNORE_COMMAND K),
      (''ignore_loaded'', KMOD_PROBE_IGNORE_LOADED K)]"

definition module_probe_insert :: "'v lua_api \<Rightarrow> 'w kmodapi \<Rightarrow> ('v, 'w) st \<Rightarrow> ('v, 'w) ret" where
  "module_probe_insert A K s =
     arg (tomodule A 1 s) s (\<lambda>md.
       (case tocflags A 2 (probe_opts K) 0 s of
          None \<Rightarrow> None
        | Some (flags, s1) \<Rightarrow>
            arg (luaL_optstring A (vm s1) 3) s1 (\<lambda>options.
              let (err, s2) = call_os (kmod_module_probe_insert_module K md flags options run_install print_action) s1
              in kmod_result A K err s2)))"

definition module_initstate :: "'v lua_api \<Rightarrow> 'w kmodapi \<Rightarrow> ('v, 'w) st \<Rightarrow> ('v, 'w) ret" where
  "module_initstate A K s =
     arg (tomodule A 1 s) s (\<lambda>md.
       let (state, s1) = call_os (kmod_module_get_initstate K md) s;
           x = (case kmod_module_initstate_str K state of None \<Rightarrow> ''unknown'' | Some x \<Rightarrow> x)
       in Some (Inr 1, upd_vm (\<lambda>v. lua_pushstring A v x) s1))"

definition module_refcnt :: "'v lua_api \<Rightarrow> 'w kmodapi \<Rightarrow> ('v, 'w) st \<Rightarrow> ('v, 'w) ret" where
  "module_refcnt A K s =
     arg (tomodule A 1 s) s (\<lambda>md.
       let (n, s1) = call_os (kmod_module_get_refcnt K md) s in Some (Inr 1, upd_vm (\<lambda>v. lua_pushinteger A v n) s1))"

definition module_size :: "'v lua_api \<Rightarrow> 'w kmodapi \<Rightarrow> ('v, 'w) st \<Rightarrow> ('v, 'w) ret" where
  "module_size A K s =
     arg (tomodule A 1 s) s (\<lambda>md.
       let (n, s1) = call_os (kmod_module_get_size K md) s in Some (Inr 1, upd_vm (\<lambda>v. lua_pushinteger A v n) s1))"

text \<open>
  The first \<open>MODULE_FOR_FUNCTION\<close> (dependencies, holders, sections): the library returns the list. The
  second (infos, versions, symbols, dependency symbols): it fills an out parameter and may fail.
\<close>

definition MODULE_FOR_LIST ::
  "string \<Rightarrow> string \<Rightarrow> (64 word \<Rightarrow> ('v, 'w) st \<Rightarrow> nat \<times> ('v, 'w) st) \<Rightarrow> 'v lua_api \<Rightarrow> 'w kmodapi \<Rightarrow> ('v, 'w) st \<Rightarrow>
     ('v, 'w) ret" where
  "MODULE_FOR_LIST name metatable vars A K s =
     (if lua_gettop A (vm s) = 1 then
        arg (tomodule A 1 s) s (\<lambda>md.
          list_start (''module_'' @ name) metatable (\<lambda>w. case kmod_module_get_list K name md w of (h, w') \<Rightarrow> ((0, h), w')) A K s)
      else list_step vars A K s)"

definition MODULE_FOR_FUNCTION ::
  "string \<Rightarrow> string \<Rightarrow> string \<Rightarrow> (64 word \<Rightarrow> ('v, 'w) st \<Rightarrow> nat \<times> ('v, 'w) st) \<Rightarrow> 'v lua_api \<Rightarrow> 'w kmodapi \<Rightarrow> ('v, 'w) st \<Rightarrow>
     ('v, 'w) ret" where
  "MODULE_FOR_FUNCTION name fname metatable vars A K s =
     (if lua_gettop A (vm s) = 1 then
        arg (tomodule A 1 s) s (\<lambda>md.
          list_start (''module_'' @ name) metatable (kmod_module_fill_list K fname md) A K s)
      else list_step vars A K s)"

definition VARS_sections :: "'v lua_api \<Rightarrow> 'w kmodapi \<Rightarrow> 64 word \<Rightarrow> ('v, 'w) st \<Rightarrow> nat \<times> ('v, 'w) st" where
  "VARS_sections A K e s =
     (let addr = kmod_module_section_get_address K e (os s)
      in (2, upd_vm (\<lambda>v. lua_pushnumber A (push_cstring A v (kmod_module_section_get_name K e (os s))) (uint addr)) s))"

definition VARS_infos :: "'v lua_api \<Rightarrow> 'w kmodapi \<Rightarrow> 64 word \<Rightarrow> ('v, 'w) st \<Rightarrow> nat \<times> ('v, 'w) st" where
  "VARS_infos A K e s =
     (2, upd_vm (\<lambda>v. lua_pushstring A (push_cstring A v (kmod_module_info_get_key K e (os s)))
        (kmod_module_info_get_value_n K e (os s))) s)"

definition VARS_versions :: "'v lua_api \<Rightarrow> 'w kmodapi \<Rightarrow> 64 word \<Rightarrow> ('v, 'w) st \<Rightarrow> nat \<times> ('v, 'w) st" where
  "VARS_versions A K e s =
     (2, upd_vm (\<lambda>v. lua_pushnumber A (push_cstring A v (kmod_module_version_get_symbol K e (os s)))
        (uint (kmod_module_version_get_crc K e (os s)))) s)"

definition VARS_symbols :: "'v lua_api \<Rightarrow> 'w kmodapi \<Rightarrow> 64 word \<Rightarrow> ('v, 'w) st \<Rightarrow> nat \<times> ('v, 'w) st" where
  "VARS_symbols A K e s =
     (2, upd_vm (\<lambda>v. lua_pushnumber A (push_cstring A v (kmod_module_symbol_get_symbol K e (os s)))
        (uint (kmod_module_symbol_get_crc K e (os s)))) s)"

definition VARS_dep_symbols :: "'v lua_api \<Rightarrow> 'w kmodapi \<Rightarrow> 64 word \<Rightarrow> ('v, 'w) st \<Rightarrow> nat \<times> ('v, 'w) st" where
  "VARS_dep_symbols A K e s =
     (let bind = kmod_module_dependency_symbol_get_bind K e (os s);
          x = (if bind = KMOD_SYMBOL_NONE K then ''none''
               else if bind = KMOD_SYMBOL_LOCAL K then ''local''
               else if bind = KMOD_SYMBOL_GLOBAL K then ''global''
               else if bind = KMOD_SYMBOL_WEAK K then ''weak''
               else if bind = KMOD_SYMBOL_UNDEF K then ''undef''
               else ''unknown'')
      in (3, upd_vm (\<lambda>v. lua_pushstring A (lua_pushnumber A
             (push_cstring A v (kmod_module_dependency_symbol_get_symbol K e (os s)))
             (uint (kmod_module_dependency_symbol_get_crc K e (os s)))) x) s))"

definition module_dependencies :: "'v lua_api \<Rightarrow> 'w kmodapi \<Rightarrow> ('v, 'w) st \<Rightarrow> ('v, 'w) ret" where
  "module_dependencies A K = MODULE_FOR_LIST ''dependencies'' METH_KMOD_LIST_MODULE (VARS_module A K) A K"

definition module_holders :: "'v lua_api \<Rightarrow> 'w kmodapi \<Rightarrow> ('v, 'w) st \<Rightarrow> ('v, 'w) ret" where
  "module_holders A K = MODULE_FOR_LIST ''holders'' METH_KMOD_LIST_MODULE (VARS_module A K) A K"

definition module_sections :: "'v lua_api \<Rightarrow> 'w kmodapi \<Rightarrow> ('v, 'w) st \<Rightarrow> ('v, 'w) ret" where
  "module_sections A K = MODULE_FOR_LIST ''sections'' METH_KMOD_LIST_MOD_SECTION (VARS_sections A K) A K"

definition module_infos :: "'v lua_api \<Rightarrow> 'w kmodapi \<Rightarrow> ('v, 'w) st \<Rightarrow> ('v, 'w) ret" where
  "module_infos A K = MODULE_FOR_FUNCTION ''infos'' ''info'' METH_KMOD_LIST_MOD_INFO (VARS_infos A K) A K"

definition module_versions :: "'v lua_api \<Rightarrow> 'w kmodapi \<Rightarrow> ('v, 'w) st \<Rightarrow> ('v, 'w) ret" where
  "module_versions A K = MODULE_FOR_FUNCTION ''versions'' ''versions'' METH_KMOD_LIST_MOD_VERSION (VARS_versions A K) A K"

definition module_symbols :: "'v lua_api \<Rightarrow> 'w kmodapi \<Rightarrow> ('v, 'w) st \<Rightarrow> ('v, 'w) ret" where
  "module_symbols A K = MODULE_FOR_FUNCTION ''symbols'' ''symbols'' METH_KMOD_LIST_MOD_SYMBOL (VARS_symbols A K) A K"

definition module_dep_symbols :: "'v lua_api \<Rightarrow> 'w kmodapi \<Rightarrow> ('v, 'w) st \<Rightarrow> ('v, 'w) ret" where
  "module_dep_symbols A K =
     MODULE_FOR_FUNCTION ''dep_symbols'' ''dependency_symbols'' METH_KMOD_LIST_MOD_DEP_SYMBOL (VARS_dep_symbols A K) A K"

section \<open>Lists and contexts\<close>

text \<open>\<open>LIST_GC_DEF(name, fn, tname)\<close>: release the elements with \<open>kmod_module_ ## fn ## _list\<close>.\<close>

definition LIST_GC_DEF :: "string \<Rightarrow> string \<Rightarrow> 'v lua_api \<Rightarrow> 'w kmodapi \<Rightarrow> ('v, 'w) st \<Rightarrow> ('v, 'w) ret" where
  "LIST_GC_DEF fname metatable A K s =
     arg (luaL_checkudata A (vm s) 1 metatable) s (\<lambda>l.
       Some (Inr 0, s\<lparr>os := kmod_module_free_list K fname (mem s l 0) (os s)\<rparr>))"

definition ctx_new :: "'v lua_api \<Rightarrow> 'w kmodapi \<Rightarrow> ('v, 'w) st \<Rightarrow> ('v, 'w) ret" where
  "ctx_new A K s =
     arg (luaL_optstring A (vm s) 1) s (\<lambda>dirname.
       let (pctx, s1) = newcptr A METH_KMOD_CTX s;
           (c, s2) = call_os (kmod_new K dirname) s1;
           s3 = poke pctx 0 c s2
       in Some (Inr 1, if c = 0 then upd_vm (lua_pushnil A) s3 else s3))"

section \<open>Signatures\<close>

text \<open>The result of signing and verifying: nil and an errno, or true.\<close>

definition sign_result :: "'v lua_api \<Rightarrow> int \<Rightarrow> ('v, 'w) st \<Rightarrow> ('v, 'w) ret" where
  "sign_result A err s =
     (if err < 0 then Some (Inr 2, upd_vm (\<lambda>v. lua_pushinteger A (lua_pushnil A v) (- err)) s)
      else Some (Inr 1, upd_vm (\<lambda>v. lua_pushboolean A v True) s))"

definition lua_cstring :: "'w kmodapi \<Rightarrow> string \<Rightarrow> cstring" where
  "lua_cstring K x = (str_addr K x, x)"

text \<open>What \<open>module_sign\<close> and \<open>kmod_sign\<close> share after the path is known.\<close>

definition sign_path :: "'v lua_api \<Rightarrow> 'w kmodapi \<Rightarrow> 'w sapi \<Rightarrow> (('v, 'w) st \<Rightarrow> cstring option) \<Rightarrow> ('v, 'w) st \<Rightarrow> ('v, 'w) ret" where
  "sign_path A K S path s =
     arg (luaL_checkstring A (vm s) 2) s (\<lambda>hash_algo.
     arg (luaL_checkstring A (vm s) 3) s (\<lambda>privkey_file.
     arg (luaL_checkstring A (vm s) 4) s (\<lambda>x509_file.
     arg (luaL_optstring A (vm s) 5) s (\<lambda>dst_file.
       let save_sig = lua_toboolean A (vm s) 6
       in (case do_kmod_sign S (path s) hash_algo privkey_file x509_file (map_option (lua_cstring K) dst_file) save_sig (os s) of
             None \<Rightarrow> None
           | Some (err, w) \<Rightarrow> sign_result A err (s\<lparr>os := w\<rparr>))))))"

definition module_sign :: "'v lua_api \<Rightarrow> 'w kmodapi \<Rightarrow> 'w sapi \<Rightarrow> ('v, 'w) st \<Rightarrow> ('v, 'w) ret" where
  "module_sign A K S s =
     arg (tomodule A 1 s) s (\<lambda>md. sign_path A K S (\<lambda>s. kmod_module_get_str K ''path'' md (os s)) s)"

definition kmod_sign :: "'v lua_api \<Rightarrow> 'w kmodapi \<Rightarrow> 'w sapi \<Rightarrow> ('v, 'w) st \<Rightarrow> ('v, 'w) ret" where
  "kmod_sign A K S s =
     arg (luaL_checkstring A (vm s) 1) s (\<lambda>module_file. sign_path A K S (\<lambda>s. Some (lua_cstring K module_file)) s)"

definition do_verify ::
  "'v lua_api \<Rightarrow> 'w sapi \<Rightarrow> string option \<Rightarrow> string \<Rightarrow> string option \<Rightarrow> ('v, 'w) st \<Rightarrow> ('v, 'w) ret" where
  "do_verify A S pathname cert_file sig_file s =
     (let (err, s1) =
        (case sig_file of
           Some f \<Rightarrow> call_os (do_verify_sig S pathname cert_file f) s
         | None \<Rightarrow> call_os (do_verify_kmod S pathname cert_file) s)
      in sign_result A err s1)"

definition module_verify :: "'v lua_api \<Rightarrow> 'w kmodapi \<Rightarrow> 'w sapi \<Rightarrow> ('v, 'w) st \<Rightarrow> ('v, 'w) ret" where
  "module_verify A K S s =
     arg (tomodule A 1 s) s (\<lambda>md.
     arg (luaL_checkstring A (vm s) 2) s (\<lambda>cert_file.
     arg (luaL_optstring A (vm s) 3) s (\<lambda>sig_file.
       do_verify A S (map_option snd (kmod_module_get_str K ''path'' md (os s))) cert_file sig_file s)))"

definition kmod_verify :: "'v lua_api \<Rightarrow> 'w sapi \<Rightarrow> ('v, 'w) st \<Rightarrow> ('v, 'w) ret" where
  "kmod_verify A S s =
     arg (luaL_checkstring A (vm s) 1) s (\<lambda>pathname.
     arg (luaL_checkstring A (vm s) 2) s (\<lambda>cert_file.
     arg (luaL_optstring A (vm s) 3) s (\<lambda>sig_file.
       do_verify A S (Some pathname) cert_file sig_file s)))"

text \<open>\<open>lua_pushlstring(L, p, n)\<close>: the bytes at an address as a Lua string.\<close>

definition lua_bytes :: "'w sapi \<Rightarrow> 'w \<Rightarrow> 64 word \<Rightarrow> 64 word \<Rightarrow> string" where
  "lua_bytes S w p n = map (\<lambda>b. char_of (unat b)) (peek_bytes S w p (unat n))"

definition do_sigraw :: "'v lua_api \<Rightarrow> 'w sapi \<Rightarrow> string option \<Rightarrow> bool \<Rightarrow> ('v, 'w) st \<Rightarrow> ('v, 'w) ret" where
  "do_sigraw A S pathname rawko s =
     (case call_os (do_kmod_map S pathname) s of
        (Inl err, s1) \<Rightarrow> Some (Inr 2, upd_vm (\<lambda>v. lua_pushinteger A (lua_pushnil A v) (- err)) s1)
      | (Inr m, s1) \<Rightarrow>
          (let s2 = upd_vm (\<lambda>v. lua_pushstring A v (lua_bytes S (os s1) (map_sig m) (map_siglen m))) s1;
               s3 = (if rawko then
                       upd_vm (\<lambda>v. lua_pushstring A v (lua_bytes S (os s1) (map_mem m) (map_sig m - map_mem m))) s2
                     else s2)
           in Some (Inr (if rawko then 2 else 1), s3\<lparr>os := s_munmap S (map_mem m) (map_len m) (os s3)\<rparr>)))"

definition module_sigraw :: "'v lua_api \<Rightarrow> 'w kmodapi \<Rightarrow> 'w sapi \<Rightarrow> ('v, 'w) st \<Rightarrow> ('v, 'w) ret" where
  "module_sigraw A K S s =
     arg (tomodule A 1 s) s (\<lambda>md.
       do_sigraw A S (map_option snd (kmod_module_get_str K ''path'' md (os s))) (lua_toboolean A (vm s) 2) s)"

definition kmod_sigraw :: "'v lua_api \<Rightarrow> 'w sapi \<Rightarrow> ('v, 'w) st \<Rightarrow> ('v, 'w) ret" where
  "kmod_sigraw A S s =
     arg (luaL_checkstring A (vm s) 1) s (\<lambda>pathname. do_sigraw A S (Some pathname) (lua_toboolean A (vm s) 2) s)"

end
