(* ===== verification/Kmod_Layout.thy ===== *)
theory Kmod_Layout
  imports Kmod_Sign
begin

unbundle bit_operations_syntax

text \<open>
  The layout of a signed module: module, signature, \<open>struct module_signature\<close>, magic. The theory has
  the byte order facts, the bounds of the pointers \<open>do_kmod_map\<close> hands out, and the contract of file BIOs
  under which \<open>kmod_sign_file\<close> and \<open>do_kmod_map\<close> are inverse.
\<close>

section \<open>Byte order\<close>

lemma be32_round_trip [simp]: "be32_word (be32_bytes n) = n"
proof (rule bit_eqI)
  fix i assume "possible_bit TYPE(32 word) i"
  then have i: "i < 32" by simp
  consider "i < 8" | "8 \<le> i" "i < 16" | "16 \<le> i" "i < 24" | "24 \<le> i" using not_le by blast
  then show "bit (be32_word (be32_bytes n)) i = bit n i"
    using i by cases (auto simp: be32_word_def be32_bytes_def bit_simps)
qed

lemma be32_bytes_length [simp]: "length (be32_bytes n) = 4"
  by (simp add: be32_bytes_def)

lemma siginfo_bytes_length [simp]: "length (siginfo_bytes g) = 12"
  by (simp add: siginfo_bytes_def)

lemma SIG_MAGIC_length [simp]: "length SIG_MAGIC = 28"
  by (simp add: SIG_MAGIC_def)

lemma get_siginfo_bytes [simp]: "get_siginfo (siginfo_bytes g) = g"
  by (simp add: get_siginfo_def siginfo_bytes_def numeral_nat)

section \<open>The bounds of the mapped signature\<close>

definition map_off :: "kmap \<Rightarrow> int" where
  "map_off m = uint (map_sig m - map_mem m)"

lemma uint_range: "0 \<le> uint x" "uint (x :: 8 word) < 256" "uint (y :: 32 word) < 4294967296"
  "uint (z :: 64 word) < 18446744073709551616"
  using unsigned_less [of x, where 'a = int] unsigned_less [of y, where 'a = int]
    unsigned_less [of z, where 'a = int] by simp_all

lemma sint_small: "uint (x :: 'a :: len word) < 2 ^ (LENGTH('a) - 1) \<Longrightarrow> sint x = uint x"
  unfolding sint_uint
  by (rule signed_take_bit_int_eq_self) (auto intro: order_trans [of _ 0])

lemma sint_large:
  assumes "2147483648 \<le> uint (x :: 32 word)"
  shows "sint x = uint x - 4294967296"
proof -
  have "uint x div 2147483648 = 1"
    using assms uint_range(3) [of x] by (intro int_div_pos_eq [where r = "uint x - 2147483648"]) auto
  then have "bit (uint x) 31" by (simp add: bit_iff_odd)
  moreover have "take_bit 32 (uint x) = uint x"
    by (rule take_bit_int_eq_self) (use uint_range(3) [of x] in auto)
  ultimately show ?thesis
    by (simp add: sint_uint signed_take_bit_eq_take_bit_minus)
qed

lemma uint_sum3:
  fixes x :: "32 word" and a b :: "8 word"
  assumes "uint x + 510 < 4294967296"
  shows "uint (x + ucast a + ucast b) = uint x + uint a + uint b"
proof -
  have "uint (ucast c :: 32 word) = uint c" for c :: "8 word"
    by (simp add: uint_up_ucast is_up)
  then show ?thesis
    using assms uint_range(2) [of a] uint_range(2) [of b]
    by (simp add: uint_word_ariths)
qed

lemma parse_map_cases:
  assumes "parse_map S mem st_size w = Inr m"
  obtains g where "40 \<le> uint st_size" "sig_len g \<noteq> 0"
    "g = get_siginfo (peek_bytes S w (mem + (st_size - 40)) 12)"
    "sint (sig_len g + ucast (signer_len g) + ucast (key_id_len g)) \<le> sint (st_size - 40)"
    "m = \<lparr>map_mem = mem, map_len = st_size, map_sig = mem + (st_size - 40 - scast (sig_len g)),
       map_siglen = scast (sig_len g)\<rparr>"
proof
  have "st_size - 28 - 12 = st_size - 40" by simp
  then show "40 \<le> uint st_size" "sig_len (get_siginfo (peek_bytes S w (mem + (st_size - 40)) 12)) \<noteq> 0"
    "sint (sig_len (get_siginfo (peek_bytes S w (mem + (st_size - 40)) 12)) +
       ucast (signer_len (get_siginfo (peek_bytes S w (mem + (st_size - 40)) 12))) +
       ucast (key_id_len (get_siginfo (peek_bytes S w (mem + (st_size - 40)) 12)))) \<le> sint (st_size - 40)"
    "m = \<lparr>map_mem = mem, map_len = st_size,
       map_sig = mem + (st_size - 40 - scast (sig_len (get_siginfo (peek_bytes S w (mem + (st_size - 40)) 12)))),
       map_siglen = scast (sig_len (get_siginfo (peek_bytes S w (mem + (st_size - 40)) 12)))\<rparr>"
    using assms by (simp_all add: parse_map_def Let_def word_less_def split: if_splits)
qed simp

lemma uint_minus_40: "40 \<le> uint (n :: 64 word) \<Longrightarrow> uint (n - 40) = uint n - 40"
  using uint_range(4) [of n] by (simp add: uint_word_ariths)

lemma uint_minus_scast:
  fixes n :: "64 word" and x :: "32 word"
  assumes "0 \<le> uint n - sint x" and "uint n - sint x < 18446744073709551616"
  shows "uint (n - scast x) = uint n - sint x"
proof -
  have "n - scast x = (word_of_int (uint n - sint x) :: 64 word)"
    by (simp only: scast_eq word_of_int_uint flip: wi_hom_sub)
  then have "uint (n - scast x) = (uint n - sint x) mod 2 ^ LENGTH(64)"
    by (simp only: uint_word_of_int)
  also have "\<dots> = uint n - sint x" by (rule mod_pos_pos_trivial) (use assms in simp_all)
  finally show ?thesis .
qed

lemma parse_map_inside:
  assumes "parse_map S mem st_size w = Inr m" and "uint st_size < 9223372036854775808"
    and "uint (sig_len (get_siginfo (peek_bytes S w (mem + (st_size - 40)) 12))) < 2147483138"
  shows "map_off m + uint (map_siglen m) + 40 = uint (map_len m) \<and> 0 < uint (map_siglen m)"
  using assms(1)
proof (rule parse_map_cases)
  fix g assume sz: "40 \<le> uint st_size" and nz: "sig_len g \<noteq> 0"
    and g: "g = get_siginfo (peek_bytes S w (mem + (st_size - 40)) 12)"
    and le: "sint (sig_len g + ucast (signer_len g) + ucast (key_id_len g)) \<le> sint (st_size - 40)"
    and m: "m = \<lparr>map_mem = mem, map_len = st_size, map_sig = mem + (st_size - 40 - scast (sig_len g)),
       map_siglen = scast (sig_len g)\<rparr>"
  have small: "uint (sig_len g) < 2147483138" using assms(3) g by simp
  note r = uint_range(2) [of "signer_len g"] uint_range(2) [of "key_id_len g"]
  have sum: "sint (sig_len g + ucast (signer_len g) + ucast (key_id_len g)) =
      uint (sig_len g) + uint (signer_len g) + uint (key_id_len g)"
    using small r by (subst sint_small) (simp_all add: uint_sum3)
  have rest: "sint (st_size - 40) = uint st_size - 40"
    using assms(2) sz by (subst sint_small) (simp_all add: uint_minus_40)
  have len: "sint (sig_len g) = uint (sig_len g)"
    using small by (intro sint_small) simp
  have pos: "0 \<le> uint (signer_len g)" "0 \<le> uint (key_id_len g)" by simp_all
  have le': "uint (sig_len g) \<le> uint st_size - 40" using le sum rest pos by linarith
  have "uint (st_size - 40 - scast (sig_len g)) = uint st_size - 40 - uint (sig_len g)"
  proof (subst uint_minus_scast)
    have "uint st_size - 40 - uint (sig_len g) < 18446744073709551616"
      using uint_range(4) [of st_size] unsigned_greater_eq [of "sig_len g", where 'a = int] by linarith
    then show "uint (st_size - 40) - sint (sig_len g) < 18446744073709551616"
      using len sz by (simp add: uint_minus_40)
  qed (use le' len sz in \<open>simp_all add: uint_minus_40\<close>)
  moreover have "uint (scast (sig_len g) :: 64 word) = uint (sig_len g)"
    using len by (simp add: scast_eq uint_up_ucast is_up)
  moreover have "0 < uint (sig_len g)" using nz by (simp add: order_less_le unsigned_eq_0_iff)
  ultimately show ?thesis by (simp add: m map_off_def)
qed

lemma parse_map_outside:
  assumes "40 \<le> uint st_size" and "uint st_size < 9223372036854775808"
    and "peek_bytes S w (mem + (st_size - 28)) 28 = SIG_MAGIC"
    and "g = get_siginfo (peek_bytes S w (mem + (st_size - 40)) 12)"
    and "2147483648 \<le> uint (sig_len g)" and "uint (sig_len g) < 4294966786"
  shows "\<exists>m. parse_map S mem st_size w = Inr m \<and> uint (map_len m) < map_off m"
proof -
  note r = uint_range(2) [of "signer_len g"] uint_range(2) [of "key_id_len g"]
  have "uint (sig_len g + ucast (signer_len g) + ucast (key_id_len g)) =
      uint (sig_len g) + uint (signer_len g) + uint (key_id_len g)"
    using assms(6) by (intro uint_sum3) simp
  moreover have pos: "0 \<le> uint (signer_len g)" "0 \<le> uint (key_id_len g)" by simp_all
  ultimately have "2147483648 \<le> uint (sig_len g + ucast (signer_len g) + ucast (key_id_len g)) \<and>
      uint (sig_len g + ucast (signer_len g) + ucast (key_id_len g)) < 4294967296"
    using assms(5,6) r by linarith
  then have neg: "sint (sig_len g + ucast (signer_len g) + ucast (key_id_len g)) < 0"
    by (subst sint_large) simp_all
  have rest: "sint (st_size - 40) = uint st_size - 40"
    using assms(1,2) by (subst sint_small) (simp_all add: uint_minus_40)
  have len: "sint (sig_len g) = uint (sig_len g) - 4294967296" using assms(5) by (rule sint_large)
  have off: "uint (st_size - 40 - scast (sig_len g)) = uint st_size - 40 + (4294967296 - uint (sig_len g))"
    using len assms by (subst uint_minus_scast) (simp_all add: uint_minus_40)
  have "\<not> st_size < 40" using assms(1) by (simp add: word_less_def)
  moreover have "st_size - 28 - 12 = st_size - 40" by simp
  moreover have "sig_len g \<noteq> 0" using assms(5) by auto
  ultimately have "parse_map S mem st_size w = Inr \<lparr>map_mem = mem, map_len = st_size,
      map_sig = mem + (st_size - 40 - scast (sig_len g)), map_siglen = scast (sig_len g)\<rparr>"
    using assms(1,3,4) neg rest by (simp add: parse_map_def Let_def not_less)
  then show ?thesis using off assms(6) by (simp add: map_off_def)
qed

section \<open>File BIOs\<close>

text \<open>
  A file BIO as its user sees it: the path, the bytes still to be read and the bytes written.
  The contract: a read delivers a prefix of what is left and 0 at the end; a write either fails or
  writes everything; what was written to a BIO is the file's content once the BIO is freed.
  \<open>der cms\<close> is the encoding that \<open>i2d_CMS_bio_stream\<close> writes.
\<close>

record bio =
  b_path :: string
  b_in :: "8 word list"
  b_out :: "8 word list"

locale file_bio =
  fixes S :: "'w sapi" and fs :: "'w \<Rightarrow> string \<Rightarrow> 8 word list option"
    and bios :: "'w \<Rightarrow> 64 word \<Rightarrow> bio option" and der :: "64 word \<Rightarrow> 8 word list"
  assumes open_read: "BIO_new_file S (Some p) ''rb'' w = (b, w') \<Longrightarrow> b \<noteq> 0 \<Longrightarrow>
       \<exists>c. fs w p = Some c \<and> bios w b = None \<and> fs w' = fs w \<and>
         bios w' = (bios w)(b \<mapsto> \<lparr>b_path = p, b_in = c, b_out = []\<rparr>)"
    and open_write: "BIO_new_file S (Some p) ''wb'' w = (b, w') \<Longrightarrow> b \<noteq> 0 \<Longrightarrow>
       bios w b = None \<and> bios w' b = Some \<lparr>b_path = p, b_in = [], b_out = []\<rparr> \<and>
       (\<forall>c x. c \<noteq> b \<and> bios w c = Some x \<and> b_path x \<noteq> p \<longrightarrow> bios w' c = Some x)"
    and read_some: "BIO_read S b k w = ((n, bs), w') \<Longrightarrow> bios w b = Some x \<Longrightarrow> 0 < n \<Longrightarrow>
       n = int (length bs) \<and> (\<exists>rest. b_in x = bs @ rest \<and> bios w' = (bios w)(b \<mapsto> x\<lparr>b_in := rest\<rparr>))"
    and read_end: "BIO_read S b k w = ((0, bs), w') \<Longrightarrow> 0 < k \<Longrightarrow> bios w b = Some x \<Longrightarrow> b_in x = [] \<and> bios w' = bios w"
    and write_all: "BIO_write S b bs w = (n, w') \<Longrightarrow> bios w b = Some x \<Longrightarrow> 0 \<le> n \<Longrightarrow>
       bios w' = (bios w)(b \<mapsto> x\<lparr>b_out := b_out x @ bs\<rparr>)"
    and i2d_all: "i2d_CMS_bio_stream S b cms w = (n, w') \<Longrightarrow> bios w b = Some x \<Longrightarrow> 0 \<le> n \<Longrightarrow>
       bios w' = (bios w)(b \<mapsto> x\<lparr>b_out := b_out x @ der cms\<rparr>)"
    and number_written: "bios w b = Some x \<Longrightarrow> BIO_number_written S b w = of_nat (length (b_out x))"
    and free_flush: "bios w b = Some x \<Longrightarrow> b_out x \<noteq> [] \<Longrightarrow> fs (BIO_free S b w) (b_path x) = Some (b_out x)"
    and free_other: "bios w b = Some x \<Longrightarrow> c \<noteq> b \<Longrightarrow> bios (BIO_free S b w) c = bios w c"
    and free_keeps: "bios w b = Some x \<Longrightarrow> b_out x = [] \<Longrightarrow> fs (BIO_free S b w) = fs w"
begin

text \<open>The copy loop ends, and when it ends without an error everything left was copied.\<close>

lemma copy_module_copies:
  assumes "bios w bm = Some x" and "bios w bd = Some y" and "bm \<noteq> bd"
  shows "\<exists>n w'. copy_module S bm bd w = Some (n, w') \<and>
    (0 \<le> n \<longrightarrow> (\<exists>x'. bios w' bm = Some x' \<and> b_out x' = b_out x) \<and> bios w' bd = Some (y\<lparr>b_out := b_out y @ b_in x\<rparr>))"
  using assms(1,2)
proof (induction "length (b_in x)" arbitrary: x y w rule: less_induct)
  case less
  obtain n bs w1 where rd: "BIO_read S bm 4096 w = ((n, bs), w1)" by (metis surj_pair)
  show ?case
  proof (cases "0 < n")
    case False
    have "b_in x = [] \<and> bios w1 = bios w" if "0 \<le> n"
      using read_end [of bm 4096 w bs w1 x] rd less.prems(1) that False by auto
    then show ?thesis
      using False rd less.prems by (subst copy_module.simps) auto
  next
    case True
    obtain rest where rest: "n = int (length bs)" "b_in x = bs @ rest" "bios w1 = (bios w)(bm \<mapsto> x\<lparr>b_in := rest\<rparr>)"
      using read_some [OF rd less.prems(1) True] by auto
    obtain n' w2 where wr: "BIO_write S bd bs w1 = (n', w2)" by fastforce
    show ?thesis
    proof (cases "n' < 0")
      case True
      then show ?thesis using \<open>0 < n\<close> rd rest(1) wr by (subst copy_module.simps) simp
    next
      case False
      have y: "bios w1 bd = Some y" using rest(3) less.prems(2) assms(3) by simp
      have w2: "bios w2 = (bios w1)(bd \<mapsto> y\<lparr>b_out := b_out y @ bs\<rparr>)"
        using write_all [OF wr y] False by simp
      have "length (b_in (x\<lparr>b_in := rest\<rparr>)) < length (b_in x)" using \<open>0 < n\<close> rest by simp
      then have "\<exists>n w'. copy_module S bm bd w2 = Some (n, w') \<and>
          (0 \<le> n \<longrightarrow> (\<exists>x'. bios w' bm = Some x' \<and> b_out x' = b_out (x\<lparr>b_in := rest\<rparr>)) \<and>
            bios w' bd = Some ((y\<lparr>b_out := b_out y @ bs\<rparr>)\<lparr>b_out := b_out (y\<lparr>b_out := b_out y @ bs\<rparr>) @ b_in (x\<lparr>b_in := rest\<rparr>)\<rparr>))"
        by (rule less.hyps) (use w2 rest(3) assms(3) in simp_all)
      then show ?thesis using False \<open>0 < n\<close> rd rest wr by (subst copy_module.simps) simp
    qed
  qed
qed

lemma write_signature_writes:
  assumes "write_signature S bd cms w = (0, w')" and "bios w bd = Some y"
  shows "bios w' = (bios w)(bd \<mapsto> y\<lparr>b_out := b_out y @ der cms @
    siginfo_bytes (new_siginfo\<lparr>sig_len := of_nat (length (der cms))\<rparr>) @ SIG_MAGIC\<rparr>)"
proof -
  obtain r w1 where i2d: "i2d_CMS_bio_stream S bd cms w = (r, w1)" by fastforce
  have r: "0 \<le> r" using assms(1) i2d by (auto simp: write_signature_def Let_def split: if_splits)
  note v1 = i2d_all [OF i2d assms(2) r]
  let ?n = "BIO_number_written S bd w1 - BIO_number_written S bd w"
  have n: "?n = of_nat (length (der cms))"
    using number_written [OF assms(2)] number_written [of w1 bd] v1 by simp
  have len: "(ucast ?n :: 32 word) = of_nat (length (der cms))"
    by (simp add: n unsigned_of_nat word_of_nat_eq_iff)
  obtain r2 w2 where wr: "BIO_write S bd (siginfo_bytes (new_siginfo\<lparr>sig_len := of_nat (length (der cms))\<rparr>)) w1 = (r2, w2)"
    by fastforce
  obtain r3 w3 where wm: "BIO_write S bd SIG_MAGIC w2 = (r3, w3)" by fastforce
  have r23: "0 \<le> r2" "0 \<le> r3" "w' = w3"
    using assms(1) i2d r wr wm len by (auto simp: write_signature_def Let_def split: if_splits)
  have v2: "bios w2 = (bios w)(bd \<mapsto> y\<lparr>b_out := (b_out y @ der cms) @
      siginfo_bytes (new_siginfo\<lparr>sig_len := of_nat (length (der cms))\<rparr>)\<rparr>)"
    using write_all [OF wr] v1 r23(1) by simp
  show ?thesis using write_all [OF wm] v2 r23 by simp
qed

text \<open>A signed file is the module followed by the signature, its description and the magic.\<close>

lemma kmod_sign_file_layout:
  assumes "src \<noteq> dst" and "fs w src = Some ko"
  shows "\<exists>r w'. kmod_sign_file S cms (Some src) (Some dst) w = Some (r, w') \<and>
    (r = 0 \<longrightarrow> fs w' dst = Some (ko @ der cms @
      siginfo_bytes (new_siginfo\<lparr>sig_len := of_nat (length (der cms))\<rparr>) @ SIG_MAGIC))"
proof -
  obtain bm w1 where o1: "BIO_new_file S (Some src) ''rb'' w = (bm, w1)" by fastforce
  obtain bd w2 where o2: "BIO_new_file S (Some dst) ''wb'' w1 = (bd, w2)" by fastforce
  consider "bm = 0" | "bm \<noteq> 0" "bd = 0" | "bm \<noteq> 0" "bd \<noteq> 0" by blast
  then show ?thesis
  proof cases
    case 3
    have v1: "bios w1 = (bios w)(bm \<mapsto> \<lparr>b_path = src, b_in = ko, b_out = []\<rparr>)"
      using open_read [OF o1 3(1)] assms(2) by auto
    have ne: "bm \<noteq> bd" using open_write [OF o2 3(2)] v1 by auto
    have "bios w1 bm = Some \<lparr>b_path = src, b_in = ko, b_out = []\<rparr>" using v1 by simp
    then have v2: "bios w2 bm = Some \<lparr>b_path = src, b_in = ko, b_out = []\<rparr>" "bm \<noteq> bd"
      "bios w2 bd = Some \<lparr>b_path = dst, b_in = [], b_out = []\<rparr>"
      using open_write [OF o2 3(2)] assms(1) ne by (metis bio.select_convs(1))+
    obtain n w3 where cp: "copy_module S bm bd w2 = Some (n, w3)" and
      v3: "0 \<le> n \<Longrightarrow> (\<exists>x. bios w3 bm = Some x \<and> b_out x = [])"
        "0 \<le> n \<Longrightarrow> bios w3 bd = Some \<lparr>b_path = dst, b_in = [], b_out = ko\<rparr>"
      using copy_module_copies [OF v2(1,3,2)] by auto
    obtain err w4 where ws: "write_signature S bd cms w3 = (err, w4)" by fastforce
    have run: "kmod_sign_file S cms (Some src) (Some dst) w =
        Some (if n < 0 then - EINVAL else err, BIO_free S bm (BIO_free S bd (if n < 0 then w3 else w4)))"
      using 3 o1 o2 cp ws by (simp add: kmod_sign_file_def)
    have "fs (BIO_free S bm (BIO_free S bd w4)) dst = Some (ko @ der cms @
        siginfo_bytes (new_siginfo\<lparr>sig_len := of_nat (length (der cms))\<rparr>) @ SIG_MAGIC)"
      if nn: "0 \<le> n" and ok: "err = 0"
    proof -
      note v4 = write_signature_writes [OF _ v3(2) [OF nn], of cms w4]
      obtain x where x: "bios w3 bm = Some x" "b_out x = []" using v3(1) [OF nn] by auto
      let ?y = "\<lparr>b_path = dst, b_in = [], b_out = ko @ der cms @
        siginfo_bytes (new_siginfo\<lparr>sig_len := of_nat (length (der cms))\<rparr>) @ SIG_MAGIC\<rparr>"
      have y: "bios w4 bd = Some ?y" and x4: "bios w4 bm = Some x" using v4 ws ok v2(2) x(1) by simp_all
      have ne: "b_out ?y \<noteq> []" by (simp add: siginfo_bytes_def)
      have "bios (BIO_free S bd w4) bm = Some x" using free_other [OF y] v2(2) x4 by simp
      then show ?thesis using free_keeps [OF _ x(2)] free_flush [OF y ne] by simp
    qed
    then show ?thesis using run by auto
  qed (use o1 o2 in \<open>auto simp: kmod_sign_file_def\<close>)
qed

end

section \<open>Reading the layout back\<close>

lemma peek_bytes_drop:
  assumes "peek_bytes S w mem n = bytes" and "i + k \<le> n"
  shows "peek_bytes S w (mem + of_nat i) k = take k (drop i bytes)"
proof -
  have "peek_bytes S w (mem + of_nat i) k = map (\<lambda>j. peek S (mem + of_nat j) w) (map ((+) i) [0..<k])"
    by (simp add: peek_bytes_def add.assoc)
  also have "map ((+) i) [0..<k] = take k (drop i [0..<n])"
    using assms(2) by (auto simp: list_eq_iff_nth_eq)
  also have "map (\<lambda>j. peek S (mem + of_nat j) w) (take k (drop i [0..<n])) = take k (drop i bytes)"
    unfolding assms(1) [symmetric] peek_bytes_def by (simp only: take_map drop_map)
  finally show ?thesis .
qed

lemma parse_map_layout:
  assumes "bytes = ko @ sig @ siginfo_bytes (new_siginfo\<lparr>sig_len := of_nat (length sig)\<rparr>) @ SIG_MAGIC"
    and "peek_bytes S w mem (length bytes) = bytes" and "sig \<noteq> []" and "length sig < 2147483648"
    and "length bytes < 9223372036854775808"
  shows "parse_map S mem (of_nat (length bytes)) w =
    Inr \<lparr>map_mem = mem, map_len = of_nat (length bytes), map_sig = mem + of_nat (length ko),
      map_siglen = of_nat (length sig)\<rparr>"
proof -
  let ?n = "length bytes" and ?k = "length ko" and ?s = "length sig"
  have n: "?n = ?k + ?s + 40" using assms(1) by simp
  have sizes: "(of_nat ?n :: 64 word) - 28 = of_nat (?k + ?s + 12)" "(of_nat ?n :: 64 word) - 28 - 12 = of_nat (?k + ?s)"
    by (simp_all add: n)
  have m: "peek_bytes S w (mem + of_nat (?k + ?s + 12)) 28 = SIG_MAGIC"
    using peek_bytes_drop [OF assms(2), of "?k + ?s + 12" 28] by (simp add: n assms(1))
  have g: "peek_bytes S w (mem + of_nat (?k + ?s)) 12 = siginfo_bytes (new_siginfo\<lparr>sig_len := of_nat ?s\<rparr>)"
    using peek_bytes_drop [OF assms(2), of "?k + ?s" 12] by (simp add: n assms(1))
  have un: "uint (of_nat ?n :: 64 word) = int ?n" "uint (of_nat (?k + ?s) :: 64 word) = int (?k + ?s)"
    "uint (of_nat ?s :: 32 word) = int ?s"
    using assms(4,5) n by (simp_all add: unsigned_of_nat take_bit_nat_eq_self del: of_nat_add)
  have si: "sint (of_nat (?k + ?s) :: 64 word) = int (?k + ?s)" "sint (of_nat ?s :: 32 word) = int ?s"
    using un assms(4,5) n by (simp_all add: sint_small del: of_nat_add)
  have "\<not> (of_nat ?n :: 64 word) < 40" using un(1) n by (simp add: word_less_def)
  moreover have "(of_nat ?s :: 32 word) \<noteq> 0" using un(3) assms(3) by (metis length_0_conv of_nat_eq_0_iff uint_0_eq)
  moreover have "(scast (of_nat ?s :: 32 word) :: 64 word) = of_nat ?s" using si(2) by (simp add: scast_eq)
  ultimately show ?thesis
    using m g si by (simp add: parse_map_def Let_def sizes new_siginfo_def)
qed

end
