(* ===== verification/Kmod_Verify.thy ===== *)
theory Kmod_Verify
  imports Kmod_Layout
begin

text \<open>
  The properties of module signing and verification, and the reference system on which their
  hypotheses hold: files with contents, BIOs on them, handles counted up from a start address, and
  one mapping at a fixed address. Every signature is the same three bytes and verifies.
\<close>

record sworld =
  sw_files :: "string \<Rightarrow> 8 word list option"
  sw_bios :: "64 word \<Rightarrow> bio option"
  sw_owned :: "res set"
  sw_next :: "64 word"
  sw_mem :: "8 word list"

definition ref_handle :: "sworld \<Rightarrow> 64 word \<times> sworld" where
  "ref_handle w =
     (let h = sw_next w
      in if h = 0 \<or> Handle h \<in> sw_owned w \<or> sw_bios w h \<noteq> None then (0, w)
         else (h, w\<lparr>sw_owned := insert (Handle h) (sw_owned w), sw_next := h + 16\<rparr>))"

definition ref_bio :: "string \<Rightarrow> 8 word list \<Rightarrow> sworld \<Rightarrow> 64 word \<times> sworld" where
  "ref_bio p c w =
     (case ref_handle w of
        (h, w') \<Rightarrow> (h, if h = 0 then w'
           else w'\<lparr>sw_bios := (sw_bios w')(h \<mapsto> \<lparr>b_path = p, b_in = c, b_out = []\<rparr>)\<rparr>))"

definition ref_open_bio :: "string option \<Rightarrow> string \<Rightarrow> sworld \<Rightarrow> 64 word \<times> sworld" where
  "ref_open_bio path mode w =
     (case path of
        None \<Rightarrow> (0, w)
      | Some p \<Rightarrow>
          if mode = ''wb'' then ref_bio p [] w
          else (case sw_files w p of None \<Rightarrow> (0, w) | Some c \<Rightarrow> ref_bio p c w))"

definition ref_read :: "64 word \<Rightarrow> nat \<Rightarrow> sworld \<Rightarrow> (int \<times> 8 word list) \<times> sworld" where
  "ref_read b k w =
     (case sw_bios w b of
        None \<Rightarrow> ((- 1, []), w)
      | Some x \<Rightarrow>
          (let bs = take k (b_in x)
           in if bs = [] then ((0, []), w)
              else ((int (length bs), bs), w\<lparr>sw_bios := (sw_bios w)(b \<mapsto> x\<lparr>b_in := drop k (b_in x)\<rparr>)\<rparr>)))"

definition ref_write :: "64 word \<Rightarrow> 8 word list \<Rightarrow> sworld \<Rightarrow> int \<times> sworld" where
  "ref_write b bs w =
     (case sw_bios w b of
        None \<Rightarrow> (- 1, w)
      | Some x \<Rightarrow>
          (int (length bs), w\<lparr>sw_bios := (sw_bios w)(b \<mapsto> x\<lparr>b_out := b_out x @ bs\<rparr>)\<rparr>))"

definition ref_bio_free :: "64 word \<Rightarrow> sworld \<Rightarrow> sworld" where
  "ref_bio_free b w =
     (let w1 = (case sw_bios w b of
            None \<Rightarrow> w
          | Some x \<Rightarrow> if b_out x = [] then w else w\<lparr>sw_files := (sw_files w)(b_path x \<mapsto> b_out x)\<rparr>)
      in w1\<lparr>sw_bios := (sw_bios w1)(b := None), sw_owned := sw_owned w1 - {Handle b}\<rparr>)"

definition ref_release :: "res \<Rightarrow> sworld \<Rightarrow> sworld" where
  "ref_release r w = w\<lparr>sw_owned := sw_owned w - {r}\<rparr>"

definition ref_open :: "string option \<Rightarrow> sworld \<Rightarrow> int \<times> sworld" where
  "ref_open path w =
     (case path of
        None \<Rightarrow> (- 1, w)
      | Some p \<Rightarrow>
          (case sw_files w p of
             None \<Rightarrow> (- 1, w)
           | Some c \<Rightarrow> if Fd 3 \<in> sw_owned w then (- 1, w)
               else (3, w\<lparr>sw_owned := insert (Fd 3) (sw_owned w), sw_mem := c\<rparr>)))"

definition ref_mmap :: "sworld \<Rightarrow> 64 word \<times> sworld" where
  "ref_mmap w =
     (if Mapping 0x10000 \<in> sw_owned w then (- 1, w)
      else (0x10000, w\<lparr>sw_owned := insert (Mapping 0x10000) (sw_owned w)\<rparr>))"

definition ref_peek :: "64 word \<Rightarrow> sworld \<Rightarrow> 8 word" where
  "ref_peek a w =
     (let i = unat (a - 0x10000) in if i < length (sw_mem w) then sw_mem w ! i else 0)"

definition ref_der :: "8 word list" where
  "ref_der = [0x30, 1, 7]"

definition ref_ssl :: "sworld sapi" where
  "ref_ssl =
     \<lparr>BIO_new_file = ref_open_bio, BIO_new_mem_buf = (\<lambda>p n. ref_handle), BIO_free = ref_bio_free,
      BIO_read = ref_read, BIO_write = ref_write, BIO_reset = (\<lambda>b w. (0, w)),
      BIO_number_written = (\<lambda>b w. case sw_bios w b of None \<Rightarrow> 0 | Some x \<Rightarrow> of_nat (length (b_out x))),
      PEM_read_bio_PrivateKey = (\<lambda>b. ref_handle), PEM_read_bio_X509 = (\<lambda>b. ref_handle),
      d2i_X509_bio = (\<lambda>b. ref_handle), d2i_PKCS7_bio = (\<lambda>b. ref_handle), EVP_get_digestbyname = (\<lambda>n. 1),
      EVP_PKEY_free = ref_release \<circ> Handle, X509_free = ref_release \<circ> Handle, X509_STORE_new = ref_handle,
      X509_STORE_add_cert = (\<lambda>s c w. (1, w)), X509_STORE_free = ref_release \<circ> Handle, CMS_sign = (\<lambda>f. ref_handle),
      CMS_add1_signer = (\<lambda>c x p m f w. (1, w)), CMS_final = (\<lambda>c b f w. (1, w)),
      CMS_ContentInfo_free = ref_release \<circ> Handle, i2d_CMS_bio_stream = (\<lambda>b c. ref_write b ref_der),
      PKCS7_verify = (\<lambda>p s b f w. (1, w)), PKCS7_free = ref_release \<circ> Handle,
      CMS_NOCERTS = 2, CMS_BINARY = 128, CMS_PARTIAL = 16384, CMS_DETACHED = 64, CMS_STREAM = 4096,
      CMS_NOSMIMECAP = 512, CMS_NOATTR = 256, PKCS7_NOVERIFY = 32,
      s_asprintf = (\<lambda>x w. case ref_handle w of (h, w') \<Rightarrow> ((if h = 0 then - 1 else int (length x), h), w')),
      s_free = ref_release \<circ> Handle, s_rename = (\<lambda>a b w. (0, w)), s_open = ref_open, s_errno = (\<lambda>w. ENOENT),
      s_fstat = (\<lambda>fd w. ((0, of_nat (length (sw_mem w))), w)), s_mmap = (\<lambda>n fd. ref_mmap),
      s_munmap = (\<lambda>a n. ref_release (Mapping a)), s_close = (\<lambda>fd. ref_release (Fd fd)), peek = ref_peek\<rparr>"

lemma ref_handle_makes: "makes sw_owned ref_handle"
  by (rule makesI) (auto simp: ref_handle_def Let_def split: if_splits)

lemma ref_bio_makes: "makes sw_owned (ref_bio p c)"
  by (rule makesI) (auto simp: ref_bio_def ref_handle_def Let_def split: if_splits)

lemma ref_open_bio_makes: "makes sw_owned (ref_open_bio path mode)"
  by (rule makesI)
    (auto simp: ref_open_bio_def split: option.splits if_splits dest!: makesD [OF ref_bio_makes])

lemma ref_keeps: "sw_owned (snd (ref_read b k w)) = sw_owned w" "sw_owned (snd (ref_write b bs w)) = sw_owned w"
  by (auto simp: ref_read_def ref_write_def Let_def split: option.splits)

lemma ref_bio_free_owned: "sw_owned (ref_bio_free h w) = sw_owned w - {Handle h}"
  by (auto simp: ref_bio_free_def Let_def split: option.splits)

interpretation rso: ssl_owner ref_ssl sw_owned
proof unfold_locales
  fix x w r p w' assume "s_asprintf ref_ssl x w = ((r, p), w')"
  then show "if r < 0 then sw_owned w' = sw_owned w
      else Handle p \<notin> sw_owned w \<and> sw_owned w' = insert (Handle p) (sw_owned w)"
    by (auto simp: ref_ssl_def split: prod.splits if_splits dest!: makesD [OF ref_handle_makes])
qed (auto simp: ref_ssl_def ref_handle_makes ref_open_bio_makes ref_keeps ref_bio_free_owned ref_release_def
    keeps_def ref_open_def ref_mmap_def split: option.splits if_splits)

lemma ref_bio_new:
  assumes "ref_bio p c w = (b, w')" and "b \<noteq> 0"
  shows "sw_bios w b = None \<and> sw_files w' = sw_files w \<and>
    sw_bios w' = (sw_bios w)(b \<mapsto> \<lparr>b_path = p, b_in = c, b_out = []\<rparr>)"
  using assms by (auto simp: ref_bio_def ref_handle_def Let_def split: if_splits)

interpretation rfb: file_bio ref_ssl sw_files sw_bios "\<lambda>_. ref_der"
proof unfold_locales
  fix b k w n bs w' x
  assume "BIO_read ref_ssl b k w = ((n, bs), w')" "sw_bios w b = Some x" "0 < n"
  then show "n = int (length bs) \<and> (\<exists>rest. b_in x = bs @ rest \<and> sw_bios w' = (sw_bios w)(b \<mapsto> x\<lparr>b_in := rest\<rparr>))"
    by (auto simp: ref_ssl_def ref_read_def Let_def split: if_splits intro!: exI [of _ "drop k (b_in x)"])
next
  fix b k w bs w' x
  assume "BIO_read ref_ssl b k w = ((0, bs), w')" "0 < k" "sw_bios w b = Some x"
  then show "b_in x = [] \<and> sw_bios w' = sw_bios w"
    by (cases "b_in x") (auto simp: ref_ssl_def ref_read_def Let_def take_Cons split: if_splits nat.splits)
qed (auto simp: ref_ssl_def ref_open_bio_def ref_write_def ref_bio_free_def Let_def
    split: option.splits if_splits dest!: ref_bio_new)

section \<open>Properties\<close>

lemma do_kmod_map_parse:
  assumes "do_kmod_map S filename w = (Inr m, w')"
  shows "\<exists>w3. parse_map S (map_mem m) (map_len m) w3 = Inr m"
proof -
  have "map_mem m = a \<and> map_len m = n" if "parse_map S a n w3 = Inr m" for a n w3
    using that by (rule parse_map_cases) simp
  then show ?thesis
    using assms by (fastforce simp: do_kmod_map_def Let_def split: prod.splits if_splits sum.splits)
qed

lemma scast_below:
  assumes "uint (scast (x :: 32 word) :: 64 word) < 2147483648"
  shows "uint x = uint (scast x :: 64 word)"
proof (cases "uint x < 2147483648")
  case True
  then have "sint x = uint x" by (intro sint_small) simp
  then show ?thesis by (simp add: scast_eq uint_up_ucast is_up)
next
  case False
  then have "sint x = uint x - 4294967296" by (intro sint_large) simp
  moreover have "0 \<le> uint x" "uint x < 4294967296" using uint_range(3) [of x] by simp_all
  ultimately have "sint x mod 18446744073709551616 = uint x - 4294967296 + 18446744073709551616"
    by (intro int_mod_pos_eq [where q = "- 1"]) auto
  then have "uint (scast x :: 64 word) = uint x - 4294967296 + 18446744073709551616"
    unfolding scast_eq uint_word_of_int by simp
  then show ?thesis using assms \<open>0 \<le> uint x\<close> by linarith
qed


text \<open>
  C24. Signing releases what it acquires: on every path, also when it fails half way, the caller owns
  exactly the handles, blocks and descriptors it owned before.
\<close>

theorem do_kmod_sign_no_leak:
  assumes "ssl_owner S owned"
    and "do_kmod_sign S module_file hash_algo privkey_file x509_file dst_file save_sig w = Some (err, w')"
  shows "owned w' = owned w"
  by (rule ssl_owner.do_kmod_sign_keeps [OF assms])

text \<open>
  Verification leaks a certificate: a successful check against a signature file leaves exactly one
  handle owned that was not owned before (the certificate that was added to the store), and a check
  of an appended signature never leaves more than that.
\<close>

theorem verify_leaks_cert:
  assumes "ssl_owner S owned"
  shows "(\<forall>w'. do_verify_sig S filename cert_file sig_file w = (0, w') \<longrightarrow>
      (\<exists>cert. Handle cert \<notin> owned w \<and> owned w' = insert (Handle cert) (owned w))) \<and>
    (\<forall>err w'. do_verify_kmod S filename cert_file w = (err, w') \<longrightarrow>
      owned w' = owned w \<or> (\<exists>cert. Handle cert \<notin> owned w \<and> owned w' = insert (Handle cert) (owned w)))"
  using ssl_owner.do_verify_sig_owned [OF assms, of filename cert_file sig_file w 0]
    ssl_owner.do_verify_kmod_owned [OF assms, of filename cert_file w] by simp

lemma map_bounds:
  assumes "do_kmod_map S filename w = (Inr m, w')" and "uint (map_len m) < 2 ^ 63"
    and "uint (map_siglen m) < 2 ^ 31 - 510"
  shows "map_off m + uint (map_siglen m) + 40 = uint (map_len m) \<and> 0 < uint (map_siglen m)"
proof -
  obtain w3 where p: "parse_map S (map_mem m) (map_len m) w3 = Inr m" using do_kmod_map_parse [OF assms(1)] ..
  let ?g = "get_siginfo (peek_bytes S w3 (map_mem m + (map_len m - 40)) 12)"
  have "map_siglen m = scast (sig_len ?g)" using p by (rule parse_map_cases) (metis kmap.select_convs(4))
  then have "uint (sig_len ?g) < 2147483138" using scast_below [of "sig_len ?g"] assms(3) by simp
  then show ?thesis using parse_map_inside [OF p] assms(2) by simp
qed


text \<open>
  A signature length with the top bit set is accepted: it is negative as an \<open>int\<close>, passes the size check,
  and the address handed out as the start of the signature lies behind the end of the mapping.
\<close>

theorem negative_siglen_accepted:
  assumes "40 \<le> uint st_size" and "uint st_size < 2 ^ 63"
    and "peek_bytes S w (mem + (st_size - 28)) 28 = SIG_MAGIC"
    and "g = get_siginfo (peek_bytes S w (mem + (st_size - 40)) 12)"
    and "2 ^ 31 \<le> uint (sig_len g)" and "uint (sig_len g) < 2 ^ 32 - 510"
  shows "\<exists>m. parse_map S mem st_size w = Inr m \<and> uint (map_len m) < map_off m"
  using assms by (intro parse_map_outside) simp_all

text \<open>
  C25. Verification of an appended signature fails open: when no memory BIO can be made, the result is 0,
  the value for a good signature, although neither certificate nor signature was looked at.
\<close>

theorem do_verify_kmod_fails_open:
  assumes "do_kmod_map S filename w = (Inr m, w1)"
    and "\<And>p n w. fst (BIO_new_mem_buf S p n w) = 0"
  shows "fst (do_verify_kmod S filename cert_file w) = 0"
proof -
  obtain w2 where "BIO_new_mem_buf S (map_mem m) (sint (ucast (map_sig m - map_mem m) :: 32 word)) w1 = (0, w2)"
    using assms(2) by (metis prod.collapse)
  then show ?thesis using assms(1) by (simp add: do_verify_kmod_def Let_def)
qed

section \<open>Witnesses\<close>

definition sw0 :: sworld where
  "sw0 = \<lparr>sw_files = [''m.ko'' \<mapsto> [1, 2, 3], ''key'' \<mapsto> [0x30, 0x82], ''cert'' \<mapsto> [0x30, 0x82], ''sig'' \<mapsto> ref_der],
     sw_bios = Map.empty, sw_owned = {}, sw_next = 4096, sw_mem = []\<rparr>"

lemma ref_sign_ok: "map_option fst (kmod_sign_file ref_ssl 64 (Some ''m.ko'') (Some ''s.ko'') sw0) = Some 0"
  by code_simp


lemma ref_full_sign_ok:
  "map_option fst (do_kmod_sign ref_ssl (Some (1, ''m.ko'')) ''sm3'' ''key'' ''cert'' None False sw0) = Some 0"
  by code_simp

theorem do_kmod_sign_no_leak_witness:
  "\<exists>w'. do_kmod_sign ref_ssl (Some (1, ''m.ko'')) ''sm3'' ''key'' ''cert'' None False sw0 = Some (0, w') \<and> sw_owned w' = {}"
proof -
  obtain w' where "do_kmod_sign ref_ssl (Some (1, ''m.ko'')) ''sm3'' ''key'' ''cert'' None False sw0 = Some (0, w')"
    using ref_full_sign_ok by auto
  then show ?thesis using do_kmod_sign_no_leak [OF rso.ssl_owner_axioms] by (auto simp: sw0_def)
qed

lemma ref_verify_ok: "fst (do_verify_sig ref_ssl (Some ''m.ko'') ''cert'' ''sig'' sw0) = 0"
  by code_simp

theorem verify_leaks_cert_witness:
  "\<exists>cert w'. do_verify_sig ref_ssl (Some ''m.ko'') ''cert'' ''sig'' sw0 = (0, w') \<and> sw_owned w' = {Handle cert}"
proof -
  obtain w' where "do_verify_sig ref_ssl (Some ''m.ko'') ''cert'' ''sig'' sw0 = (0, w')"
    using ref_verify_ok by (metis prod.collapse)
  then show ?thesis
    using verify_leaks_cert [OF rso.ssl_owner_axioms, of "Some ''m.ko''" "''cert''" "''sig''" sw0] by (auto simp: sw0_def)
qed

text \<open>A file with a well formed signature of three bytes, and one whose length field is negative.\<close>

definition signed_ko :: "32 word \<Rightarrow> 8 word list" where
  "signed_ko n = [1, 2, 3] @ ref_der @ siginfo_bytes (new_siginfo\<lparr>sig_len := n\<rparr>) @ SIG_MAGIC"

definition sw_signed :: "32 word \<Rightarrow> sworld" where
  "sw_signed n = sw0\<lparr>sw_files := [''s.ko'' \<mapsto> signed_ko n], sw_mem := signed_ko n\<rparr>"

lemma ref_map_ok:
  "(case fst (do_kmod_map ref_ssl (Some ''s.ko'') (sw_signed 3)) of Inl _ \<Rightarrow> False
    | Inr m \<Rightarrow> map_len m = 46 \<and> map_siglen m = 3)"
  by code_simp


lemma ref_negative:
  "peek_bytes ref_ssl (sw_signed 0xFFFF0000) (0x10000 + (46 - 28)) 28 = SIG_MAGIC"
  "sig_len (get_siginfo (peek_bytes ref_ssl (sw_signed 0xFFFF0000) (0x10000 + (46 - 40)) 12)) = 0xFFFF0000"
  by code_simp+

theorem negative_siglen_accepted_witness:
  "\<exists>m. parse_map ref_ssl 0x10000 46 (sw_signed 0xFFFF0000) = Inr m \<and> uint (map_len m) < map_off m"
  by (rule negative_siglen_accepted [OF _ _ ref_negative(1) refl], unfold ref_negative(2)) simp_all

definition ref_nomem :: "sworld sapi" where
  "ref_nomem = ref_ssl\<lparr>BIO_new_mem_buf := \<lambda>p n w. (0, w)\<rparr>"

lemma ref_nomem_map: "\<not> isl (fst (do_kmod_map ref_nomem (Some ''s.ko'') (sw_signed 3)))"
  by code_simp

theorem do_verify_kmod_fails_open_witness:
  "fst (do_verify_kmod ref_nomem (Some ''s.ko'') ''none'' (sw_signed 3)) = 0"
proof -
  obtain m w' where "do_kmod_map ref_nomem (Some ''s.ko'') (sw_signed 3) = (Inr m, w')"
    using ref_nomem_map by (metis isl_def prod.collapse sum.exhaust)
  then show ?thesis by (rule do_verify_kmod_fails_open) (simp add: ref_nomem_def)
qed

end
