(* ===== verification/Lua_Kmod_Props.thy ===== *)
theory Lua_Kmod_Props
  imports Lua_Kmod Kmod_Verify
begin

text \<open>
  Properties of the libkmod binding: the generic \<open>for\<close> over loaded modules, the lookup by alias, the
  lifetime of contexts, and the splitting of a signed module into module and signature.
\<close>

section \<open>Iteration\<close>

context lua_vm
begin

text \<open>One step of the iteration over a list of modules.\<close>

lemma list_step_module:
  assumes "at (stk (vm s)) 1 = Some (LUd l)" and "mem s l 1 \<noteq> 0"
  shows "\<exists>s' b. list_step (VARS_module A K) A K s = Some (Inr 1, s') \<and> last (stk (vm s')) = LUd b \<and>
    mem s' b 0 = fst (kmod_module_get_module K (mem s l 1) (os s)) \<and> b \<noteq> l \<and> mem s' l 0 = mem s l 0 \<and>
    mem s' l 1 = kmod_list_next K (mem s l 0) (mem s l 1) (os s') \<and>
    os s' = snd (kmod_module_get_module K (mem s l 1) (os s))"
proof -
  obtain b s1 where nc: "newcptr A METH_KMOD_MODULE s = (b, s1)" by fastforce
  obtain m w where gm: "kmod_module_get_module K (mem s l 1) (os s) = (m, w)" by fastforce
  note new = newcptr_new [OF nc]
  have "LUd l \<in> set (stk (vm s))" using assms(1) at_mem by auto
  then have "b \<noteq> l" using new(2) by auto
  then show ?thesis
    using assms nc gm new touserdata_law [OF assms(1)]
    by (simp add: list_step_def VARS_module_def call_os_def)
qed

end

text \<open>
  A generic \<open>for\<close> loop over the generator: \<open>enter\<close> is what Lua does between two calls (it sets up the stack
  with the list object and the control value). The modules the loop body gets, in order.
\<close>

primrec for_modules ::
  "'v lua_api \<Rightarrow> ('v \<Rightarrow> lval list) \<Rightarrow> 'w kmodapi \<Rightarrow> (('v, 'w) st \<Rightarrow> ('v, 'w) st) \<Rightarrow> nat \<Rightarrow> ('v, 'w) st \<Rightarrow> 64 word list" where
  "for_modules A stk K enter 0 s = []"
| "for_modules A stk K enter (Suc n) s =
     (case ctx_modules_from_loaded A K (enter s) of
        Some (Inr _, s1) \<Rightarrow>
          (case last (stk (vm s1)) of LUd b \<Rightarrow> mem s1 b 0 # for_modules A stk K enter n s1 | _ \<Rightarrow> [])
      | _ \<Rightarrow> [])"

text \<open>\<open>linked nxt p xs\<close>: from cursor \<open>p\<close> the successor function runs through \<open>xs\<close> and ends with NULL.\<close>

fun linked :: "(64 word \<Rightarrow> 64 word) \<Rightarrow> 64 word \<Rightarrow> 64 word list \<Rightarrow> bool" where
  "linked nxt p [] = (p = 0)"
| "linked nxt p (x # xs) = (p = x \<and> x \<noteq> 0 \<and> linked nxt (nxt x) xs)"

lemma for_modules_all:
  assumes "lua_vm A stk tget meta"
    and "\<And>s. at (stk (vm (enter s))) 1 = Some (LUd l) \<and> length (stk (vm (enter s))) \<noteq> 1 \<and>
      mem (enter s) = mem s \<and> os (enter s) = os s"
    and "\<And>e w. kmod_list_next K h e w = nxt e" and "\<And>e w. fst (kmod_module_get_module K e w) = md e"
    and "mem s l 0 = h" and "linked nxt (mem s l 1) xs" and "length xs < n"
  shows "for_modules A stk K enter n s = map md xs"
  using assms(5-7)
proof (induction xs arbitrary: n s)
  case Nil
  have step: "ctx_modules_from_loaded A K (enter s) = Some (Inr 1, upd_vm (lua_pushnil A) (enter s))"
    using Nil assms(2) [of s] lua_vm.touserdata_law [OF assms(1)] lua_vm.gettop_law [OF assms(1)]
    by (simp add: ctx_modules_from_loaded_def list_step_def)
  have "last (stk (vm (upd_vm (lua_pushnil A) (enter s)))) = LNil"
    using lua_vm.pushnil_law(1) [OF assms(1)] by simp
  then show ?case using step by (cases n) simp_all
next
  case (Cons x xs)
  obtain n' where n: "n = Suc n'" "length xs < n'" using Cons.prems(3) by (cases n) auto
  have e: "at (stk (vm (enter s))) 1 = Some (LUd l)" "mem (enter s) l 1 = x" "mem (enter s) l 0 = h" "x \<noteq> 0"
    using assms(2) [of s] Cons.prems(1,2) by auto
  then obtain s1 b where "list_step (VARS_module A K) A K (enter s) = Some (Inr 1, s1)" "last (stk (vm s1)) = LUd b"
    "mem s1 b 0 = md x" "mem s1 l 0 = h" "mem s1 l 1 = nxt x"
    using lua_vm.list_step_module [OF assms(1) e(1), of K] by (auto simp: assms(3,4))
  then show ?case
    using Cons.IH [of s1 n'] Cons.prems(2) n assms(2) [of s] lua_vm.gettop_law [OF assms(1)]
    by (simp add: ctx_modules_from_loaded_def)
qed

section \<open>A reference libkmod\<close>

text \<open>Every list has the elements 1, 2, 3; \<open>unref\<close> is what releasing a reference does.\<close>

definition ref_kmod :: "(64 word \<Rightarrow> 'w \<Rightarrow> 'w) \<Rightarrow> 'w kmodapi" where
  "ref_kmod unref =
     \<lparr>k_strerror = (\<lambda>e. ''error''), str_addr = (\<lambda>x. of_nat (length x)),
      kmod_new = (\<lambda>x0 w. (1, w)), kmod_unref = unref, kmod_get_dirname = (\<lambda>x0 w. None),
      kmod_load_resources = (\<lambda>x0 w. (0, w)), kmod_unload_resources = (\<lambda>x0 w. w),
      kmod_validate_resources = (\<lambda>x0 w. (0, w)), KMOD_RESOURCES_OK = 1,
      KMOD_RESOURCES_MUST_RELOAD = 2, KMOD_RESOURCES_MUST_RECREATE = 3,
      kmod_config_get = (\<lambda>x0 x1 w. (1, w)), kmod_config_iter_next = (\<lambda>x0 w. (False, w)),
      kmod_config_iter_get_key = (\<lambda>x0 w. None), kmod_config_iter_get_value = (\<lambda>x0 w. None),
      kmod_config_iter_free_iter = (\<lambda>x0 w. w),
      kmod_module_new_from_name = (\<lambda>x0 x1 w. ((0, 1), w)),
      kmod_module_new_from_path = (\<lambda>x0 x1 w. ((0, 1), w)),
      kmod_module_new_from_name_lookup = (\<lambda>x0 x1 w. ((0, 1), w)),
      kmod_module_new_from_lookup = (\<lambda>x0 x1 w. ((0, 1), w)),
      kmod_module_new_from_loaded = (\<lambda>x0 w. ((0, 1), w)),
      kmod_module_get_module = (\<lambda>e w. (16 * e, w)),
      kmod_list_next = (\<lambda>h e w. if e < 3 then e + 1 else 0), kmod_module_unref = unref,
      kmod_module_get_str = (\<lambda>n m w. Some (64, ''s.ko'')),
      kmod_module_insert_module = (\<lambda>x0 x1 x2 w. (0, w)),
      kmod_module_remove_module = (\<lambda>x0 x1 w. (0, w)),
      kmod_module_probe_insert_module = (\<lambda>x0 x1 x2 x3 x4 w. (0, w)),
      kmod_module_get_initstate = (\<lambda>x0 w. (0, w)), kmod_module_initstate_str = (\<lambda>x0. None),
      kmod_module_get_refcnt = (\<lambda>x0 w. (0, w)), kmod_module_get_size = (\<lambda>x0 w. (0, w)),
      kmod_module_get_list = (\<lambda>x0 x1 w. (1, w)),
      kmod_module_fill_list = (\<lambda>x0 x1 w. ((0, 1), w)),
      kmod_module_section_get_name = (\<lambda>x0 w. None),
      kmod_module_section_get_address = (\<lambda>x0 w. 1),
      kmod_module_info_get_key = (\<lambda>x0 w. None),
      kmod_module_info_get_value_n = (\<lambda>x0 w. ''x''),
      kmod_module_version_get_symbol = (\<lambda>x0 w. None),
      kmod_module_version_get_crc = (\<lambda>x0 w. 1),
      kmod_module_symbol_get_symbol = (\<lambda>x0 w. None),
      kmod_module_symbol_get_crc = (\<lambda>x0 w. 1),
      kmod_module_dependency_symbol_get_symbol = (\<lambda>x0 w. None),
      kmod_module_dependency_symbol_get_crc = (\<lambda>x0 w. 1),
      kmod_module_dependency_symbol_get_bind = (\<lambda>x0 w. 0), KMOD_SYMBOL_NONE = 4,
      KMOD_SYMBOL_LOCAL = 5, KMOD_SYMBOL_GLOBAL = 6, KMOD_SYMBOL_WEAK = 7, KMOD_SYMBOL_UNDEF = 8,
      kmod_module_free_list = (\<lambda>x0 x1 w. w), KMOD_INSERT_FORCE_VERMAGIC = 9,
      KMOD_INSERT_FORCE_MODVERSION = 10, KMOD_REMOVE_FORCE = 11, KMOD_REMOVE_NOWAIT = 12,
      KMOD_REMOVE_NOLOG = 13, KMOD_PROBE_FORCE_VERMAGIC = 14, KMOD_PROBE_FORCE_MODVERSION = 15,
      KMOD_PROBE_IGNORE_COMMAND = 16, KMOD_PROBE_IGNORE_LOADED = 17, KMOD_PROBE_DRY_RUN = 18,
      KMOD_PROBE_FAIL_ON_LOADED = 19\<rparr>"

definition list_st :: "lval list \<Rightarrow> string \<Rightarrow> 'w \<Rightarrow> (ref_vm, 'w) st" where
  "list_st xs mt w =
     \<lparr>vm = \<lparr>r_stk = xs, r_tab = (\<lambda>_ _. LNil), r_meta = (\<lambda>_. Some mt), r_next = 9, r_fld = (\<lambda>_ _. LNil), r_upv = [], r_glob = (\<lambda>_. LNil)\<rparr>,
      mem = (\<lambda>_ _. 1), os = w\<rparr>"

definition enter_for :: "(ref_vm, 'w) st \<Rightarrow> (ref_vm, 'w) st" where
  "enter_for s = s\<lparr>vm := (vm s)\<lparr>r_stk := [LUd 7, LNil]\<rparr>\<rparr>"

section \<open>Properties\<close>

lemma peek_bytes_append:
  "peek_bytes S w p a @ peek_bytes S w (p + of_nat a) b = peek_bytes S w p (a + b)"
proof -
  have "[0..<a + b] = [0..<a] @ map ((+) a) [0..<b]" by (rule nth_equalityI) (auto simp: nth_append)
  then show ?thesis by (simp add: peek_bytes_def add.assoc)
qed



text \<open>
  \<open>ctx:modules_from_lookup(alias)\<close> cannot work: the branch that starts the iteration runs only when there
  is a single argument and then demands a second one, so it always raises an error; with the alias the
  function takes the context for a list object and uses the word behind the context pointer as cursor.
\<close>

theorem modules_from_lookup_unusable:
  assumes "lua_vm A stk tget meta"
  shows "(\<forall>x. stk (vm s) = [x] \<longrightarrow> (\<exists>e. ctx_modules_from_lookup A K s = Some (Inl e, s))) \<and>
    (\<forall>c pat. stk (vm s) = [LUd c, LStr pat] \<and> meta (vm s) c = Some METH_KMOD_CTX \<longrightarrow>
      (mem s c 1 = 0 \<longrightarrow> (\<exists>s'. ctx_modules_from_lookup A K s = Some (Inr 1, s') \<and> last (stk (vm s')) = LNil)) \<and>
      (mem s c 1 \<noteq> 0 \<longrightarrow> (\<exists>s' b. ctx_modules_from_lookup A K s = Some (Inr 1, s') \<and> last (stk (vm s')) = LUd b \<and>
        mem s' b 0 = fst (kmod_module_get_module K (mem s c 1) (os s)))))"
proof (intro conjI allI impI)
  fix x assume x: "stk (vm s) = [x]"
  have "at (stk (vm s)) 2 = None" using x by (simp add: at_def)
  then obtain e where "luaL_checkstring A (vm s) 2 = Inl e"
    using lua_vm.checkstring_law(2) [OF assms, of 2 "vm s"] by auto
  then show "\<exists>e. ctx_modules_from_lookup A K s = Some (Inl e, s)"
    using x lua_vm.gettop_law [OF assms, of "vm s"]
    by (cases "toctx A 1 s") (simp_all add: ctx_modules_from_lookup_def)
next
  fix c pat assume st: "stk (vm s) = [LUd c, LStr pat] \<and> meta (vm s) c = Some METH_KMOD_CTX"
  have c: "at (stk (vm s)) 1 = Some (LUd c)" using st by (simp add: at_def)
  have eq: "ctx_modules_from_lookup A K s = list_step (VARS_module A K) A K s"
    using st lua_vm.gettop_law [OF assms, of "vm s"] by (simp add: ctx_modules_from_lookup_def)
  show "\<exists>s'. ctx_modules_from_lookup A K s = Some (Inr 1, s') \<and> last (stk (vm s')) = LNil" if "mem s c 1 = 0"
    using that eq lua_vm.touserdata_law [OF assms c] lua_vm.pushnil_law(1) [OF assms]
    by (simp add: list_step_def)
  show "\<exists>s' b. ctx_modules_from_lookup A K s = Some (Inr 1, s') \<and> last (stk (vm s')) = LUd b \<and>
      mem s' b 0 = fst (kmod_module_get_module K (mem s c 1) (os s))" if "mem s c 1 \<noteq> 0"
    using lua_vm.list_step_module [OF assms c that, of K] eq by auto
qed

theorem modules_from_lookup_unusable_witness:
  "(\<exists>e. ctx_modules_from_lookup ref_lua (ref_kmod (\<lambda>h w. w)) (list_st [LUd 1] METH_KMOD_CTX ()) =
      Some (Inl e, list_st [LUd 1] METH_KMOD_CTX ())) \<and>
   (\<exists>s' b. ctx_modules_from_lookup ref_lua (ref_kmod (\<lambda>h w. w)) (list_st [LUd 1, LStr ''pci''] METH_KMOD_CTX ()) =
      Some (Inr 1, s') \<and> last (r_stk (vm s')) = LUd b \<and> mem s' b 0 = 16)"
proof -
  have "fst (kmod_module_get_module (ref_kmod (\<lambda>h w. w)) 1 ()) = 16" by (simp add: ref_kmod_def)
  then show ?thesis
    using modules_from_lookup_unusable [OF rv.lua_vm_axioms, of "list_st [LUd 1] METH_KMOD_CTX ()" "ref_kmod (\<lambda>h w. w)"]
      modules_from_lookup_unusable [OF rv.lua_vm_axioms, of "list_st [LUd 1, LStr ''pci''] METH_KMOD_CTX ()" "ref_kmod (\<lambda>h w. w)"]
    by (simp add: list_st_def)
qed

text \<open>
  A context is released twice: \<open>unref\<close> does not clear the pointer, so the collection of the object
  (the same function) drops a second reference on the same handle.
\<close>

theorem ctx_unref_twice:
  assumes "luaL_checkudata A (vm s) 1 METH_KMOD_CTX = Inr u"
  shows "\<exists>s1 s2. ctx_unref A K s = Some (Inr 0, s1) \<and> ctx_unref A K s1 = Some (Inr 0, s2) \<and>
    os s2 = kmod_unref K (mem s u 0) (kmod_unref K (mem s u 0) (os s))"
  using assms by (simp add: ctx_unref_def toctx_def toudata_def toudatap_def)

theorem ctx_unref_twice_witness:
  "\<exists>s1 s2. ctx_unref ref_lua (ref_kmod Cons) (list_st [LUd 1] METH_KMOD_CTX []) = Some (Inr 0, s1) \<and>
    ctx_unref ref_lua (ref_kmod Cons) s1 = Some (Inr 0, s2) \<and> os s2 = [1, 1]"
proof -
  have "luaL_checkudata ref_lua (vm (list_st [LUd 1] METH_KMOD_CTX [])) 1 METH_KMOD_CTX = Inr 1"
    by (simp add: rv.checkudata_law list_st_def at_def)
  from ctx_unref_twice [OF this, of "ref_kmod Cons"] show ?thesis
    by (simp add: ref_kmod_def list_st_def)
qed

text \<open>
  \<open>sigraw(file, true)\<close> splits a signed module exactly: on a mapping whose bounds are sound it returns the
  signature and the module, which together are the mapped file without its last 40 bytes, and the
  mapping is released.
\<close>

theorem do_sigraw_splits:
  assumes "lua_vm A stk tget meta" and "do_kmod_map S f (os s) = (Inr m, w1)"
    and "uint (map_len m) < 2 ^ 63" and "uint (map_siglen m) < 2 ^ 31 - 510"
  shows "\<exists>s' sig ko. do_sigraw A S f True s = Some (Inr 2, s') \<and> stk (vm s') = stk (vm s) @ [LStr sig, LStr ko] \<and>
    ko @ sig = lua_bytes S w1 (map_mem m) (map_len m - 40) \<and> length sig = unat (map_siglen m) \<and>
    os s' = s_munmap S (map_mem m) (map_len m) w1"
proof -
  let ?off = "map_sig m - map_mem m"
  have total: "uint ?off + uint (map_siglen m) + 40 = uint (map_len m)"
    using map_bounds [OF assms(2-4)] by (simp add: map_off_def)
  have "0 \<le> uint ?off" "0 \<le> uint (map_siglen m)" by simp_all
  then have "uint (map_len m - 40) = uint ?off + uint (map_siglen m)"
    using total uint_minus_40 [of "map_len m"] by linarith
  then have n: "unat (map_len m - 40) = unat ?off + unat (map_siglen m)"
    by (simp add: nat_add_distrib flip: nat_uint_eq)
  have "lua_bytes S w1 (map_mem m) ?off @ lua_bytes S w1 (map_sig m) (map_siglen m) =
      lua_bytes S w1 (map_mem m) (map_len m - 40)"
    using peek_bytes_append [of S w1 "map_mem m" "unat ?off" "unat (map_siglen m)"]
    by (simp add: lua_bytes_def n flip: map_append)
  moreover have "length (lua_bytes S w1 (map_sig m) (map_siglen m)) = unat (map_siglen m)"
    by (simp add: lua_bytes_def peek_bytes_def)
  ultimately show ?thesis
    using assms(2) lua_vm.pushstring_law(1) [OF assms(1)]
    by (simp add: do_sigraw_def call_os_def)
qed

theorem do_sigraw_splits_witness:
  "\<exists>s' sig ko. do_sigraw ref_lua ref_ssl (Some ''s.ko'') True (list_st [] [] (sw_signed 3)) = Some (Inr 2, s') \<and>
    r_stk (vm s') = [LStr sig, LStr ko] \<and> length sig = 3"
proof -
  obtain m w' where run: "do_kmod_map ref_ssl (Some ''s.ko'') (os (list_st [] [] (sw_signed 3) :: (ref_vm, sworld) st)) = (Inr m, w')"
    and m: "map_len m = 46" "map_siglen m = 3"
    using ref_map_ok by (auto simp: list_st_def split: sum.splits) (metis prod.collapse)
  show ?thesis
    using do_sigraw_splits [OF rv.lua_vm_axioms run] m by (simp add: list_st_def) blast
qed

end
