(* ===== verification/Lua_Cap.thy ===== *)
theory Lua_Cap
  imports Lua_Aux
begin

text \<open>
  The capability binding, \<open>src/daemon/lua_capability.c\<close>: capability sets (\<open>cap_t\<close>), inheritable,
  ambient and bounding vectors (\<open>cap_iab_t\<close>), and the process-wide operations. libcap is not
  part of the repository: the record \<open>capapi\<close> has one field per function or constant the
  binding uses. Handles are pointers with 0 for NULL; functions that return text return the pointer
  to free and the text.
\<close>

record 'w capapi =
  cap_errno :: "'w \<Rightarrow> int"
  cap_free :: "64 word \<Rightarrow> 'w \<Rightarrow> 'w"
  cap_to_text :: "64 word \<Rightarrow> 'w \<Rightarrow> (64 word \<times> string) \<times> 'w"
  cap_compare :: "64 word \<Rightarrow> 64 word \<Rightarrow> 'w \<Rightarrow> int \<times> 'w"
  cap_from_name :: "string \<Rightarrow> 'w \<Rightarrow> (int \<times> int) \<times> 'w"
  cap_to_name :: "int \<Rightarrow> 'w \<Rightarrow> (64 word \<times> string) \<times> 'w"
  cap_get_flag :: "64 word \<Rightarrow> int \<Rightarrow> 32 word \<Rightarrow> 'w \<Rightarrow> (int \<times> int) \<times> 'w"
  cap_set_flag :: "64 word \<Rightarrow> 32 word \<Rightarrow> int list \<Rightarrow> int \<Rightarrow> 'w \<Rightarrow> int \<times> 'w"
  cap_clear :: "64 word \<Rightarrow> 'w \<Rightarrow> int \<times> 'w"
  cap_clear_flag :: "64 word \<Rightarrow> 32 word \<Rightarrow> 'w \<Rightarrow> int \<times> 'w"
  cap_fill :: "64 word \<Rightarrow> 32 word \<Rightarrow> 32 word \<Rightarrow> 'w \<Rightarrow> int \<times> 'w"
  cap_fill_flag :: "64 word \<Rightarrow> 32 word \<Rightarrow> 64 word \<Rightarrow> 32 word \<Rightarrow> 'w \<Rightarrow> int \<times> 'w"
  cap_get_nsowner :: "64 word \<Rightarrow> 'w \<Rightarrow> 32 word \<times> 'w"
  cap_set_nsowner :: "64 word \<Rightarrow> 32 word \<Rightarrow> 'w \<Rightarrow> int \<times> 'w"
  cap_set_fd :: "int \<Rightarrow> 64 word \<Rightarrow> 'w \<Rightarrow> int \<times> 'w"
  cap_set_file :: "string \<Rightarrow> 64 word \<Rightarrow> 'w \<Rightarrow> int \<times> 'w"
  cap_set_proc :: "64 word \<Rightarrow> 'w \<Rightarrow> int \<times> 'w"
  cap_iab_to_text :: "64 word \<Rightarrow> 'w \<Rightarrow> (64 word \<times> string) \<times> 'w"
  cap_iab_compare :: "64 word \<Rightarrow> 64 word \<Rightarrow> 'w \<Rightarrow> int \<times> 'w"
  cap_iab_get_vector :: "64 word \<Rightarrow> 32 word \<Rightarrow> int \<Rightarrow> 'w \<Rightarrow> int \<times> 'w"
  cap_iab_set_vector :: "64 word \<Rightarrow> 32 word \<Rightarrow> int \<Rightarrow> int \<Rightarrow> 'w \<Rightarrow> int \<times> 'w"
  cap_iab_fill :: "64 word \<Rightarrow> 32 word \<Rightarrow> 64 word \<Rightarrow> 32 word \<Rightarrow> 'w \<Rightarrow> int \<times> 'w"
  cap_iab_set_proc :: "64 word \<Rightarrow> 'w \<Rightarrow> int \<times> 'w"
  cap_init :: "'w \<Rightarrow> 64 word \<times> 'w"
  cap_get_fd :: "int \<Rightarrow> 'w \<Rightarrow> 64 word \<times> 'w"
  cap_get_file :: "string \<Rightarrow> 'w \<Rightarrow> 64 word \<times> 'w"
  cap_get_proc :: "'w \<Rightarrow> 64 word \<times> 'w"
  cap_get_pid :: "int \<Rightarrow> 'w \<Rightarrow> 64 word \<times> 'w"
  cap_from_text :: "string \<Rightarrow> 'w \<Rightarrow> 64 word \<times> 'w"
  cap_iab_init :: "'w \<Rightarrow> 64 word \<times> 'w"
  cap_iab_from_text :: "string \<Rightarrow> 'w \<Rightarrow> 64 word \<times> 'w"
  cap_iab_get_proc :: "'w \<Rightarrow> 64 word \<times> 'w"
  cap_iab_get_pid :: "int \<Rightarrow> 'w \<Rightarrow> 64 word \<times> 'w"
  cap_max_bits :: "'w \<Rightarrow> int"
  cap_drop_bound :: "int \<Rightarrow> 'w \<Rightarrow> int \<times> 'w"
  cap_get_bound :: "int \<Rightarrow> 'w \<Rightarrow> int \<times> 'w"
  cap_set_ambient :: "int \<Rightarrow> int \<Rightarrow> 'w \<Rightarrow> int \<times> 'w"
  cap_get_ambient :: "int \<Rightarrow> 'w \<Rightarrow> int \<times> 'w"
  cap_reset_ambient :: "'w \<Rightarrow> int \<times> 'w"
  cap_set_mode :: "32 word \<Rightarrow> 'w \<Rightarrow> int \<times> 'w"
  cap_get_mode :: "'w \<Rightarrow> 32 word"
  cap_set_secbits :: "32 word \<Rightarrow> 'w \<Rightarrow> int \<times> 'w"
  cap_get_secbits :: "'w \<Rightarrow> 32 word"
  cap_setuid :: "32 word \<Rightarrow> 'w \<Rightarrow> int \<times> 'w"
  cap_setgroups :: "32 word \<Rightarrow> 32 word list \<Rightarrow> 'w \<Rightarrow> int \<times> 'w"
  CAP_EFFECTIVE :: "32 word"
  CAP_PERMITTED :: "32 word"
  CAP_INHERITABLE :: "32 word"
  CAP_IAB_INH :: "32 word"
  CAP_IAB_AMB :: "32 word"
  CAP_IAB_BOUND :: "32 word"
  CAP_CLEAR :: int
  CAP_SET :: int
  CAP_MODES :: "32 word \<times> 32 word \<times> 32 word \<times> 32 word \<times> 32 word"

definition METH_CAP_CAP :: string where "METH_CAP_CAP = ''meth_cap_cap''"
definition METH_CAP_IAB :: string where "METH_CAP_IAB = ''meth_cap_iab''"
definition MAX_CAPABILITIES :: nat where "MAX_CAPABILITIES = 64"

definition cap_result :: "'v lua_api \<Rightarrow> 'w capapi \<Rightarrow> int \<Rightarrow> ('v, 'w) st \<Rightarrow> ('v, 'w) ret" where
  "cap_result A K err s =
     (if err = 0 then Some (Inr 1, upd_vm (\<lambda>v. lua_pushboolean A v True) s)
      else if err = - 1 then
        Some (Inr 2, upd_vm (\<lambda>v. lua_pushinteger A (lua_pushnil A v) (cap_errno K (os s))) s)
      else Some (Inr 2, upd_vm (\<lambda>v. lua_pushinteger A (lua_pushnil A v) err) s))"

text \<open>A library call whose error code becomes the result.\<close>

definition cap_call :: "'v lua_api \<Rightarrow> 'w capapi \<Rightarrow> ('w \<Rightarrow> int \<times> 'w) \<Rightarrow> ('v, 'w) st \<Rightarrow> ('v, 'w) ret" where
  "cap_call A K f s = (let (err, s1) = call_os f s in cap_result A K err s1)"

definition tocapcap :: "'v lua_api \<Rightarrow> int \<Rightarrow> ('v, 'w) st \<Rightarrow> string + 64 word" where
  "tocapcap A idx s = toudata A METH_CAP_CAP idx s"

definition tocapiab :: "'v lua_api \<Rightarrow> int \<Rightarrow> ('v, 'w) st \<Rightarrow> string + 64 word" where
  "tocapiab A idx s = toudata A METH_CAP_IAB idx s"

section \<open>Capability sets\<close>

definition lcap_free :: "'v lua_api \<Rightarrow> 'w capapi \<Rightarrow> ('v, 'w) st \<Rightarrow> ('v, 'w) ret" where
  "lcap_free A K s =
     arg (toudatap A METH_CAP_CAP 1 s) s (\<lambda>capp.
       Some (Inr 0,
         if mem s capp 0 \<noteq> 0 then
           poke capp 0 0 (s\<lparr>os := cap_free K (mem s capp 0) (os s)\<rparr>)
         else s))"

definition lcap_tostring :: "'v lua_api \<Rightarrow> 'w capapi \<Rightarrow> ('v, 'w) st \<Rightarrow> ('v, 'w) ret" where
  "lcap_tostring A K s =
     arg (tocapcap A 1 s) s (\<lambda>cap.
       let ((p, text), s1) = call_os (cap_to_text K cap) s
       in if p = 0 then Some (Inr 0, s1)
          else Some (Inr 1, (upd_vm (\<lambda>v. lua_pushstring A v text) s1)\<lparr>os := cap_free K p (os s1)\<rparr>))"

definition lcap_compare :: "'v lua_api \<Rightarrow> 'w capapi \<Rightarrow> ('v, 'w) st \<Rightarrow> ('v, 'w) ret" where
  "lcap_compare A K s =
     arg (tocapcap A 1 s) s (\<lambda>cap1.
     arg (tocapcap A 2 s) s (\<lambda>cap2.
       let (r, s1) = call_os (cap_compare K cap1 cap2) s
       in Some (Inr 1, upd_vm (\<lambda>v. lua_pushboolean A v (r = 0)) s1)))"

definition cap_set_opts :: "'w capapi \<Rightarrow> cflag_opt list" where
  "cap_set_opts K = [(''effective'', CAP_EFFECTIVE K), (''permitted'', CAP_PERMITTED K),
     (''inheritable'', CAP_INHERITABLE K)]"

text \<open>
  Collecting the names of the set form of \<open>cap:flag\<close>. Both loops return the collected vals and
  whether the limit of 64 was reached (the jump to \<open>_set\<close>), or the Lua error they raised. The inner loop
  reads the element at index \<open>k\<close>, which starts at 1 and is never changed.
\<close>

partial_function (option) flag_table ::
  "'v lua_api \<Rightarrow> 'w capapi \<Rightarrow> int \<Rightarrow> int \<Rightarrow> int list \<Rightarrow> ('v, 'w) st \<Rightarrow>
     ((string + bool \<times> int list) \<times> ('v, 'w) st) option" where
  "flag_table A K idx k vals s =
     (let s1 = upd_vm (\<lambda>v. lua_rawgeti A v idx k) s
      in if lua_isnil A (vm s1) (- 1) then Some (Inr (False, vals), s1)
         else
           (case luaL_checkstring A (vm s1) (- 1) of
              Inl e \<Rightarrow> Some (Inl e, s1)
            | Inr name \<Rightarrow>
                (let ((err, v), s2) = call_os (cap_from_name K name) s1
                 in if err < 0 then flag_table A K idx k vals (upd_vm (\<lambda>v. lua_pop A v 1) s2)
                    else
                      (let vals' = vals @ [v]
                       in if length vals' \<ge> 64 then Some (Inr (True, vals'), s2)
                          else flag_table A K idx k vals' (upd_vm (\<lambda>v. lua_pop A v 1) s2)))))"

declare flag_table.simps [code]

function flag_args ::
  "'v lua_api \<Rightarrow> 'w capapi \<Rightarrow> int \<Rightarrow> int \<Rightarrow> int list \<Rightarrow> ('v, 'w) st \<Rightarrow>
     ((string + int list) \<times> ('v, 'w) st) option" where
  "flag_args A K idx n_args vals s =
     (if idx \<le> n_args then
        (case lua_type A (vm s) idx of
           LUA_TSTRING \<Rightarrow>
             (case luaL_checkstring A (vm s) idx of
                Inl e \<Rightarrow> Some (Inl e, s)
              | Inr name \<Rightarrow>
                  (let ((err, v), s1) = call_os (cap_from_name K name) s
                   in if err < 0 then flag_args A K (idx + 1) n_args vals s1
                      else
                        (let vals' = vals @ [v]
                         in if length vals' \<ge> 64 then Some (Inr vals', s1)
                            else flag_args A K (idx + 1) n_args vals' s1)))
         | LUA_TTABLE \<Rightarrow>
             (case flag_table A K idx 1 vals s of
                None \<Rightarrow> None
              | Some (Inl e, s1) \<Rightarrow> Some (Inl e, s1)
              | Some (Inr (full, vals'), s1) \<Rightarrow>
                  if full then Some (Inr vals', s1) else flag_args A K (idx + 1) n_args vals' s1)
         | _ \<Rightarrow> flag_args A K (idx + 1) n_args vals s)
      else Some (Inr vals, s))"
  by pat_completeness auto
termination by (relation "measure (\<lambda>(A, K, idx, n_args, vals, s). nat (n_args + 1 - idx))") auto

text \<open>Pushing the value of a flag: nothing is pushed for a value that is neither.\<close>

definition push_raise :: "'v lua_api \<Rightarrow> 'w capapi \<Rightarrow> int \<Rightarrow> ('v, 'w) st \<Rightarrow> ('v, 'w) ret" where
  "push_raise A K r s =
     Some (Inr 1,
       if r = CAP_CLEAR K then upd_vm (\<lambda>v. lua_pushboolean A v False) s
       else if r = CAP_SET K then upd_vm (\<lambda>v. lua_pushboolean A v True) s
       else s)"

definition lcap_flag :: "'v lua_api \<Rightarrow> 'w capapi \<Rightarrow> ('v, 'w) st \<Rightarrow> ('v, 'w) ret" where
  "lcap_flag A K s =
     arg (tocapcap A 1 s) s (\<lambda>cap. do {
       (set, s) \<leftarrow> tocflags A 2 (cap_set_opts K) (CAP_EFFECTIVE K) s;
       let n_args = lua_gettop A (vm s);
       if n_args < 3 then cap_result A K ENODEV s
       else if n_args = 3 then
         arg (luaL_checkstring A (vm s) 3) s (\<lambda>name.
           let ((err, v), s1) = call_os (cap_from_name K name) s
           in if err < 0 then cap_result A K err s1
              else
                (let ((err, raise), s2) = call_os (cap_get_flag K cap v set) s1
                 in if err < 0 then cap_result A K err s2 else push_raise A K raise s2))
       else do {
         let b = lua_toboolean A (vm s) 3;
         (r, s) \<leftarrow> flag_args A K 4 n_args [] s;
         case r of
           Inl e \<Rightarrow> Some (Inl e, s)
         | Inr vals \<Rightarrow> cap_call A K (cap_set_flag K cap set vals (if b then CAP_SET K else CAP_CLEAR K)) s
       }
     })"

definition lcap_clear :: "'v lua_api \<Rightarrow> 'w capapi \<Rightarrow> ('v, 'w) st \<Rightarrow> ('v, 'w) ret" where
  "lcap_clear A K s =
     arg (tocapcap A 1 s) s (\<lambda>cap.
       if lua_gettop A (vm s) = 1 then cap_call A K (cap_clear K cap) s
       else do {
         (set, s) \<leftarrow> tocflags A 2 (cap_set_opts K) (CAP_EFFECTIVE K) s;
         cap_call A K (cap_clear_flag K cap set) s
       })"

definition lcap_fill :: "'v lua_api \<Rightarrow> 'w capapi \<Rightarrow> ('v, 'w) st \<Rightarrow> ('v, 'w) ret" where
  "lcap_fill A K s =
     arg (tocapcap A 1 s) s (\<lambda>cap. do {
       (to, s) \<leftarrow> tocflags A 2 (cap_set_opts K) (CAP_EFFECTIVE K) s;
       (from, s) \<leftarrow> tocflags A 3 (cap_set_opts K) (CAP_PERMITTED K) s;
       let n_args = lua_gettop A (vm s);
       if n_args = 1 \<or> n_args = 3 then cap_call A K (cap_fill K cap to from) s
       else if n_args = 4 then
         arg (tocapcap A 4 s) s (\<lambda>capfrom. cap_call A K (cap_fill_flag K cap to capfrom from) s)
       else cap_result A K EINVAL s
     })"

definition lcap_nsowner :: "'v lua_api \<Rightarrow> 'w capapi \<Rightarrow> ('v, 'w) st \<Rightarrow> ('v, 'w) ret" where
  "lcap_nsowner A K s =
     arg (tocapcap A 1 s) s (\<lambda>cap.
       if lua_gettop A (vm s) = 1 then
         (let (uid, s1) = call_os (cap_get_nsowner K cap) s
          in Some (Inr 1, upd_vm (\<lambda>v. lua_pushinteger A v (uint uid)) s1))
       else arg (luaL_checkinteger A (vm s) 2) s (\<lambda>uid.
         cap_call A K (cap_set_nsowner K cap (c_uint uid)) s))"

definition lcap_set_fd :: "'v lua_api \<Rightarrow> 'w capapi \<Rightarrow> ('v, 'w) st \<Rightarrow> ('v, 'w) ret" where
  "lcap_set_fd A K s =
     arg (tocapcap A 1 s) s (\<lambda>cap.
     arg (luaL_checkinteger A (vm s) 2) s (\<lambda>fd. cap_call A K (cap_set_fd K (c_int fd) cap) s))"

definition lcap_set_file :: "'v lua_api \<Rightarrow> 'w capapi \<Rightarrow> ('v, 'w) st \<Rightarrow> ('v, 'w) ret" where
  "lcap_set_file A K s =
     arg (tocapcap A 1 s) s (\<lambda>cap.
     arg (luaL_checkstring A (vm s) 2) s (\<lambda>file. cap_call A K (cap_set_file K file cap) s))"

definition lcap_set_proc :: "'v lua_api \<Rightarrow> 'w capapi \<Rightarrow> ('v, 'w) st \<Rightarrow> ('v, 'w) ret" where
  "lcap_set_proc A K s = arg (tocapcap A 1 s) s (\<lambda>cap. cap_call A K (cap_set_proc K cap) s)"

section \<open>Vectors\<close>

definition liab_free :: "'v lua_api \<Rightarrow> 'w capapi \<Rightarrow> ('v, 'w) st \<Rightarrow> ('v, 'w) ret" where
  "liab_free A K s =
     arg (toudatap A METH_CAP_IAB 1 s) s (\<lambda>iabp.
       Some (Inr 0,
         if mem s iabp 0 \<noteq> 0 then
           poke iabp 0 0 (s\<lparr>os := cap_free K (mem s iabp 0) (os s)\<rparr>)
         else s))"

definition liab_tostring :: "'v lua_api \<Rightarrow> 'w capapi \<Rightarrow> ('v, 'w) st \<Rightarrow> ('v, 'w) ret" where
  "liab_tostring A K s =
     arg (tocapiab A 1 s) s (\<lambda>iab.
       let ((p, text), s1) = call_os (cap_iab_to_text K iab) s;
           s2 = upd_vm (\<lambda>v. if p = 0 then lua_pushnil A v else lua_pushstring A v text) s1
       in Some (Inr 1, s2\<lparr>os := cap_free K p (os s2)\<rparr>))"

definition liab_compare :: "'v lua_api \<Rightarrow> 'w capapi \<Rightarrow> ('v, 'w) st \<Rightarrow> ('v, 'w) ret" where
  "liab_compare A K s =
     arg (tocapiab A 1 s) s (\<lambda>iab1.
     arg (tocapiab A 2 s) s (\<lambda>iab2.
       let (r, s1) = call_os (cap_iab_compare K iab1 iab2) s
       in Some (Inr 1, upd_vm (\<lambda>v. lua_pushboolean A v (r = 0)) s1)))"

definition cap_iab_opts :: "'w capapi \<Rightarrow> cflag_opt list" where
  "cap_iab_opts K = [(''inheritable'', CAP_IAB_INH K), (''ambient'', CAP_IAB_AMB K),
     (''bound'', CAP_IAB_BOUND K)]"

definition liab_vector :: "'v lua_api \<Rightarrow> 'w capapi \<Rightarrow> ('v, 'w) st \<Rightarrow> ('v, 'w) ret" where
  "liab_vector A K s =
     arg (tocapiab A 1 s) s (\<lambda>iab. do {
       (vector, s) \<leftarrow> tocflags A 2 (cap_iab_opts K) (CAP_IAB_INH K) s;
       arg (luaL_checkstring A (vm s) 3) s (\<lambda>name.
         let ((err, v), s1) = call_os (cap_from_name K name) s
         in if err < 0 then cap_result A K err s1
            else if lua_gettop A (vm s1) = 3 then
              (let (raise, s2) = call_os (cap_iab_get_vector K iab vector v) s1
               in push_raise A K raise s2)
            else
              (let b = lua_toboolean A (vm s1) 4
               in cap_call A K (cap_iab_set_vector K iab vector v (if b then CAP_SET K else CAP_CLEAR K)) s1))
     })"

definition liab_fill :: "'v lua_api \<Rightarrow> 'w capapi \<Rightarrow> ('v, 'w) st \<Rightarrow> ('v, 'w) ret" where
  "liab_fill A K s =
     arg (tocapiab A 1 s) s (\<lambda>iab. do {
       (vector, s) \<leftarrow> tocflags A 2 (cap_iab_opts K) (CAP_IAB_INH K) s;
       arg (tocapcap A 3 s) s (\<lambda>cap. do {
         (set, s) \<leftarrow> tocflags A 4 (cap_set_opts K) (CAP_EFFECTIVE K) s;
         cap_call A K (cap_iab_fill K iab vector cap set) s
       })
     })"

definition liab_set_proc :: "'v lua_api \<Rightarrow> 'w capapi \<Rightarrow> ('v, 'w) st \<Rightarrow> ('v, 'w) ret" where
  "liab_set_proc A K s = arg (tocapiab A 1 s) s (\<lambda>iab. cap_call A K (cap_iab_set_proc K iab) s)"

section \<open>Constructors and process-wide operations\<close>

text \<open>The common shape: a new userdata, its pointer from the library, nil on top if that is NULL.\<close>

definition new_handle ::
  "'v lua_api \<Rightarrow> string \<Rightarrow> ('w \<Rightarrow> 64 word \<times> 'w) \<Rightarrow> ('v, 'w) st \<Rightarrow> ('v, 'w) ret" where
  "new_handle A metatable f s =
     (let (b, s1) = newcptr A metatable s;
          (p, s2) = call_os f s1;
          s3 = poke b 0 p s2
      in Some (Inr 1, if p = 0 then upd_vm (lua_pushnil A) s3 else s3))"

definition lcap_init :: "'v lua_api \<Rightarrow> 'w capapi \<Rightarrow> ('v, 'w) st \<Rightarrow> ('v, 'w) ret" where
  "lcap_init A K s = new_handle A METH_CAP_CAP (cap_init K) s"

definition lcap_get_fd :: "'v lua_api \<Rightarrow> 'w capapi \<Rightarrow> ('v, 'w) st \<Rightarrow> ('v, 'w) ret" where
  "lcap_get_fd A K s =
     arg (luaL_checkinteger A (vm s) 1) s (\<lambda>fd. new_handle A METH_CAP_CAP (cap_get_fd K (c_int fd)) s)"

definition lcap_get_file :: "'v lua_api \<Rightarrow> 'w capapi \<Rightarrow> ('v, 'w) st \<Rightarrow> ('v, 'w) ret" where
  "lcap_get_file A K s =
     arg (luaL_checkstring A (vm s) 1) s (\<lambda>file. new_handle A METH_CAP_CAP (cap_get_file K file) s)"

definition lcap_get_proc :: "'v lua_api \<Rightarrow> 'w capapi \<Rightarrow> ('v, 'w) st \<Rightarrow> ('v, 'w) ret" where
  "lcap_get_proc A K s = new_handle A METH_CAP_CAP (cap_get_proc K) s"

definition lcap_get_pid :: "'v lua_api \<Rightarrow> 'w capapi \<Rightarrow> ('v, 'w) st \<Rightarrow> ('v, 'w) ret" where
  "lcap_get_pid A K s =
     arg (luaL_checkinteger A (vm s) 1) s (\<lambda>pid. new_handle A METH_CAP_CAP (cap_get_pid K (c_int pid)) s)"

definition lcap_from_text :: "'v lua_api \<Rightarrow> 'w capapi \<Rightarrow> ('v, 'w) st \<Rightarrow> ('v, 'w) ret" where
  "lcap_from_text A K s =
     arg (luaL_checkstring A (vm s) 1) s (\<lambda>text. new_handle A METH_CAP_CAP (cap_from_text K text) s)"

definition lcap_iab_init :: "'v lua_api \<Rightarrow> 'w capapi \<Rightarrow> ('v, 'w) st \<Rightarrow> ('v, 'w) ret" where
  "lcap_iab_init A K s = new_handle A METH_CAP_IAB (cap_iab_init K) s"

definition lcap_iab_from_text :: "'v lua_api \<Rightarrow> 'w capapi \<Rightarrow> ('v, 'w) st \<Rightarrow> ('v, 'w) ret" where
  "lcap_iab_from_text A K s =
     arg (luaL_checkstring A (vm s) 1) s (\<lambda>text. new_handle A METH_CAP_IAB (cap_iab_from_text K text) s)"

definition lcap_iab_get_proc :: "'v lua_api \<Rightarrow> 'w capapi \<Rightarrow> ('v, 'w) st \<Rightarrow> ('v, 'w) ret" where
  "lcap_iab_get_proc A K s = new_handle A METH_CAP_IAB (cap_iab_get_proc K) s"

definition lcap_iab_get_pid :: "'v lua_api \<Rightarrow> 'w capapi \<Rightarrow> ('v, 'w) st \<Rightarrow> ('v, 'w) ret" where
  "lcap_iab_get_pid A K s =
     arg (luaL_checkinteger A (vm s) 1) s (\<lambda>pid. new_handle A METH_CAP_IAB (cap_iab_get_pid K (c_int pid)) s)"

definition lcap_from_name :: "'v lua_api \<Rightarrow> 'w capapi \<Rightarrow> ('v, 'w) st \<Rightarrow> ('v, 'w) ret" where
  "lcap_from_name A K s =
     arg (luaL_checkstring A (vm s) 1) s (\<lambda>name.
       let ((err, v), s1) = call_os (cap_from_name K name) s
       in if err \<noteq> 0 then Some (Inr 0, s1)
          else Some (Inr 1, upd_vm (\<lambda>m. lua_pushinteger A m v) s1))"

definition lcap_to_name :: "'v lua_api \<Rightarrow> 'w capapi \<Rightarrow> ('v, 'w) st \<Rightarrow> ('v, 'w) ret" where
  "lcap_to_name A K s =
     arg (luaL_checkinteger A (vm s) 1) s (\<lambda>v.
       let ((p, name), s1) = call_os (cap_to_name K (c_int v)) s
       in if p = 0 then Some (Inr 0, s1)
          else Some (Inr 1, (upd_vm (\<lambda>m. lua_pushstring A m name) s1)\<lparr>os := cap_free K p (os s1)\<rparr>))"

definition lcap_max_bits :: "'v lua_api \<Rightarrow> 'w capapi \<Rightarrow> ('v, 'w) st \<Rightarrow> ('v, 'w) ret" where
  "lcap_max_bits A K s = Some (Inr 1, upd_vm (\<lambda>v. lua_pushinteger A v (cap_max_bits K (os s))) s)"

definition lcap_bound :: "'v lua_api \<Rightarrow> 'w capapi \<Rightarrow> bool \<Rightarrow> ('v, 'w) st \<Rightarrow> ('v, 'w) ret" where
  "lcap_bound A K dropping s =
     arg (luaL_checkstring A (vm s) 1) s (\<lambda>name.
       let ((err, v), s1) = call_os (cap_from_name K name) s
       in if err < 0 then cap_result A K err s1
          else if dropping then cap_call A K (cap_drop_bound K v) s1
          else cap_call A K (cap_get_bound K v) s1)"

definition lcap_get_bound :: "'v lua_api \<Rightarrow> 'w capapi \<Rightarrow> ('v, 'w) st \<Rightarrow> ('v, 'w) ret" where
  "lcap_get_bound A K s = lcap_bound A K False s"

definition lcap_drop_bound :: "'v lua_api \<Rightarrow> 'w capapi \<Rightarrow> ('v, 'w) st \<Rightarrow> ('v, 'w) ret" where
  "lcap_drop_bound A K s = lcap_bound A K True s"

definition lcap_ambient :: "'v lua_api \<Rightarrow> 'w capapi \<Rightarrow> ('v, 'w) st \<Rightarrow> ('v, 'w) ret" where
  "lcap_ambient A K s =
     arg (luaL_checkstring A (vm s) 1) s (\<lambda>name.
       let ((err, v), s1) = call_os (cap_from_name K name) s
       in if err < 0 then cap_result A K err s1
          else if lua_gettop A (vm s1) = 2 then
            (let b = lua_toboolean A (vm s1) 2
             in cap_call A K (cap_set_ambient K v (if b then CAP_SET K else CAP_CLEAR K)) s1)
          else cap_call A K (cap_get_ambient K v) s1)"

definition lcap_reset_ambient :: "'v lua_api \<Rightarrow> 'w capapi \<Rightarrow> ('v, 'w) st \<Rightarrow> ('v, 'w) ret" where
  "lcap_reset_ambient A K s = cap_call A K (cap_reset_ambient K) s"

definition mode_opts :: "'w capapi \<Rightarrow> cflag_opt list" where
  "mode_opts K = (case CAP_MODES K of (uncertain, nopriv, pure1e_init, pure1e, hybrid) \<Rightarrow>
     [(''uncertain'', uncertain), (''nopriv'', nopriv), (''pure1e_init'', pure1e_init),
      (''pure1e'', pure1e), (''hybrid'', hybrid)])"

definition lcap_mode :: "'v lua_api \<Rightarrow> 'w capapi \<Rightarrow> ('v, 'w) st \<Rightarrow> ('v, 'w) ret" where
  "lcap_mode A K s =
     (if lua_gettop A (vm s) \<ge> 1 then do {
        (mode, s) \<leftarrow> tocflags A 1 (mode_opts K) (fst (CAP_MODES K)) s;
        cap_call A K (cap_set_mode K mode) s
      }
      else Some (Inr 1, upd_vm (\<lambda>v. lua_pushstring A v
        (fromcflags (mode_opts K) (cap_get_mode K (os s)) ''unknown'')) s))"

definition lcap_secbits :: "'v lua_api \<Rightarrow> 'w capapi \<Rightarrow> ('v, 'w) st \<Rightarrow> ('v, 'w) ret" where
  "lcap_secbits A K s =
     (if lua_gettop A (vm s) \<ge> 1 then
        arg (luaL_checkinteger A (vm s) 1) s (\<lambda>secbits. cap_call A K (cap_set_secbits K (c_uint secbits)) s)
      else Some (Inr 1, upd_vm (\<lambda>v. lua_pushinteger A v (uint (cap_get_secbits K (os s)))) s))"

definition lcap_setuid :: "'v lua_api \<Rightarrow> 'w capapi \<Rightarrow> ('v, 'w) st \<Rightarrow> ('v, 'w) ret" where
  "lcap_setuid A K s =
     arg (luaL_checkinteger A (vm s) 1) s (\<lambda>uid. cap_call A K (cap_setuid K (c_uint uid)) s)"

text \<open>The two loops of \<open>setgroups\<close>; as above, the table loop never advances.\<close>

partial_function (option) groups_table ::
  "'v lua_api \<Rightarrow> int \<Rightarrow> int \<Rightarrow> 32 word list \<Rightarrow> ('v, 'w) st \<Rightarrow>
     ((string + 32 word list) \<times> ('v, 'w) st) option" where
  "groups_table A idx k groups s =
     (let s1 = upd_vm (\<lambda>v. lua_rawgeti A v idx k) s
      in if lua_isnil A (vm s1) (- 1) then Some (Inr groups, s1)
         else
           (case luaL_checkinteger A (vm s1) (- 1) of
              Inl e \<Rightarrow> Some (Inl e, s1)
            | Inr gid \<Rightarrow>
                (let groups' = groups @ [c_uint gid]
                 in if length groups' \<ge> 64 then Some (Inr groups', s1)
                    else groups_table A idx k groups' (upd_vm (\<lambda>v. lua_pop A v 1) s1))))"

declare groups_table.simps [code]

function groups_args ::
  "'v lua_api \<Rightarrow> int \<Rightarrow> int \<Rightarrow> 32 word list \<Rightarrow> ('v, 'w) st \<Rightarrow> (string + 32 word list) \<times> ('v, 'w) st" where
  "groups_args A k n_args groups s =
     (if k \<le> n_args then
        (case luaL_checkinteger A (vm s) k of
           Inl e \<Rightarrow> (Inl e, s)
         | Inr gid \<Rightarrow>
             (let groups' = groups @ [c_uint gid]
              in if length groups' \<ge> 64 then (Inr groups', s) else groups_args A (k + 1) n_args groups' s))
      else (Inr groups, s))"
  by pat_completeness auto
termination by (relation "measure (\<lambda>(A, k, n_args, groups, s). nat (n_args + 1 - k))") auto

definition lcap_setgroups :: "'v lua_api \<Rightarrow> 'w capapi \<Rightarrow> ('v, 'w) st \<Rightarrow> ('v, 'w) ret" where
  "lcap_setgroups A K s =
     arg (luaL_checkinteger A (vm s) 1) s (\<lambda>gid. do {
       (r, s) \<leftarrow> (if lua_type A (vm s) 2 = LUA_TTABLE then groups_table A 2 1 [] s
                  else Some (groups_args A 2 (lua_gettop A (vm s)) [] s));
       case r of
         Inl e \<Rightarrow> Some (Inl e, s)
       | Inr groups \<Rightarrow> cap_call A K (cap_setgroups K (c_uint gid) groups) s
     })"

section \<open>Bounds of the collected arrays\<close>

lemma flag_table_bound:
  assumes "flag_table A K idx k vals s = Some y" and "length vals < 64"
    and "y = (Inr (full, vals'), s')"
  shows "length vals' \<le> 64 \<and> (full \<or> length vals' < 64)"
proof -
  have "length vals < 64 \<longrightarrow> (\<forall>full vals' s'. y = (Inr (full, vals'), s') \<longrightarrow>
      length vals' \<le> 64 \<and> (full \<or> length vals' < 64))"
  proof (rule flag_table.raw_induct [where P = "\<lambda>A K idx k vals s y. length vals < 64 \<longrightarrow>
      (\<forall>full vals' s'. y = (Inr (full, vals'), s') \<longrightarrow> length vals' \<le> 64 \<and> (full \<or> length vals' < 64))",
      OF _ assms(1)], goal_cases)
    case (1 loop A K idx k vals s y)
    show ?case
      using 1(2)
      by (auto simp: Let_def split: if_splits sum.splits prod.splits dest!: 1(1))
  qed
  then show ?thesis using assms(2,3) by blast
qed

declare flag_args.simps [simp del] groups_args.simps [simp del]

lemma flag_args_bound:
  assumes "flag_args A K idx n_args vals s = Some (Inr vals', s')" and "length vals < 64"
  shows "length vals' \<le> 64"
  using assms
proof (induction "nat (n_args + 1 - idx)" arbitrary: idx vals s)
  case 0
  then show ?case by (simp add: flag_args.simps)
next
  case (Suc d)
  then have le: "idx \<le> n_args" and d: "d = nat (n_args + 1 - (idx + 1))" by auto
  note IH = Suc.hyps(1) [OF d]
  show ?case
  proof (cases "lua_type A (vm s) idx = LUA_TTABLE")
    case True
    then show ?thesis
      using Suc.prems le flag_table_bound [of A K idx 1 vals s]
      by (subst (asm) flag_args.simps) (auto split: option.splits sum.splits if_splits dest!: IH)
  next
    case False
    then show ?thesis
      using Suc.prems le
      by (subst (asm) flag_args.simps)
        (auto simp: Let_def split: ltype.splits sum.splits if_splits prod.splits dest!: IH)
  qed
qed

lemma groups_table_bound:
  assumes "groups_table A idx k groups s = Some y" and "length groups < 64" and "y = (Inr groups', s')"
  shows "length groups' \<le> 64"
proof -
  have "length groups < 64 \<longrightarrow> (\<forall>groups' s'. y = (Inr groups', s') \<longrightarrow> length groups' \<le> 64)"
  proof (rule groups_table.raw_induct [where P = "\<lambda>A idx k groups s y. length groups < 64 \<longrightarrow>
      (\<forall>groups' s'. y = (Inr groups', s') \<longrightarrow> length groups' \<le> 64)", OF _ assms(1)], goal_cases)
    case (1 loop A idx k groups s y)
    show ?case using 1(2) by (auto simp: Let_def split: if_splits sum.splits dest!: 1(1))
  qed
  then show ?thesis using assms(2,3) by blast
qed

lemma groups_args_bound:
  assumes "groups_args A k n_args groups s = (Inr groups', s')" and "length groups < 64"
  shows "length groups' \<le> 64"
  using assms
proof (induction "nat (n_args + 1 - k)" arbitrary: k groups)
  case 0
  then show ?case by (simp add: groups_args.simps)
next
  case (Suc d)
  then have le: "k \<le> n_args" and d: "d = nat (n_args + 1 - (k + 1))" by auto
  note IH = Suc.hyps(1) [OF d]
  show ?case
    using Suc.prems le
    by (subst (asm) groups_args.simps) (auto simp: Let_def split: sum.splits if_splits dest!: IH)
qed

section \<open>What the loops collect\<close>

text \<open>
  A library whose name lookup does not change its state: \<open>res name\<close> is the error code and the value.
\<close>

definition resolves :: "'w capapi \<Rightarrow> (string \<Rightarrow> int \<times> int) \<Rightarrow> bool" where
  "resolves K res \<longleftrightarrow> (\<forall>name w. cap_from_name K name w = (res name, w))"

definition known :: "(string \<Rightarrow> int \<times> int) \<Rightarrow> string list \<Rightarrow> int list" where
  "known res names = map (\<lambda>n. snd (res n)) (List.filter (\<lambda>n. fst (res n) \<ge> 0) names)"

lemma call_resolves: "resolves K res \<Longrightarrow> call_os (cap_from_name K name) s = (res name, s)"
  by (simp add: resolves_def call_os_def)

lemma at_nth: "n < length xs \<Longrightarrow> at xs (int n + 1) = Some (xs ! n)"
  by (simp add: at_def)

context lua_vm
begin

lemma flag_args_strings:
  assumes "resolves K res" and "stk (vm s) = xs @ map LStr names" and "length vals < 64"
    and "idx = int (length xs) + 1" and "n_args = int (length xs + length names)"
  shows "flag_args A K idx n_args vals s = Some (Inr (take 64 (vals @ known res names)), s)"
  using assms(2-5)
proof (induction names arbitrary: xs vals idx)
  case Nil
  then show ?case by (subst flag_args.simps) (simp add: known_def)
next
  case (Cons n names)
  have at: "at (stk (vm s)) idx = Some (LStr n)"
    using at_nth [of "length xs" "stk (vm s)"] Cons.prems(1,3) by (simp add: nth_append)
  have le: "idx \<le> n_args" using Cons.prems(3,4) by simp
  have IH: "flag_args A K (idx + 1) n_args ws s = Some (Inr (take 64 (ws @ known res names)), s)"
    if "length ws < 64" for ws
    by (rule Cons.IH [of "xs @ [LStr n]"]) (use Cons.prems that in simp_all)
  obtain e v where r: "res n = (e, v)" by fastforce
  have unfold: "flag_args A K idx n_args vals s =
      (if e < 0 then flag_args A K (idx + 1) n_args vals s
       else if length (vals @ [v]) \<ge> 64 then Some (Inr (vals @ [v]), s)
       else flag_args A K (idx + 1) n_args (vals @ [v]) s)"
    by (subst flag_args.simps)
      (use le at r in \<open>simp add: type_at checkstring_law(1) [OF at] call_resolves [OF assms(1)] Let_def\<close>)
  have kn: "known res (n # names) = (if e < 0 then known res names else v # known res names)"
    using r by (simp add: known_def)
  show ?case
    using IH [of vals] IH [of "vals @ [v]"] Cons.prems(2) unfolding unfold kn
    by (cases "length vals = 63") auto
qed

text \<open>The table loop looks at the first element only: it repeats it, or never ends.\<close>

lemma flag_table_step:
  assumes "resolves K res" and "at (stk (vm s)) idx = Some (LTab t)" and "0 < idx"
    and "tget (vm s) t k = LStr name"
  defines "s2 \<equiv> upd_vm (\<lambda>v. lua_rawgeti A v idx k) s"
  defines "s3 \<equiv> upd_vm (\<lambda>v. lua_pop A v 1) s2"
  shows "flag_table A K idx k vals s =
      (if fst (res name) < 0 then flag_table A K idx k vals s3
       else if length (vals @ [snd (res name)]) \<ge> 64 then Some (Inr (True, vals @ [snd (res name)]), s2)
       else flag_table A K idx k (vals @ [snd (res name)]) s3)"
    and "stk (vm s3) = stk (vm s)" and "tget (vm s3) = tget (vm s)" and "mem s3 = mem s" and "os s3 = os s"
proof -
  have st: "stk (vm s2) = stk (vm s) @ [LStr name]"
    using rawgeti_law(1) [OF assms(2), of k] assms(4) by (simp add: s2_def)
  then have ck: "luaL_checkstring A (vm s2) (- 1) = Inr name" by (intro checkstring_law(1)) simp
  have nn: "\<not> lua_isnil A (vm s2) (- 1)" using st by simp
  show "flag_table A K idx k vals s =
      (if fst (res name) < 0 then flag_table A K idx k vals s3
       else if length (vals @ [snd (res name)]) \<ge> 64 then Some (Inr (True, vals @ [snd (res name)]), s2)
       else flag_table A K idx k (vals @ [snd (res name)]) s3)"
    by (subst flag_table.simps)
      (use nn ck in \<open>simp add: s2_def [symmetric] s3_def call_resolves [OF assms(1)] split_beta Let_def\<close>)
  show "stk (vm s3) = stk (vm s)" "tget (vm s3) = tget (vm s)" "mem s3 = mem s" "os s3 = os s"
    using pop_top [OF st] rawgeti_law(2) by (simp_all add: s3_def s2_def)
qed

lemma flag_table_repeats:
  assumes "resolves K res" and "at (stk (vm s)) idx = Some (LTab t)" and "0 < idx"
    and "tget (vm s) t k = LStr name" and "res name = (0, v)" and "length vals < 64"
  shows "\<exists>s'. flag_table A K idx k vals s = Some (Inr (True, vals @ replicate (64 - length vals) v), s') \<and>
    mem s' = mem s \<and> os s' = os s"
  using assms(2,4,6)
proof (induction "63 - length vals" arbitrary: vals s)
  case 0
  note step = flag_table_step [OF assms(1) 0(2) assms(3) 0(3)]
  have "length vals = 63" using 0 by simp
  then show ?case using step(1) [of vals] assms(5) by simp
next
  case (Suc d)
  note step = flag_table_step [OF assms(1) Suc(3) assms(3) Suc(4)]
  define s3 where "s3 = upd_vm (\<lambda>v. lua_pop A v 1) (upd_vm (\<lambda>v. lua_rawgeti A v idx k) s)"
  have len: "64 - length vals = Suc (64 - length (vals @ [v]))" "\<not> 64 \<le> length (vals @ [v])"
    using Suc(2) by simp_all
  have "\<exists>s'. flag_table A K idx k (vals @ [v]) s3 =
      Some (Inr (True, (vals @ [v]) @ replicate (64 - length (vals @ [v])) v), s') \<and> mem s' = mem s3 \<and> os s' = os s3"
    by (rule Suc(1)) (use Suc(2-5) step(2,3) len in \<open>simp_all add: s3_def\<close>)
  moreover have "flag_table A K idx k vals s = flag_table A K idx k (vals @ [v]) s3"
    using step(1) [of vals] assms(5) len(2) by (simp add: s3_def)
  ultimately show ?case using step(4,5) len(1) by (simp add: s3_def)
qed

lemma flag_table_diverges:
  assumes "resolves K res" and "at (stk (vm s)) idx = Some (LTab t)" and "0 < idx"
    and "tget (vm s) t k = LStr name" and "fst (res name) < 0"
  shows "flag_table A K idx k vals s = None"
proof (rule ccontr)
  let ?inv = "\<lambda>s. at (stk (vm s)) idx = Some (LTab t) \<and> tget (vm s) t k = LStr name"
  assume "flag_table A K idx k vals s \<noteq> None"
  then obtain y where y: "flag_table A K idx k vals s = Some y" by auto
  have "A = A \<and> K = K \<and> idx = idx \<and> k = k \<longrightarrow> \<not> ?inv s"
  proof (rule flag_table.raw_induct [where P = "\<lambda>A' K' idx' k' vals s y.
      A' = A \<and> K' = K \<and> idx' = idx \<and> k' = k \<longrightarrow> \<not> ?inv s", OF _ y], intro impI notI, goal_cases)
    case (1 loop A' K' idx' k' vals s y)
    then have inv: "?inv s" and eqs: "A' = A" "K' = K" "idx' = idx" "k' = k" by auto
    define s2 where "s2 = upd_vm (\<lambda>v. lua_rawgeti A v idx k) s"
    define s3 where "s3 = upd_vm (\<lambda>v. lua_pop A v 1) s2"
    have st: "stk (vm s2) = stk (vm s) @ [LStr name]"
      using rawgeti_law(1) [of "vm s" idx t k] inv by (simp add: s2_def)
    then have ck: "luaL_checkstring A (vm s2) (- 1) = Inr name" by (intro checkstring_law(1)) simp
    have "loop A K idx k vals s3 = Some y"
      using 1(2) st ck assms(5)
      by (simp add: eqs s2_def [symmetric] s3_def call_resolves [OF assms(1)] split_beta Let_def)
    then have "\<not> ?inv s3" using 1(1) by blast
    moreover have "?inv s3" using pop_top [OF st] rawgeti_law(2) inv by (simp add: s3_def s2_def)
    ultimately show False by simp
  qed
  then show False using assms(2,4) by simp
qed

end

definition truthy :: "lval \<Rightarrow> bool" where
  "truthy x \<longleftrightarrow> x \<noteq> LNil \<and> x \<noteq> LBool False"

context lua_vm
begin

lemma tocapcap_eq:
  assumes "at (stk (vm s)) i = Some (LUd u)" and "meta (vm s) u = Some METH_CAP_CAP"
  shows "tocapcap A i s = Inr (mem s u 0)"
  using checkudata_at [OF assms]
  by (simp add: tocapcap_def toudata_def toudatap_def)

lemma tocflags_name:
  "at (stk (vm s)) i = Some (LStr n) \<Longrightarrow> tocflags A i opts d s = Some (flag_of opts n, s)"
  using tostring_law [of "vm s" i n] type_at [of "vm s" i] by (simp add: tocflags_def opt_flag_eq)

text \<open>The set form of \<open>cap:flag\<close> up to the collection of the names.\<close>

lemma lcap_flag_set_form:
  assumes "stk (vm s) = [LUd u, LStr name, b] @ ys" and "ys \<noteq> []" and "meta (vm s) u = Some METH_CAP_CAP"
  shows "lcap_flag A K s =
    (case flag_args A K 4 (3 + int (length ys)) [] s of
       None \<Rightarrow> None
     | Some (Inl e, s1) \<Rightarrow> Some (Inl e, s1)
     | Some (Inr vals, s1) \<Rightarrow> cap_call A K (cap_set_flag K (mem s u 0) (flag_of (cap_set_opts K) name) vals
         (if truthy b then CAP_SET K else CAP_CLEAR K)) s1)"
proof -
  have at: "at (stk (vm s)) 1 = Some (LUd u)" "at (stk (vm s)) 2 = Some (LStr name)" "at (stk (vm s)) 3 = Some b"
    by (simp_all add: assms(1) at_def)
  have len: "lua_gettop A (vm s) = 3 + int (length ys)" using assms(1) by (simp add: gettop_law)
  have "0 < length ys" using assms(2) by simp
  then have top: "\<not> lua_gettop A (vm s) < 3" "lua_gettop A (vm s) \<noteq> 3" using len by linarith+
  show ?thesis
    using at(3) top len
    by (simp add: lcap_flag_def tocapcap_eq [OF at(1) assms(3)] tocflags_name [OF at(2)] toboolean_at
        truthy_def Let_def split: option.splits sum.splits)
qed

end

section \<open>A reference library\<close>

text \<open>
  A library that knows two capabilities and records the calls that matter: the flags set and the
  pointers freed.
\<close>

type_synonym cap_log = "(64 word \<times> 32 word \<times> int list \<times> int) list \<times> 64 word list"

definition ref_name :: "string \<Rightarrow> int \<times> int" where
  "ref_name n = (if n = ''cap_chown'' then (0, 0) else if n = ''cap_bpf'' then (0, 39) else (- 1, 0))"

definition ref_cap :: "cap_log capapi" where
  "ref_cap =
     \<lparr>cap_errno = (\<lambda>_. EINVAL), cap_free = (\<lambda>p (c, f). (c, p # f)),
      cap_to_text = (\<lambda>p w. ((p, ''=''), w)), cap_compare = (\<lambda>p q w. (if p = q then 0 else 1, w)),
      cap_from_name = (\<lambda>n w. (ref_name n, w)), cap_to_name = (\<lambda>v w. ((1, ''cap_chown''), w)),
      cap_get_flag = (\<lambda>p v f w. ((0, 0), w)),
      cap_set_flag = (\<lambda>p f vs r (c, fr). (0, ((p, f, vs, r) # c, fr))),
      cap_clear = (\<lambda>p w. (0, w)), cap_clear_flag = (\<lambda>p f w. (0, w)), cap_fill = (\<lambda>p t f w. (0, w)),
      cap_fill_flag = (\<lambda>p t q f w. (0, w)), cap_get_nsowner = (\<lambda>p w. (0, w)),
      cap_set_nsowner = (\<lambda>p u w. (0, w)), cap_set_fd = (\<lambda>fd p w. (0, w)), cap_set_file = (\<lambda>f p w. (0, w)),
      cap_set_proc = (\<lambda>p w. (0, w)), cap_iab_to_text = (\<lambda>p w. ((p, ''iab''), w)),
      cap_iab_compare = (\<lambda>p q w. (0, w)), cap_iab_get_vector = (\<lambda>p v c w. (0, w)),
      cap_iab_set_vector = (\<lambda>p v c r w. (0, w)), cap_iab_fill = (\<lambda>p v q f w. (0, w)),
      cap_iab_set_proc = (\<lambda>p w. (0, w)), cap_init = (\<lambda>w. (64, w)), cap_get_fd = (\<lambda>fd w. (64, w)),
      cap_get_file = (\<lambda>f w. (64, w)), cap_get_proc = (\<lambda>w. (64, w)), cap_get_pid = (\<lambda>p w. (64, w)),
      cap_from_text = (\<lambda>t w. (64, w)), cap_iab_init = (\<lambda>w. (64, w)), cap_iab_from_text = (\<lambda>t w. (64, w)),
      cap_iab_get_proc = (\<lambda>w. (64, w)), cap_iab_get_pid = (\<lambda>p w. (64, w)), cap_max_bits = (\<lambda>w. 41),
      cap_drop_bound = (\<lambda>v w. (0, w)), cap_get_bound = (\<lambda>v w. (1, w)), cap_set_ambient = (\<lambda>v r w. (0, w)),
      cap_get_ambient = (\<lambda>v w. (1, w)), cap_reset_ambient = (\<lambda>w. (0, w)), cap_set_mode = (\<lambda>m w. (0, w)),
      cap_get_mode = (\<lambda>w. 0), cap_set_secbits = (\<lambda>b w. (0, w)), cap_get_secbits = (\<lambda>w. 0),
      cap_setuid = (\<lambda>u w. (0, w)), cap_setgroups = (\<lambda>g gs w. (0, w)),
      CAP_EFFECTIVE = 0, CAP_PERMITTED = 1, CAP_INHERITABLE = 2, CAP_IAB_INH = 2, CAP_IAB_AMB = 3,
      CAP_IAB_BOUND = 4, CAP_CLEAR = 0, CAP_SET = 1, CAP_MODES = (0, 1, 2, 3, 4)\<rparr>"

lemma ref_cap_resolves: "resolves ref_cap ref_name"
  by (simp add: resolves_def ref_cap_def)

text \<open>The state in which Lua calls a method of a capability set with the given further arguments.\<close>

definition cap_st :: "lval list \<Rightarrow> (int \<Rightarrow> lval) \<Rightarrow> (ref_vm, cap_log) st" where
  "cap_st xs tab =
     \<lparr>vm = \<lparr>r_stk = LUd 1 # xs, r_tab = (\<lambda>_. tab), r_meta = (\<lambda>_. Some METH_CAP_CAP), r_next = 9, r_fld = (\<lambda>_ _. LNil), r_upv = [], r_glob = (\<lambda>_. LNil)\<rparr>,
      mem = (\<lambda>_ _. 64), os = ([], [])\<rparr>"

section \<open>Properties\<close>

text \<open>
  C28. \<open>cap:flag(set, value, name, ...)\<close>, the documented form with names as arguments: the library is
  called once, with the handle, the named set, exactly the values of the known names in the
  order given (the first 64 of them), and the flag value; the result is that call's.
\<close>

theorem lcap_flag_names:
  assumes "lua_vm A stk tget meta" and "resolves K res"
    and "stk (vm s) = [LUd u, LStr name, b] @ map LStr names" and "names \<noteq> []"
    and "meta (vm s) u = Some METH_CAP_CAP"
  shows "lcap_flag A K s = cap_call A K (cap_set_flag K (mem s u 0) (flag_of (cap_set_opts K) name)
     (take 64 (known res names)) (if truthy b then CAP_SET K else CAP_CLEAR K)) s"
proof -
  have "flag_args A K 4 (3 + int (length names)) [] s = Some (Inr (take 64 ([] @ known res names)), s)"
    by (rule lua_vm.flag_args_strings [OF assms(1,2,3)]) simp_all
  then show ?thesis
    using lua_vm.lcap_flag_set_form [OF assms(1) assms(3) _ assms(5), of K] assms(4) by simp
qed

theorem lcap_flag_names_witness:
  "lcap_flag ref_lua ref_cap (cap_st [LStr ''permitted'', LBool True, LStr ''cap_bpf'', LStr ''cap_chown''] (\<lambda>_. LNil))
   = cap_call ref_lua ref_cap (cap_set_flag ref_cap 64 (flag_of (cap_set_opts ref_cap) ''permitted'')
       (take 64 (known ref_name [''cap_bpf'', ''cap_chown''])) 1)
       (cap_st [LStr ''permitted'', LBool True, LStr ''cap_bpf'', LStr ''cap_chown''] (\<lambda>_. LNil))"
  using lcap_flag_names [OF rv.lua_vm_axioms ref_cap_resolves,
      of "cap_st [LStr ''permitted'', LBool True, LStr ''cap_bpf'', LStr ''cap_chown''] (\<lambda>_. LNil)" 1 "''permitted''"
         "LBool True" "[''cap_bpf'', ''cap_chown'']"]
  by (simp add: cap_st_def truthy_def ref_cap_def)

text \<open>
  C29. \<open>cap:flag(set, value, { name, ... })\<close>, the other documented form: because the loop variable is never
  advanced, the library is called with 64 copies of the first element of the table whatever
  the other elements are, and when the first name is unknown the call never returns.
\<close>

theorem lcap_flag_table_stuck:
  assumes "lua_vm A stk tget meta" and "resolves K res"
    and "stk (vm s) = [LUd u, LStr name, b, LTab t]" and "meta (vm s) u = Some METH_CAP_CAP"
    and "tget (vm s) t 1 = LStr first"
  shows "(\<forall>v. res first = (0, v) \<longrightarrow>
      (\<exists>s'. lcap_flag A K s = cap_call A K (cap_set_flag K (mem s u 0) (flag_of (cap_set_opts K) name)
         (replicate 64 v) (if truthy b then CAP_SET K else CAP_CLEAR K)) s' \<and> os s' = os s)) \<and>
    (fst (res first) < 0 \<longrightarrow> lcap_flag A K s = None)"
proof -
  have form: "stk (vm s) = [LUd u, LStr name, b] @ [LTab t]" using assms(3) by simp
  have at: "at (stk (vm s)) 4 = Some (LTab t)" using assms(3) by (simp add: at_def)
  have ty: "lua_type A (vm s) 4 = LUA_TTABLE" using lua_vm.type_at [OF assms(1) at] by simp
  note flag = lua_vm.lcap_flag_set_form [OF assms(1) form _ assms(4), of K]
  have "\<exists>s'. flag_args A K 4 4 [] s = Some (Inr (replicate 64 v), s') \<and> os s' = os s"
    if v: "res first = (0, v)" for v
  proof -
    obtain s' where "flag_table A K 4 1 [] s = Some (Inr (True, [] @ replicate (64 - length ([] :: int list)) v), s')"
        "os s' = os s"
      using lua_vm.flag_table_repeats [OF assms(1,2) at _ assms(5) v, of "[]"] by auto
    then show ?thesis using ty by (subst flag_args.simps) simp
  qed
  moreover have "flag_args A K 4 4 [] s = None" if "fst (res first) < 0"
    using lua_vm.flag_table_diverges [OF assms(1,2) at _ assms(5) that, of "[]"] ty
    by (subst flag_args.simps) simp
  ultimately show ?thesis using flag by fastforce
qed

theorem lcap_flag_table_stuck_witness:
  "lcap_flag ref_lua ref_cap (cap_st [LStr ''effective'', LBool True, LTab 1]
     (\<lambda>k. if k = 1 then LStr ''cap_nothing'' else if k = 2 then LStr ''cap_bpf'' else LNil)) = None"
  using lcap_flag_table_stuck [OF rv.lua_vm_axioms ref_cap_resolves,
      of "cap_st [LStr ''effective'', LBool True, LTab 1]
         (\<lambda>k. if k = 1 then LStr ''cap_nothing'' else if k = 2 then LStr ''cap_bpf'' else LNil)"
         1 "''effective''" "LBool True" 1 "''cap_nothing''"]
  by (simp add: cap_st_def ref_name_def)

text \<open>
  The fixed arrays are not overrun: whatever the Lua side passes and whatever the library answers,
  the loops of \<open>cap:flag\<close> and \<open>cap.setgroups\<close> never store more than 64 values.
\<close>

theorem cap_arrays_bounded:
  "(\<forall>n_args s vals s'. flag_args A K 4 n_args [] s = Some (Inr vals, s') \<longrightarrow> length vals \<le> MAX_CAPABILITIES) \<and>
   (\<forall>s groups s'. groups_table A 2 1 [] s = Some (Inr groups, s') \<longrightarrow> length groups \<le> 64) \<and>
   (\<forall>n_args s groups s'. groups_args A 2 n_args [] s = (Inr groups, s') \<longrightarrow> length groups \<le> 64)"
  using flag_args_bound [of A K 4 _ "[]"] groups_table_bound [of A 2 1 "[]"] groups_args_bound [of A 2 _ "[]"]
  by (fastforce simp: MAX_CAPABILITIES_def)

theorem cap_arrays_bounded_witness:
  "length [39, 0 :: int] \<le> MAX_CAPABILITIES"
proof -
  have "flag_args ref_lua ref_cap 4 5 []
      (cap_st [LStr ''permitted'', LBool True, LStr ''cap_bpf'', LStr ''cap_chown''] (\<lambda>_. LNil))
    = Some (Inr (take 64 ([] @ known ref_name [''cap_bpf'', ''cap_chown''])),
        cap_st [LStr ''permitted'', LBool True, LStr ''cap_bpf'', LStr ''cap_chown''] (\<lambda>_. LNil))"
    by (rule rv.flag_args_strings [OF ref_cap_resolves, where xs = "[LUd 1, LStr ''permitted'', LBool True]"])
      (simp_all add: cap_st_def)
  moreover have "take 64 ([] @ known ref_name [''cap_bpf'', ''cap_chown'']) = [39, 0]"
    by (simp add: known_def ref_name_def)
  ultimately show ?thesis
    using cap_arrays_bounded [where A = ref_lua and K = ref_cap] by metis
qed

text \<open>
  \<open>cap.get_bound\<close> and \<open>cap.ambient\<close> answer the wrong way round: they push \<open>true\<close> exactly when the library says
  that the capability is not in the set, and \<open>nil, 1\<close> when it says that it is.
\<close>

theorem lcap_get_inverted:
  assumes "lua_vm A stk tget meta" and "resolves K res" and "stk (vm s) = [LStr name]"
    and "res name = (0, v)" and "r \<in> {0, 1}"
    and "cap_get_bound K v (os s) = (r, os s)" and "cap_get_ambient K v (os s) = (r, os s)"
  shows "\<exists>s1 s2. lcap_get_bound A K s = Some (Inr (if r = 0 then 1 else 2), s1) \<and>
    lcap_ambient A K s = Some (Inr (if r = 0 then 1 else 2), s2) \<and>
    stk (vm s1) = LStr name # (if r = 0 then [LBool True] else [LNil, LNum 1]) \<and> stk (vm s2) = stk (vm s1)"
proof -
  have ck: "luaL_checkstring A (vm s) 1 = Inr name"
    using lua_vm.checkstring_law(1) [OF assms(1), of "vm s" 1 name] assms(3) by (simp add: at_def)
  have top: "lua_gettop A (vm s) = 1" using lua_vm.gettop_law [OF assms(1)] assms(3) by simp
  note push = lua_vm.pushboolean_law [OF assms(1)] lua_vm.pushinteger_law [OF assms(1)]
    lua_vm.pushnil_law [OF assms(1)]
  have calls: "call_os (cap_get_bound K v) s = (r, s)" "call_os (cap_get_ambient K v) s = (r, s)"
    using assms(6,7) by (simp_all add: call_os_def)
  show ?thesis
    using assms(3-5) ck top push
    by (auto simp: lcap_get_bound_def lcap_bound_def lcap_ambient_def cap_call_def cap_result_def
        call_resolves [OF assms(2)] calls)
qed

theorem lcap_get_inverted_witness:
  "\<exists>s1 s2. lcap_get_bound ref_lua ref_cap (cap_st [] (\<lambda>_. LNil)\<lparr>vm := \<lparr>r_stk = [LStr ''cap_bpf''],
      r_tab = (\<lambda>_ _. LNil), r_meta = (\<lambda>_. None), r_next = 0, r_fld = (\<lambda>_ _. LNil), r_upv = [], r_glob = (\<lambda>_. LNil)\<rparr>\<rparr>) = Some (Inr 2, s1) \<and>
    lcap_ambient ref_lua ref_cap (cap_st [] (\<lambda>_. LNil)\<lparr>vm := \<lparr>r_stk = [LStr ''cap_bpf''],
      r_tab = (\<lambda>_ _. LNil), r_meta = (\<lambda>_. None), r_next = 0, r_fld = (\<lambda>_ _. LNil), r_upv = [], r_glob = (\<lambda>_. LNil)\<rparr>\<rparr>) = Some (Inr 2, s2) \<and>
    r_stk (vm s1) = [LStr ''cap_bpf'', LNil, LNum 1] \<and> r_stk (vm s2) = r_stk (vm s1)"
  using lcap_get_inverted [OF rv.lua_vm_axioms ref_cap_resolves,
      of "cap_st [] (\<lambda>_. LNil)\<lparr>vm := \<lparr>r_stk = [LStr ''cap_bpf''], r_tab = (\<lambda>_ _. LNil), r_meta = (\<lambda>_. None),
        r_next = 0, r_fld = (\<lambda>_ _. LNil), r_upv = [], r_glob = (\<lambda>_. LNil)\<rparr>\<rparr>" "''cap_bpf''" 39 1]
  by (simp add: ref_name_def ref_cap_def)

text \<open>
  A capability handle is released once: the first \<open>free\<close> (or collection) hands a non-NULL handle to
  the library and clears it, any later one changes nothing.
\<close>

theorem lcap_free_once:
  assumes "luaL_checkudata A (vm s) 1 METH_CAP_CAP = Inr u"
  shows "\<exists>s1. lcap_free A K s = Some (Inr 0, s1) \<and> lcap_free A K s1 = Some (Inr 0, s1) \<and>
    os s1 = (if mem s u 0 = 0 then os s else cap_free K (mem s u 0) (os s))"
  using assms by (auto simp: lcap_free_def toudatap_def)

theorem lcap_free_once_witness:
  "\<exists>s1. lcap_free ref_lua ref_cap (cap_st [] (\<lambda>_. LNil)) = Some (Inr 0, s1) \<and>
    lcap_free ref_lua ref_cap s1 = Some (Inr 0, s1) \<and> os s1 = ([], [64])"
proof -
  have "luaL_checkudata ref_lua (vm (cap_st [] (\<lambda>_. LNil))) 1 METH_CAP_CAP = Inr 1"
    using rv.checkudata_law by (simp add: cap_st_def at_def)
  from lcap_free_once [OF this, of ref_cap] show ?thesis by (simp add: cap_st_def ref_cap_def)
qed

end
