(* ===== verification/Lua_Files.thy ===== *)
theory Lua_Files
  imports Lua_Aux
begin

text \<open>
  The file bindings: extended attributes (\<open>src/daemon/lua_xattr.c\<close>), file status and ownership
  (\<open>src/daemon/lua_fs.c\<close>) and fanotify (\<open>src/daemon/lua_fanotify.c\<close>). The record \<open>osapi\<close> has the libc and
  system functions they call. A call that fills a buffer returns its return value and the bytes;
  \<open>cstr\<close> reads the C string at an address.
\<close>

record 'w osapi =
  errno :: "'w \<Rightarrow> int"
  strerror :: "int \<Rightarrow> string"
  malloc :: "int \<Rightarrow> 'w \<Rightarrow> 64 word \<times> 'w"
  free :: "64 word \<Rightarrow> 'w \<Rightarrow> 'w"
  strdup :: "string \<Rightarrow> 'w \<Rightarrow> 64 word \<times> 'w"
  cstr :: "64 word \<Rightarrow> 'w \<Rightarrow> string"
  getxattr :: "string \<Rightarrow> string \<Rightarrow> int \<Rightarrow> 'w \<Rightarrow> (int \<times> string) \<times> 'w"
  setxattr :: "string \<Rightarrow> string \<Rightarrow> string \<Rightarrow> int \<Rightarrow> 'w \<Rightarrow> int \<times> 'w"
  listxattr :: "string \<Rightarrow> int \<Rightarrow> 'w \<Rightarrow> (int \<times> string) \<times> 'w"
  removexattr :: "string \<Rightarrow> string \<Rightarrow> 'w \<Rightarrow> int \<times> 'w"
  stat :: "string \<Rightarrow> 'w \<Rightarrow> (int \<times> (32 word \<times> 32 word \<times> 32 word \<times> 64 word)) \<times> 'w"
  getpwnam :: "string \<Rightarrow> 'w \<Rightarrow> (32 word option) \<times> 'w"
  getgrnam :: "string \<Rightarrow> 'w \<Rightarrow> (32 word option) \<times> 'w"
  fopen :: "string \<Rightarrow> 'w \<Rightarrow> 64 word \<times> 'w"
  fread :: "64 word \<Rightarrow> 'w \<Rightarrow> string \<times> 'w"
  fclose :: "64 word \<Rightarrow> 'w \<Rightarrow> 'w"
  chmod :: "string \<Rightarrow> 32 word \<Rightarrow> 'w \<Rightarrow> int \<times> 'w"
  chown :: "string \<Rightarrow> 32 word \<Rightarrow> 32 word \<Rightarrow> 'w \<Rightarrow> int \<times> 'w"
  fanotify_init :: "32 word \<Rightarrow> 32 word \<Rightarrow> 'w \<Rightarrow> int \<times> 'w"
  fanotify_mark :: "int \<Rightarrow> 32 word \<Rightarrow> 32 word \<Rightarrow> int \<Rightarrow> string \<Rightarrow> 'w \<Rightarrow> int \<times> 'w"
  close :: "int \<Rightarrow> 'w \<Rightarrow> 'w"
  fd_text :: "int \<Rightarrow> string"

definition push_error :: "'v lua_api \<Rightarrow> 'w osapi \<Rightarrow> ('v, 'w) st \<Rightarrow> ('v, 'w) ret" where
  "push_error A X s =
     Some (Inr 2, upd_vm (\<lambda>v. lua_pushstring A (lua_pushnil A v) (strerror X (errno X (os s)))) s)"

text \<open>\<open>luaL_error\<close> raises a Lua error with a message.\<close>

definition lua_error :: "string \<Rightarrow> ('v, 'w) st \<Rightarrow> ('v, 'w) ret" where
  "lua_error msg s = Some (Inl msg, s)"

definition push_true :: "'v lua_api \<Rightarrow> ('v, 'w) st \<Rightarrow> ('v, 'w) ret" where
  "push_true A s = Some (Inr 1, upd_vm (\<lambda>v. lua_pushboolean A v True) s)"

section \<open>Extended attributes\<close>

definition META_XATTR_FILE :: string where
  "META_XATTR_FILE = ''meta_xattr_file''"

definition toxattrfilepath :: "'v lua_api \<Rightarrow> 'w osapi \<Rightarrow> int \<Rightarrow> ('v, 'w) st \<Rightarrow> string + string" where
  "toxattrfilepath A X idx s =
     map_sum id (\<lambda>b. cstr X (mem s b 0) (os s)) (luaL_checkudata A (vm s) idx META_XATTR_FILE)"

definition file_gc :: "'v lua_api \<Rightarrow> 'w osapi \<Rightarrow> ('v, 'w) st \<Rightarrow> ('v, 'w) ret" where
  "file_gc A X s =
     arg (luaL_checkudata A (vm s) 1 META_XATTR_FILE) s (\<lambda>path_ptr.
       Some (Inr 0,
         if mem s path_ptr 0 \<noteq> 0
         then poke path_ptr 0 0 (s\<lparr>os := free X (mem s path_ptr 0) (os s)\<rparr>) else s))"

definition file_get :: "'v lua_api \<Rightarrow> 'w osapi \<Rightarrow> ('v, 'w) st \<Rightarrow> ('v, 'w) ret" where
  "file_get A X s =
     arg (toxattrfilepath A X 1 s) s (\<lambda>path.
     arg (luaL_checkstring A (vm s) 2) s (\<lambda>name.
       let ((sz, _), s1) = call_os (getxattr X path name 0) s
       in if sz < 0 then push_error A X s1
          else if sz = 0 then Some (Inr 1, upd_vm (\<lambda>v. lua_pushstring A v []) s1)
          else
            (let (buf, s2) = call_os (malloc X sz) s1
             in if buf = 0 then lua_error ''memory allocation failed'' s2
                else
                  (let ((rd, bytes), s3) = call_os (getxattr X path name sz) s2
                   in if rd < 0 then push_error A X (s3\<lparr>os := free X buf (os s3)\<rparr>)
                      else
                        (let s4 = upd_vm (\<lambda>v. lua_pushstring A v (take (nat rd) bytes)) s3
                         in Some (Inr 1, s4\<lparr>os := free X buf (os s4)\<rparr>))))))"

definition file_set :: "'v lua_api \<Rightarrow> 'w osapi \<Rightarrow> ('v, 'w) st \<Rightarrow> ('v, 'w) ret" where
  "file_set A X s =
     arg (toxattrfilepath A X 1 s) s (\<lambda>path.
     arg (luaL_checkstring A (vm s) 2) s (\<lambda>name.
     arg (luaL_checkstring A (vm s) 3) s (\<lambda>contents.
     arg (luaL_optinteger A (vm s) 4 0) s (\<lambda>flags.
       let (r, s1) = call_os (setxattr X path name contents (c_int flags)) s
       in if r < 0 then push_error A X s1 else push_true A s1))))"

text \<open>
  The retry loop of \<open>file_list\<close>: \<open>Inl\<close> has returned from the function, \<open>Inr\<close> left the loop with the
  buffer (NULL after the last retry) and the bytes read into it.
\<close>

fun list_retry ::
  "'v lua_api \<Rightarrow> 'w osapi \<Rightarrow> string \<Rightarrow> nat \<Rightarrow> int \<Rightarrow> ('v, 'w) st \<Rightarrow>
     ('v, 'w) ret + (64 word \<times> string \<times> ('v, 'w) st)" where
  "list_retry A X path 0 sz s = Inr (0, [], s)"
| "list_retry A X path (Suc retries) sz s =
     (let (buf, s1) = call_os (malloc X (sz + 256)) s
      in if buf = 0 then Inl (lua_error ''memory allocation failed'' s1)
         else
           (let ((rd, bytes), s2) = call_os (listxattr X path (sz + 256)) s1
            in if rd \<ge> 0 then Inr (buf, take (nat rd) bytes, s2)
               else if errno X (os s2) = ERANGE then
                 (let s3 = s2\<lparr>os := free X buf (os s2)\<rparr>;
                      ((sz', _), s4) = call_os (listxattr X path 0) s3
                  in if sz' < 0 then Inl (push_error A X s4)
                     else list_retry A X path retries sz' s4)
               else Inl (push_error A X (s2\<lparr>os := free X buf (os s2)\<rparr>))))"

text \<open>\<open>for (p = list; p < list + read_size; p += strlen(p) + 1)\<close>: the strings of the buffer.\<close>

function nul_strings :: "string \<Rightarrow> string list" where
  "nul_strings bytes =
     (if bytes = [] then []
      else takeWhile (\<lambda>c. c \<noteq> char_of (0 :: nat)) bytes #
           nul_strings (drop (length (takeWhile (\<lambda>c. c \<noteq> char_of (0 :: nat)) bytes) + 1) bytes))"
  by auto
termination by (relation "measure length") (auto simp: length_greater_0_conv)

definition push_names :: "'v lua_api \<Rightarrow> string list \<Rightarrow> 'v \<Rightarrow> 'v" where
  "push_names A names v =
     fst (fold (\<lambda>p (v, i). (lua_rawseti A (lua_pushstring A v p) (- 2) i, i + 1)) names
       (lua_newtable A v, 1))"

definition file_list :: "'v lua_api \<Rightarrow> 'w osapi \<Rightarrow> ('v, 'w) st \<Rightarrow> ('v, 'w) ret" where
  "file_list A X s =
     arg (toxattrfilepath A X 1 s) s (\<lambda>path.
       let ((sz, _), s1) = call_os (listxattr X path 0) s
       in if sz < 0 then push_error A X s1
          else if sz = 0 then Some (Inr 1, upd_vm (lua_newtable A) s1)
          else
            (case list_retry A X path 3 sz s1 of
               Inl r \<Rightarrow> r
             | Inr (buf, bytes, s2) \<Rightarrow>
                 if buf = 0 then
                   lua_error ''listxattr: too many retries due to concurrent modifications'' s2
                 else
                   (let s3 = upd_vm (push_names A (nul_strings bytes)) s2
                    in Some (Inr 1, s3\<lparr>os := free X buf (os s3)\<rparr>))))"

definition file_remove :: "'v lua_api \<Rightarrow> 'w osapi \<Rightarrow> ('v, 'w) st \<Rightarrow> ('v, 'w) ret" where
  "file_remove A X s =
     arg (toxattrfilepath A X 1 s) s (\<lambda>path.
     arg (luaL_checkstring A (vm s) 2) s (\<lambda>name.
       let (r, s1) = call_os (removexattr X path name) s
       in if r < 0 then push_error A X s1 else push_true A s1))"

definition xattr_new :: "'v lua_api \<Rightarrow> 'w osapi \<Rightarrow> ('v, 'w) st \<Rightarrow> ('v, 'w) ret" where
  "xattr_new A X s =
     arg (luaL_checkstring A (vm s) 1) s (\<lambda>path.
       let (path_ptr, s1) = newcptr A META_XATTR_FILE s;
           (p, s2) = call_os (strdup X path) s1;
           s3 = poke path_ptr 0 p s2
       in if p = 0 then lua_error ''strdup failed: out of memory'' s3 else Some (Inr 1, s3))"

section \<open>File status\<close>

text \<open>A status userdata has the user, the group, the mode and the size at offsets 0 to 3.\<close>

definition META_STAT :: string where
  "META_STAT = ''meta_fs_stat''"

definition stat_integer :: "'v lua_api \<Rightarrow> nat \<Rightarrow> ('v, 'w) st \<Rightarrow> ('v, 'w) ret" where
  "stat_integer A field s =
     arg (luaL_checkudata A (vm s) 1 META_STAT) s (\<lambda>sb.
       Some (Inr 1, upd_vm (\<lambda>v. lua_pushinteger A v (sint (mem s sb field))) s))"

definition stat_mode :: "'v lua_api \<Rightarrow> ('v, 'w) st \<Rightarrow> ('v, 'w) ret" where
  "stat_mode A s =
     arg (luaL_checkudata A (vm s) 1 META_STAT) s (\<lambda>sb.
       Some (Inr 1, upd_vm (\<lambda>v. lua_pushinteger A v (sint (and (mem s sb 2) 0xFFF))) s))"

definition fs_stat :: "'v lua_api \<Rightarrow> 'w osapi \<Rightarrow> ('v, 'w) st \<Rightarrow> ('v, 'w) ret" where
  "fs_stat A X s =
     arg (luaL_checkstring A (vm s) 1) s (\<lambda>path.
       let (sb, v) = lua_newuserdata A (vm s);
           s1 = s\<lparr>vm := v\<rparr>;
           ((r, (uid, gid, mode, sz)), s2) = call_os (stat X path) s1
       in if r = - 1 then push_error A X s2
          else
            (let s3 = poke sb 3 sz (poke sb 2 (ucast mode) (poke sb 1 (ucast gid) (poke sb 0 (ucast uid) s2)))
             in Some (Inr 1, upd_vm (\<lambda>v. lua_setmetatable A (luaL_getmetatable A v META_STAT) (- 2)) s3)))"

definition get_uid :: "'v lua_api \<Rightarrow> 'w osapi \<Rightarrow> ('v, 'w) st \<Rightarrow> ('v, 'w) ret" where
  "get_uid A X s =
     arg (luaL_checkstring A (vm s) 1) s (\<lambda>username.
       let (pws, s1) = call_os (getpwnam X username) s
       in case pws of
            Some uid \<Rightarrow> Some (Inr 1, upd_vm (\<lambda>v. lua_pushinteger A v (uint uid)) s1)
          | None \<Rightarrow> Some (Inr 0, s1))"

definition get_gid :: "'v lua_api \<Rightarrow> 'w osapi \<Rightarrow> ('v, 'w) st \<Rightarrow> ('v, 'w) ret" where
  "get_gid A X s =
     arg (luaL_checkstring A (vm s) 1) s (\<lambda>groupname.
       let (grp, s1) = call_os (getgrnam X groupname) s
       in case grp of
            Some gid \<Rightarrow> Some (Inr 1, upd_vm (\<lambda>v. lua_pushinteger A v (uint gid)) s1)
          | None \<Rightarrow> Some (Inr 0, s1))"

text \<open>\<open>do { n = fread(...) } while (n > 0)\<close>: all chunks up to the first empty one.\<close>

partial_function (option) read_chunks ::
  "'w osapi \<Rightarrow> 64 word \<Rightarrow> string \<Rightarrow> ('v, 'w) st \<Rightarrow> (string \<times> ('v, 'w) st) option" where
  "read_chunks X fp buf s =
     (let (chunk, s1) = call_os (fread X fp) s
      in if chunk = [] then Some (buf, s1) else read_chunks X fp (buf @ chunk) s1)"

declare read_chunks.simps [code]

definition readfile :: "'v lua_api \<Rightarrow> 'w osapi \<Rightarrow> ('v, 'w) st \<Rightarrow> ('v, 'w) ret" where
  "readfile A X s =
     arg (luaL_checkstring A (vm s) 1) s (\<lambda>path.
       let (fp, s1) = call_os (fopen X path) s
       in if fp = 0 then push_error A X s1
          else do {
            (buf, s2) \<leftarrow> read_chunks X fp [] s1;
            let s3 = s2\<lparr>os := fclose X fp (os s2)\<rparr>;
            Some (Inr 1, upd_vm (\<lambda>v. lua_pushstring A v buf) s3)
          })"

definition fs_chmod :: "'v lua_api \<Rightarrow> 'w osapi \<Rightarrow> ('v, 'w) st \<Rightarrow> ('v, 'w) ret" where
  "fs_chmod A X s =
     arg (luaL_checkstring A (vm s) 1) s (\<lambda>path.
     arg (luaL_checkinteger A (vm s) 2) s (\<lambda>mode.
       let (r, s1) = call_os (chmod X path (c_uint mode)) s
       in if r = - 1 then push_error A X s1 else push_true A s1))"

definition fs_chown :: "'v lua_api \<Rightarrow> 'w osapi \<Rightarrow> ('v, 'w) st \<Rightarrow> ('v, 'w) ret" where
  "fs_chown A X s =
     arg (luaL_checkstring A (vm s) 1) s (\<lambda>path.
     arg (luaL_checkinteger A (vm s) 2) s (\<lambda>uid.
     arg (luaL_checkinteger A (vm s) 3) s (\<lambda>gid.
       let (r, s1) = call_os (chown X path (c_uint uid) (c_uint gid)) s
       in if r = - 1 then push_error A X s1 else push_true A s1)))"

section \<open>fanotify\<close>

text \<open>A fanotify userdata has the descriptor, sign-extended, at offset 0.\<close>

definition METH_FANOTIFYNAME :: string where
  "METH_FANOTIFYNAME = ''meth_fanotify''"

definition fan_fd :: "('v, 'w) st \<Rightarrow> nat \<Rightarrow> int" where
  "fan_fd s ctx = sint (mem s ctx 0)"

definition push_errno :: "'v lua_api \<Rightarrow> 'w osapi \<Rightarrow> ('v, 'w) st \<Rightarrow> ('v, 'w) ret" where
  "push_errno A X s = Some (Inr 2, upd_vm (\<lambda>v. lua_pushinteger A (lua_pushnil A v) (errno X (os s))) s)"

definition l_fanotify_init :: "'v lua_api \<Rightarrow> 'w osapi \<Rightarrow> ('v, 'w) st \<Rightarrow> ('v, 'w) ret" where
  "l_fanotify_init A X s =
     arg (luaL_checkinteger A (vm s) 1) s (\<lambda>flags.
     arg (luaL_checkinteger A (vm s) 2) s (\<lambda>event_flags.
       let (fd, s1) = call_os (fanotify_init X (c_uint flags) (c_uint event_flags)) s
       in if fd = - 1 then push_errno A X s1
          else
            (let (ctx, v) = lua_newuserdata A (vm s1);
                 s2 = poke ctx 0 (word_of_int fd) (s1\<lparr>vm := v\<rparr>)
             in Some (Inr 1, upd_vm (\<lambda>v. lua_setmetatable A (luaL_getmetatable A v METH_FANOTIFYNAME) (- 2)) s2))))"

definition tofanotify :: "'v lua_api \<Rightarrow> int \<Rightarrow> ('v, 'w) st \<Rightarrow> string + nat" where
  "tofanotify A idx s = luaL_checkudata A (vm s) idx METH_FANOTIFYNAME"

definition l_fanotify_mark :: "'v lua_api \<Rightarrow> 'w osapi \<Rightarrow> ('v, 'w) st \<Rightarrow> ('v, 'w) ret" where
  "l_fanotify_mark A X s =
     arg (tofanotify A 1 s) s (\<lambda>ctx.
     arg (luaL_checkinteger A (vm s) 2) s (\<lambda>flags.
     arg (luaL_checkinteger A (vm s) 3) s (\<lambda>mask.
     arg (luaL_checkinteger A (vm s) 4) s (\<lambda>dirfd.
     arg (luaL_checkstring A (vm s) 5) s (\<lambda>pathname.
       let (err, s1) = call_os (fanotify_mark X (fan_fd s ctx) (c_uint flags) (c_uint mask) (c_int dirfd) pathname) s
       in if err = - 1 then push_errno A X s1
          else Some (Inr 1, upd_vm (\<lambda>v. lua_settop A v 1) s1))))))"

definition l_fanotify_close :: "'v lua_api \<Rightarrow> 'w osapi \<Rightarrow> ('v, 'w) st \<Rightarrow> ('v, 'w) ret" where
  "l_fanotify_close A X s =
     arg (tofanotify A 1 s) s (\<lambda>ctx.
       Some (Inr 0,
         if fan_fd s ctx \<noteq> - 1 then
           poke ctx 0 (- 1) (s\<lparr>os := close X (fan_fd s ctx) (os s)\<rparr>)
         else s))"

definition l_fanotify_tostring :: "'v lua_api \<Rightarrow> 'w osapi \<Rightarrow> ('v, 'w) st \<Rightarrow> ('v, 'w) ret" where
  "l_fanotify_tostring A X s =
     arg (tofanotify A 1 s) s (\<lambda>ctx.
       Some (Inr 1, upd_vm (\<lambda>v. lua_pushstring A v
         (METH_FANOTIFYNAME @ '' (fd = '' @ fd_text X (fan_fd s ctx) @ '')'')) s))"

section \<open>Parsing the list of names\<close>

declare nul_strings.simps [simp del]

abbreviation NUL :: char where
  "NUL \<equiv> char_of (0 :: nat)"

lemma nul_strings_concat:
  "(\<And>n. n \<in> set names \<Longrightarrow> NUL \<notin> set n) \<Longrightarrow> nul_strings (concat (map (\<lambda>n. n @ [NUL]) names)) = names"
proof (induction names)
  case Nil
  then show ?case by (simp add: nul_strings.simps)
next
  case (Cons n names)
  let ?rest = "concat (map (\<lambda>n. n @ [NUL]) names)"
  have tw: "takeWhile (\<lambda>c. c \<noteq> NUL) (n @ NUL # ?rest) = n"
  proof -
    have "\<forall>c\<in>set n. c \<noteq> NUL" using Cons.prems [of n] by auto
    then show ?thesis by (simp add: takeWhile_append)
  qed
  have "nul_strings (n @ NUL # ?rest) = n # nul_strings ?rest"
    by (subst nul_strings.simps) (simp add: tw)
  then show ?case using Cons by simp
qed

context lua_vm
begin

text \<open>The loop stores the strings under the keys 1, 2, ... of a new table.\<close>

lemma push_names_loop:
  fixes names :: "string list"
  assumes "stk v = xs @ [LTab t]"
    and "\<And>j. j < length ds \<Longrightarrow> tget v t (int j + 1) = LStr (ds ! j)"
    and "\<And>j. int (length ds) < j \<Longrightarrow> tget v t j = LNil"
  defines "r \<equiv> fst (fold (\<lambda>p (v, i). (lua_rawseti A (lua_pushstring A v p) (- 2) i, i + 1)) names
      (v, int (length ds) + 1))"
  shows "stk r = xs @ [LTab t] \<and> (\<forall>j<length (ds @ names). tget r t (int j + 1) = LStr ((ds @ names) ! j)) \<and>
    (\<forall>j. int (length (ds @ names)) < j \<longrightarrow> tget r t j = LNil)"
  using assms(1-3) unfolding r_def
proof (induction names arbitrary: v ds)
  case Nil
  then show ?case by simp
next
  case (Cons n names)
  let ?v = "lua_rawseti A (lua_pushstring A v n) (- 2) (int (length ds) + 1)"
  have st: "stk (lua_pushstring A v n) = (xs @ [LTab t]) @ [LStr n]" "tget (lua_pushstring A v n) = tget v"
    using Cons.prems(1) by (simp_all add: pushstring_law)
  have at: "at (stk (lua_pushstring A v n)) (- 2) = Some (LTab t)" using st by simp
  have v': "stk ?v = xs @ [LTab t]" "tget ?v = (tget v)(t := (tget v t)(int (length ds) + 1 := LStr n))"
    using rawseti_law(1) [OF at st(1)] st(2) by simp_all
  have "tget ?v t (int j + 1) = LStr ((ds @ [n]) ! j)" if "j < length (ds @ [n])" for j
    using that v'(2) Cons.prems(2) [of j] by (cases "j = length ds") (auto simp: nth_append)
  moreover have "tget ?v t j = LNil" if "int (length (ds @ [n])) < j" for j
    using that v'(2) Cons.prems(3) [of j] by simp
  ultimately show ?case
    using Cons.IH [OF v'(1), of "ds @ [n]"] by (simp add: add.commute [of 1])
qed

lemma push_names_table:
  "\<exists>t. stk (push_names A names v) = stk v @ [LTab t] \<and>
    (\<forall>j<length names. tget (push_names A names v) t (int j + 1) = LStr (names ! j)) \<and>
    (\<forall>j. int (length names) < j \<longrightarrow> tget (push_names A names v) t j = LNil)"
proof -
  obtain t where "stk (lua_newtable A v) = stk v @ [LTab t]" "tget (lua_newtable A v) t = (\<lambda>_. LNil)"
    using newtable_law(1) [of v] by auto
  then show ?thesis
    using push_names_loop [of "lua_newtable A v" "stk v" t "[]" names] by (auto simp: push_names_def)
qed

end

section \<open>Buffers\<close>

text \<open>What the file bindings rely on from the C heap: \<open>heap w\<close> are the blocks in use.\<close>

locale c_heap =
  fixes X :: "'w osapi" and heap :: "'w \<Rightarrow> 64 word set"
  assumes malloc_null: "malloc X n w = (0, w') \<Longrightarrow> heap w' = heap w"
    and malloc_new: "malloc X n w = (p, w') \<Longrightarrow> p \<noteq> 0 \<Longrightarrow> p \<notin> heap w \<and> heap w' = insert p (heap w)"
    and free_block: "heap (free X p w) = heap w - {p}"
    and getxattr_heap: "heap (snd (getxattr X path name n w)) = heap w"
    and listxattr_heap: "heap (snd (listxattr X path n w)) = heap w"
begin

lemma list_retry_heap:
  "case list_retry A X path retries sz s of
     Inl r \<Rightarrow> \<exists>x s'. r = Some (x, s') \<and> heap (os s') = heap (os s)
   | Inr (buf, bytes, s') \<Rightarrow> if buf = 0 then heap (os s') = heap (os s)
       else buf \<notin> heap (os s) \<and> heap (os s') = insert buf (heap (os s))"
proof (induction retries arbitrary: sz s)
  case 0
  then show ?case by simp
next
  case (Suc retries)
  obtain buf w1 where m: "malloc X (sz + 256) (os s) = (buf, w1)" by fastforce
  obtain rd bytes w2 where l: "listxattr X path (sz + 256) w1 = ((rd, bytes), w2)" by (metis surj_pair)
  obtain sz' b' w4 where l2: "listxattr X path 0 (free X buf w2) = ((sz', b'), w4)" by (metis surj_pair)
  have h2: "heap w2 = heap w1" using listxattr_heap [of path "sz + 256" w1] l by simp
  have h4: "heap w4 = heap w2 - {buf}" using listxattr_heap [of path 0 "free X buf w2"] l2 free_block by simp
  show ?case
  proof (cases "buf = 0")
    case True
    then show ?thesis using m malloc_null [of "sz + 256" "os s" w1] by (simp add: call_os_def lua_error_def)
  next
    case False
    note new = malloc_new [OF m False]
    have restored: "heap w2 - {buf} = heap (os s)" using new h2 by auto
    show ?thesis
      using False m l l2 new h2 h4 restored free_block [of buf w2] Suc.IH [of "s\<lparr>os := w4\<rparr>" sz']
      by (auto simp: call_os_def push_error_def Let_def split: sum.splits)
  qed
qed

end

section \<open>A reference system\<close>

text \<open>
  A file with fixed attribute names, a heap that counts up, and the descriptors that were closed.
  The first readings of the list may be told to fail with \<open>ERANGE\<close>.
\<close>

record fworld =
  f_heap :: "64 word set"
  f_brk :: "64 word"
  f_closed :: "int list"
  f_races :: nat
  f_list :: string

definition ref_malloc :: "fworld \<Rightarrow> 64 word \<times> fworld" where
  "ref_malloc w =
     (if f_brk w = 0 \<or> f_brk w \<in> f_heap w then (0, w)
      else (f_brk w, w\<lparr>f_heap := insert (f_brk w) (f_heap w), f_brk := f_brk w + 16\<rparr>))"

definition ref_listxattr :: "int \<Rightarrow> fworld \<Rightarrow> (int \<times> string) \<times> fworld" where
  "ref_listxattr n w =
     (if n = 0 then ((int (length (f_list w)), []), w)
      else if f_races w > 0 then ((- 1, []), w\<lparr>f_races := f_races w - 1\<rparr>)
      else ((int (length (f_list w)), f_list w), w))"

definition ref_os :: "fworld osapi" where
  "ref_os =
     \<lparr>errno = (\<lambda>w. ERANGE), strerror = (\<lambda>e. ''error''), malloc = (\<lambda>n. ref_malloc),
      free = (\<lambda>p w. w\<lparr>f_heap := f_heap w - {p}\<rparr>), strdup = (\<lambda>x. ref_malloc), cstr = (\<lambda>p w. ''file''),
      getxattr = (\<lambda>path name n w. ((1, ''x''), w)), setxattr = (\<lambda>path name c f w. (0, w)),
      listxattr = (\<lambda>path. ref_listxattr), removexattr = (\<lambda>path name w. (0, w)),
      stat = (\<lambda>path w. ((0, (0, 0, 0x81A4, 12)), w)), getpwnam = (\<lambda>n w. (Some 0, w)), getgrnam = (\<lambda>n w. (None, w)),
      fopen = (\<lambda>path w. (0, w)), fread = (\<lambda>fp w. ([], w)), fclose = (\<lambda>fp w. w),
      chmod = (\<lambda>path m w. (0, w)), chown = (\<lambda>path u g w. (0, w)), fanotify_init = (\<lambda>f e w. (3, w)),
      fanotify_mark = (\<lambda>fd f m d path w. (0, w)), close = (\<lambda>fd w. w\<lparr>f_closed := fd # f_closed w\<rparr>),
      fd_text = (\<lambda>fd. ''3'')\<rparr>"

interpretation rfh: c_heap ref_os f_heap
  by unfold_locales (auto simp: ref_os_def ref_malloc_def ref_listxattr_def split: if_splits)

definition file_st :: "string \<Rightarrow> nat \<Rightarrow> string \<Rightarrow> (ref_vm, fworld) st" where
  "file_st mt races names =
     \<lparr>vm = \<lparr>r_stk = [LUd 1], r_tab = (\<lambda>_ _. LNil), r_meta = (\<lambda>_. Some mt), r_next = 9, r_fld = (\<lambda>_ _. LNil), r_upv = [], r_glob = (\<lambda>_. LNil)\<rparr>,
      mem = (\<lambda>_ _. 64),
      os = \<lparr>f_heap = {}, f_brk = 4096, f_closed = [], f_races = races, f_list = names\<rparr>\<rparr>"

section \<open>Properties\<close>

text \<open>
  \<open>file:list()\<close> releases every buffer: it always returns, after at most three attempts, and on every
  path (success, a failing call, too many races, no memory) the C heap has exactly the blocks
  it had before.
\<close>

theorem file_list_no_leak:
  assumes "c_heap X heap"
  shows "\<exists>r s'. file_list A X s = Some (r, s') \<and> heap (os s') = heap (os s)"
proof (cases "toxattrfilepath A X 1 s")
  case (Inl e)
  then show ?thesis by (simp add: file_list_def)
next
  case (Inr path)
  obtain sz b w where l: "listxattr X path 0 (os s) = ((sz, b), w)" by (metis surj_pair)
  have h: "heap w = heap (os s)" using c_heap.listxattr_heap [OF assms, of path 0 "os s"] l by simp
  have h': "heap (os (s\<lparr>os := w\<rparr>)) = heap (os s)" using h by simp
  have loop: "case list_retry A X path 3 sz (s\<lparr>os := w\<rparr>) of
     Inl r \<Rightarrow> \<exists>x s'. r = Some (x, s') \<and> heap (os s') = heap (os s)
   | Inr (buf, bytes, s') \<Rightarrow> if buf = 0 then heap (os s') = heap (os s)
       else buf \<notin> heap (os s) \<and> heap (os s') = insert buf (heap (os s))"
    by (rule c_heap.list_retry_heap [OF assms, where s = "s\<lparr>os := w\<rparr>", unfolded h'])
  show ?thesis
    using Inr l h loop c_heap.free_block [OF assms]
    by (auto simp: file_list_def call_os_def push_error_def lua_error_def Let_def split: sum.splits if_splits)
qed

theorem file_list_no_leak_witness:
  "\<exists>r s'. file_list ref_lua ref_os (file_st META_XATTR_FILE 2 (''user.a'' @ [NUL])) = Some (r, s') \<and> f_heap (os s') = {}"
  using file_list_no_leak [OF rfh.c_heap_axioms, of ref_lua "file_st META_XATTR_FILE 2 (''user.a'' @ [NUL])"]
  by (simp add: file_st_def)



text \<open>
  A descriptor is closed once: the first \<open>close\<close> (or collection) of a fanotify object closes its
  descriptor and marks it closed, any later one does nothing; likewise the path of an attribute
  object is freed once.
\<close>

theorem close_once:
  assumes "luaL_checkudata A (vm s) 1 METH_FANOTIFYNAME = Inr u"
    and "luaL_checkudata A (vm t) 1 META_XATTR_FILE = Inr p"
  shows "(\<exists>s1. l_fanotify_close A X s = Some (Inr 0, s1) \<and> l_fanotify_close A X s1 = Some (Inr 0, s1) \<and>
      os s1 = (if fan_fd s u = - 1 then os s else close X (fan_fd s u) (os s))) \<and>
    (\<exists>t1. file_gc A X t = Some (Inr 0, t1) \<and> file_gc A X t1 = Some (Inr 0, t1) \<and>
      os t1 = (if mem t p 0 = 0 then os t else free X (mem t p 0) (os t)))"
  using assms by (auto simp: l_fanotify_close_def tofanotify_def fan_fd_def file_gc_def)

theorem close_once_witness:
  "\<exists>s1. l_fanotify_close ref_lua ref_os (file_st METH_FANOTIFYNAME 0 []) = Some (Inr 0, s1) \<and>
    l_fanotify_close ref_lua ref_os s1 = Some (Inr 0, s1) \<and> f_closed (os s1) = [64]"
proof -
  have 1: "luaL_checkudata ref_lua (vm (file_st METH_FANOTIFYNAME 0 [])) 1 METH_FANOTIFYNAME = Inr 1"
    using rv.checkudata_law by (simp add: file_st_def at_def)
  have 2: "luaL_checkudata ref_lua (vm (file_st META_XATTR_FILE 0 [])) 1 META_XATTR_FILE = Inr 1"
    using rv.checkudata_law by (simp add: file_st_def at_def)
  show ?thesis
    using close_once [OF 1 2, of ref_os] by (auto simp: file_st_def fan_fd_def ref_os_def)
qed

end
