(* ===== verification/Lua_Audit.thy ===== *)
theory Lua_Audit
  imports Lua_Aux
begin

text \<open>
  The Linux audit binding (\<open>src/daemon/lua_audit.c\<close>). The record \<open>auditapi\<close> has the libaudit functions;
  the families that the source generates with \<open>AFD_SET_METHOD\<close>, \<open>AFD_OP0_METHOD\<close> and \<open>AFD_RULE_OP\<close> are one field
  with the name as argument. Functions that may move the rule they work on return the new address.
\<close>

record 'w auditapi =
  a_errno :: "'w \<Rightarrow> int"
  a_strerror :: "int \<Rightarrow> string"
  audit_open :: "'w \<Rightarrow> int \<times> 'w"
  audit_close :: "int \<Rightarrow> 'w \<Rightarrow> 'w"
  audit_is_enabled :: "int \<Rightarrow> 'w \<Rightarrow> int \<times> 'w"
  audit_set_enabled :: "int \<Rightarrow> 32 word \<Rightarrow> 'w \<Rightarrow> int \<times> 'w"
  audit_request_status :: "int \<Rightarrow> 'w \<Rightarrow> int \<times> 'w"
  audit_request_features :: "int \<Rightarrow> 'w \<Rightarrow> int \<times> 'w"
  audit_set_pid :: "int \<Rightarrow> 32 word \<Rightarrow> bool \<Rightarrow> 'w \<Rightarrow> int \<times> 'w"
  audit_set_feature :: "int \<Rightarrow> 32 word \<Rightarrow> 32 word \<Rightarrow> 32 word \<Rightarrow> 'w \<Rightarrow> int \<times> 'w"
  audit_set :: "string \<Rightarrow> int \<Rightarrow> 32 word \<Rightarrow> 'w \<Rightarrow> int \<times> 'w"
  audit_op0 :: "string \<Rightarrow> int \<Rightarrow> 'w \<Rightarrow> int \<times> 'w"
  audit_make_equivalent :: "int \<Rightarrow> string \<Rightarrow> string \<Rightarrow> 'w \<Rightarrow> int \<times> 'w"
  audit_rule_op :: "string \<Rightarrow> int \<Rightarrow> 64 word \<Rightarrow> int \<Rightarrow> int \<Rightarrow> 'w \<Rightarrow> int \<times> 'w"
  audit_log_user_comm_message ::
    "int \<Rightarrow> int \<Rightarrow> string \<Rightarrow> string \<Rightarrow> string \<Rightarrow> string \<Rightarrow> string \<Rightarrow> int \<Rightarrow> 'w \<Rightarrow> int \<times> 'w"
  audit_log_user_avc_message :: "int \<Rightarrow> int \<Rightarrow> string \<Rightarrow> string \<Rightarrow> string \<Rightarrow> string \<Rightarrow> 32 word \<Rightarrow> 'w \<Rightarrow> int \<times> 'w"
  audit_log_user_message :: "int \<Rightarrow> int \<Rightarrow> string \<Rightarrow> string \<Rightarrow> string \<Rightarrow> string \<Rightarrow> int \<Rightarrow> 'w \<Rightarrow> int \<times> 'w"
  audit_log_acct_message ::
    "int \<Rightarrow> int \<Rightarrow> string \<Rightarrow> string \<Rightarrow> string \<Rightarrow> 32 word \<Rightarrow> string \<Rightarrow> string \<Rightarrow> string \<Rightarrow> int \<Rightarrow> 'w \<Rightarrow> int \<times> 'w"
  audit_log_semanage_message ::
    "int \<Rightarrow> int \<Rightarrow> string \<Rightarrow> string \<Rightarrow> string \<Rightarrow> 32 word \<Rightarrow> string \<times> string \<times> string \<Rightarrow> string \<times> string \<times> string \<Rightarrow>
       string \<Rightarrow> string \<Rightarrow> string \<Rightarrow> int \<Rightarrow> 'w \<Rightarrow> int \<times> 'w"
  audit_log_user_command :: "int \<Rightarrow> int \<Rightarrow> string \<Rightarrow> string \<Rightarrow> int \<Rightarrow> 'w \<Rightarrow> int \<times> 'w"
  audit_rule_syscallbyname_data :: "64 word \<Rightarrow> string \<Rightarrow> 'w \<Rightarrow> int \<times> 'w"
  audit_rule_fieldpair_data :: "64 word \<Rightarrow> string \<Rightarrow> int \<Rightarrow> 'w \<Rightarrow> (int \<times> 64 word) \<times> 'w"
  audit_rule_interfield_comp_data :: "64 word \<Rightarrow> string \<Rightarrow> int \<Rightarrow> 'w \<Rightarrow> (int \<times> 64 word) \<times> 'w"
  audit_update_watch_perms :: "64 word \<Rightarrow> int \<Rightarrow> 'w \<Rightarrow> int \<times> 'w"
  audit_add_watch :: "64 word \<Rightarrow> string \<Rightarrow> 'w \<Rightarrow> (int \<times> 64 word) \<times> 'w"
  audit_add_watch_dir :: "int \<Rightarrow> 64 word \<Rightarrow> string \<Rightarrow> 'w \<Rightarrow> (int \<times> 64 word) \<times> 'w"
  audit_rule_free_data :: "64 word \<Rightarrow> 'w \<Rightarrow> 'w"
  audit_rule_create_data :: "'w \<Rightarrow> 64 word \<times> 'w"
  audit_rule_init_data :: "64 word \<Rightarrow> 'w \<Rightarrow> 'w"
  audit_get_features :: "'w \<Rightarrow> 32 word \<times> 'w"
  audit_setloginuid :: "32 word \<Rightarrow> 'w \<Rightarrow> int \<times> 'w"
  audit_getloginuid :: "'w \<Rightarrow> 32 word \<times> 'w"
  audit_can :: "string \<Rightarrow> 'w \<Rightarrow> int \<times> 'w"

definition METH_AUDIT_FD :: string where "METH_AUDIT_FD = ''meth_audit_fd''"
definition METH_AUDIT_RULE :: string where "METH_AUDIT_RULE = ''meth_audit_rule''"

text \<open>The descriptor is an \<open>int\<close> in the first word of the userdata.\<close>

definition set_afd :: "nat \<Rightarrow> int \<Rightarrow> ('v, 'w) st \<Rightarrow> ('v, 'w) st" where
  "set_afd b fd s = poke b 0 (word_of_int fd) s"

definition get_afd :: "('v, 'w) st \<Rightarrow> nat \<Rightarrow> int" where
  "get_afd s b = sint (mem s b 0)"

definition newafd :: "'v lua_api \<Rightarrow> ('v, 'w) st \<Rightarrow> nat \<times> ('v, 'w) st" where
  "newafd A s =
     (let (b, v) = lua_newuserdata A (vm s);
          s1 = set_afd b (- 1) (s\<lparr>vm := v\<rparr>)
      in (b, upd_vm (\<lambda>v. lua_setmetatable A (luaL_getmetatable A v METH_AUDIT_FD) (- 2)) s1))"

definition toafd :: "'v lua_api \<Rightarrow> int \<Rightarrow> ('v, 'w) st \<Rightarrow> string + nat" where
  "toafd A idx s = toudatap A METH_AUDIT_FD idx s"

definition tofd :: "'v lua_api \<Rightarrow> int \<Rightarrow> ('v, 'w) st \<Rightarrow> string + int" where
  "tofd A idx s = map_sum id (get_afd s) (toafd A idx s)"

definition torulp :: "'v lua_api \<Rightarrow> int \<Rightarrow> ('v, 'w) st \<Rightarrow> string + nat" where
  "torulp A idx s = toudatap A METH_AUDIT_RULE idx s"

definition torule :: "'v lua_api \<Rightarrow> int \<Rightarrow> ('v, 'w) st \<Rightarrow> string + 64 word" where
  "torule A idx s = toudata A METH_AUDIT_RULE idx s"

definition audit_push_error :: "'v lua_api \<Rightarrow> 'w auditapi \<Rightarrow> ('v, 'w) st \<Rightarrow> ('v, 'w) ret" where
  "audit_push_error A K s =
     Some (Inr 2, upd_vm (\<lambda>v. lua_pushstring A (lua_pushnil A v) (a_strerror K (a_errno K (os s)))) s)"

text \<open>\<open>int rc = call; lua_pushboolean(L, rc >= 0); return 1;\<close>\<close>

definition push_rc :: "'v lua_api \<Rightarrow> ('w \<Rightarrow> int \<times> 'w) \<Rightarrow> ('v, 'w) st \<Rightarrow> ('v, 'w) ret" where
  "push_rc A call s =
     (let (rc, s1) = call_os call s in Some (Inr 1, upd_vm (\<lambda>v. lua_pushboolean A v (rc \<ge> 0)) s1))"

section \<open>The audit descriptor\<close>

definition afd_enabled :: "'v lua_api \<Rightarrow> 'w auditapi \<Rightarrow> ('v, 'w) st \<Rightarrow> ('v, 'w) ret" where
  "afd_enabled A K s =
     arg (tofd A 1 s) s (\<lambda>auditfd.
       if lua_gettop A (vm s) = 2 then
         arg (luaL_checkinteger A (vm s) 2) s (\<lambda>enabled. push_rc A (audit_set_enabled K auditfd (c_uint enabled)) s)
       else
         (let (r, s1) = call_os (audit_is_enabled K auditfd) s
          in Some (Inr 1, upd_vm (\<lambda>v. lua_pushboolean A v (r \<noteq> 0)) s1)))"

definition afd_request_status :: "'v lua_api \<Rightarrow> 'w auditapi \<Rightarrow> ('v, 'w) st \<Rightarrow> ('v, 'w) ret" where
  "afd_request_status A K s =
     arg (tofd A 1 s) s (\<lambda>auditfd.
       let (r, s1) = call_os (audit_request_status K auditfd) s in Some (Inr 1, upd_vm (\<lambda>v. lua_pushinteger A v r) s1))"

definition afd_request_features :: "'v lua_api \<Rightarrow> 'w auditapi \<Rightarrow> ('v, 'w) st \<Rightarrow> ('v, 'w) ret" where
  "afd_request_features A K s =
     arg (tofd A 1 s) s (\<lambda>auditfd.
       let (r, s1) = call_os (audit_request_features K auditfd) s in Some (Inr 1, upd_vm (\<lambda>v. lua_pushinteger A v r) s1))"

definition afd_set_pid :: "'v lua_api \<Rightarrow> 'w auditapi \<Rightarrow> ('v, 'w) st \<Rightarrow> ('v, 'w) ret" where
  "afd_set_pid A K s =
     arg (tofd A 1 s) s (\<lambda>auditfd.
     arg (luaL_checkinteger A (vm s) 2) s (\<lambda>pid.
       push_rc A (audit_set_pid K auditfd (c_uint pid) (lua_toboolean A (vm s) 3)) s))"

definition afd_set_feature :: "'v lua_api \<Rightarrow> 'w auditapi \<Rightarrow> ('v, 'w) st \<Rightarrow> ('v, 'w) ret" where
  "afd_set_feature A K s =
     arg (tofd A 1 s) s (\<lambda>auditfd.
     arg (luaL_checkinteger A (vm s) 2) s (\<lambda>feature.
     arg (luaL_checkinteger A (vm s) 3) s (\<lambda>val.
     arg (luaL_checkinteger A (vm s) 4) s (\<lambda>lock.
       push_rc A (audit_set_feature K auditfd (c_uint feature) (c_uint val) (c_uint lock)) s))))"

definition AFD_SET_METHOD :: "string \<Rightarrow> 'v lua_api \<Rightarrow> 'w auditapi \<Rightarrow> ('v, 'w) st \<Rightarrow> ('v, 'w) ret" where
  "AFD_SET_METHOD name A K s =
     arg (tofd A 1 s) s (\<lambda>auditfd.
     arg (luaL_checkinteger A (vm s) 2) s (\<lambda>v. push_rc A (audit_set K name auditfd (c_uint v)) s))"

definition AFD_OP0_METHOD :: "string \<Rightarrow> 'v lua_api \<Rightarrow> 'w auditapi \<Rightarrow> ('v, 'w) st \<Rightarrow> ('v, 'w) ret" where
  "AFD_OP0_METHOD name A K s = arg (tofd A 1 s) s (\<lambda>auditfd. push_rc A (audit_op0 K name auditfd) s)"

definition afd_make_equivalent :: "'v lua_api \<Rightarrow> 'w auditapi \<Rightarrow> ('v, 'w) st \<Rightarrow> ('v, 'w) ret" where
  "afd_make_equivalent A K s =
     arg (tofd A 1 s) s (\<lambda>auditfd.
     arg (luaL_checkstring A (vm s) 2) s (\<lambda>mount_point.
     arg (luaL_checkstring A (vm s) 3) s (\<lambda>subtree.
       push_rc A (audit_make_equivalent K auditfd mount_point subtree) s)))"

definition AFD_RULE_OP :: "string \<Rightarrow> 'v lua_api \<Rightarrow> 'w auditapi \<Rightarrow> ('v, 'w) st \<Rightarrow> ('v, 'w) ret" where
  "AFD_RULE_OP name A K s =
     arg (tofd A 1 s) s (\<lambda>auditfd.
     arg (torule A 2 s) s (\<lambda>rule.
     arg (luaL_checkinteger A (vm s) 3) s (\<lambda>flags.
     arg (luaL_checkinteger A (vm s) 4) s (\<lambda>action.
       push_rc A (audit_rule_op K name auditfd rule (c_int flags) (c_int action)) s))))"

section \<open>Log messages\<close>

text \<open>\<open>GET_FIELD(L, 2, name, type)\<close>: push the field of the table argument and check its type.\<close>

definition get_string ::
  "'v lua_api \<Rightarrow> string \<Rightarrow> ('v, 'w) st \<Rightarrow> (string \<Rightarrow> ('v, 'w) st \<Rightarrow> ('v, 'w) ret) \<Rightarrow> ('v, 'w) ret" where
  "get_string A name s f =
     (let s1 = upd_vm (\<lambda>v. lua_getfield A v 2 name) s
      in arg (luaL_checkstring A (vm s1) (- 1)) s1 (\<lambda>x. f x s1))"

definition get_integer ::
  "'v lua_api \<Rightarrow> string \<Rightarrow> ('v, 'w) st \<Rightarrow> (int \<Rightarrow> ('v, 'w) st \<Rightarrow> ('v, 'w) ret) \<Rightarrow> ('v, 'w) ret" where
  "get_integer A name s f =
     (let s1 = upd_vm (\<lambda>v. lua_getfield A v 2 name) s
      in arg (luaL_checkinteger A (vm s1) (- 1)) s1 (\<lambda>x. f x s1))"

definition log_user_message :: "'v lua_api \<Rightarrow> 'w auditapi \<Rightarrow> ('v, 'w) st \<Rightarrow> ('v, 'w) ret" where
  "log_user_message A K s =
     arg (tofd A 1 s) s (\<lambda>auditfd.
     arg (luaL_checktype A (vm s) 2 LUA_TTABLE) s (\<lambda>_.
     get_integer A ''type'' s (\<lambda>type s.
     get_string A ''message'' s (\<lambda>message s.
     get_string A ''hostname'' s (\<lambda>hostname s.
     get_string A ''addr'' s (\<lambda>addr s.
     get_string A ''tty'' s (\<lambda>tty s.
       let s1 = upd_vm (\<lambda>v. lua_getfield A v 2 ''comm'') s
       in if lua_isstring A (vm s1) (- 1) then
            get_integer A ''result'' s1 (\<lambda>result s2.
              push_rc A (audit_log_user_comm_message K auditfd (c_int type) message
                (lua_tostring A (vm s1) (- 1)) hostname addr tty (c_int result)) s2)
          else
            (let s2 = upd_vm (\<lambda>v. lua_getfield A v 2 ''uid'') s1
             in if lua_isinteger A (vm s2) (- 1) then
                  push_rc A (audit_log_user_avc_message K auditfd (c_int type) message hostname addr tty
                    (c_uint (lua_tointeger A (vm s2) (- 1)))) s2
                else
                  get_integer A ''result'' s2 (\<lambda>result s3.
                    push_rc A (audit_log_user_message K auditfd (c_int type) message hostname addr tty (c_int result)) s3)))))))))"

definition log_acct_message :: "'v lua_api \<Rightarrow> 'w auditapi \<Rightarrow> ('v, 'w) st \<Rightarrow> ('v, 'w) ret" where
  "log_acct_message A K s =
     arg (tofd A 1 s) s (\<lambda>auditfd.
     arg (luaL_checktype A (vm s) 2 LUA_TTABLE) s (\<lambda>_.
     get_integer A ''type'' s (\<lambda>type s.
     get_integer A ''result'' s (\<lambda>result s.
     get_integer A ''id'' s (\<lambda>id s.
     get_string A ''pgname'' s (\<lambda>pgname s.
     get_string A ''op'' s (\<lambda>op s.
     get_string A ''name'' s (\<lambda>name s.
     get_string A ''host'' s (\<lambda>host s.
     get_string A ''addr'' s (\<lambda>addr s.
     get_string A ''tty'' s (\<lambda>tty s.
       push_rc A (audit_log_acct_message K auditfd (c_int type) pgname op name (c_uint id)
         host addr tty (c_int result)) s)))))))))))"

definition log_semanage_message :: "'v lua_api \<Rightarrow> 'w auditapi \<Rightarrow> ('v, 'w) st \<Rightarrow> ('v, 'w) ret" where
  "log_semanage_message A K s =
     arg (tofd A 1 s) s (\<lambda>auditfd.
     arg (luaL_checktype A (vm s) 2 LUA_TTABLE) s (\<lambda>_.
     get_integer A ''type'' s (\<lambda>type s.
     get_integer A ''result'' s (\<lambda>result s.
     get_integer A ''id'' s (\<lambda>id s.
     get_string A ''pgname'' s (\<lambda>pgname s.
     get_string A ''op'' s (\<lambda>op s.
     get_string A ''name'' s (\<lambda>name s.
     get_string A ''host'' s (\<lambda>host s.
     get_string A ''addr'' s (\<lambda>addr s.
     get_string A ''tty'' s (\<lambda>tty s.
     get_string A ''new_seuser'' s (\<lambda>new_seuser s.
     get_string A ''new_role'' s (\<lambda>new_role s.
     get_string A ''new_range'' s (\<lambda>new_range s.
     get_string A ''old_seuser'' s (\<lambda>old_seuser s.
     get_string A ''old_role'' s (\<lambda>old_role s.
     get_string A ''old_range'' s (\<lambda>old_range s.
       push_rc A (audit_log_semanage_message K auditfd (c_int type) pgname op name (c_uint id)
         (new_seuser, new_role, new_range) (old_seuser, old_role, old_range)
         host addr tty (c_int result)) s)))))))))))))))))"

definition log_user_command :: "'v lua_api \<Rightarrow> 'w auditapi \<Rightarrow> ('v, 'w) st \<Rightarrow> ('v, 'w) ret" where
  "log_user_command A K s =
     arg (tofd A 1 s) s (\<lambda>auditfd.
     arg (luaL_checktype A (vm s) 2 LUA_TTABLE) s (\<lambda>_.
     get_integer A ''type'' s (\<lambda>type s.
     get_integer A ''result'' s (\<lambda>result s.
     get_string A ''command'' s (\<lambda>command s.
     get_string A ''tty'' s (\<lambda>tty s.
       push_rc A (audit_log_user_command K auditfd (c_int type) command tty (c_int result)) s))))))"

definition auditfd_free :: "'v lua_api \<Rightarrow> 'w auditapi \<Rightarrow> ('v, 'w) st \<Rightarrow> ('v, 'w) ret" where
  "auditfd_free A K s =
     arg (toafd A 1 s) s (\<lambda>afd.
       Some (Inr 0,
         if get_afd s afd \<noteq> - 1 then set_afd afd (- 1) (s\<lparr>os := audit_close K (get_afd s afd) (os s)\<rparr>) else s))"

section \<open>Rules\<close>

definition rule_syscallbyname :: "'v lua_api \<Rightarrow> 'w auditapi \<Rightarrow> ('v, 'w) st \<Rightarrow> ('v, 'w) ret" where
  "rule_syscallbyname A K s =
     arg (torule A 1 s) s (\<lambda>rule.
     arg (luaL_checkstring A (vm s) 2) s (\<lambda>scall. push_rc A (audit_rule_syscallbyname_data K rule scall) s))"

text \<open>A call that gets the address of the rule pointer and may replace the rule.\<close>

definition rule_call :: "'v lua_api \<Rightarrow> nat \<Rightarrow> (64 word \<Rightarrow> 'w \<Rightarrow> (int \<times> 64 word) \<times> 'w) \<Rightarrow> ('v, 'w) st \<Rightarrow> ('v, 'w) ret" where
  "rule_call A rulp f s =
     (let ((rc, rule), s1) = call_os (f (mem s rulp 0)) s
      in Some (Inr 1, upd_vm (\<lambda>v. lua_pushboolean A v (rc \<ge> 0)) (poke rulp 0 rule s1)))"

definition rule_fieldpair :: "'v lua_api \<Rightarrow> 'w auditapi \<Rightarrow> ('v, 'w) st \<Rightarrow> ('v, 'w) ret" where
  "rule_fieldpair A K s =
     arg (torulp A 1 s) s (\<lambda>rulp.
     arg (luaL_checkstring A (vm s) 2) s (\<lambda>pair.
     arg (luaL_checkinteger A (vm s) 3) s (\<lambda>flags.
       rule_call A rulp (\<lambda>rule. audit_rule_fieldpair_data K rule pair (c_int flags)) s)))"

definition rule_interfield_comp :: "'v lua_api \<Rightarrow> 'w auditapi \<Rightarrow> ('v, 'w) st \<Rightarrow> ('v, 'w) ret" where
  "rule_interfield_comp A K s =
     arg (torulp A 1 s) s (\<lambda>rulp.
     arg (luaL_checkstring A (vm s) 2) s (\<lambda>pair.
     arg (luaL_checkinteger A (vm s) 3) s (\<lambda>flags.
       rule_call A rulp (\<lambda>rule. audit_rule_interfield_comp_data K rule pair (c_int flags)) s)))"

definition rule_update_watch_perms :: "'v lua_api \<Rightarrow> 'w auditapi \<Rightarrow> ('v, 'w) st \<Rightarrow> ('v, 'w) ret" where
  "rule_update_watch_perms A K s =
     arg (torule A 1 s) s (\<lambda>rule.
     arg (luaL_checkinteger A (vm s) 2) s (\<lambda>perms. push_rc A (audit_update_watch_perms K rule (c_int perms)) s))"

definition rule_add_watch :: "'v lua_api \<Rightarrow> 'w auditapi \<Rightarrow> ('v, 'w) st \<Rightarrow> ('v, 'w) ret" where
  "rule_add_watch A K s =
     arg (torulp A 1 s) s (\<lambda>rulp.
     arg (luaL_checkstring A (vm s) 2) s (\<lambda>path. rule_call A rulp (\<lambda>rule. audit_add_watch K rule path) s))"

definition rule_add_watch_dir :: "'v lua_api \<Rightarrow> 'w auditapi \<Rightarrow> ('v, 'w) st \<Rightarrow> ('v, 'w) ret" where
  "rule_add_watch_dir A K s =
     arg (torulp A 1 s) s (\<lambda>rulp.
     arg (luaL_checkstring A (vm s) 2) s (\<lambda>path.
     arg (luaL_checkinteger A (vm s) 3) s (\<lambda>type.
       rule_call A rulp (\<lambda>rule. audit_add_watch_dir K (c_int type) rule path) s)))"

definition rule_free :: "'v lua_api \<Rightarrow> 'w auditapi \<Rightarrow> ('v, 'w) st \<Rightarrow> ('v, 'w) ret" where
  "rule_free A K s =
     arg (torulp A 1 s) s (\<lambda>rulp.
       Some (Inr 0,
         if mem s rulp 0 \<noteq> 0 then poke rulp 0 0 (s\<lparr>os := audit_rule_free_data K (mem s rulp 0) (os s)\<rparr>) else s))"

section \<open>Library functions\<close>

definition l_open :: "'v lua_api \<Rightarrow> 'w auditapi \<Rightarrow> ('v, 'w) st \<Rightarrow> ('v, 'w) ret" where
  "l_open A K s =
     (let (afd, s1) = newafd A s;
          (fd, s2) = call_os (audit_open K) s1;
          s3 = set_afd afd fd s2
      in if fd = - 1 then audit_push_error A K s3 else Some (Inr 1, s3))"

definition l_rule_create :: "'v lua_api \<Rightarrow> 'w auditapi \<Rightarrow> ('v, 'w) st \<Rightarrow> ('v, 'w) ret" where
  "l_rule_create A K s =
     (let (rulp, s1) = newcptr A METH_AUDIT_RULE s;
          (rule, s2) = call_os (audit_rule_create_data K) s1;
          s3 = poke rulp 0 rule s2
      in if rule = 0 then
           Some (Inr 2, upd_vm (\<lambda>v. lua_pushstring A (lua_pushnil A v) ''failed to create audit rule data'') s3)
         else Some (Inr 1, s3\<lparr>os := audit_rule_init_data K rule (os s3)\<rparr>))"

definition l_features :: "'v lua_api \<Rightarrow> 'w auditapi \<Rightarrow> ('v, 'w) st \<Rightarrow> ('v, 'w) ret" where
  "l_features A K s =
     (let (features, s1) = call_os (audit_get_features K) s
      in Some (Inr 1, upd_vm (\<lambda>v. lua_pushinteger A v (uint features)) s1))"

definition l_loginuid :: "'v lua_api \<Rightarrow> 'w auditapi \<Rightarrow> ('v, 'w) st \<Rightarrow> ('v, 'w) ret" where
  "l_loginuid A K s =
     (if lua_gettop A (vm s) = 1 then
        arg (luaL_checkinteger A (vm s) 1) s (\<lambda>uid. push_rc A (audit_setloginuid K (c_uint uid)) s)
      else
        (let (uid, s1) = call_os (audit_getloginuid K) s
         in Some (Inr 1, upd_vm (\<lambda>v. lua_pushinteger A v (uint uid)) s1)))"

text \<open>\<open>can_control\<close>, \<open>can_write\<close> and \<open>can_read\<close>: the answer as a boolean.\<close>

definition push_can :: "string \<Rightarrow> 'v lua_api \<Rightarrow> 'w auditapi \<Rightarrow> ('v, 'w) st \<Rightarrow> ('v, 'w) ret" where
  "push_can name A K s =
     (let (r, s1) = call_os (audit_can K name) s in Some (Inr 1, upd_vm (\<lambda>v. lua_pushboolean A v (r \<noteq> 0)) s1))"

definition l_can_control :: "'v lua_api \<Rightarrow> 'w auditapi \<Rightarrow> ('v, 'w) st \<Rightarrow> ('v, 'w) ret" where
  "l_can_control A K = push_can ''control'' A K"

definition l_can_write :: "'v lua_api \<Rightarrow> 'w auditapi \<Rightarrow> ('v, 'w) st \<Rightarrow> ('v, 'w) ret" where
  "l_can_write A K = push_can ''write'' A K"

definition l_can_read :: "'v lua_api \<Rightarrow> 'w auditapi \<Rightarrow> ('v, 'w) st \<Rightarrow> ('v, 'w) ret" where
  "l_can_read A K = push_can ''read'' A K"

section \<open>Reading the fields of a message\<close>

text \<open>
  While the fields are read, the table stays the second argument, and nothing but the Lua stack
  changes. \<open>quits\<close>: a Lua error was raised before the library was called.
\<close>

definition quits :: "('v, 'w) st \<Rightarrow> ('v, 'w) ret \<Rightarrow> bool" where
  "quits s r \<longleftrightarrow> (\<exists>e s'. r = Some (Inl e, s') \<and> os s' = os s)"

context lua_fields
begin

definition reading :: "nat \<Rightarrow> ('v, 'w) st \<Rightarrow> ('v, 'w) st \<Rightarrow> bool" where
  "reading t s0 s \<longleftrightarrow> at (stk (vm s)) 2 = Some (LTab t) \<and> fget (vm s) = fget (vm s0) \<and> os s = os s0 \<and> mem s = mem s0"

lemma reading_getfield:
  assumes "reading t s0 s"
  shows "reading t s0 (upd_vm (\<lambda>v. lua_getfield A v 2 k) s)"
    "at (stk (lua_getfield A (vm s) 2 k)) (- 1) = Some (fget (vm s0) t k)"
proof -
  have at2: "at (stk (vm s)) 2 = Some (LTab t)" using assms by (simp add: reading_def)
  note push = getfield_law(1) [OF at2, of k]
  have "2 \<le> int (length (stk (vm s)))" using at2 by (auto simp: at_def split: if_splits)
  then show "reading t s0 (upd_vm (\<lambda>v. lua_getfield A v 2 k) s)"
    using assms push getfield_law(2) by (simp add: reading_def)
  show "at (stk (lua_getfield A (vm s) 2 k)) (- 1) = Some (fget (vm s0) t k)"
    using push assms by (simp add: reading_def)
qed

text \<open>\<open>calls c r\<close>: all fields were read and the library call \<open>c\<close> was made in the original world.\<close>

definition calls :: "nat \<Rightarrow> ('v, 'w) st \<Rightarrow> ('w \<Rightarrow> int \<times> 'w) \<Rightarrow> ('v, 'w) ret \<Rightarrow> bool" where
  "calls t s0 c r \<longleftrightarrow> (\<exists>s1. reading t s0 s1 \<and> r = push_rc A c s1)"

lemma callsI: "reading t s0 s1 \<Longrightarrow> calls t s0 c (push_rc A c s1)"
  by (auto simp: calls_def)

lemma get_string_calls:
  assumes "reading t s0 s" and "fget (vm s0) t k = LStr x" and "\<And>s1. reading t s0 s1 \<Longrightarrow> calls t s0 c (f x s1)"
  shows "calls t s0 c (get_string A k s f)"
  using reading_getfield [OF assms(1), of k] assms(2,3) checkstring_law(1)
  by (auto simp: get_string_def Let_def)

lemma get_integer_calls:
  assumes "reading t s0 s" and "fget (vm s0) t k = LNum x" and "\<And>s1. reading t s0 s1 \<Longrightarrow> calls t s0 c (f x s1)"
  shows "calls t s0 c (get_integer A k s f)"
  using reading_getfield [OF assms(1), of k] assms(2,3) checkinteger_law(1)
  by (auto simp: get_integer_def Let_def)

lemma calls_result:
  assumes "calls t s0 c r"
  shows "\<exists>s'. r = Some (Inr 1, s') \<and> os s' = snd (c (os s0)) \<and> last (stk (vm s')) = LBool (0 \<le> fst (c (os s0)))"
proof -
  obtain s1 where "reading t s0 s1" and r: "r = push_rc A c s1" using assms by (auto simp: calls_def)
  then have os: "os s1 = os s0" by (simp add: reading_def)
  obtain rc w where "c (os s0) = (rc, w)" by fastforce
  then show ?thesis using r os pushboolean_law(1) by (simp add: push_rc_def call_os_def)
qed

lemma get_string_quits:
  assumes "reading t s0 s" and "\<And>x s1. reading t s0 s1 \<Longrightarrow> fget (vm s0) t k \<noteq> LNil \<Longrightarrow> quits s0 (f x s1)"
  shows "quits s0 (get_string A k s f)"
proof -
  let ?s1 = "upd_vm (\<lambda>v. lua_getfield A v 2 k) s"
  note r = reading_getfield [OF assms(1), of k]
  show ?thesis
  proof (cases "luaL_checkstring A (vm ?s1) (- 1)")
    case (Inl e)
    then show ?thesis using r(1) by (auto simp: get_string_def quits_def reading_def Let_def)
  next
    case (Inr x)
    then have "fget (vm s0) t k \<noteq> LNil" using r(2) checkstring_law(2) [of "- 1" "vm ?s1"] by auto
    then show ?thesis using assms(2) [OF r(1)] Inr by (simp add: get_string_def Let_def)
  qed
qed

lemma get_integer_quits:
  assumes "reading t s0 s" and "\<And>x s1. reading t s0 s1 \<Longrightarrow> fget (vm s0) t k \<noteq> LNil \<Longrightarrow> quits s0 (f x s1)"
  shows "quits s0 (get_integer A k s f)"
proof -
  let ?s1 = "upd_vm (\<lambda>v. lua_getfield A v 2 k) s"
  note r = reading_getfield [OF assms(1), of k]
  show ?thesis
  proof (cases "luaL_checkinteger A (vm ?s1) (- 1)")
    case (Inl e)
    then show ?thesis using r(1) by (auto simp: get_integer_def quits_def reading_def Let_def)
  next
    case (Inr x)
    then have "fget (vm s0) t k \<noteq> LNil" using r(2) checkinteger_law(2) [of "- 1" "vm ?s1"] by auto
    then show ?thesis using assms(2) [OF r(1)] Inr by (simp add: get_integer_def Let_def)
  qed
qed

lemma message_start:
  assumes "stk (vm s) = [LUd u, LTab t]" and "meta (vm s) u = Some METH_AUDIT_FD"
  shows "reading t s s" "tofd A 1 s = Inr (get_afd s u)" "luaL_checktype A (vm s) 2 LUA_TTABLE = Inr ()"
proof -
  have "luaL_checkudata A (vm s) 1 METH_AUDIT_FD = Inr u" using assms checkudata_law by (simp add: at_def)
  then show "tofd A 1 s = Inr (get_afd s u)" by (simp add: tofd_def toafd_def toudatap_def)
  show "reading t s s" using assms(1) by (simp add: reading_def at_def)
  show "luaL_checktype A (vm s) 2 LUA_TTABLE = Inr ()" using assms(1) by (simp add: luaL_checktype_def type_law at_def)
qed

lemma log_semanage_missing:
  assumes "stk (vm s) = [LUd u, LTab t]" and "meta (vm s) u = Some METH_AUDIT_FD"
    and "k \<in> {''type'', ''result'', ''id'', ''pgname'', ''op'', ''name'', ''host'', ''addr'', ''tty'',
      ''new_seuser'', ''new_role'', ''new_range'', ''old_seuser'', ''old_role'', ''old_range''}" and "fget (vm s) t k = LNil"
  shows "quits s (log_semanage_message A K s)"
proof -
  note st = message_start [OF assms(1,2)]
  show ?thesis
    unfolding log_semanage_message_def
    by (simp only: st(2,3) arg_simps, (rule get_integer_quits get_string_quits, (rule st(1) | assumption))+)
      (use assms(3,4) in auto)
qed

lemma log_acct_missing:
  assumes "stk (vm s) = [LUd u, LTab t]" and "meta (vm s) u = Some METH_AUDIT_FD"
    and "k \<in> {''type'', ''result'', ''id'', ''pgname'', ''op'', ''name'', ''host'', ''addr'', ''tty''}" and "fget (vm s) t k = LNil"
  shows "quits s (log_acct_message A K s)"
proof -
  note st = message_start [OF assms(1,2)]
  show ?thesis
    unfolding log_acct_message_def
    by (simp only: st(2,3) arg_simps, (rule get_integer_quits get_string_quits, (rule st(1) | assumption))+)
      (use assms(3,4) in auto)
qed

lemma log_semanage_calls:
  assumes "stk (vm s) = [LUd u, LTab t]" and "meta (vm s) u = Some METH_AUDIT_FD"
    and "fget (vm s) t ''type'' = LNum ty" "fget (vm s) t ''result'' = LNum re" "fget (vm s) t ''id'' = LNum i"
      "fget (vm s) t ''pgname'' = LStr pg" "fget (vm s) t ''op'' = LStr oper" "fget (vm s) t ''name'' = LStr nm"
      "fget (vm s) t ''host'' = LStr ho" "fget (vm s) t ''addr'' = LStr ad" "fget (vm s) t ''tty'' = LStr tt"
      "fget (vm s) t ''new_seuser'' = LStr n1" "fget (vm s) t ''new_role'' = LStr n2" "fget (vm s) t ''new_range'' = LStr n3"
      "fget (vm s) t ''old_seuser'' = LStr o1" "fget (vm s) t ''old_role'' = LStr o2" "fget (vm s) t ''old_range'' = LStr o3"
  shows "calls t s (audit_log_semanage_message K (get_afd s u) (c_int ty) pg oper nm (c_uint i) (n1, n2, n3) (o1, o2, o3)
    ho ad tt (c_int re)) (log_semanage_message A K s)"
proof -
  note st = message_start [OF assms(1,2)]
  show ?thesis
    unfolding log_semanage_message_def
    by (simp only: st(2,3) arg_simps,
      (rule get_integer_calls get_string_calls, (rule st(1) | assumption), (rule assms(3-17)))+)
      (erule callsI)
qed

end

section \<open>A reference libaudit\<close>

text \<open>The world is the list of SELinux management messages that were logged (some of their fields).\<close>

definition ref_audit :: "string list list auditapi" where
  "ref_audit =
     \<lparr>a_errno = (\<lambda>w. 0), a_strerror = (\<lambda>x0. ''x''),
      audit_open = (\<lambda>w. (0, w)), audit_close = (\<lambda>fd w. w),
      audit_is_enabled = (\<lambda>x0 w. (0, w)), audit_set_enabled = (\<lambda>x0 x1 w. (0, w)),
      audit_request_status = (\<lambda>x0 w. (0, w)), audit_request_features = (\<lambda>x0 w. (0, w)),
      audit_set_pid = (\<lambda>x0 x1 x2 w. (0, w)), audit_set_feature = (\<lambda>x0 x1 x2 x3 w. (0, w)),
      audit_set = (\<lambda>x0 x1 x2 w. (0, w)), audit_op0 = (\<lambda>x0 x1 w. (0, w)),
      audit_make_equivalent = (\<lambda>x0 x1 x2 w. (0, w)),
      audit_rule_op = (\<lambda>x0 x1 x2 x3 x4 w. (0, w)),
      audit_log_user_comm_message = (\<lambda>x0 x1 x2 x3 x4 x5 x6 x7 w. (0, w)),
      audit_log_user_avc_message = (\<lambda>x0 x1 x2 x3 x4 x5 x6 w. (0, w)),
      audit_log_user_message = (\<lambda>x0 x1 x2 x3 x4 x5 x6 w. (0, w)),
      audit_log_acct_message = (\<lambda>x0 x1 x2 x3 x4 x5 x6 x7 x8 x9 w. (0, w)),
      audit_log_semanage_message = (\<lambda>fd ty pg oper nm i n old ho ad tt re w. (1, [pg, oper, nm, fst n, fst old] # w)),
      audit_log_user_command = (\<lambda>x0 x1 x2 x3 x4 w. (0, w)),
      audit_rule_syscallbyname_data = (\<lambda>x0 x1 w. (0, w)),
      audit_rule_fieldpair_data = (\<lambda>x0 x1 x2 w. ((0, 1), w)),
      audit_rule_interfield_comp_data = (\<lambda>x0 x1 x2 w. ((0, 1), w)),
      audit_update_watch_perms = (\<lambda>x0 x1 w. (0, w)),
      audit_add_watch = (\<lambda>x0 x1 w. ((0, 1), w)),
      audit_add_watch_dir = (\<lambda>x0 x1 x2 w. ((0, 1), w)), audit_rule_free_data = (\<lambda>x0 w. w),
      audit_rule_create_data = (\<lambda>w. (1, w)), audit_rule_init_data = (\<lambda>x0 w. w),
      audit_get_features = (\<lambda>w. (1, w)), audit_setloginuid = (\<lambda>x0 w. (0, w)),
      audit_getloginuid = (\<lambda>w. (1, w)), audit_can = (\<lambda>x0 w. (0, w))\<rparr>"

definition audit_fields :: "(string \<times> lval) list \<Rightarrow> string \<Rightarrow> lval" where
  "audit_fields fs k = (case map_of fs k of None \<Rightarrow> LNil | Some x \<Rightarrow> x)"

definition semanage_fields :: "(string \<times> lval) list" where
  "semanage_fields =
     [(''type'', LNum 1), (''result'', LNum 1), (''id'', LNum 0), (''pgname'', LStr ''semanage''), (''op'', LStr ''add''),
      (''name'', LStr ''bob''), (''host'', LStr ''h''), (''addr'', LStr ''a''), (''tty'', LStr ''t''),
      (''new_seuser'', LStr ''staff_u''), (''new_role'', LStr ''staff_r''), (''new_range'', LStr ''s0''),
      (''old_seuser'', LStr ''user_u''), (''old_role'', LStr ''user_r''), (''old_range'', LStr ''s0'')]"

definition audit_st :: "(string \<times> lval) list \<Rightarrow> (ref_vm, string list list) st" where
  "audit_st fs =
     \<lparr>vm = \<lparr>r_stk = [LUd 1, LTab 2], r_tab = (\<lambda>_ _. LNil), r_meta = (\<lambda>_. Some METH_AUDIT_FD), r_next = 9,
        r_fld = (\<lambda>_. audit_fields fs), r_upv = [], r_glob = (\<lambda>_. LNil)\<rparr>,
      mem = (\<lambda>_ _. 3), os = []\<rparr>"

section \<open>Properties\<close>

text \<open>
  A complete SELinux management record is logged as given: the library is called once, with the
  descriptor of the object and every field in its place (new and old user, role and range included),
  and the result tells whether it succeeded.
\<close>

theorem log_semanage_reports:
  assumes "lua_fields A stk tget meta fget"
    and "stk (vm s) = [LUd u, LTab t]" and "meta (vm s) u = Some METH_AUDIT_FD"
    and "fget (vm s) t ''type'' = LNum ty" "fget (vm s) t ''result'' = LNum re" "fget (vm s) t ''id'' = LNum i"
      "fget (vm s) t ''pgname'' = LStr pg" "fget (vm s) t ''op'' = LStr oper" "fget (vm s) t ''name'' = LStr nm"
      "fget (vm s) t ''host'' = LStr ho" "fget (vm s) t ''addr'' = LStr ad" "fget (vm s) t ''tty'' = LStr tt"
      "fget (vm s) t ''new_seuser'' = LStr n1" "fget (vm s) t ''new_role'' = LStr n2" "fget (vm s) t ''new_range'' = LStr n3"
      "fget (vm s) t ''old_seuser'' = LStr o1" "fget (vm s) t ''old_role'' = LStr o2" "fget (vm s) t ''old_range'' = LStr o3"
    and "call = audit_log_semanage_message K (get_afd s u) (c_int ty) pg oper nm (c_uint i)
      (n1, n2, n3) (o1, o2, o3) ho ad tt (c_int re) (os s)"
  shows "\<exists>s'. log_semanage_message A K s = Some (Inr 1, s') \<and> os s' = snd call \<and>
    last (stk (vm s')) = LBool (0 \<le> fst call)"
  unfolding assms(19)
  by (rule lua_fields.calls_result [OF assms(1)], rule lua_fields.log_semanage_calls [OF assms(1)]) (rule assms)+

theorem log_semanage_reports_witness:
  "\<exists>s'. log_semanage_message ref_lua ref_audit (audit_st semanage_fields) = Some (Inr 1, s') \<and>
    os s' = [[''semanage'', ''add'', ''bob'', ''staff_u'', ''user_u'']] \<and> last (r_stk (vm s')) = LBool True"
proof -
  have "\<exists>s'. log_semanage_message ref_lua ref_audit (audit_st semanage_fields) = Some (Inr 1, s') \<and>
      os s' = snd (1 :: int, [[''semanage'', ''add'', ''bob'', ''staff_u'', ''user_u'']]) \<and>
      last (r_stk (vm s')) = LBool (0 \<le> fst (1 :: int, [[''semanage'', ''add'', ''bob'', ''staff_u'', ''user_u'']]))"
    by (rule log_semanage_reports [OF rf.lua_fields_axioms])
      (simp_all add: audit_st_def audit_fields_def semanage_fields_def ref_audit_def)
  then show ?thesis by simp
qed

text \<open>
  An incomplete record is never logged: when any required field of an account or SELinux management
  message is missing, the call raises a Lua error and the library has not been called.
\<close>

theorem log_incomplete_rejected:
  assumes "lua_fields A stk tget meta fget"
    and "stk (vm s) = [LUd u, LTab t]" and "meta (vm s) u = Some METH_AUDIT_FD" and "fget (vm s) t k = LNil"
  shows "(k \<in> {''type'', ''result'', ''id'', ''pgname'', ''op'', ''name'', ''host'', ''addr'', ''tty''} \<longrightarrow>
      (\<exists>e s'. log_acct_message A K s = Some (Inl e, s') \<and> os s' = os s)) \<and>
    (k \<in> {''type'', ''result'', ''id'', ''pgname'', ''op'', ''name'', ''host'', ''addr'', ''tty'', ''new_seuser'',
       ''new_role'', ''new_range'', ''old_seuser'', ''old_role'', ''old_range''} \<longrightarrow>
      (\<exists>e s'. log_semanage_message A K s = Some (Inl e, s') \<and> os s' = os s))"
  using lua_fields.log_acct_missing [OF assms(1-3) _ assms(4), of K]
    lua_fields.log_semanage_missing [OF assms(1-3) _ assms(4), of K]
  unfolding quits_def by blast

theorem log_incomplete_rejected_witness:
  "\<exists>e s'. log_semanage_message ref_lua ref_audit (audit_st (butlast semanage_fields)) = Some (Inl e, s') \<and> os s' = []"
proof -
  let ?s = "audit_st (butlast semanage_fields)"
  have "r_stk (vm ?s) = [LUd 1, LTab 2]" "r_meta (vm ?s) 1 = Some METH_AUDIT_FD" "r_fld (vm ?s) 2 ''old_range'' = LNil" "os ?s = []"
    by (simp_all add: audit_st_def audit_fields_def semanage_fields_def)
  then show ?thesis
    using log_incomplete_rejected [OF rf.lua_fields_axioms, of ?s 1 2 "''old_range''" ref_audit] by simp
qed

end
