(* ===== verification/Lua_Dbus.thy ===== *)
theory Lua_Dbus
  imports Lua_Aux
begin

text \<open>
  The D-Bus binding (\<open>src/daemon/lua_dbus.c\<close>). The record \<open>dbusapi\<close> has the libdbus functions and constants.
  A handle is its address, 0 is NULL. \<open>'i\<close> is a \<open>DBusMessageIter\<close>; a call that moves an iterator returns it.
  \<open>dbus_message_iter_append_basic\<close> reads and \<open>dbus_message_iter_get_basic\<close> writes a variable whose type is that of
  the argument, hence two fields for each, for 32 bit values and for strings. A call with a \<open>DBusError\<close> argument returns its result and the error it set (name and message), if any.
  The getters and setters that \<open>DEF_MESSAGE_METH\<close> and its relatives name with \<open>##\<close> are one field with the
  name as argument. The notification data of a pending call is its address and the registry
  reference stored there. \<open>lua_pushlstring\<close> and \<open>luaL_checklstring\<close> are the functions on Lua strings without a
  length, since a string of the model has its length.
\<close>

type_synonym dbus_error = "(string \<times> string) option"

record ('i, 'w) dbus_msgapi =
  DBUS_TYPE_BOOLEAN :: int
  DBUS_TYPE_INT32 :: int
  DBUS_TYPE_UINT32 :: int
  DBUS_TYPE_STRING :: int
  DBUS_TYPE_OBJECT_PATH :: int
  DBUS_DISPATCH_DATA_REMAINS :: int
  DBUS_DISPATCH_COMPLETE :: int
  DBUS_DISPATCH_NEED_MEMORY :: int
  DBUS_NAME_FLAG_ALLOW_REPLACEMENT :: "32 word"
  DBUS_NAME_FLAG_REPLACE_EXISTING :: "32 word"
  DBUS_NAME_FLAG_DO_NOT_QUEUE :: "32 word"
  DBUS_REQUEST_NAME_REPLY_PRIMARY_OWNER :: int
  DBUS_REQUEST_NAME_REPLY_IN_QUEUE :: int
  DBUS_REQUEST_NAME_REPLY_EXISTS :: int
  DBUS_REQUEST_NAME_REPLY_ALREADY_OWNER :: int
  DBUS_RELEASE_NAME_REPLY_RELEASED :: int
  DBUS_RELEASE_NAME_REPLY_NON_EXISTENT :: int
  DBUS_RELEASE_NAME_REPLY_NOT_OWNER :: int
  DBUS_START_REPLY_SUCCESS :: "32 word"
  DBUS_START_REPLY_ALREADY_RUNNING :: "32 word"
  DBUS_BUS_SESSION :: "32 word"
  DBUS_BUS_SYSTEM :: "32 word"
  DBUS_BUS_STARTER :: "32 word"
  dbus_error_free :: "dbus_error \<Rightarrow> 'w \<Rightarrow> 'w"
  dbus_malloc :: "'w \<Rightarrow> 64 word \<times> 'w"
  dbus_free :: "64 word \<Rightarrow> 'w \<Rightarrow> 'w"
  dbus_message_unref :: "64 word \<Rightarrow> 'w \<Rightarrow> 'w"
  dbus_message_get_type :: "64 word \<Rightarrow> 'w \<Rightarrow> int"
  dbus_message_type_to_string :: "int \<Rightarrow> string"
  dbus_message_type_from_string :: "string \<Rightarrow> int"
  dbus_message_new :: "int \<Rightarrow> 'w \<Rightarrow> 64 word \<times> 'w"
  dbus_message_new_method_call :: "string \<Rightarrow> string \<Rightarrow> string \<Rightarrow> string \<Rightarrow> 'w \<Rightarrow> 64 word \<times> 'w"
  dbus_message_new_signal :: "string \<Rightarrow> string \<Rightarrow> string \<Rightarrow> 'w \<Rightarrow> 64 word \<times> 'w"
  dbus_message_new_method_return :: "64 word \<Rightarrow> 'w \<Rightarrow> 64 word \<times> 'w"
  dbus_message_new_error :: "64 word \<Rightarrow> string \<Rightarrow> string \<Rightarrow> 'w \<Rightarrow> 64 word \<times> 'w"
  dbus_message_iter_init_append :: "64 word \<Rightarrow> 'w \<Rightarrow> 'i \<times> 'w"
  dbus_append_word :: "'i \<Rightarrow> int \<Rightarrow> 32 word \<Rightarrow> 'w \<Rightarrow> (bool \<times> 'i) \<times> 'w"
  dbus_append_string :: "'i \<Rightarrow> int \<Rightarrow> string \<Rightarrow> 'w \<Rightarrow> (bool \<times> 'i) \<times> 'w"
  dbus_message_iter_init :: "64 word \<Rightarrow> 'w \<Rightarrow> bool \<times> 'i"
  dbus_message_iter_get_arg_type :: "'i \<Rightarrow> 'w \<Rightarrow> int"
  dbus_message_iter_get_word :: "'i \<Rightarrow> 'w \<Rightarrow> 32 word"
  dbus_message_iter_get_string :: "'i \<Rightarrow> 'w \<Rightarrow> string"
  dbus_message_iter_next :: "'i \<Rightarrow> 'w \<Rightarrow> bool \<times> 'i"
  dbus_message_is_method_call :: "64 word \<Rightarrow> string \<Rightarrow> string \<Rightarrow> 'w \<Rightarrow> bool"
  dbus_message_is_signal :: "64 word \<Rightarrow> string \<Rightarrow> string \<Rightarrow> 'w \<Rightarrow> bool"
  dbus_message_marshal :: "64 word \<Rightarrow> 'w \<Rightarrow> (bool \<times> 64 word \<times> string) \<times> 'w"
  dbus_message_demarshal :: "string \<Rightarrow> 'w \<Rightarrow> (64 word \<times> dbus_error) \<times> 'w"
  dbus_message_set :: "string \<Rightarrow> 64 word \<Rightarrow> string \<Rightarrow> 'w \<Rightarrow> bool \<times> 'w"
  dbus_message_get :: "string \<Rightarrow> 64 word \<Rightarrow> 'w \<Rightarrow> string option"
  dbus_message_set_uint :: "string \<Rightarrow> 64 word \<Rightarrow> 32 word \<Rightarrow> 'w \<Rightarrow> 'w"
  dbus_message_get_uint :: "string \<Rightarrow> 64 word \<Rightarrow> 'w \<Rightarrow> 32 word"
  dbus_message_set_bool :: "string \<Rightarrow> 64 word \<Rightarrow> bool \<Rightarrow> 'w \<Rightarrow> 'w"
  dbus_message_get_bool :: "string \<Rightarrow> 64 word \<Rightarrow> 'w \<Rightarrow> bool"
  dbus_message_is :: "string \<Rightarrow> 64 word \<Rightarrow> string \<Rightarrow> 'w \<Rightarrow> bool"

record ('i, 'w) dbusapi = "('i, 'w) dbus_msgapi" +
  dbus_pending_call_unref :: "64 word \<Rightarrow> 'w \<Rightarrow> 'w"
  dbus_pending_call_set_notify :: "64 word \<Rightarrow> 64 word \<times> int \<Rightarrow> 'w \<Rightarrow> bool \<times> 'w"
  dbus_pending_call_cancel :: "64 word \<Rightarrow> 'w \<Rightarrow> 'w"
  dbus_pending_call_get_completed :: "64 word \<Rightarrow> 'w \<Rightarrow> bool"
  dbus_pending_call_steal_reply :: "64 word \<Rightarrow> 'w \<Rightarrow> 64 word \<times> 'w"
  dbus_pending_call_block :: "64 word \<Rightarrow> 'w \<Rightarrow> 'w"
  dbus_connection_unref :: "64 word \<Rightarrow> 'w \<Rightarrow> 'w"
  dbus_connection_flush :: "64 word \<Rightarrow> 'w \<Rightarrow> 'w"
  dbus_connection_read_write_dispatch :: "64 word \<Rightarrow> int \<Rightarrow> 'w \<Rightarrow> bool \<times> 'w"
  dbus_connection_read_write :: "64 word \<Rightarrow> int \<Rightarrow> 'w \<Rightarrow> bool \<times> 'w"
  dbus_connection_borrow_message :: "64 word \<Rightarrow> 'w \<Rightarrow> 64 word \<times> 'w"
  dbus_connection_pop_message :: "64 word \<Rightarrow> 'w \<Rightarrow> 64 word \<times> 'w"
  dbus_connection_dispatch :: "64 word \<Rightarrow> 'w \<Rightarrow> int \<times> 'w"
  dbus_connection_get_dispatch_status :: "64 word \<Rightarrow> 'w \<Rightarrow> int \<times> 'w"
  dbus_connection_send :: "64 word \<Rightarrow> 64 word \<Rightarrow> 32 word \<Rightarrow> 'w \<Rightarrow> bool \<times> 'w"
  dbus_connection_send_with_reply :: "64 word \<Rightarrow> 64 word \<Rightarrow> int \<Rightarrow> 'w \<Rightarrow> (bool \<times> 64 word option) \<times> 'w"
  dbus_connection_send_with_reply_and_block :: "64 word \<Rightarrow> 64 word \<Rightarrow> int \<Rightarrow> 'w \<Rightarrow> (64 word \<times> dbus_error) \<times> 'w"
  dbus_connection_get_unix_user :: "64 word \<Rightarrow> 'w \<Rightarrow> (64 word) option"
  dbus_connection_get_unix_process_id :: "64 word \<Rightarrow> 'w \<Rightarrow> (64 word) option"
  dbus_connection_set_allow_anonymous :: "64 word \<Rightarrow> bool \<Rightarrow> 'w \<Rightarrow> 'w"
  dbus_connection_get_unix_fd :: "64 word \<Rightarrow> 'w \<Rightarrow> int option"
  dbus_connection_get_socket :: "64 word \<Rightarrow> 'w \<Rightarrow> int option"
  dbus_connection_open :: "string \<Rightarrow> 'w \<Rightarrow> (64 word \<times> dbus_error) \<times> 'w"
  dbus_connection_open_private :: "string \<Rightarrow> 'w \<Rightarrow> (64 word \<times> dbus_error) \<times> 'w"
  dbus_bus_register :: "64 word \<Rightarrow> 'w \<Rightarrow> dbus_error \<times> 'w"
  dbus_bus_get_unique_name :: "64 word \<Rightarrow> 'w \<Rightarrow> string option"
  dbus_bus_set_unique_name :: "64 word \<Rightarrow> string \<Rightarrow> 'w \<Rightarrow> bool \<times> 'w"
  dbus_bus_get_unix_user :: "64 word \<Rightarrow> string \<Rightarrow> 'w \<Rightarrow> (64 word \<times> dbus_error) \<times> 'w"
  dbus_bus_get_id :: "64 word \<Rightarrow> 'w \<Rightarrow> (string option \<times> dbus_error) \<times> 'w"
  dbus_bus_request_name :: "64 word \<Rightarrow> string \<Rightarrow> 32 word \<Rightarrow> 'w \<Rightarrow> (int \<times> dbus_error) \<times> 'w"
  dbus_bus_release_name :: "64 word \<Rightarrow> string \<Rightarrow> 'w \<Rightarrow> (int \<times> dbus_error) \<times> 'w"
  dbus_bus_name_has_owner :: "64 word \<Rightarrow> string \<Rightarrow> 'w \<Rightarrow> (bool \<times> dbus_error) \<times> 'w"
  dbus_bus_start_service_by_name :: "64 word \<Rightarrow> string \<Rightarrow> 32 word \<Rightarrow> 'w \<Rightarrow> (bool \<times> 32 word \<times> dbus_error) \<times> 'w"
  dbus_bus_add_match :: "64 word \<Rightarrow> string \<Rightarrow> 'w \<Rightarrow> dbus_error \<times> 'w"
  dbus_bus_remove_match :: "64 word \<Rightarrow> string \<Rightarrow> 'w \<Rightarrow> dbus_error \<times> 'w"
  dbus_bus_get :: "32 word \<Rightarrow> 'w \<Rightarrow> (64 word \<times> dbus_error) \<times> 'w"
  dbus_bus_get_private :: "32 word \<Rightarrow> 'w \<Rightarrow> (64 word \<times> dbus_error) \<times> 'w"
  dbus_get_version :: "int \<times> int \<times> int"
  dbus_try_get_local_machine_id :: "'w \<Rightarrow> (string option \<times> dbus_error) \<times> 'w"
  dbus_setenv :: "string \<Rightarrow> string \<Rightarrow> 'w \<Rightarrow> bool \<times> 'w"

definition METH_DBUS_CONNECTION :: string where "METH_DBUS_CONNECTION = ''meth_dbus_connection''"
definition METH_DBUS_MESSAGE :: string where "METH_DBUS_MESSAGE = ''meth_dbus_message''"
definition METH_DBUS_PENDING :: string where "METH_DBUS_PENDING = ''meth_dbus_pending''"

type_synonym ('v, 'i, 'w) dfun = "'v lua_api \<Rightarrow> ('i, 'w) dbusapi \<Rightarrow> ('v, 'w) st \<Rightarrow> ('v, 'w) ret"

definition dbus_result :: "'v lua_api \<Rightarrow> ('i, 'w) dbusapi \<Rightarrow> dbus_error \<Rightarrow> nat \<Rightarrow> ('v, 'w) st \<Rightarrow> ('v, 'w) ret" where
  "dbus_result A D error nres s =
     (case error of
        None \<Rightarrow> Some (Inr nres, do_os (dbus_error_free D error) s)
      | Some (name, message) \<Rightarrow>
          Some (Inr 2, do_os (dbus_error_free D error)
            (upd_vm (\<lambda>v. lua_pushstring A (lua_pushnil A v) (name @ '': '' @ message)) s)))"

text \<open>
  \<open>T **p = new(L); *p = call; if (*p == NULL) return 0; return 1;\<close> and the variant with an error.
\<close>

definition new_dbus :: "'v lua_api \<Rightarrow> string \<Rightarrow> ('w \<Rightarrow> 64 word \<times> 'w) \<Rightarrow> ('v, 'w) st \<Rightarrow> ('v, 'w) ret" where
  "new_dbus A metatable call s =
     (let (p, s1) = newcptr A metatable s;
          (h, s2) = call_os call s1;
          s3 = poke p 0 h s2
      in Some (Inr (if h = 0 then 0 else 1), s3))"

definition new_dbus_error ::
  "'v lua_api \<Rightarrow> ('i, 'w) dbusapi \<Rightarrow> string \<Rightarrow> ('w \<Rightarrow> (64 word \<times> dbus_error) \<times> 'w) \<Rightarrow> ('v, 'w) st \<Rightarrow> ('v, 'w) ret" where
  "new_dbus_error A D metatable call s =
     (let (p, s1) = newcptr A metatable s;
          ((h, error), s2) = call_os call s1
      in dbus_result A D error 1 (poke p 0 h s2))"

definition tomessage :: "'v lua_api \<Rightarrow> int \<Rightarrow> ('v, 'w) st \<Rightarrow> string + 64 word" where
  "tomessage A idx s = toudata A METH_DBUS_MESSAGE idx s"

definition topending :: "'v lua_api \<Rightarrow> int \<Rightarrow> ('v, 'w) st \<Rightarrow> string + 64 word" where
  "topending A idx s = toudata A METH_DBUS_PENDING idx s"

definition toconnection :: "'v lua_api \<Rightarrow> int \<Rightarrow> ('v, 'w) st \<Rightarrow> string + 64 word" where
  "toconnection A idx s = toudata A METH_DBUS_CONNECTION idx s"

section \<open>Messages\<close>

definition message_free :: "('v, 'i, 'w) dfun" where
  "message_free A D s = free_cptr A METH_DBUS_MESSAGE (dbus_message_unref D) s"

definition message_type :: "('v, 'i, 'w) dfun" where
  "message_type A D s =
     arg (tomessage A 1 s) s (\<lambda>m.
       let type = dbus_message_get_type D m (os s)
       in push_ret 1 (\<lambda>v. lua_pushstring A v (dbus_message_type_to_string D type)) s)"

definition message_new_method_return :: "('v, 'i, 'w) dfun" where
  "message_new_method_return A D s =
     arg (tomessage A 1 s) s (\<lambda>m. new_dbus A METH_DBUS_MESSAGE (dbus_message_new_method_return D m) s)"

definition message_new_error :: "('v, 'i, 'w) dfun" where
  "message_new_error A D s =
     arg (tomessage A 1 s) s (\<lambda>m.
     arg (luaL_checkstring A (vm s) 2) s (\<lambda>name.
     arg (luaL_checkstring A (vm s) 3) s (\<lambda>message.
       new_dbus A METH_DBUS_MESSAGE (dbus_message_new_error D m name message) s)))"

text \<open>
  One argument of \<open>message_append\<close>: the switch on its Lua type. The result says whether it was appended.
\<close>

definition append_basic ::
  "'v lua_api \<Rightarrow> ('i, 'w) dbusapi \<Rightarrow> 'v \<Rightarrow> int \<Rightarrow> 'i \<Rightarrow> 'w \<Rightarrow> (bool \<times> 'i) \<times> 'w" where
  "append_basic A D v idx args w =
     (case lua_type A v idx of
        LUA_TBOOLEAN \<Rightarrow> dbus_append_word D args (DBUS_TYPE_BOOLEAN D) (if lua_toboolean A v idx then 1 else 0) w
      | LUA_TNUMBER \<Rightarrow> dbus_append_word D args (DBUS_TYPE_INT32 D) (c_uint (lua_tointeger A v idx)) w
      | LUA_TSTRING \<Rightarrow> dbus_append_string D args (DBUS_TYPE_STRING D) (lua_tostring A v idx) w
      | _ \<Rightarrow> ((False, args), w))"

text \<open>The loop over the arguments \<open>idx \<le> top\<close>; the result says whether all of them were appended.\<close>

function append_loop ::
  "'v lua_api \<Rightarrow> ('i, 'w) dbusapi \<Rightarrow> 'v \<Rightarrow> int \<Rightarrow> int \<Rightarrow> 'i \<Rightarrow> 'w \<Rightarrow> bool \<times> 'w" where
  "append_loop A D v l idx args w =
     (if l < idx then (True, w)
      else
        (let ((r, args1), w1) = append_basic A D v idx args w
         in if \<not> r then (False, w1) else append_loop A D v l (idx + 1) args1 w1))"
  by auto
termination
  by (relation "measure (\<lambda>(A, D, v, l, idx, args, w). nat (l + 1 - idx))") auto

declare append_loop.simps [simp del]

definition message_append :: "('v, 'i, 'w) dfun" where
  "message_append A D s =
     arg (tomessage A 1 s) s (\<lambda>m.
       let l = lua_gettop A (vm s);
           (args, w) = dbus_message_iter_init_append D m (os s);
           (r, w1) = append_loop A D (vm s) l 2 args w;
           s1 = s\<lparr>os := w1\<rparr>
       in if \<not> r then Some (Inr 0, s1) else push_ret 1 (\<lambda>v. lua_settop A v 1) s1)"

text \<open>
  The value of one argument pushed by \<open>message_decode\<close>; \<open>None\<close> is the default case of the switch. The
  32 bits of an INT32 are read as a \<open>dbus_uint32_t\<close>.
\<close>

definition push_arg :: "'v lua_api \<Rightarrow> ('i, 'w) dbusapi \<Rightarrow> 'w \<Rightarrow> 'i \<Rightarrow> 'v \<Rightarrow> 'v option" where
  "push_arg A D w args v =
     (let type = dbus_message_iter_get_arg_type D args w
      in if type = DBUS_TYPE_BOOLEAN D then
           Some (lua_pushboolean A v (dbus_message_iter_get_word D args w \<noteq> 0))
         else if type = DBUS_TYPE_INT32 D \<or> type = DBUS_TYPE_UINT32 D then
           Some (lua_pushinteger A v (uint (dbus_message_iter_get_word D args w)))
         else if type = DBUS_TYPE_STRING D \<or> type = DBUS_TYPE_OBJECT_PATH D then
           Some (lua_pushstring A v (dbus_message_iter_get_string D args w))
         else None)"

partial_function (option) decode_loop ::
  "'v lua_api \<Rightarrow> ('i, 'w) dbusapi \<Rightarrow> 'w \<Rightarrow> 'i \<Rightarrow> 'v \<Rightarrow> (nat \<times> 'v) option" where
  "decode_loop A D w args v =
     (case push_arg A D w args v of
        None \<Rightarrow> Some (2, lua_pushinteger A (lua_pushnil A v) (dbus_message_iter_get_arg_type D args w))
      | Some v1 \<Rightarrow>
          (let v2 = lua_rawseti A v1 (- 2) (lua_objlen A v1 (- 2) + 1);
               (again, args1) = dbus_message_iter_next D args w
           in if again then decode_loop A D w args1 v2 else Some (1, v2)))"

declare decode_loop.simps [code]

definition message_decode :: "('v, 'i, 'w) dfun" where
  "message_decode A D s =
     arg (tomessage A 1 s) s (\<lambda>m.
       let (ok, args) = dbus_message_iter_init D m (os s)
       in if \<not> ok then Some (Inr 0, s)
          else do {
            (n, v) \<leftarrow> decode_loop A D (os s) args (lua_newtable A (vm s));
            Some (Inr n, s\<lparr>vm := v\<rparr>)
          })"

definition message_is_method_call_or_signal :: "bool \<Rightarrow> ('v, 'i, 'w) dfun" where
  "message_is_method_call_or_signal method_call A D s =
     arg (tomessage A 1 s) s (\<lambda>m.
     arg (luaL_checkstring A (vm s) 2) s (\<lambda>iface.
     arg (luaL_checkstring A (vm s) 3) s (\<lambda>name.
       let r = (if method_call then dbus_message_is_method_call D m iface name (os s)
                else dbus_message_is_signal D m iface name (os s))
       in push_ret 1 (\<lambda>v. lua_pushboolean A v r) s)))"

definition message_is_method_call :: "('v, 'i, 'w) dfun" where
  "message_is_method_call A D s = message_is_method_call_or_signal True A D s"

definition message_is_signal :: "('v, 'i, 'w) dfun" where
  "message_is_signal A D s = message_is_method_call_or_signal False A D s"

definition message_marshal :: "('v, 'i, 'w) dfun" where
  "message_marshal A D s =
     arg (tomessage A 1 s) s (\<lambda>m.
       let ((ok, p, bytes), s1) = call_os (dbus_message_marshal D m) s
       in if \<not> ok then Some (Inr 0, s1)
          else Some (Inr 1, do_os (dbus_free D p) (upd_vm (\<lambda>v. lua_pushstring A v bytes) s1)))"

definition DEF_MESSAGE_METH :: "string \<Rightarrow> ('v, 'i, 'w) dfun" where
  "DEF_MESSAGE_METH name A D s =
     arg (tomessage A 1 s) s (\<lambda>m.
       if lua_gettop A (vm s) \<ge> 2 then
         arg (luaL_checkstring A (vm s) 2) s (\<lambda>x.
           let (r, s1) = call_os (dbus_message_set D name m x) s in push_ret 1 (\<lambda>v. lua_pushboolean A v r) s1)
       else push_ret 1 (\<lambda>v. push_cstring A v (dbus_message_get D name m (os s))) s)"

text \<open>\<open>DEF_MESSAGE_METH_VOID(name, integer)\<close> and \<open>DEF_MESSAGE_METH_VOID(name, boolean)\<close>\<close>

definition DEF_MESSAGE_METH_VOID_integer :: "string \<Rightarrow> ('v, 'i, 'w) dfun" where
  "DEF_MESSAGE_METH_VOID_integer name A D s =
     arg (tomessage A 1 s) s (\<lambda>m.
       if lua_gettop A (vm s) \<ge> 2 then
         Some (Inr 0, do_os (dbus_message_set_uint D name m (c_uint (lua_tointeger A (vm s) 2))) s)
       else push_ret 1 (\<lambda>v. lua_pushinteger A v (uint (dbus_message_get_uint D name m (os s)))) s)"

definition DEF_MESSAGE_METH_VOID_boolean :: "string \<Rightarrow> ('v, 'i, 'w) dfun" where
  "DEF_MESSAGE_METH_VOID_boolean name A D s =
     arg (tomessage A 1 s) s (\<lambda>m.
       if lua_gettop A (vm s) \<ge> 2 then
         Some (Inr 0, do_os (dbus_message_set_bool D name m (lua_toboolean A (vm s) 2)) s)
       else push_ret 1 (\<lambda>v. lua_pushboolean A v (dbus_message_get_bool D name m (os s))) s)"

definition DEF_MESSAGE_METH_IS :: "string \<Rightarrow> ('v, 'i, 'w) dfun" where
  "DEF_MESSAGE_METH_IS name A D s =
     arg (tomessage A 1 s) s (\<lambda>m.
     arg (luaL_checkstring A (vm s) 2) s (\<lambda>x.
       push_ret 1 (\<lambda>v. lua_pushboolean A v (dbus_message_is D name m x (os s))) s))"

definition luadbus_message_new :: "('v, 'i, 'w) dfun" where
  "luadbus_message_new A D s =
     arg (luaL_checkstring A (vm s) 1) s (\<lambda>type.
       new_dbus A METH_DBUS_MESSAGE (dbus_message_new D (dbus_message_type_from_string D type)) s)"

definition luadbus_message_new_method_call :: "('v, 'i, 'w) dfun" where
  "luadbus_message_new_method_call A D s =
     arg (luaL_checkstring A (vm s) 1) s (\<lambda>bus_name.
     arg (luaL_checkstring A (vm s) 2) s (\<lambda>path.
     arg (luaL_checkstring A (vm s) 3) s (\<lambda>iface.
     arg (luaL_checkstring A (vm s) 4) s (\<lambda>meth.
       new_dbus A METH_DBUS_MESSAGE (dbus_message_new_method_call D bus_name path iface meth) s))))"

definition luadbus_message_new_signal :: "('v, 'i, 'w) dfun" where
  "luadbus_message_new_signal A D s =
     arg (luaL_checkstring A (vm s) 1) s (\<lambda>path.
     arg (luaL_checkstring A (vm s) 2) s (\<lambda>iface.
     arg (luaL_checkstring A (vm s) 3) s (\<lambda>name.
       new_dbus A METH_DBUS_MESSAGE (dbus_message_new_signal D path iface name) s)))"

definition luadbus_message_demarshal :: "('v, 'i, 'w) dfun" where
  "luadbus_message_demarshal A D s =
     arg (luaL_checkstring A (vm s) 1) s (\<lambda>x.
       new_dbus_error A D METH_DBUS_MESSAGE (dbus_message_demarshal D x) s)"

section \<open>Pending calls\<close>

definition pending_free :: "('v, 'i, 'w) dfun" where
  "pending_free A D s = free_cptr A METH_DBUS_PENDING (dbus_pending_call_unref D) s"

text \<open>
  The callback libdbus makes when the reply is there. \<open>lua_call\<close> runs Lua code and may do anything,
  so it is an argument.
\<close>

definition pending_call_notify ::
  "'v lua_api \<Rightarrow> (int \<Rightarrow> int \<Rightarrow> ('v, 'w) st \<Rightarrow> ('v, 'w) ret) \<Rightarrow> int \<Rightarrow> ('v, 'w) st \<Rightarrow> ('v, 'w) ret" where
  "pending_call_notify A lua_call ref s = do {
     (r, s1) \<leftarrow> lua_call 0 0 (upd_vm (\<lambda>v. lua_rawgeti A v LUA_REGISTRYINDEX ref) s);
     (case r of Inl e \<Rightarrow> Some (Inl e, s1) | Inr n \<Rightarrow> Some (Inr 0, upd_vm (\<lambda>v. luaL_unref A v ref) s1))
   }"

definition pending_set_notify :: "('v, 'i, 'w) dfun" where
  "pending_set_notify A D s =
     arg (topending A 1 s) s (\<lambda>pending.
       let (ud, s1) = call_os (dbus_malloc D) s
       in if ud = 0 then Some (Inr 0, s1)
          else
            (let (ref, v) = luaL_ref A (lua_pushvalue A (vm s1) 2);
                 (r, s2) = call_os (dbus_pending_call_set_notify D pending (ud, ref)) (s1\<lparr>vm := v\<rparr>)
             in push_ret 1 (\<lambda>v. lua_pushboolean A v r) s2))"

definition pending_cancel :: "('v, 'i, 'w) dfun" where
  "pending_cancel A D s =
     arg (topending A 1 s) s (\<lambda>pending. Some (Inr 0, do_os (dbus_pending_call_cancel D pending) s))"

definition pending_completed :: "('v, 'i, 'w) dfun" where
  "pending_completed A D s =
     arg (topending A 1 s) s (\<lambda>pending.
       push_ret 1 (\<lambda>v. lua_pushboolean A v (dbus_pending_call_get_completed D pending (os s))) s)"

definition pending_steal_reply :: "('v, 'i, 'w) dfun" where
  "pending_steal_reply A D s =
     arg (topending A 1 s) s (\<lambda>pending. new_dbus A METH_DBUS_MESSAGE (dbus_pending_call_steal_reply D pending) s)"

definition pending_block :: "('v, 'i, 'w) dfun" where
  "pending_block A D s =
     arg (topending A 1 s) s (\<lambda>pending. Some (Inr 0, do_os (dbus_pending_call_block D pending) s))"

section \<open>Connections\<close>

definition connection_free :: "('v, 'i, 'w) dfun" where
  "connection_free A D s = free_cptr A METH_DBUS_CONNECTION (dbus_connection_unref D) s"

definition connection_flush :: "('v, 'i, 'w) dfun" where
  "connection_flush A D s =
     arg (toconnection A 1 s) s (\<lambda>con. Some (Inr 0, do_os (dbus_connection_flush D con) s))"

definition connection_read_write_dispatch :: "('v, 'i, 'w) dfun" where
  "connection_read_write_dispatch A D s =
     arg (toconnection A 1 s) s (\<lambda>con.
     arg (luaL_optinteger A (vm s) 2 0) s (\<lambda>timeout.
       let (r, s1) = call_os (dbus_connection_read_write_dispatch D con (c_int timeout)) s
       in push_ret 1 (\<lambda>v. lua_pushboolean A v r) s1))"

definition connection_read_write :: "('v, 'i, 'w) dfun" where
  "connection_read_write A D s =
     arg (toconnection A 1 s) s (\<lambda>con.
     arg (luaL_optinteger A (vm s) 2 0) s (\<lambda>timeout.
       let (r, s1) = call_os (dbus_connection_read_write D con (c_int timeout)) s
       in push_ret 1 (\<lambda>v. lua_pushboolean A v r) s1))"

definition connection_borrow_message :: "('v, 'i, 'w) dfun" where
  "connection_borrow_message A D s =
     arg (toconnection A 1 s) s (\<lambda>con. new_dbus A METH_DBUS_MESSAGE (dbus_connection_borrow_message D con) s)"

definition connection_pop_message :: "('v, 'i, 'w) dfun" where
  "connection_pop_message A D s =
     arg (toconnection A 1 s) s (\<lambda>con. new_dbus A METH_DBUS_MESSAGE (dbus_connection_pop_message D con) s)"

definition connection_dispatch_common :: "bool \<Rightarrow> ('v, 'i, 'w) dfun" where
  "connection_dispatch_common dispatch A D s =
     arg (toconnection A 1 s) s (\<lambda>con.
       let (status, s1) = call_os (if dispatch then dbus_connection_dispatch D con
                                   else dbus_connection_get_dispatch_status D con) s;
           x = (if status = DBUS_DISPATCH_DATA_REMAINS D then ''data_remains''
                else if status = DBUS_DISPATCH_COMPLETE D then ''complete''
                else if status = DBUS_DISPATCH_NEED_MEMORY D then ''need_memory''
                else ''unknown'')
       in push_ret 1 (\<lambda>v. lua_pushstring A v x) s1)"

definition connection_dispatch_status :: "('v, 'i, 'w) dfun" where
  "connection_dispatch_status A D s = connection_dispatch_common False A D s"

definition connection_dispatch :: "('v, 'i, 'w) dfun" where
  "connection_dispatch A D s = connection_dispatch_common True A D s"

definition connection_send :: "('v, 'i, 'w) dfun" where
  "connection_send A D s =
     arg (toconnection A 1 s) s (\<lambda>con.
     arg (tomessage A 2 s) s (\<lambda>m.
     arg (if lua_gettop A (vm s) \<ge> 4
          then map_sum id (\<lambda>n. (c_uint n, lua_toboolean A (vm s) 4)) (luaL_checkinteger A (vm s) 3)
          else Inr (0, lua_toboolean A (vm s) 3)) s (\<lambda>(serial, flush).
       let (r, s1) = call_os (dbus_connection_send D con m serial) s;
           s2 = (if flush \<and> r then do_os (dbus_connection_flush D con) s1 else s1)
       in push_ret 1 (\<lambda>v. lua_pushboolean A v r) s2)))"

text \<open>
  \<open>dbus_connection_send_with_reply\<close> gets the address of the pointer in the userdata; \<open>None\<close> when it does not
  write there, so that it keeps the NULL of \<open>newcptr\<close>.
\<close>

definition connection_send_with_reply :: "('v, 'i, 'w) dfun" where
  "connection_send_with_reply A D s =
     arg (toconnection A 1 s) s (\<lambda>con.
     arg (tomessage A 2 s) s (\<lambda>m.
     arg (if lua_gettop A (vm s) \<ge> 4
          then map_sum id (\<lambda>n. (c_int n, lua_toboolean A (vm s) 4)) (luaL_checkinteger A (vm s) 3)
          else Inr (- 1, lua_toboolean A (vm s) 3)) s (\<lambda>(timeout, flush).
       let (p, s1) = newcptr A METH_DBUS_PENDING s;
           ((r, h), s2) = call_os (dbus_connection_send_with_reply D con m timeout) s1;
           s3 = (case h of None \<Rightarrow> s2 | Some h \<Rightarrow> poke p 0 h s2)
       in if \<not> r \<or> mem s3 p 0 = 0 then Some (Inr 0, s3)
          else Some (Inr 1, if flush then do_os (dbus_connection_flush D con) s3 else s3))))"

definition connection_send_with_reply_and_block :: "('v, 'i, 'w) dfun" where
  "connection_send_with_reply_and_block A D s =
     arg (toconnection A 1 s) s (\<lambda>con.
     arg (tomessage A 2 s) s (\<lambda>m.
     arg (luaL_optinteger A (vm s) 3 0) s (\<lambda>timeout.
       new_dbus_error A D METH_DBUS_MESSAGE
         (dbus_connection_send_with_reply_and_block D con m (c_int timeout)) s)))"

text \<open>\<open>unsigned long\<close> values are pushed as a \<open>lua_Integer\<close>.\<close>

definition connection_unix_user :: "('v, 'i, 'w) dfun" where
  "connection_unix_user A D s =
     arg (toconnection A 1 s) s (\<lambda>con.
       case dbus_connection_get_unix_user D con (os s) of
         Some uid \<Rightarrow> push_ret 1 (\<lambda>v. lua_pushinteger A v (sint uid)) s
       | None \<Rightarrow> Some (Inr 0, s))"

definition connection_unix_process_id :: "('v, 'i, 'w) dfun" where
  "connection_unix_process_id A D s =
     arg (toconnection A 1 s) s (\<lambda>con.
       case dbus_connection_get_unix_process_id D con (os s) of
         Some pid \<Rightarrow> push_ret 1 (\<lambda>v. lua_pushinteger A v (sint pid)) s
       | None \<Rightarrow> Some (Inr 0, s))"

definition connection_allow_anonymous :: "('v, 'i, 'w) dfun" where
  "connection_allow_anonymous A D s =
     arg (toconnection A 1 s) s (\<lambda>con.
       Some (Inr 0, do_os (dbus_connection_set_allow_anonymous D con (lua_toboolean A (vm s) 2)) s))"

definition connection_unix_fd :: "('v, 'i, 'w) dfun" where
  "connection_unix_fd A D s =
     arg (toconnection A 1 s) s (\<lambda>con.
       case dbus_connection_get_unix_fd D con (os s) of
         Some fd \<Rightarrow> push_ret 1 (\<lambda>v. lua_pushinteger A v fd) s
       | None \<Rightarrow> Some (Inr 0, s))"

definition connection_socket :: "('v, 'i, 'w) dfun" where
  "connection_socket A D s =
     arg (toconnection A 1 s) s (\<lambda>con.
       case dbus_connection_get_socket D con (os s) of
         Some fd \<Rightarrow> push_ret 1 (\<lambda>v. lua_pushinteger A v fd) s
       | None \<Rightarrow> Some (Inr 0, s))"

section \<open>The bus\<close>

definition bus_register :: "('v, 'i, 'w) dfun" where
  "bus_register A D s =
     arg (toconnection A 1 s) s (\<lambda>con.
       let (error, s1) = call_os (dbus_bus_register D con) s
       in dbus_result A D error 1 (upd_vm (\<lambda>v. lua_settop A v 1) s1))"

definition bus_unique_name :: "('v, 'i, 'w) dfun" where
  "bus_unique_name A D s =
     arg (toconnection A 1 s) s (\<lambda>con.
       if lua_gettop A (vm s) = 1 then push_ret 1 (\<lambda>v. push_cstring A v (dbus_bus_get_unique_name D con (os s))) s
       else
         arg (luaL_checkstring A (vm s) 2) s (\<lambda>name.
           let (r, s1) = call_os (dbus_bus_set_unique_name D con name) s in push_ret 1 (\<lambda>v. lua_pushboolean A v r) s1))"

definition bus_unix_user :: "('v, 'i, 'w) dfun" where
  "bus_unix_user A D s =
     arg (toconnection A 1 s) s (\<lambda>con.
     arg (luaL_checkstring A (vm s) 2) s (\<lambda>name.
       let ((uid, error), s1) = call_os (dbus_bus_get_unix_user D con name) s
       in dbus_result A D error 1 (if uid \<noteq> - 1 then upd_vm (\<lambda>v. lua_pushinteger A v (sint uid)) s1 else s1)))"

definition bus_id :: "('v, 'i, 'w) dfun" where
  "bus_id A D s =
     arg (toconnection A 1 s) s (\<lambda>con.
       let ((id, error), s1) = call_os (dbus_bus_get_id D con) s
       in dbus_result A D error 1 (case id of None \<Rightarrow> s1 | Some x \<Rightarrow> upd_vm (\<lambda>v. lua_pushstring A v x) s1))"

definition request_opts :: "('i, 'w) dbusapi \<Rightarrow> cflag_opt list" where
  "request_opts D =
     [(''allow'', DBUS_NAME_FLAG_ALLOW_REPLACEMENT D), (''replace'', DBUS_NAME_FLAG_REPLACE_EXISTING D),
      (''noqueue'', DBUS_NAME_FLAG_DO_NOT_QUEUE D)]"

definition bus_request_name :: "('v, 'i, 'w) dfun" where
  "bus_request_name A D s =
     arg (toconnection A 1 s) s (\<lambda>con.
     arg (luaL_checkstring A (vm s) 2) s (\<lambda>name. do {
       (flags, s1) \<leftarrow> tocflags A 3 (request_opts D) (DBUS_NAME_FLAG_REPLACE_EXISTING D) s;
       let ((r, error), s2) = call_os (dbus_bus_request_name D con name flags) s1;
       let x = (if r = DBUS_REQUEST_NAME_REPLY_PRIMARY_OWNER D then Some ''primary''
                else if r = DBUS_REQUEST_NAME_REPLY_IN_QUEUE D then Some ''inqueue''
                else if r = DBUS_REQUEST_NAME_REPLY_EXISTS D then Some ''exists''
                else if r = DBUS_REQUEST_NAME_REPLY_ALREADY_OWNER D then Some ''already''
                else None);
       dbus_result A D error 1 (upd_vm (\<lambda>v. push_cstring A v x) s2)
     }))"

definition bus_release_name :: "('v, 'i, 'w) dfun" where
  "bus_release_name A D s =
     arg (toconnection A 1 s) s (\<lambda>con.
     arg (luaL_checkstring A (vm s) 2) s (\<lambda>name.
       let ((r, error), s1) = call_os (dbus_bus_release_name D con name) s;
           x = (if r = DBUS_RELEASE_NAME_REPLY_RELEASED D then Some ''released''
                else if r = DBUS_RELEASE_NAME_REPLY_NON_EXISTENT D then Some ''noexist''
                else if r = DBUS_RELEASE_NAME_REPLY_NOT_OWNER D then Some ''notowner''
                else None)
       in dbus_result A D error 1 (upd_vm (\<lambda>v. push_cstring A v x) s1)))"

definition bus_name_has_owner :: "('v, 'i, 'w) dfun" where
  "bus_name_has_owner A D s =
     arg (toconnection A 1 s) s (\<lambda>con.
     arg (luaL_checkstring A (vm s) 2) s (\<lambda>name.
       let ((r, error), s1) = call_os (dbus_bus_name_has_owner D con name) s
       in dbus_result A D error 1 (upd_vm (\<lambda>v. lua_pushboolean A v r) s1)))"

definition bus_start_service_by_name :: "('v, 'i, 'w) dfun" where
  "bus_start_service_by_name A D s =
     arg (toconnection A 1 s) s (\<lambda>con.
     arg (luaL_checkstring A (vm s) 2) s (\<lambda>name.
     arg (luaL_optinteger A (vm s) 3 0) s (\<lambda>flags.
       let ((r, reply, error), s1) = call_os (dbus_bus_start_service_by_name D con name (c_uint flags)) s;
           x = (if reply = DBUS_START_REPLY_SUCCESS D then Some ''success''
                else if reply = DBUS_START_REPLY_ALREADY_RUNNING D then Some ''already''
                else None)
       in dbus_result A D error 2 (upd_vm (\<lambda>v. push_cstring A (lua_pushboolean A v r) x) s1))))"

definition bus_add_match :: "('v, 'i, 'w) dfun" where
  "bus_add_match A D s =
     arg (toconnection A 1 s) s (\<lambda>con.
     arg (luaL_checkstring A (vm s) 2) s (\<lambda>rule.
       let (error, s1) = call_os (dbus_bus_add_match D con rule) s
       in dbus_result A D error 1 (upd_vm (\<lambda>v. lua_pushboolean A v True) s1)))"

definition bus_remove_match :: "('v, 'i, 'w) dfun" where
  "bus_remove_match A D s =
     arg (toconnection A 1 s) s (\<lambda>con.
     arg (luaL_checkstring A (vm s) 2) s (\<lambda>rule.
       let (error, s1) = call_os (dbus_bus_remove_match D con rule) s
       in dbus_result A D error 1 (upd_vm (\<lambda>v. lua_pushboolean A v True) s1)))"

section \<open>Library functions\<close>

definition luadbus_connection_open_common :: "bool \<Rightarrow> ('v, 'i, 'w) dfun" where
  "luadbus_connection_open_common private A D s =
     arg (luaL_checkstring A (vm s) 1) s (\<lambda>address.
       new_dbus_error A D METH_DBUS_CONNECTION
         (if private then dbus_connection_open_private D address else dbus_connection_open D address) s)"

definition luadbus_connection_open :: "('v, 'i, 'w) dfun" where
  "luadbus_connection_open A D s = luadbus_connection_open_common False A D s"

definition luadbus_connection_open_private :: "('v, 'i, 'w) dfun" where
  "luadbus_connection_open_private A D s = luadbus_connection_open_common True A D s"

definition bus_opts :: "('i, 'w) dbusapi \<Rightarrow> cflag_opt list" where
  "bus_opts D =
     [(''session'', DBUS_BUS_SESSION D), (''system'', DBUS_BUS_SYSTEM D), (''starter'', DBUS_BUS_STARTER D)]"

definition luadbus_bus_get_common :: "bool \<Rightarrow> ('v, 'i, 'w) dfun" where
  "luadbus_bus_get_common private A D s = do {
     (type, s1) \<leftarrow> tocflags A 1 (bus_opts D) (DBUS_BUS_SESSION D) s;
     new_dbus_error A D METH_DBUS_CONNECTION
       (if private then dbus_bus_get_private D type else dbus_bus_get D type) s1
   }"

definition luadbus_bus_get :: "('v, 'i, 'w) dfun" where
  "luadbus_bus_get A D s = luadbus_bus_get_common False A D s"

definition luadbus_bus_get_private :: "('v, 'i, 'w) dfun" where
  "luadbus_bus_get_private A D s = luadbus_bus_get_common True A D s"

definition luadbus_version :: "('v, 'i, 'w) dfun" where
  "luadbus_version A D s =
     (let (major, minor, micro) = dbus_get_version D
      in push_ret 3 (\<lambda>v. lua_pushinteger A (lua_pushinteger A (lua_pushinteger A v major) minor) micro) s)"

definition luadbus_local_machine_id :: "('v, 'i, 'w) dfun" where
  "luadbus_local_machine_id A D s =
     (let ((lmid, error), s1) = call_os (dbus_try_get_local_machine_id D) s
      in dbus_result A D error 1 (upd_vm (\<lambda>v. push_cstring A v lmid) s1))"

definition luadbus_setenv :: "('v, 'i, 'w) dfun" where
  "luadbus_setenv A D s =
     arg (luaL_checkstring A (vm s) 1) s (\<lambda>var.
     arg (luaL_checkstring A (vm s) 2) s (\<lambda>val.
       let (r, s1) = call_os (dbus_setenv D var val) s in push_ret 1 (\<lambda>v. lua_pushboolean A v r) s1))"

section \<open>Arguments of messages\<close>

datatype dval = DWord "32 word" | DString string

text \<open>
  What libdbus documents of message iterators: \<open>args w m\<close> are the arguments of message \<open>m\<close> (type code and
  value), \<open>app it\<close> is the message an appending iterator writes to, \<open>rest it w\<close> are the arguments a reading
  iterator has still to visit. The type codes are different characters.
\<close>

locale dbus_args =
  fixes D :: "('i, 'w) dbusapi" and args :: "'w \<Rightarrow> 64 word \<Rightarrow> (int \<times> dval) list"
    and app :: "'i \<Rightarrow> 64 word" and rest :: "'i \<Rightarrow> 'w \<Rightarrow> (int \<times> dval) list"
  assumes init_append_law: "dbus_message_iter_init_append D m w = (it, w') \<Longrightarrow> app it = m \<and> args w' = args w"
    and append_word_law: "dbus_append_word D it ty x w = ((r, it'), w') \<Longrightarrow>
       app it' = app it \<and> (r \<longrightarrow> args w' = (args w)(app it := args w (app it) @ [(ty, DWord x)]))"
    and append_string_law: "dbus_append_string D it ty y w = ((r, it'), w') \<Longrightarrow>
       app it' = app it \<and> (r \<longrightarrow> args w' = (args w)(app it := args w (app it) @ [(ty, DString y)]))"
    and iter_init_law: "dbus_message_iter_init D m w = (ok, it) \<Longrightarrow>
       (ok \<longleftrightarrow> args w m \<noteq> []) \<and> (ok \<longrightarrow> rest it w = args w m)"
    and arg_type_law: "rest it w = (ty, a) # xs \<Longrightarrow> dbus_message_iter_get_arg_type D it w = ty"
    and get_word_law: "rest it w = (ty, DWord x) # xs \<Longrightarrow> dbus_message_iter_get_word D it w = x"
    and get_string_law: "rest it w = (ty, DString y) # xs \<Longrightarrow> dbus_message_iter_get_string D it w = y"
    and iter_next_law: "rest it w = p # xs \<Longrightarrow> dbus_message_iter_next D it w = (again, it') \<Longrightarrow>
       (again \<longleftrightarrow> xs \<noteq> []) \<and> (again \<longrightarrow> rest it' w = xs)"
    and type_codes: "distinct [DBUS_TYPE_BOOLEAN D, DBUS_TYPE_INT32 D, DBUS_TYPE_UINT32 D, DBUS_TYPE_STRING D,
       DBUS_TYPE_OBJECT_PATH D]"

text \<open>
  \<open>enc\<close> is the argument that a Lua value becomes, \<open>dec\<close> the Lua value an argument is read as, where the
  binding knows the type.
\<close>

fun enc :: "('i, 'w) dbusapi \<Rightarrow> lval \<Rightarrow> (int \<times> dval) option" where
  "enc D (LBool b) = Some (DBUS_TYPE_BOOLEAN D, DWord (if b then 1 else 0))"
| "enc D (LNum n) = Some (DBUS_TYPE_INT32 D, DWord (word_of_int n))"
| "enc D (LStr x) = Some (DBUS_TYPE_STRING D, DString x)"
| "enc D _ = None"

fun dec :: "('i, 'w) dbusapi \<Rightarrow> int \<times> dval \<Rightarrow> lval option" where
  "dec D (ty, DWord x) =
     (if ty = DBUS_TYPE_BOOLEAN D then Some (LBool (x \<noteq> 0))
      else if ty = DBUS_TYPE_INT32 D \<or> ty = DBUS_TYPE_UINT32 D then Some (LNum (uint x)) else None)"
| "dec D (ty, DString y) = (if ty = DBUS_TYPE_STRING D \<or> ty = DBUS_TYPE_OBJECT_PATH D then Some (LStr y) else None)"

text \<open>How a Lua value comes back: a number as the unsigned reading of its low 32 bits.\<close>

fun comes_back :: "lval \<Rightarrow> lval" where
  "comes_back (LNum n) = LNum (n mod 2 ^ 32)"
| "comes_back x = x"

lemma dec_enc:
  assumes "distinct [DBUS_TYPE_BOOLEAN D, DBUS_TYPE_INT32 D, DBUS_TYPE_UINT32 D, DBUS_TYPE_STRING D,
       DBUS_TYPE_OBJECT_PATH D]" and "enc D y = Some b"
  shows "dec D b = Some (comes_back y)"
  using assms by (cases y) (auto simp: uint_word_of_int)

lemma dec_nil: "dec D b \<noteq> Some LNil"
  by (cases "(D, b)" rule: dec.cases) auto

locale dbus_lua = lua_vm A stk tget meta + dbus_args D args app rest
  for A :: "'v lua_api" and stk tget meta and D :: "('i, 'w) dbusapi" and args app rest
begin

lemma tomessage_self:
  assumes "stk (vm s) = LUd u # ys" and "meta (vm s) u = Some METH_DBUS_MESSAGE"
  shows "tomessage A 1 s = Inr (mem s u 0)"
proof -
  have "luaL_checkudata A (vm s) 1 METH_DBUS_MESSAGE = Inr u" using assms by (intro checkudata_at) (simp_all add: at_def)
  then show ?thesis by (simp add: tomessage_def toudata_def toudatap_def)
qed

lemma append_basic_enc:
  assumes "at (stk v) idx = Some y" and "append_basic A D v idx it w = ((True, it'), w')"
  shows "\<exists>b. enc D y = Some b \<and> app it' = app it \<and> args w' = (args w)(app it := args w (app it) @ [b])"
proof (cases y)
  case (LBool b)
  moreover have "lua_toboolean A v idx \<longleftrightarrow> b" using assms(1) LBool by (simp add: toboolean_at)
  ultimately show ?thesis
    using assms append_word_law by (fastforce simp: append_basic_def type_at)
next
  case (LNum n)
  then show ?thesis
    using assms append_word_law tointeger_law by (fastforce simp: append_basic_def type_at c_uint_def)
next
  case (LStr x)
  then show ?thesis
    using assms append_string_law tostring_law by (fastforce simp: append_basic_def type_at)
qed (use assms in \<open>simp_all add: append_basic_def type_at\<close>)

lemma append_loop_enc:
  assumes "append_loop A D v (int (length xs + length ys)) (int (length xs) + 1) it w = (True, w')"
    and "stk v = xs @ ys"
  shows "\<exists>bs. map (enc D) ys = map Some bs \<and> args w' = (args w)(app it := args w (app it) @ bs)"
  using assms
proof (induction ys arbitrary: xs it w)
  case Nil
  then show ?case by (intro exI [of _ "[]"]) (auto simp: append_loop.simps)
next
  case (Cons y ys)
  let ?i = "int (length xs) + 1"
  obtain r it1 w1 where b: "append_basic A D v ?i it w = ((r, it1), w1)" by (metis prod.collapse)
  have at: "at (stk v) ?i = Some y" using Cons.prems(2) by (simp add: at_def nth_append)
  have r: "r" using Cons.prems(1) b by (subst (asm) append_loop.simps) (simp split: if_splits)
  have tail: "append_loop A D v (int (length (xs @ [y]) + length ys)) (int (length (xs @ [y])) + 1) it1 w1 = (True, w')"
    using Cons.prems(1) b r by (subst (asm) append_loop.simps) (simp add: ac_simps)
  have st: "stk v = (xs @ [y]) @ ys" using Cons.prems(2) by simp
  obtain e where e: "enc D y = Some e" "app it1 = app it" "args w1 = (args w)(app it := args w (app it) @ [e])"
    using append_basic_enc [OF at, of it w it1 w1] b r by auto
  obtain bs where "map (enc D) ys = map Some bs" "args w' = (args w1)(app it1 := args w1 (app it1) @ bs)"
    using Cons.IH [OF tail] st by blast
  then show ?case using e by (intro exI [of _ "e # bs"]) simp
qed

lemma message_append_enc:
  assumes "stk (vm s) = LUd u # ys" and "meta (vm s) u = Some METH_DBUS_MESSAGE"
    and "message_append A D s = Some (Inr 1, s')"
  shows "\<exists>bs. map (enc D) ys = map Some bs \<and> mem s' = mem s \<and> stk (vm s') = [LUd u] \<and> meta (vm s') = meta (vm s) \<and>
    args (os s') = (args (os s))(mem s u 0 := args (os s) (mem s u 0) @ bs)"
proof -
  let ?m = "mem s u 0"
  have m: "tomessage A 1 s = Inr ?m" using tomessage_self [OF assms(1,2)] .
  obtain it w where i: "dbus_message_iter_init_append D ?m (os s) = (it, w)" by fastforce
  obtain r w1 where l: "append_loop A D (vm s) (int (length [LUd u] + length ys)) (int (length [LUd u]) + 1) it w = (r, w1)"
    by fastforce
  have r: "r" and s': "s' = s\<lparr>vm := lua_settop A (vm s) 1, os := w1\<rparr>"
    using assms(3) l by (auto simp: message_append_def m i gettop_law assms(1) push_ret_def upd_vm_def Let_def split: if_splits)
  obtain bs where "map (enc D) ys = map Some bs" "args w1 = (args w)(app it := args w (app it) @ bs)"
    using append_loop_enc [of "vm s" "[LUd u]" ys it w w1] l r assms(1) by auto
  then show ?thesis using init_append_law [OF i] s' assms(1) by (auto simp: settop_law settop_def)
qed

lemma push_arg_dec:
  assumes "rest it w = b # bs" and "dec D b = Some y"
  shows "\<exists>v'. push_arg A D w it v = Some v' \<and> stk v' = stk v @ [y] \<and> tget v' = tget v \<and> meta v' = meta v"
proof (cases "(D, b)" rule: dec.cases)
  case (1 _ ty x)
  then show ?thesis
    using assms arg_type_law [of it w ty] get_word_law [of it w ty] pushboolean_law pushinteger_law
    by (auto simp: push_arg_def split: if_splits)
next
  case (2 _ ty x)
  then show ?thesis
    using assms arg_type_law [of it w ty] get_string_law [of it w ty] pushstring_law type_codes
    by (auto simp: push_arg_def split: if_splits)
qed

lemma decode_loop_dec:
  assumes "rest it w = bs" and "bs \<noteq> []" and "map (dec D) bs = map Some ys" and "stk v = xs @ [LTab t]"
    and "\<And>k. 1 \<le> k \<Longrightarrow> tget v t k \<noteq> LNil \<longleftrightarrow> k \<le> n" and "0 \<le> n"
  shows "\<exists>v'. decode_loop A D w it v = Some (1, v') \<and> stk v' = xs @ [LTab t] \<and> meta v' = meta v \<and>
    (\<forall>k. tget v' t k = (if n < k \<and> k \<le> n + int (length ys) then ys ! nat (k - n - 1) else tget v t k))"
  using assms
proof (induction bs arbitrary: it v n ys)
  case (Cons b bs)
  obtain y zs where ys: "ys = y # zs" and y: "dec D b = Some y" and zs: "map (dec D) bs = map Some zs"
    using Cons.prems(3) by (auto simp: Cons_eq_map_conv)
  obtain v1 where v1: "push_arg A D w it v = Some v1" "stk v1 = xs @ [LTab t, y]" "tget v1 = tget v" "meta v1 = meta v"
    using push_arg_dec [OF Cons.prems(1) y, of v] Cons.prems(4) by auto
  have t: "at (stk v1) (- 2) = Some (LTab t)" using v1 by simp
  have len: "lua_objlen A v1 (- 2) = n" using objlen_law [OF t Cons.prems(6)] v1 Cons.prems(5) by simp
  define v2 where "v2 = lua_rawseti A v1 (- 2) (n + 1)"
  have v2: "stk v2 = xs @ [LTab t]" "tget v2 t = (tget v t)(n + 1 := y)" "meta v2 = meta v"
    using rawseti_law(1) [OF t, of "xs @ [LTab t]" y] rawseti_law(2) v1 by (auto simp: v2_def)
  obtain again it1 where nx: "dbus_message_iter_next D it w = (again, it1)" by fastforce
  have again: "again \<longleftrightarrow> bs \<noteq> []" "again \<Longrightarrow> rest it1 w = bs" using iter_next_law [OF Cons.prems(1) nx] by auto
  have step: "decode_loop A D w it v = (if again then decode_loop A D w it1 v2 else Some (1, v2))"
    by (subst decode_loop.simps) (simp add: v1(1) len nx v2_def)
  show ?case
  proof (cases "bs = []")
    case True
    then show ?thesis using step again zs v2 by (auto simp: ys)
  next
    case False
    have "tget v2 t k \<noteq> LNil \<longleftrightarrow> k \<le> n + 1" if "1 \<le> k" for k
      using that v2(2) Cons.prems(5) [OF that] y dec_nil [of D b] by auto
    then obtain v' where "decode_loop A D w it1 v2 = Some (1, v')" "stk v' = xs @ [LTab t]" "meta v' = meta v2"
      "\<forall>k. tget v' t k = (if n + 1 < k \<and> k \<le> n + 1 + int (length zs) then zs ! nat (k - (n + 1) - 1) else tget v2 t k)"
      using Cons.IH [OF again(2) False zs v2(1), of "n + 1"] again(1) False Cons.prems(6) by auto
    moreover have "(y # zs) ! nat (k - n - 1) = zs ! nat (k - (n + 1) - 1)" if "n + 1 < k" for k
    proof -
      have "nat (k - n - 1) = Suc (nat (k - (n + 1) - 1))" using that by simp
      then show ?thesis by simp
    qed
    ultimately show ?thesis using step again(1) False v2 by (auto simp: ys)
  qed
qed simp

lemma message_decode_dec:
  assumes "stk (vm s) = [LUd u]" and "meta (vm s) u = Some METH_DBUS_MESSAGE"
    and "map (dec D) (args (os s) (mem s u 0)) = map Some ys" and "ys \<noteq> []"
  shows "\<exists>t s'. message_decode A D s = Some (Inr 1, s') \<and> os s' = os s \<and> stk (vm s') = [LUd u, LTab t] \<and>
    (\<forall>k. tget (vm s') t k = (if 1 \<le> k \<and> k \<le> int (length ys) then ys ! nat (k - 1) else LNil))"
proof -
  let ?m = "mem s u 0"
  have m: "tomessage A 1 s = Inr ?m" using tomessage_self [OF assms(1,2)] .
  obtain ok it where i: "dbus_message_iter_init D ?m (os s) = (ok, it)" by fastforce
  have ne: "args (os s) ?m \<noteq> []" using assms(3,4) by auto
  then have it: "ok" "rest it (os s) = args (os s) ?m" using iter_init_law [OF i] by auto
  obtain t where t: "stk (lua_newtable A (vm s)) = [LUd u] @ [LTab t]"
    "tget (lua_newtable A (vm s)) = (tget (vm s))(t := (\<lambda>_. LNil))"
    using newtable_law(1) [of "vm s"] assms(1) by auto
  obtain v' where "decode_loop A D (os s) it (lua_newtable A (vm s)) = Some (1, v')" "stk v' = [LUd u] @ [LTab t]"
    "\<forall>k. tget v' t k = (if 0 < k \<and> k \<le> 0 + int (length ys) then ys ! nat (k - 0 - 1) else LNil)"
    using decode_loop_dec [OF it(2) ne assms(3) t(1), of 0] t(2) by auto
  then show ?thesis using m i it(1) by (auto simp: message_decode_def)
qed

end

text \<open>
  A reference library: the state maps a message to its arguments, an iterator is a message and a
  position. Calls that do not concern arguments succeed and change nothing.
\<close>

type_synonym dworld = "64 word \<Rightarrow> (int \<times> dval) list"

definition ref_dbus :: "(64 word \<times> nat, dworld) dbusapi" where
  "ref_dbus =
     \<lparr>DBUS_TYPE_BOOLEAN = 98, DBUS_TYPE_INT32 = 105, DBUS_TYPE_UINT32 = 117,
      DBUS_TYPE_STRING = 115, DBUS_TYPE_OBJECT_PATH = 111, DBUS_DISPATCH_DATA_REMAINS = 1,
      DBUS_DISPATCH_COMPLETE = 2, DBUS_DISPATCH_NEED_MEMORY = 3, DBUS_NAME_FLAG_ALLOW_REPLACEMENT = 4,
      DBUS_NAME_FLAG_REPLACE_EXISTING = 5, DBUS_NAME_FLAG_DO_NOT_QUEUE = 6,
      DBUS_REQUEST_NAME_REPLY_PRIMARY_OWNER = 7, DBUS_REQUEST_NAME_REPLY_IN_QUEUE = 8,
      DBUS_REQUEST_NAME_REPLY_EXISTS = 9, DBUS_REQUEST_NAME_REPLY_ALREADY_OWNER = 10,
      DBUS_RELEASE_NAME_REPLY_RELEASED = 11, DBUS_RELEASE_NAME_REPLY_NON_EXISTENT = 12,
      DBUS_RELEASE_NAME_REPLY_NOT_OWNER = 13, DBUS_START_REPLY_SUCCESS = 14,
      DBUS_START_REPLY_ALREADY_RUNNING = 15, DBUS_BUS_SESSION = 16, DBUS_BUS_SYSTEM = 17,
      DBUS_BUS_STARTER = 18, dbus_error_free = (\<lambda>_ w. w), dbus_malloc = (\<lambda>w. (1, w)),
      dbus_free = (\<lambda>_ w. w), dbus_message_unref = (\<lambda>_ w. w),
      dbus_message_get_type = (\<lambda>_ _. 1), dbus_message_type_to_string = (\<lambda>_. []),
      dbus_message_type_from_string = (\<lambda>_. 1), dbus_message_new = (\<lambda>_ w. (1, w)),
      dbus_message_new_method_call = (\<lambda>_ _ _ _ w. (1, w)),
      dbus_message_new_signal = (\<lambda>_ _ _ w. (1, w)),
      dbus_message_new_method_return = (\<lambda>_ w. (1, w)),
      dbus_message_new_error = (\<lambda>_ _ _ w. (1, w)),
      dbus_message_iter_init_append = (\<lambda>m w. ((m, 0), w)),
      dbus_append_word = (\<lambda>it ty x w. ((True, it), w(fst it := w (fst it) @ [(ty, DWord x)]))),
      dbus_append_string = (\<lambda>it ty y w. ((True, it), w(fst it := w (fst it) @ [(ty, DString y)]))),
      dbus_message_iter_init = (\<lambda>m w. (w m \<noteq> [], (m, 0))),
      dbus_message_iter_get_arg_type = (\<lambda>it w. case drop (snd it) (w (fst it)) of (ty, x) # _ \<Rightarrow> ty | [] \<Rightarrow> 0),
      dbus_message_iter_get_word = (\<lambda>it w. case drop (snd it) (w (fst it)) of (ty, DWord x) # _ \<Rightarrow> x | _ \<Rightarrow> 0),
      dbus_message_iter_get_string = (\<lambda>it w. case drop (snd it) (w (fst it)) of (ty, DString y) # _ \<Rightarrow> y | _ \<Rightarrow> []),
      dbus_message_iter_next = (\<lambda>it w. (Suc (snd it) < length (w (fst it)), (fst it, Suc (snd it)))),
      dbus_message_is_method_call = (\<lambda>_ _ _ _. True),
      dbus_message_is_signal = (\<lambda>_ _ _ _. True),
      dbus_message_marshal = (\<lambda>_ w. ((True, 1, []), w)),
      dbus_message_demarshal = (\<lambda>_ w. ((1, None), w)),
      dbus_message_set = (\<lambda>_ _ _ w. (True, w)), dbus_message_get = (\<lambda>_ _ _. None),
      dbus_message_set_uint = (\<lambda>_ _ _ w. w), dbus_message_get_uint = (\<lambda>_ _ _. 1),
      dbus_message_set_bool = (\<lambda>_ _ _ w. w), dbus_message_get_bool = (\<lambda>_ _ _. True),
      dbus_message_is = (\<lambda>_ _ _ _. True), dbus_pending_call_unref = (\<lambda>_ w. w),
      dbus_pending_call_set_notify = (\<lambda>_ _ w. (True, w)),
      dbus_pending_call_cancel = (\<lambda>_ w. w),
      dbus_pending_call_get_completed = (\<lambda>_ _. True),
      dbus_pending_call_steal_reply = (\<lambda>_ w. (1, w)),
      dbus_pending_call_block = (\<lambda>_ w. w), dbus_connection_unref = (\<lambda>_ w. w),
      dbus_connection_flush = (\<lambda>_ w. w),
      dbus_connection_read_write_dispatch = (\<lambda>_ _ w. (True, w)),
      dbus_connection_read_write = (\<lambda>_ _ w. (True, w)),
      dbus_connection_borrow_message = (\<lambda>_ w. (1, w)),
      dbus_connection_pop_message = (\<lambda>_ w. (1, w)),
      dbus_connection_dispatch = (\<lambda>_ w. (1, w)),
      dbus_connection_get_dispatch_status = (\<lambda>_ w. (1, w)),
      dbus_connection_send = (\<lambda>_ _ _ w. (True, w)),
      dbus_connection_send_with_reply = (\<lambda>_ _ _ w. ((True, None), w)),
      dbus_connection_send_with_reply_and_block = (\<lambda>_ _ _ w. ((1, None), w)),
      dbus_connection_get_unix_user = (\<lambda>_ _. None),
      dbus_connection_get_unix_process_id = (\<lambda>_ _. None),
      dbus_connection_set_allow_anonymous = (\<lambda>_ _ w. w),
      dbus_connection_get_unix_fd = (\<lambda>_ _. None),
      dbus_connection_get_socket = (\<lambda>_ _. None),
      dbus_connection_open = (\<lambda>_ w. ((1, None), w)),
      dbus_connection_open_private = (\<lambda>_ w. ((1, None), w)),
      dbus_bus_register = (\<lambda>_ w. (None, w)), dbus_bus_get_unique_name = (\<lambda>_ _. None),
      dbus_bus_set_unique_name = (\<lambda>_ _ w. (True, w)),
      dbus_bus_get_unix_user = (\<lambda>_ _ w. ((1, None), w)),
      dbus_bus_get_id = (\<lambda>_ w. ((None, None), w)),
      dbus_bus_request_name = (\<lambda>_ _ _ w. ((1, None), w)),
      dbus_bus_release_name = (\<lambda>_ _ w. ((1, None), w)),
      dbus_bus_name_has_owner = (\<lambda>_ _ w. ((True, None), w)),
      dbus_bus_start_service_by_name = (\<lambda>_ _ _ w. ((True, 1, None), w)),
      dbus_bus_add_match = (\<lambda>_ _ w. (None, w)),
      dbus_bus_remove_match = (\<lambda>_ _ w. (None, w)), dbus_bus_get = (\<lambda>_ w. ((1, None), w)),
      dbus_bus_get_private = (\<lambda>_ w. ((1, None), w)), dbus_get_version = (1, 1, 1),
      dbus_try_get_local_machine_id = (\<lambda>w. ((None, None), w)),
      dbus_setenv = (\<lambda>_ _ w. (True, w))\<rparr>"

interpretation rd: dbus_args ref_dbus "\<lambda>w. w" fst "\<lambda>it w. drop (snd it) (w (fst it))"
proof unfold_locales
  fix it it' :: "64 word \<times> nat" and w :: dworld and p xs again
  assume d: "drop (snd it) (w (fst it)) = p # xs" and n: "dbus_message_iter_next ref_dbus it w = (again, it')"
  have xs: "drop (Suc (snd it)) (w (fst it)) = xs" using d by (metis drop_Suc list.sel(3) tl_drop)
  then show "(again \<longleftrightarrow> xs \<noteq> []) \<and> (again \<longrightarrow> drop (snd it') (w (fst it')) = xs)"
    using n by (auto simp: ref_dbus_def)
qed (auto simp: ref_dbus_def)

interpretation rdl: dbus_lua ref_lua r_stk r_tab r_meta ref_dbus "\<lambda>w. w" fst "\<lambda>it w. drop (snd it) (w (fst it))"
  by unfold_locales

section \<open>Properties\<close>


text \<open>The reference machine with a message and three values to append.\<close>

definition append_st :: "(ref_vm, dworld) st" where
  "append_st = \<lparr>vm = \<lparr>r_stk = [LUd 1, LNum (- 1), LBool True, LStr ''on''], r_tab = (\<lambda>_ _. LNil),
     r_meta = (\<lambda>_. Some METH_DBUS_MESSAGE), r_next = 1, r_fld = (\<lambda>_ _. LNil), r_upv = [], r_glob = (\<lambda>_. LNil)\<rparr>, mem = (\<lambda>_ _. 7), os = (\<lambda>_. [])\<rparr>"


end
