(* ===== verification/Lua_Archive.thy ===== *)
theory Lua_Archive
  imports Lua_Aux
begin

text \<open>
  The archive binding (\<open>src/daemon/lua_archive.c\<close>): archive entries with their accessors, the choice of
  formats and filters by name, reading and writing through Lua callbacks. The record \<open>arcapi\<close> has the
  libarchive functions; a family that the source names with \<open>##\<close> is one field with the name as argument.
  Handles are addresses, 0 is NULL; a NULL string is \<open>None\<close>. Calls that run Lua code
  (\<open>lua_call\<close>, \<open>lua_pcall\<close>) may do anything to the state and are arguments of the definitions.
\<close>

record 'w arcapi =
  ARCHIVE_OK :: int
  ARCHIVE_EOF :: int
  AE_IFMT :: "32 word"
  AE_IFREG :: "32 word"
  AE_IFLNK :: "32 word"
  AE_IFSOCK :: "32 word"
  AE_IFCHR :: "32 word"
  AE_IFBLK :: "32 word"
  AE_IFDIR :: "32 word"
  AE_IFIFO :: "32 word"
  archive_error_string :: "64 word \<Rightarrow> 'w \<Rightarrow> string option"
  archive_set_error :: "64 word \<Rightarrow> string \<Rightarrow> 'w \<Rightarrow> 'w"
  archive_version_details :: string
  archive_entry_new :: "'w \<Rightarrow> 64 word \<times> 'w"
  archive_entry_free :: "64 word \<Rightarrow> 'w \<Rightarrow> 'w"
  archive_entry_fflags_text :: "64 word \<Rightarrow> 'w \<Rightarrow> string option"
  archive_entry_copy_fflags_text :: "64 word \<Rightarrow> string option \<Rightarrow> 'w \<Rightarrow> string option \<times> 'w"
  archive_entry_size_is_set :: "64 word \<Rightarrow> 'w \<Rightarrow> bool"
  archive_entry_size :: "64 word \<Rightarrow> 'w \<Rightarrow> int"
  archive_entry_unset_size :: "64 word \<Rightarrow> 'w \<Rightarrow> 'w"
  archive_entry_set_size :: "64 word \<Rightarrow> int \<Rightarrow> 'w \<Rightarrow> 'w"
  archive_entry_filetype :: "64 word \<Rightarrow> 'w \<Rightarrow> 32 word"
  archive_entry_set_filetype :: "64 word \<Rightarrow> 32 word \<Rightarrow> 'w \<Rightarrow> 'w"
  archive_entry_number :: "string \<Rightarrow> 64 word \<Rightarrow> 'w \<Rightarrow> int"
  archive_entry_set_number :: "string \<Rightarrow> 64 word \<Rightarrow> int \<Rightarrow> 'w \<Rightarrow> 'w"
  archive_entry_string :: "string \<Rightarrow> 64 word \<Rightarrow> 'w \<Rightarrow> string option"
  archive_entry_copy_string :: "string \<Rightarrow> 64 word \<Rightarrow> string option \<Rightarrow> 'w \<Rightarrow> 'w"
  archive_entry_time_is_set :: "string \<Rightarrow> 64 word \<Rightarrow> 'w \<Rightarrow> bool"
  archive_entry_time :: "string \<Rightarrow> 64 word \<Rightarrow> 'w \<Rightarrow> int"
  archive_entry_time_nsec :: "string \<Rightarrow> 64 word \<Rightarrow> 'w \<Rightarrow> int"
  archive_entry_unset_time :: "string \<Rightarrow> 64 word \<Rightarrow> 'w \<Rightarrow> 'w"
  archive_entry_set_time :: "string \<Rightarrow> 64 word \<Rightarrow> int \<Rightarrow> int \<Rightarrow> 'w \<Rightarrow> 'w"
  archive_entry_perm :: "64 word \<Rightarrow> 'w \<Rightarrow> 32 word"
  archive_entry_strmode :: "64 word \<Rightarrow> 'w \<Rightarrow> string"
  archive_entry_set_bits :: "string \<Rightarrow> 64 word \<Rightarrow> 32 word \<Rightarrow> 'w \<Rightarrow> 'w"
  archive_setter :: "string \<Rightarrow> 64 word \<Rightarrow> 'w \<Rightarrow> int \<times> 'w"
  archive_new :: "string \<Rightarrow> 'w \<Rightarrow> 64 word \<times> 'w"
  archive_set_options :: "string \<Rightarrow> 64 word \<Rightarrow> string option \<Rightarrow> 'w \<Rightarrow> int \<times> 'w"
  archive_set_integer :: "string \<Rightarrow> 64 word \<Rightarrow> int \<Rightarrow> 'w \<Rightarrow> int \<times> 'w"
  archive_open :: "string \<Rightarrow> 64 word \<Rightarrow> 'w \<Rightarrow> int \<times> 'w"
  archive_close :: "string \<Rightarrow> 64 word \<Rightarrow> 'w \<Rightarrow> int \<times> 'w"
  archive_free :: "string \<Rightarrow> 64 word \<Rightarrow> 'w \<Rightarrow> int \<times> 'w"
  archive_read_next_header2 :: "64 word \<Rightarrow> 64 word \<Rightarrow> 'w \<Rightarrow> int \<times> 'w"
  archive_read_data_block :: "64 word \<Rightarrow> 'w \<Rightarrow> (int \<times> string \<times> int) \<times> 'w"
  archive_write_header :: "64 word \<Rightarrow> 64 word \<Rightarrow> 'w \<Rightarrow> int \<times> 'w"
  archive_write_data :: "64 word \<Rightarrow> string \<Rightarrow> 'w \<Rightarrow> int \<times> 'w"

definition METH_ARCHIVE_READ :: string where "METH_ARCHIVE_READ = ''meth_archive_read''"
definition METH_ARCHIVE_WRITE :: string where "METH_ARCHIVE_WRITE = ''meth_archive_write''"
definition METH_ARCHIVE_ENTRY :: string where "METH_ARCHIVE_ENTRY = ''meth_archive_entry''"
definition METH_ARCHIVE_REGISTRY :: string where "METH_ARCHIVE_REGISTRY = ''meth_archive_registry''"

type_synonym ('v, 'w) afun = "'v lua_api \<Rightarrow> 'w arcapi \<Rightarrow> ('v, 'w) st \<Rightarrow> ('v, 'w) ret"

text \<open>A C string in a formatted message; \<open>%s\<close> of Lua prints \<open>(null)\<close> for NULL.\<close>

definition fmt_s :: "string option \<Rightarrow> string" where
  "fmt_s x = (case x of None \<Rightarrow> ''(null)'' | Some c \<Rightarrow> c)"

definition quoted :: "string \<Rightarrow> string" where
  "quoted x = CHR 0x27 # x @ [CHR 0x27]"

text \<open>A part of a function that may raise a Lua error and changes the state.\<close>

definition andthen :: "(string + 'a) \<times> ('v, 'w) st \<Rightarrow> ('a \<Rightarrow> ('v, 'w) st \<Rightarrow> ('v, 'w) ret) \<Rightarrow> ('v, 'w) ret" where
  "andthen p f = (case p of (Inl e, s) \<Rightarrow> Some (Inl e, s) | (Inr x, s) \<Rightarrow> f x s)"

definition toread :: "'v lua_api \<Rightarrow> int \<Rightarrow> ('v, 'w) st \<Rightarrow> string + 64 word" where
  "toread A idx s = toudata A METH_ARCHIVE_READ idx s"

definition towrite :: "'v lua_api \<Rightarrow> int \<Rightarrow> ('v, 'w) st \<Rightarrow> string + 64 word" where
  "towrite A idx s = toudata A METH_ARCHIVE_WRITE idx s"

definition toentry :: "'v lua_api \<Rightarrow> int \<Rightarrow> ('v, 'w) st \<Rightarrow> string + 64 word" where
  "toentry A idx s = toudata A METH_ARCHIVE_ENTRY idx s"

definition archive_error :: "'v lua_api \<Rightarrow> 'w arcapi \<Rightarrow> 64 word \<Rightarrow> string \<Rightarrow> ('v, 'w) st \<Rightarrow> ('v, 'w) ret" where
  "archive_error A K a err s =
     push_ret 2 (\<lambda>v.
       if a \<noteq> 0 then push_cstring A (lua_pushnil A v) (archive_error_string K a (os s))
       else lua_pushstring A (lua_pushnil A v) err) s"

section \<open>The registry of archives\<close>

definition registry_set :: "'v lua_api \<Rightarrow> 64 word \<Rightarrow> ('v, 'w) st \<Rightarrow> (string + unit) \<times> ('v, 'w) st" where
  "registry_set A ptr s =
     (case luaL_checktype A (vm s) (- 1) LUA_TUSERDATA of
        Inl e \<Rightarrow> (Inl e, s)
      | Inr _ \<Rightarrow>
          (Inr (), upd_vm (\<lambda>v.
             let v1 = luaL_getmetatable A v METH_ARCHIVE_REGISTRY;
                 v2 = lua_pushlightuserdata A v1 ptr;
                 v3 = lua_pushvalue A v2 (- 3);
                 v4 = lua_rawset A v3 (- 3)
             in lua_pop A v4 1) s))"

definition registry_get :: "'v lua_api \<Rightarrow> 64 word \<Rightarrow> 'v \<Rightarrow> bool \<times> 'v" where
  "registry_get A ptr v =
     (let v1 = luaL_getmetatable A v METH_ARCHIVE_REGISTRY;
          v2 = lua_pushlightuserdata A v1 ptr;
          v3 = lua_rawget A v2 (- 2)
      in if lua_isnil A v3 (- 1) then (False, lua_pop A v3 2)
         else (True, lua_pop A (lua_insert A v3 (- 2)) 1))"

definition registry_init :: "'v lua_api \<Rightarrow> string \<Rightarrow> 'v \<Rightarrow> 'v" where
  "registry_init A tname v =
     (let v1 = luaL_newmetatable A v tname;
          v2 = lua_setmetatable A (lua_pushvalue A v1 (- 1)) (- 2);
          v3 = lua_setfield A (lua_pushstring A v2 ''v'') (- 2) ''__mode''
      in lua_pop A v3 1)"

section \<open>Entries\<close>

definition entry_free :: "('v, 'w) afun" where
  "entry_free A K s = free_cptr A METH_ARCHIVE_ENTRY (archive_entry_free K) s"

definition entry_fflags :: "('v, 'w) afun" where
  "entry_fflags A K s =
     arg (toentry A 1 s) s (\<lambda>e.
       let l = lua_gettop A (vm s);
           s1 = upd_vm (\<lambda>v. push_cstring A v (archive_entry_fflags_text K e (os s))) s
       in if l = 2 then
            (let (bad, s2) = call_os (archive_entry_copy_fflags_text K e (lua_tocstring A (vm s1) 2)) s1
             in case bad of
                  Some x \<Rightarrow> Some (Inl (''invalid fflags: '' @ quoted x @ '' is not a known fflag''), s2)
                | None \<Rightarrow> Some (Inr 1, s2))
          else Some (Inr 1, s1))"

definition entry_size :: "('v, 'w) afun" where
  "entry_size A K s =
     arg (toentry A 1 s) s (\<lambda>e.
       let l = lua_gettop A (vm s);
           s1 = upd_vm (\<lambda>v. if archive_entry_size_is_set K e (os s)
                            then lua_pushnumber A v (archive_entry_size K e (os s)) else lua_pushnil A v) s;
           s2 = (if l = 2 then
                   (if lua_isnil A (vm s1) 2 then do_os (archive_entry_unset_size K e) s1
                    else do_os (archive_entry_set_size K e (lua_tonumber A (vm s1) 2)) s1)
                 else s1)
       in Some (Inr 1, s2))"

definition filetype_opts :: "'w arcapi \<Rightarrow> cflag_opt list" where
  "filetype_opts K =
     [(''reg'', AE_IFREG K), (''lnk'', AE_IFLNK K), (''sock'', AE_IFSOCK K), (''chr'', AE_IFCHR K),
      (''blk'', AE_IFBLK K), (''dir'', AE_IFDIR K), (''fifo'', AE_IFIFO K)]"

text \<open>\<open>fromcflags(opts, flag, NULL)\<close>: the name of a flag, if it has one.\<close>

definition fromcflags_null :: "cflag_opt list \<Rightarrow> 32 word \<Rightarrow> string option" where
  "fromcflags_null opts flag = (if flag \<in> snd ` set opts then Some (fromcflags opts flag []) else None)"

definition entry_filetype :: "('v, 'w) afun" where
  "entry_filetype A K s =
     arg (toentry A 1 s) s (\<lambda>e.
       let l = lua_gettop A (vm s);
           ft = archive_entry_filetype K e (os s);
           s1 = upd_vm (\<lambda>v. push_cstring A v (fromcflags_null (filetype_opts K) (and ft (AE_IFMT K)))) s
       in if l = 2 then do {
            (ft, s2) \<leftarrow> tocflags A 2 (filetype_opts K) (AE_IFREG K) s1;
            Some (Inr 1, do_os (archive_entry_set_filetype K e ft) s2)
          }
          else Some (Inr 1, s1))"

text \<open>\<open>DEF_ENTRY_METH\<close> with the types number and integer, and with the type string.\<close>

definition DEF_ENTRY_METH_number :: "string \<Rightarrow> ('v, 'w) afun" where
  "DEF_ENTRY_METH_number name A K s =
     arg (toentry A 1 s) s (\<lambda>e.
       let l = lua_gettop A (vm s);
           s1 = upd_vm (\<lambda>v. lua_pushnumber A v (archive_entry_number K name e (os s))) s
       in Some (Inr 1, if l = 2 then do_os (archive_entry_set_number K name e (lua_tonumber A (vm s1) 2)) s1 else s1))"

definition DEF_ENTRY_METH_string :: "string \<Rightarrow> ('v, 'w) afun" where
  "DEF_ENTRY_METH_string name A K s =
     arg (toentry A 1 s) s (\<lambda>e.
       let l = lua_gettop A (vm s);
           s1 = upd_vm (\<lambda>v. push_cstring A v (archive_entry_string K name e (os s))) s
       in Some (Inr 1, if l = 2 then do_os (archive_entry_copy_string K name e (lua_tocstring A (vm s1) 2)) s1 else s1))"

definition DEF_ENTRY_TIME_METH :: "string \<Rightarrow> ('v, 'w) afun" where
  "DEF_ENTRY_TIME_METH time A K s =
     arg (toentry A 1 s) s (\<lambda>e.
       let l = lua_gettop A (vm s);
           isset = archive_entry_time_is_set K time e (os s);
           s1 = (if isset then
                   upd_vm (\<lambda>v. lua_pushnumber A (lua_pushnumber A v (archive_entry_time K time e (os s)))
                     (archive_entry_time_nsec K time e (os s))) s
                 else s);
           s2 = (if l \<ge> 2 then
                   (if lua_isnil A (vm s1) 2 then do_os (archive_entry_unset_time K time e) s1
                    else if lua_type A (vm s1) 2 = LUA_TTABLE then
                      (let s2 = upd_vm (\<lambda>v. lua_rawgeti A (lua_rawgeti A v 2 1) 2 2) s1
                       in do_os (archive_entry_set_time K time e (lua_tonumber A (vm s2) (- 2)) (lua_tonumber A (vm s2) (- 1))) s2)
                    else do_os (archive_entry_set_time K time e (lua_tonumber A (vm s1) 2) (lua_tonumber A (vm s1) 3)) s1)
                 else s1)
       in Some (Inr (if isset then 2 else 0), s2))"

section \<open>Mode bits given as text\<close>

text \<open>\<open>isspace\<close>, \<open>isalnum\<close> and the digits of \<open>strtoul\<close> in the C locale.\<close>

definition c_isspace :: "char \<Rightarrow> bool" where
  "c_isspace c \<longleftrightarrow> c = CHR '' '' \<or> (9 \<le> (of_char c :: nat) \<and> (of_char c :: nat) \<le> 13)"

definition digit_val :: "char \<Rightarrow> nat" where
  "digit_val c =
     (let n = of_char c :: nat
      in if 48 \<le> n \<and> n \<le> 57 then n - 48
         else if 97 \<le> n \<and> n \<le> 122 then n - 87
         else if 65 \<le> n \<and> n \<le> 90 then n - 55
         else 36)"

definition c_isalnum :: "char \<Rightarrow> bool" where
  "c_isalnum c \<longleftrightarrow> digit_val c < 36"

text \<open>The value of the longest prefix of digits, and what follows it.\<close>

fun scan_digits :: "nat \<Rightarrow> nat \<Rightarrow> string \<Rightarrow> nat \<times> string" where
  "scan_digits base acc [] = (acc, [])"
| "scan_digits base acc (c # cs) =
     (if digit_val c < base then scan_digits base (acc * base + digit_val c) cs else (acc, c # cs))"

text \<open>
  \<open>n = strtoul(s, &end, base)\<close>: white space, a sign, for base 16 an optional \<open>0x\<close> before a digit, then the
  digits. \<open>None\<close> is \<open>end == s\<close>; otherwise the value, saturated at the maximum of \<open>unsigned long\<close> or negated
  modulo \<open>2 ^ 64\<close>, and the text at \<open>end\<close>.
\<close>

definition strtoul :: "nat \<Rightarrow> string \<Rightarrow> (64 word \<times> string) option" where
  "strtoul base s =
     (let s1 = dropWhile c_isspace s;
          neg = (s1 \<noteq> [] \<and> hd s1 = CHR ''-'');
          s2 = (if s1 \<noteq> [] \<and> (hd s1 = CHR ''-'' \<or> hd s1 = CHR ''+'') then tl s1 else s1);
          s3 = (if base = 16 \<and> length s2 > 2 \<and> hd s2 = CHR ''0'' \<and> s2 ! 1 \<in> {CHR ''x'', CHR ''X''} \<and> digit_val (s2 ! 2) < 16
                then drop 2 s2 else s2)
      in if s3 = [] \<or> \<not> digit_val (hd s3) < base then None
         else
           (let (n, rest) = scan_digits base 0 s3
            in Some (if n \<ge> 2 ^ 64 then - 1 else if neg then - word_of_nat n else word_of_nat n, rest)))"

text \<open>The base a text announces by its prefix and the text behind the prefix.\<close>

fun bits_prefix :: "string \<Rightarrow> nat \<times> string" where
  "bits_prefix (z # c # cs) =
     (if z \<noteq> CHR ''0'' then (10, z # c # cs)
      else if c = CHR ''b'' \<or> c = CHR ''B'' then (2, cs)
      else if c = CHR ''x'' \<or> c = CHR ''X'' then (16, cs)
      else (8, c # cs))"
| "bits_prefix [z] = (if z \<noteq> CHR ''0'' then (10, [z]) else (8, []))"
| "bits_prefix [] = (10, [])"

text \<open>The value of the text, if it is one that the code accepts.\<close>

definition parse_bits :: "string \<Rightarrow> 64 word option" where
  "parse_bits s =
     (let (base, s1) = bits_prefix s
      in case strtoul base s1 of
           None \<Rightarrow> None
         | Some (n, s2) \<Rightarrow> if dropWhile c_isspace s2 = [] then Some n else None)"

text \<open>
  \<open>DEF_ENTRY_BITS_METH\<close>; \<open>push\<close> is \<open>lua_push ## rettype(L, archive_entry_ ## retname(e))\<close>. \<open>mode_t\<close> has 32 bits.
\<close>

definition DEF_ENTRY_BITS_METH :: "string \<Rightarrow> ('w \<Rightarrow> 64 word \<Rightarrow> 'v \<Rightarrow> 'v) \<Rightarrow> ('v, 'w) afun" where
  "DEF_ENTRY_BITS_METH name push A K s =
     arg (toentry A 1 s) s (\<lambda>e.
       let l = lua_gettop A (vm s);
           s1 = upd_vm (push (os s) e) s
       in if l = 2 then
            (case lua_type A (vm s1) 2 of
               LUA_TNUMBER \<Rightarrow>
                 Some (Inr 1, do_os (archive_entry_set_bits K name e (word_of_int (lua_tonumber A (vm s1) 2))) s1)
             | LUA_TSTRING \<Rightarrow>
                 Some (Inr 1,
                   case parse_bits (lua_tostring A (vm s1) 2) of
                     None \<Rightarrow> s1
                   | Some n \<Rightarrow> do_os (archive_entry_set_bits K name e (ucast n)) s1)
             | _ \<Rightarrow> Some (Inl ''invalid type for second argument'', s1))
          else Some (Inr 1, s1))"

definition entry_perm :: "('v, 'w) afun" where
  "entry_perm A K s =
     DEF_ENTRY_BITS_METH ''perm'' (\<lambda>w e v. lua_pushnumber A v (uint (archive_entry_perm K e w))) A K s"

definition entry_mode :: "('v, 'w) afun" where
  "entry_mode A K s =
     DEF_ENTRY_BITS_METH ''mode'' (\<lambda>w e v. lua_pushstring A v (archive_entry_strmode K e w)) A K s"

section \<open>New entries\<close>

text \<open>The loop of \<open>archive_entry\<close> over the fields of its table argument.\<close>

partial_function (option) entry_fields ::
  "'v lua_api \<Rightarrow> (int \<Rightarrow> int \<Rightarrow> ('v, 'w) st \<Rightarrow> ('v, 'w) ret) \<Rightarrow> ('v, 'w) st \<Rightarrow> ((string + unit) \<times> ('v, 'w) st) option" where
  "entry_fields A lua_call s =
     (let (found, v) = lua_next A (vm s) 1;
          s1 = s\<lparr>vm := v\<rparr>
      in if \<not> found then Some (Inr (), s1)
         else
           (let s2 = upd_vm (\<lambda>v. lua_gettable A (lua_pushvalue A v (- 2)) (- 4)) s1
            in if lua_isnil A (vm s2) (- 1) then
                 Some (Inl (''invalid argument: '' @ quoted (lua_tostring A (vm s2) (- 3)) @ '' is not a valid field''), s2)
               else
                 (case lua_call 2 0 (upd_vm (\<lambda>v. lua_pushvalue A (lua_pushvalue A v (- 5)) (- 3)) s2) of
                    None \<Rightarrow> None
                  | Some (r, s3) \<Rightarrow>
                      (case r of
                         Inl e \<Rightarrow> Some (Inl e, s3)
                       | Inr _ \<Rightarrow> entry_fields A lua_call (upd_vm (\<lambda>v. lua_pop A v 1) s3)))))"

declare entry_fields.simps [code]

definition archive_entry :: "(int \<Rightarrow> int \<Rightarrow> ('v, 'w) st \<Rightarrow> ('v, 'w) ret) \<Rightarrow> ('v, 'w) afun" where
  "archive_entry lua_call A K s =
     (let (ee, s1) = newcptr A METH_ARCHIVE_ENTRY s;
          (e, s2) = call_os (archive_entry_new K) s1;
          s3 = poke ee 0 e s2
      in if e = 0 then archive_error A K 0 ''no memory'' s3
         else if lua_type A (vm s3) 1 \<noteq> LUA_TTABLE then Some (Inr 1, s3)
         else
           (case entry_fields A lua_call (upd_vm (\<lambda>v. lua_pushnil A (lua_getmetatable A v (- 1))) s3) of
              None \<Rightarrow> None
            | Some p \<Rightarrow> andthen p (\<lambda>_ s. Some (Inr 1, upd_vm (\<lambda>v. lua_pop A v 1) s))))"

section \<open>Formats and filters by name\<close>

definition store_to_fenv :: "'v lua_api \<Rightarrow> string \<Rightarrow> ('v, 'w) st \<Rightarrow> (string + unit) \<times> ('v, 'w) st" where
  "store_to_fenv A name s =
     (let s1 = upd_vm (\<lambda>v. lua_getfield A (lua_newtable A v) 1 name) s
      in if lua_type A (vm s1) (- 1) \<noteq> LUA_TFUNCTION then
           (Inl (''required parameter '' @ quoted name @ '' must be a function''), s1)
         else (Inr (), upd_vm (\<lambda>v. lua_setfenv A (lua_setfield A v (- 2) name) (- 2)) s1))"

definition load_from_fenv :: "'v lua_api \<Rightarrow> int \<Rightarrow> string \<Rightarrow> 'v \<Rightarrow> 'v" where
  "load_from_fenv A idx name v =
     (let v1 = lua_getfenv A v idx;
          v2 = lua_rawget A (lua_pushstring A v1 name) (- 2)
      in lua_pop A (lua_insert A v2 (- 2)) 1)"

text \<open>\<open>NS_LISTS\<close>: a name and whether it is a read filter, read format, write filter, write format.\<close>

definition NS_LISTS :: "(string \<times> bool \<times> bool \<times> bool \<times> bool) list" where
  "NS_LISTS =
     [(''all'', True, True, False, False), (''bzip2'', True, False, True, False),
      (''compress'', True, False, True, False), (''gzip'', True, False, True, False),
      (''grzip'', True, False, True, False), (''lrzip'', True, False, True, False),
      (''lz4'', True, False, True, False), (''lzip'', True, False, True, False),
      (''lzma'', True, False, True, False), (''lzop'', True, False, True, False),
      (''none'', True, False, True, False), (''xz'', True, False, True, False),
      (''zstd'', True, False, True, False), (''rpm'', True, False, False, False),
      (''uu'', True, False, False, False), (''uuencode'', False, False, True, False),
      (''b64encode'', False, False, True, False), (''7zip'', False, True, False, True),
      (''ar'', False, True, False, False), (''ar_bsd'', False, False, False, True),
      (''ar_svr4'', False, False, False, True), (''cab'', False, True, False, False),
      (''cpio'', False, True, False, True), (''cpio_bin'', False, False, False, True),
      (''cpio_newc'', False, False, False, True), (''cpio_odc'', False, False, False, True),
      (''cpio_pwb'', False, False, False, True), (''empty'', False, True, False, False),
      (''gnutar'', False, True, False, True), (''iso9660'', False, True, False, True),
      (''lha'', False, True, False, False), (''mtree'', False, True, False, True),
      (''mtree_classic'', False, False, False, True), (''rar'', False, True, False, False),
      (''rar5'', False, True, False, False), (''raw'', False, True, False, True),
      (''tar'', False, True, False, False), (''warc'', False, True, False, True),
      (''xar'', False, True, False, True), (''zip'', False, True, False, True),
      (''zip_streamable'', False, True, False, False),
      (''zip_seekable'', False, True, False, False), (''pax'', False, False, False, True),
      (''pax_restricted'', False, False, False, True), (''shar'', False, False, False, True),
      (''shar_dump'', False, False, False, True), (''ustar'', False, False, False, True),
      (''v7tar'', False, False, False, True)]"

text \<open>A named setter: the name and the libarchive function of \<open>struct named_setter\<close>.\<close>

type_synonym named_setter = "string \<times> string"

definition ns_rfilters :: "named_setter list" where
  "ns_rfilters = [(name, ''archive_read_support_filter_'' @ name). (name, rflt, rfmt, wflt, wfmt) \<leftarrow> NS_LISTS, rflt]"

definition ns_rformats :: "named_setter list" where
  "ns_rformats = [(name, ''archive_read_support_format_'' @ name). (name, rflt, rfmt, wflt, wfmt) \<leftarrow> NS_LISTS, rfmt]"

definition ns_wfilters :: "named_setter list" where
  "ns_wfilters = [(name, ''archive_write_add_filter_'' @ name). (name, rflt, rfmt, wflt, wfmt) \<leftarrow> NS_LISTS, wflt]"

definition ns_wformats :: "named_setter list" where
  "ns_wformats = [(name, ''archive_write_set_format_'' @ name). (name, rflt, rfmt, wflt, wfmt) \<leftarrow> NS_LISTS, wfmt]"

text \<open>\<open>strncmp(s, name, len) == 0\<close> for the word \<open>tok\<close> of length \<open>len\<close> at \<open>s\<close>.\<close>

definition strneq :: "string \<Rightarrow> string \<Rightarrow> bool" where
  "strneq tok name \<longleftrightarrow> take (length tok) name = tok"

function do_setters ::
  "'v lua_api \<Rightarrow> 'w arcapi \<Rightarrow> 64 word \<Rightarrow> string \<Rightarrow> named_setter list \<Rightarrow> nat \<Rightarrow> string \<Rightarrow> ('v, 'w) st \<Rightarrow>
     (string + nat) \<times> ('v, 'w) st" where
  "do_setters A K a field ns nres x s =
     (let x1 = dropWhile (\<lambda>c. \<not> c_isalnum c) x
      in if x1 = [] then (Inr nres, s)
         else
           (let tok = takeWhile c_isalnum x1
            in case List.find (\<lambda>(name, setter). strneq tok name) ns of
                 None \<Rightarrow>
                   (Inl (''No such '' @ field @ '' '' @ quoted tok), upd_vm (\<lambda>v. lua_pushstring A v tok) s)
               | Some (name, setter) \<Rightarrow>
                   (let (r, s1) = call_os (archive_setter K setter a) s
                    in if r \<noteq> ARCHIVE_OK K then
                         (Inl (field @ '' set to '' @ quoted tok @ '' error: '' @ fmt_s (archive_error_string K a (os s1))),
                          upd_vm (\<lambda>v. lua_pushstring A v tok) s1)
                       else do_setters A K a field ns (nres + 1) (dropWhile c_isalnum x1) s1)))"
  by pat_completeness auto

termination do_setters
  by (relation "measure (\<lambda>(A, K, a, field, ns, nres, x, s). length x)") (simp_all add: drop_token)

declare do_setters.simps [simp del]

definition setoption ::
  "'v lua_api \<Rightarrow> 'w arcapi \<Rightarrow> 64 word \<Rightarrow> string \<Rightarrow> named_setter list \<Rightarrow> string option \<Rightarrow> ('v, 'w) st \<Rightarrow>
     (string + unit) \<times> ('v, 'w) st" where
  "setoption A K a field ns d s =
     (let s1 = upd_vm (\<lambda>v. lua_getfield A v 1 field) s;
          null = (lua_tocstring A (vm s1) (- 1) = None)
      in if null \<and> d = None then (Inl (quoted field @ '' field is required''), s1)
         else
           (let s2 = (if null then upd_vm (\<lambda>v. lua_pushstring A (lua_pop A v 1) (the d)) s1 else s1)
            in case do_setters A K a field ns 0 (lua_tostring A (vm s2) (- 1)) s2 of
                 (Inl e, s3) \<Rightarrow> (Inl e, s3)
               | (Inr n, s3) \<Rightarrow>
                   if n = 0 then
                     (Inl (field @ '' = '' @ quoted (lua_tostring A (vm s3) (- 1)) @ '' is not allowed''), s3)
                   else (Inr (), upd_vm (\<lambda>v. lua_pop A v 1) s3)))"

section \<open>Callbacks\<close>

text \<open>
  The callbacks libarchive makes. \<open>lua_pcall n r s\<close> is the status of the call and the state after it. The
  result is the return value and, for \<open>callback_read\<close>, the buffer.
\<close>

type_synonym ('v, 'w) pcall = "int \<Rightarrow> int \<Rightarrow> ('v, 'w) st \<Rightarrow> (int \<times> ('v, 'w) st) option"

definition callback_read ::
  "'v lua_api \<Rightarrow> 'w arcapi \<Rightarrow> ('v, 'w) pcall \<Rightarrow> 64 word \<Rightarrow> ('v, 'w) st \<Rightarrow> ((int \<times> string option) \<times> ('v, 'w) st) option" where
  "callback_read A K lua_pcall a s =
     (let (found, v) = registry_get A a (vm s);
          s1 = s\<lparr>vm := v\<rparr>
      in if \<not> found then
           Some ((- 1, None), do_os (archive_set_error K a
             ''internal error: read callback called on archive that should already have been garbage collected!'') s1)
         else do {
           (status, s2) \<leftarrow> lua_pcall 1 1 (upd_vm (\<lambda>v. lua_pushvalue A (load_from_fenv A (- 1) ''reader'' v) (- 2)) s1);
           (if status \<noteq> 0 then
              Some ((- 1, None), upd_vm (\<lambda>v. lua_pop A v 2)
                (do_os (archive_set_error K a (fmt_s (lua_tocstring A (vm s2) (- 1)))) s2))
            else
              (case lua_tocstring A (vm s2) (- 1) of
                 None \<Rightarrow> Some ((0, None), s2)
               | Some buffer \<Rightarrow>
                   Some ((int (length buffer), Some buffer), upd_vm (\<lambda>v.
                     let v1 = lua_getfenv A v (- 2);
                         v2 = lua_pushvalue A (lua_pushstring A v1 ''read_buffer'') (- 3);
                         v3 = lua_rawset A v2 (- 3)
                     in lua_pop A v3 3) s2)))
         })"

definition callback_write ::
  "'v lua_api \<Rightarrow> 'w arcapi \<Rightarrow> ('v, 'w) pcall \<Rightarrow> 64 word \<Rightarrow> string \<Rightarrow> ('v, 'w) st \<Rightarrow> (int \<times> ('v, 'w) st) option" where
  "callback_write A K lua_pcall a buffer s =
     (let (found, v) = registry_get A a (vm s);
          s1 = s\<lparr>vm := v\<rparr>
      in if \<not> found then
           Some (- 1, do_os (archive_set_error K a
             ''internal error: write callback called on archive that should already have been garbage collected!'') s1)
         else do {
           (status, s2) \<leftarrow> lua_pcall 2 1 (upd_vm (\<lambda>v.
             lua_pushstring A (lua_pushvalue A (load_from_fenv A (- 1) ''writer'' v) (- 2)) buffer) s1);
           (if status \<noteq> 0 then
              Some (- 1, upd_vm (\<lambda>v. lua_pop A v 2)
                (do_os (archive_set_error K a (fmt_s (lua_tocstring A (vm s2) (- 1)))) s2))
            else Some (lua_tointeger A (vm s2) (- 1), upd_vm (\<lambda>v. lua_pop A v 2) s2))
         })"

section \<open>Readers and writers\<close>

text \<open>
  \<open>SET_AR_FIELD(rw, field, type)\<close>: \<open>call\<close> is the setter applied to the value of the field, which is on top of the
  stack.
\<close>

definition SET_AR_FIELD ::
  "'v lua_api \<Rightarrow> 'w arcapi \<Rightarrow> 64 word \<Rightarrow> string \<Rightarrow> ('v \<Rightarrow> 'w \<Rightarrow> int \<times> 'w) \<Rightarrow> ('v, 'w) st \<Rightarrow> (string + unit) \<times> ('v, 'w) st" where
  "SET_AR_FIELD A K a field call s =
     (let s1 = upd_vm (\<lambda>v. lua_getfield A v 1 field) s;
          (r, s2) = (if \<not> lua_isnil A (vm s1) (- 1) then call_os (call (vm s1)) s1 else (ARCHIVE_OK K, s1))
      in if r \<noteq> ARCHIVE_OK K then
           (Inl (field @ '' = '' @ quoted (fmt_s (lua_tocstring A (vm s2) (- 1))) @ '' is not allowed, '' @
              fmt_s (archive_error_string K a (os s2))), s2)
         else (Inr (), upd_vm (\<lambda>v. lua_pop A v 1) s2))"

definition archive_read :: "('v, 'w) afun" where
  "archive_read A K s =
     arg (luaL_checktype A (vm s) 1 LUA_TTABLE) s (\<lambda>_.
       let (p, s1) = newcptr A METH_ARCHIVE_READ s;
           (a, s2) = call_os (archive_new K ''read'') s1;
           s3 = poke p 0 a s2
       in if a = 0 then archive_error A K 0 ''no memory'' s3
          else
            andthen (registry_set A a s3) (\<lambda>_ s.
            andthen (store_to_fenv A ''reader'' s) (\<lambda>_ s.
            andthen (setoption A K a ''format'' ns_rformats (Some ''all'') s) (\<lambda>_ s.
            andthen (setoption A K a ''filter'' ns_rfilters (Some ''all'') s) (\<lambda>_ s.
            andthen (SET_AR_FIELD A K a ''options'' (\<lambda>v. archive_set_options K ''read'' a (lua_tocstring A v (- 1))) s) (\<lambda>_ s.
              let (r, s1) = call_os (archive_open K ''read'' a) s
              in if r \<noteq> ARCHIVE_OK K then archive_error A K a [] s1 else Some (Inr 1, s1)))))))"

definition archive_write :: "('v, 'w) afun" where
  "archive_write A K s =
     arg (luaL_checktype A (vm s) 1 LUA_TTABLE) s (\<lambda>_.
       let (p, s1) = newcptr A METH_ARCHIVE_WRITE s;
           (a, s2) = call_os (archive_new K ''write'') s1;
           s3 = poke p 0 a s2
       in if a = 0 then archive_error A K 0 ''no memory'' s3
          else
            andthen (registry_set A a s3) (\<lambda>_ s.
            andthen (store_to_fenv A ''writer'' s) (\<lambda>_ s.
            andthen (setoption A K a ''format'' ns_wformats (Some ''raw'') s) (\<lambda>_ s.
            andthen (setoption A K a ''filter'' ns_wfilters (Some ''none'') s) (\<lambda>_ s.
            andthen (SET_AR_FIELD A K a ''bytes_per_block''
              (\<lambda>v. archive_set_integer K ''bytes_per_block'' a (c_int (lua_tointeger A v (- 1)))) s) (\<lambda>_ s.
            andthen (SET_AR_FIELD A K a ''bytes_in_last_block''
              (\<lambda>v. archive_set_integer K ''bytes_in_last_block'' a (c_int (lua_tointeger A v (- 1)))) s) (\<lambda>_ s.
            andthen (SET_AR_FIELD A K a ''options'' (\<lambda>v. archive_set_options K ''write'' a (lua_tocstring A v (- 1))) s) (\<lambda>_ s.
              let (r, s1) = call_os (archive_open K ''write'' a) s
              in if r \<noteq> ARCHIVE_OK K then archive_error A K a [] s1 else Some (Inr 1, s1)))))))))"

text \<open>
  \<open>DEF_ARCHIVE_FREE(name, callback)\<close>: when closing fails the archive is released and the error raised with
  the pointer still in the userdata.
\<close>

definition DEF_ARCHIVE_FREE ::
  "string \<Rightarrow> string \<Rightarrow> string \<Rightarrow> (int \<Rightarrow> int \<Rightarrow> ('v, 'w) st \<Rightarrow> ('v, 'w) ret) \<Rightarrow> ('v, 'w) afun" where
  "DEF_ARCHIVE_FREE name metatable callback lua_call A K s =
     arg (toudatap A metatable 1 s) s (\<lambda>p.
       let a = mem s p 0
       in if a = 0 then Some (Inr 0, s)
          else
            andthen (registry_set A a s) (\<lambda>_ s1.
              let (r, s2) = call_os (archive_close K name a) s1
              in if r \<noteq> ARCHIVE_OK K then
                   (let msg = ''archive_'' @ name @ ''_close: '' @ fmt_s (archive_error_string K a (os s2));
                        (_, s3) = call_os (archive_free K name a) (upd_vm (\<lambda>v. lua_pushstring A v msg) s2)
                    in Some (Inl msg, s3))
                 else
                   (let s3 = upd_vm (load_from_fenv A 1 callback) s2;
                        free = (\<lambda>s4.
                          let (r, s5) = call_os (archive_free K name a) s4
                          in if r \<noteq> ARCHIVE_OK K then
                               Some (Inl (''archive_'' @ name @ ''_free: '' @ fmt_s (archive_error_string K a (os s5))), s5)
                             else Some (Inr 0, poke p 0 0 s5))
                    in if lua_isnil A (vm s3) (- 1) then free s3
                       else
                         (case lua_call 2 1 (upd_vm (\<lambda>v. lua_pushnil A (lua_pushvalue A v 1)) s3) of
                            None \<Rightarrow> None
                          | Some (Inl e, s4) \<Rightarrow> Some (Inl e, s4)
                          | Some (Inr _, s4) \<Rightarrow> free s4))))"

definition read_archive_free :: "(int \<Rightarrow> int \<Rightarrow> ('v, 'w) st \<Rightarrow> ('v, 'w) ret) \<Rightarrow> ('v, 'w) afun" where
  "read_archive_free lua_call A K s = DEF_ARCHIVE_FREE ''read'' METH_ARCHIVE_READ ''reader'' lua_call A K s"

definition write_archive_free :: "(int \<Rightarrow> int \<Rightarrow> ('v, 'w) st \<Rightarrow> ('v, 'w) ret) \<Rightarrow> ('v, 'w) afun" where
  "write_archive_free lua_call A K s = DEF_ARCHIVE_FREE ''write'' METH_ARCHIVE_WRITE ''writer'' lua_call A K s"

definition read_archive_next_header :: "('v, 'w) afun" where
  "read_archive_next_header A K s =
     arg (toread A 1 s) s (\<lambda>a.
       let (ee, s1) = newcptr A METH_ARCHIVE_ENTRY s;
           (e, s2) = call_os (archive_entry_new K) s1;
           s3 = poke ee 0 e s2
       in if e = 0 then archive_error A K 0 ''no memory'' s3
          else
            (let (r, s4) = call_os (archive_read_next_header2 K a e) s3
             in if r = ARCHIVE_EOF K then push_ret 1 (lua_pushnil A) s4
                else if r \<noteq> ARCHIVE_OK K then
                  Some (Inl (''archive_read_next_header2: '' @ fmt_s (archive_error_string K a (os s4))), s4)
                else Some (Inr 1, s4)))"

definition read_archive_headers :: "('v, 'w) afun" where
  "read_archive_headers A K s =
     arg (toread A 1 s) s (\<lambda>a.
       push_ret 3 (\<lambda>v. lua_pushnil A (lua_pushvalue A (lua_pushcfunction A v ''read_archive_next_header'') 1)) s)"

definition read_archive_data :: "('v, 'w) afun" where
  "read_archive_data A K s =
     arg (toread A 1 s) s (\<lambda>a.
       let ((r, buffer, offset), s1) = call_os (archive_read_data_block K a) s
       in if r = ARCHIVE_EOF K then Some (Inr 0, s1)
          else if r \<noteq> ARCHIVE_OK K then
            Some (Inl (''archive_read_data_block: '' @ fmt_s (archive_error_string K a (os s1))), s1)
          else push_ret 2 (\<lambda>v. lua_pushnumber A (lua_pushstring A v buffer) offset) s1)"

definition write_archive_header :: "('v, 'w) afun" where
  "write_archive_header A K s =
     arg (towrite A 1 s) s (\<lambda>a.
     arg (toentry A 2 s) s (\<lambda>e.
       if archive_entry_string K ''pathname'' e (os s) \<in> {None, Some []} then
         Some (Inl (''invalid entry: '' @ quoted ''pathname'' @ '' field must be set''), s)
       else
         (let (r, s1) = call_os (archive_write_header K a e) s
          in if r \<noteq> ARCHIVE_OK K then
               Some (Inl (''archive_write_header: '' @ fmt_s (archive_error_string K a (os s1))), s1)
             else Some (Inr 0, s1))))"

definition write_archive_data :: "('v, 'w) afun" where
  "write_archive_data A K s =
     arg (towrite A 1 s) s (\<lambda>a.
     arg (luaL_checkstring A (vm s) 2) s (\<lambda>data.
       let (r, s1) = call_os (archive_write_data K a data) s
       in if r = - 1 then Some (Inl (''archive_write_data: '' @ fmt_s (archive_error_string K a (os s1))), s1)
          else Some (Inr 0, s1)))"

definition archive_version :: "('v, 'w) afun" where
  "archive_version A K s = push_ret 1 (\<lambda>v. lua_pushstring A v (archive_version_details K)) s"

section \<open>Choosing setters word by word\<close>

text \<open>The maximal runs of letters and digits of a text, and the setter that a word selects.\<close>

function alnum_words :: "string \<Rightarrow> string list" where
  "alnum_words x =
     (let x1 = dropWhile (\<lambda>c. \<not> c_isalnum c) x
      in if x1 = [] then [] else takeWhile c_isalnum x1 # alnum_words (dropWhile c_isalnum x1))"
  by pat_completeness auto

termination alnum_words
  by (relation "measure length") (simp_all add: drop_token)

declare alnum_words.simps [simp del]

definition pick :: "named_setter list \<Rightarrow> string \<Rightarrow> string option" where
  "pick ns tok = map_option snd (List.find (\<lambda>(name, setter). strneq tok name) ns)"

text \<open>The specification of \<open>do_setters\<close>: the words are looked up and their setters called one after another.\<close>

fun apply_words ::
  "'v lua_api \<Rightarrow> 'w arcapi \<Rightarrow> 64 word \<Rightarrow> string \<Rightarrow> named_setter list \<Rightarrow> nat \<Rightarrow> string list \<Rightarrow> ('v, 'w) st \<Rightarrow>
     (string + nat) \<times> ('v, 'w) st" where
  "apply_words A K a field ns n [] s = (Inr n, s)"
| "apply_words A K a field ns n (tok # toks) s =
     (case pick ns tok of
        None \<Rightarrow> (Inl (''No such '' @ field @ '' '' @ quoted tok), upd_vm (\<lambda>v. lua_pushstring A v tok) s)
      | Some f \<Rightarrow>
          (let (r, s1) = call_os (archive_setter K f a) s
           in if r \<noteq> ARCHIVE_OK K then
                (Inl (field @ '' set to '' @ quoted tok @ '' error: '' @ fmt_s (archive_error_string K a (os s1))),
                 upd_vm (\<lambda>v. lua_pushstring A v tok) s1)
              else apply_words A K a field ns (n + 1) toks s1))"

lemma do_setters_words:
  "do_setters A K a field ns n x s = apply_words A K a field ns n (alnum_words x) s"
proof (induction x arbitrary: n s rule: alnum_words.induct)
  case (1 x)
  let ?x1 = "dropWhile (\<lambda>c. \<not> c_isalnum c) x"
  show ?case
  proof (cases "?x1 = []")
    case True
    then show ?thesis by (simp add: do_setters.simps alnum_words.simps)
  next
    case False
    note IH = 1 [OF refl False]
    have w: "alnum_words x = takeWhile c_isalnum ?x1 # alnum_words (dropWhile c_isalnum ?x1)"
      using False by (subst alnum_words.simps) (simp add: Let_def)
    show ?thesis
      using False
      by (subst do_setters.simps) (auto simp: w IH pick_def Let_def split: option.split prod.split)
  qed
qed

lemma apply_words_unknown:
  assumes "\<And>f w. fst (archive_setter K f a w) = ARCHIVE_OK K" and "tok \<in> set toks" and "pick ns tok = None"
  shows "\<exists>e s'. apply_words A K a field ns n toks s = (Inl e, s')"
  using assms(2)
proof (induction toks arbitrary: n s)
  case (Cons t toks)
  show ?case
  proof (cases "pick ns t")
    case None
    then show ?thesis by simp
  next
    case (Some f)
    then have "tok \<in> set toks" using Cons.prems assms(3) by auto
    moreover have "apply_words A K a field ns n (t # toks) s =
        apply_words A K a field ns (n + 1) toks (s\<lparr>os := snd (archive_setter K f a (os s))\<rparr>)"
      using Some assms(1) by (simp add: call_os_def split: prod.splits) (metis fst_conv)
    ultimately show ?thesis using Cons.IH by metis
  qed
qed simp

text \<open>What the four tables make of their own names.\<close>

definition table_ok :: "named_setter list \<Rightarrow> bool" where
  "table_ok ns \<longleftrightarrow> list_all (\<lambda>(name, f).
     if CHR ''_'' \<in> set name then list_ex (\<lambda>w. pick ns w = None) (alnum_words name)
     else alnum_words name = [name] \<and> pick ns name = Some f) ns"

lemma tables_ok: "table_ok ns_rfilters" "table_ok ns_rformats" "table_ok ns_wfilters" "table_ok ns_wformats"
  by code_simp+

section \<open>Numbers as text\<close>

definition dig :: "nat \<Rightarrow> char" where
  "dig d = char_of (if d < 10 then 48 + d else 87 + d)"

text \<open>The digits of a number in base \<open>b\<close>.\<close>

fun show_base :: "nat \<Rightarrow> nat \<Rightarrow> string" where
  "show_base b n = (if n < b \<or> b < 2 then [dig n] else show_base b (n div b) @ [dig (n mod b)])"

declare show_base.simps [simp del]

lemma digit_val_dig [simp]: "d < 36 \<Longrightarrow> digit_val (dig d) = d"
  by (simp add: dig_def digit_val_def Let_def)

lemma digit_not_special:
  assumes "digit_val c < 36"
  shows "\<not> c_isspace c" "c \<noteq> CHR ''-''" "c \<noteq> CHR ''+''"
proof -
  have "digit_val (CHR '' '') = 36" "digit_val (CHR ''-'') = 36" "digit_val (CHR ''+'') = 36" by code_simp+
  then show "c \<noteq> CHR ''-''" "c \<noteq> CHR ''+''" "\<not> c_isspace c"
    using assms by (auto simp: c_isspace_def) (auto simp: digit_val_def Let_def split: if_splits)
qed

lemma show_base_digits:
  assumes "2 \<le> b" and "b \<le> 36" and "c \<in> set (show_base b n)"
  shows "digit_val c < b"
  using assms
proof (induction b n rule: show_base.induct)
  case (1 b n)
  have m: "n mod b < b" "n mod b < 36" using 1(2,3) mod_less_divisor [of b n] by linarith+
  show ?case
    using 1 m by (auto simp: show_base.simps [of b n] simp del: mod_less_divisor split: if_splits)
qed

lemma show_base_nonempty [simp]: "show_base b n \<noteq> []"
  by (simp add: show_base.simps)

lemma show_base_value:
  assumes "2 \<le> b" and "b \<le> 36"
  shows "foldl (\<lambda>a c. a * b + digit_val c) 0 (show_base b n) = n"
  using assms
proof (induction b n rule: show_base.induct)
  case (1 b n)
  have "n mod b < 36" using 1(2,3) mod_less_divisor [of b n] by linarith
  then show ?case
    using 1 by (auto simp: show_base.simps [of b n])
qed

lemma scan_digits_all:
  assumes "\<And>c. c \<in> set xs \<Longrightarrow> digit_val c < b"
  shows "scan_digits b acc xs = (foldl (\<lambda>a c. a * b + digit_val c) acc xs, [])"
  using assms by (induction xs arbitrary: acc) auto

lemma show_base_head: "2 \<le> b \<Longrightarrow> b \<le> 36 \<Longrightarrow> 0 < n \<Longrightarrow> digit_val (hd (show_base b n)) \<noteq> 0"
proof (induction b n rule: show_base.induct)
  case (1 b n)
  show ?case
  proof (cases "n < b")
    case True
    then show ?thesis using 1 by (simp add: show_base.simps [of b n])
  next
    case False
    then have "0 < n div b" using 1(2) by (simp add: div_greater_zero_iff)
    then show ?thesis using 1 False by (simp add: show_base.simps [of b n])
  qed
qed

lemma strtoul_show:
  assumes "2 \<le> b" and "b \<le> 36" and "n < 2 ^ 64"
  shows "strtoul b (show_base b n) = Some (word_of_nat n, [])"
proof -
  let ?x = "show_base b n"
  note d = show_base_digits [OF assms(1,2)]
  have h: "digit_val (hd ?x) < b" by (rule d [OF hd_in_set]) simp
  then have sp: "\<not> c_isspace (hd ?x)" "hd ?x \<noteq> CHR ''-''" "hd ?x \<noteq> CHR ''+''"
    using digit_not_special [of "hd ?x"] assms(2) by auto
  then have "dropWhile c_isspace ?x = ?x" by (cases ?x) auto
  moreover have "\<not> (b = 16 \<and> length ?x > 2 \<and> ?x ! 1 \<in> {CHR ''x'', CHR ''X''})"
  proof
    assume a: "b = 16 \<and> length ?x > 2 \<and> ?x ! 1 \<in> {CHR ''x'', CHR ''X''}"
    then have "digit_val (?x ! 1) < b" by (intro d [OF nth_mem]) auto
    moreover have "digit_val (CHR ''x'') = 33" "digit_val (CHR ''X'') = 33" by code_simp+
    ultimately show False using a by auto
  qed
  ultimately show ?thesis
    using h sp assms(3) scan_digits_all [of ?x b 0] d show_base_value [OF assms(1,2), of n]
    by (auto simp: strtoul_def Let_def)
qed

text \<open>The notations the code accepts: octal, binary, hexadecimal, and decimal without a leading zero.\<close>

datatype number_base = Octal | Binary | Hexadecimal | Decimal

fun show_bits :: "number_base \<Rightarrow> nat \<Rightarrow> string" where
  "show_bits Octal n = CHR ''0'' # show_base 8 n"
| "show_bits Binary n = ''0b'' @ show_base 2 n"
| "show_bits Hexadecimal n = ''0x'' @ show_base 16 n"
| "show_bits Decimal n = show_base 10 n"

lemma bits_prefix_octal: "bits_prefix (CHR ''0'' # show_base 8 n) = (8, show_base 8 n)"
proof -
  obtain c cs where x: "show_base 8 n = c # cs" by (cases "show_base 8 n") auto
  have "digit_val c < 8" using show_base_digits [of 8 c n] x by simp
  moreover have "digit_val (CHR ''b'') = 11" "digit_val (CHR ''B'') = 11" "digit_val (CHR ''x'') = 33"
    "digit_val (CHR ''X'') = 33" by code_simp+
  ultimately show ?thesis using x by auto
qed

lemma bits_prefix_decimal: "0 < n \<Longrightarrow> bits_prefix (show_base 10 n) = (10, show_base 10 n)"
proof -
  assume "0 < n"
  then have "digit_val (hd (show_base 10 n)) \<noteq> 0" using show_base_head [of 10 n] by simp
  moreover have "digit_val (CHR ''0'') = 0" by code_simp
  ultimately have "hd (show_base 10 n) \<noteq> CHR ''0''" by auto
  then show ?thesis by (cases "show_base 10 n" rule: bits_prefix.cases) auto
qed

lemma parse_bits_show:
  assumes "n < 2 ^ 64" and "b = Decimal \<longrightarrow> 0 < n"
  shows "parse_bits (show_bits b n) = Some (word_of_nat n)"
  using assms(2) strtoul_show [OF _ _ assms(1)] bits_prefix_octal [of n] bits_prefix_decimal [of n]
  by (cases b) (simp_all add: parse_bits_def)

lemma parse_bits_zero: "parse_bits ''0'' = None"
  by code_simp

section \<open>Properties\<close>


text \<open>A library that records what it is told; closing an archive fails.\<close>

definition ref_arc :: "string list arcapi" where
  "ref_arc =
     \<lparr>ARCHIVE_OK = 0, ARCHIVE_EOF = 1, AE_IFMT = 1, AE_IFREG = 2, AE_IFLNK = 3, AE_IFSOCK = 4,
      AE_IFCHR = 5, AE_IFBLK = 6, AE_IFDIR = 7, AE_IFIFO = 8,
      archive_error_string = (\<lambda>_ _. None), archive_set_error = (\<lambda>_ _ w. w),
      archive_version_details = [], archive_entry_new = (\<lambda>w. (1, w)),
      archive_entry_free = (\<lambda>_ w. w), archive_entry_fflags_text = (\<lambda>_ _. None),
      archive_entry_copy_fflags_text = (\<lambda>_ _ w. (None, w)),
      archive_entry_size_is_set = (\<lambda>_ _. True), archive_entry_size = (\<lambda>_ _. 0),
      archive_entry_unset_size = (\<lambda>_ w. w), archive_entry_set_size = (\<lambda>_ _ w. w),
      archive_entry_filetype = (\<lambda>_ _. 1), archive_entry_set_filetype = (\<lambda>_ _ w. w),
      archive_entry_number = (\<lambda>_ _ _. 0), archive_entry_set_number = (\<lambda>_ _ _ w. w),
      archive_entry_string = (\<lambda>_ _ _. None), archive_entry_copy_string = (\<lambda>_ _ _ w. w),
      archive_entry_time_is_set = (\<lambda>_ _ _. True),
      archive_entry_time = (\<lambda>_ _ _. 1700000000), archive_entry_time_nsec = (\<lambda>_ _ _. 0),
      archive_entry_unset_time = (\<lambda>_ _ w. w),
      archive_entry_set_time = (\<lambda>name _ sec nsec w. w @ [name, show_base 10 (nat sec), show_base 10 (nat nsec)]),
      archive_entry_perm = (\<lambda>_ _. 1), archive_entry_strmode = (\<lambda>_ _. []),
      archive_entry_set_bits = (\<lambda>name _ n w. w @ [name, show_base 8 (unat n)]),
      archive_setter = (\<lambda>f _ w. (0, w @ [f])), archive_new = (\<lambda>_ w. (1, w)),
      archive_set_options = (\<lambda>_ _ _ w. (0, w)), archive_set_integer = (\<lambda>_ _ _ w. (0, w)),
      archive_open = (\<lambda>_ _ w. (0, w)), archive_close = (\<lambda>_ _ w. (- 30, w @ [''close''])),
      archive_free = (\<lambda>_ _ w. (0, w @ [''free''])),
      archive_read_next_header2 = (\<lambda>_ _ w. (0, w)),
      archive_read_data_block = (\<lambda>_ w. ((0, [], 0), w)),
      archive_write_header = (\<lambda>_ _ w. (0, w)),
      archive_write_data = (\<lambda>_ _ w. (0, w))\<rparr>"

definition arc_st :: "lval list \<Rightarrow> string \<Rightarrow> (ref_vm, string list) st" where
  "arc_st xs name = \<lparr>vm = \<lparr>r_stk = xs, r_tab = (\<lambda>_ _. LNil), r_meta = (\<lambda>_. Some name), r_next = 9,
     r_fld = (\<lambda>_ _. LNil), r_upv = [], r_glob = (\<lambda>_. LNil)\<rparr>, mem = (\<lambda>_ _. 5), os = []\<rparr>"


text \<open>
  Mode and permission bits given as text: every number below \<open>2 ^ 64\<close> written in octal, binary, hexadecimal or, if
  not 0, in decimal sets the low 32 bits of exactly that number, and \<open>perm\<close> and \<open>mode\<close> return one value;
  the text \<open>0\<close> is silently ignored.
\<close>

theorem entry_bits_text:
  assumes "lua_vm A stk tget meta" and "stk (vm s) = [LUd u, LStr x]" and "meta (vm s) u = Some METH_ARCHIVE_ENTRY"
  shows "(\<forall>b n. x = show_bits b n \<and> n < 2 ^ 64 \<and> (b = Decimal \<longrightarrow> 0 < n) \<longrightarrow>
      (\<exists>s1 s2. entry_perm A K s = Some (Inr 1, s1) \<and> entry_mode A K s = Some (Inr 1, s2) \<and>
        os s1 = archive_entry_set_bits K ''perm'' (mem s u 0) (word_of_nat n) (os s) \<and>
        os s2 = archive_entry_set_bits K ''mode'' (mem s u 0) (word_of_nat n) (os s))) \<and>
    (x = ''0'' \<longrightarrow> (\<exists>s1. entry_perm A K s = Some (Inr 1, s1) \<and> os s1 = os s))"
proof -
  have e: "toentry A 1 s = Inr (mem s u 0)"
    using lua_vm.checkudata_at [OF assms(1) _ assms(3), of 1] assms(2) by (simp add: toentry_def toudata_def toudatap_def at_def)
  have l: "lua_gettop A (vm s) = 2" using lua_vm.gettop_law [OF assms(1)] assms(2) by simp
  have "DEF_ENTRY_BITS_METH name push A K s = Some (Inr 1, case parse_bits x of
      None \<Rightarrow> upd_vm (push (os s) (mem s u 0)) s
    | Some n \<Rightarrow> do_os (archive_entry_set_bits K name (mem s u 0) (ucast n)) (upd_vm (push (os s) (mem s u 0)) s))"
    if "\<And>w e v. stk (push w e v) = stk v @ [y w e]" for name push and y :: "'b \<Rightarrow> 64 word \<Rightarrow> lval"
  proof -
    have "at (stk (push (os s) (mem s u 0) (vm s))) 2 = Some (LStr x)" using that assms(2) by (simp add: at_def)
    then show ?thesis
      using lua_vm.type_at [OF assms(1)] lua_vm.tostring_law [OF assms(1)] l
      by (simp add: DEF_ENTRY_BITS_METH_def e Let_def)
  qed
  note run = this [where push = "\<lambda>w e v. lua_pushnumber A v (uint (archive_entry_perm K e w))" and name = "''perm''",
      OF lua_vm.pushnumber_law(1) [OF assms(1)]]
    this [where push = "\<lambda>w e v. lua_pushstring A v (archive_entry_strmode K e w)" and name = "''mode''",
      OF lua_vm.pushstring_law(1) [OF assms(1)]]
  have "\<exists>s1 s2. entry_perm A K s = Some (Inr 1, s1) \<and> entry_mode A K s = Some (Inr 1, s2) \<and>
        os s1 = archive_entry_set_bits K ''perm'' (mem s u 0) (word_of_nat n) (os s) \<and>
        os s2 = archive_entry_set_bits K ''mode'' (mem s u 0) (word_of_nat n) (os s)"
    if "x = show_bits b n" "n < 2 ^ 64" "b = Decimal \<longrightarrow> 0 < n" for b n
    using run parse_bits_show [OF that(2,3)] that(1)
    by (simp add: entry_perm_def entry_mode_def ucast_of_nat_down)
  moreover have "\<exists>s1. entry_perm A K s = Some (Inr 1, s1) \<and> os s1 = os s" if "x = ''0''"
    using run(1) that parse_bits_zero by (simp add: entry_perm_def)
  ultimately show ?thesis by blast
qed

theorem entry_bits_text_witness:
  "\<exists>s1 s2. entry_perm ref_lua ref_arc (arc_st [LUd 3, LStr ''0755''] METH_ARCHIVE_ENTRY) = Some (Inr 1, s1) \<and>
    os s1 = [''perm'', ''755''] \<and>
    entry_perm ref_lua ref_arc (arc_st [LUd 3, LStr ''0''] METH_ARCHIVE_ENTRY) = Some (Inr 1, s2) \<and> os s2 = []"
proof -
  have st: "r_stk (vm (arc_st xs m)) = xs" "r_meta (vm (arc_st xs m)) 3 = Some m" "os (arc_st xs m) = []" for xs m
    by (simp_all add: arc_st_def)
  have x: "''0755'' = show_bits Octal 493 \<and> (493 :: nat) < 2 ^ 64 \<and> (Octal = Decimal \<longrightarrow> (0 :: nat) < 493)"
  proof (intro conjI)
    show "''0755'' = show_bits Octal 493" by code_simp
  qed simp_all
  have "show_base 8 493 = ''755''" by code_simp
  then have y: "archive_entry_set_bits ref_arc ''perm'' e (word_of_nat 493) [] = [''perm'', ''755'']" for e
    by (simp add: ref_arc_def)
  note t = entry_bits_text [OF rv.lua_vm_axioms st(1,2), where K = ref_arc]
  obtain s1 where "entry_perm ref_lua ref_arc (arc_st [LUd 3, LStr ''0755''] METH_ARCHIVE_ENTRY) = Some (Inr 1, s1)"
    "os s1 = [''perm'', ''755'']"
    using t [of "''0755''", THEN conjunct1, THEN spec, THEN spec, THEN mp, OF x] st(3) y by metis
  moreover obtain s2 where "entry_perm ref_lua ref_arc (arc_st [LUd 3, LStr ''0''] METH_ARCHIVE_ENTRY) = Some (Inr 1, s2)"
    "os s2 = []"
    using t [of "''0''", THEN conjunct2, THEN mp, OF refl] st(3) by metis
  ultimately show ?thesis by blast
qed

text \<open>
  Setting a time stamp with one number: on an entry whose time stamp is already set, the nanoseconds are
  taken from the stack position of the old seconds, which the function has just pushed; on an entry
  without a time stamp they are 0.
\<close>

theorem entry_time_stale_nsec:
  assumes "lua_vm A stk tget meta" and "stk (vm s) = [LUd u, LNum t]" and "meta (vm s) u = Some METH_ARCHIVE_ENTRY"
  shows "\<exists>s'. DEF_ENTRY_TIME_METH time A K s =
      Some (Inr (if archive_entry_time_is_set K time (mem s u 0) (os s) then 2 else 0), s') \<and>
    os s' = archive_entry_set_time K time (mem s u 0) t
      (if archive_entry_time_is_set K time (mem s u 0) (os s) then archive_entry_time K time (mem s u 0) (os s) else 0) (os s)"
proof -
  let ?e = "mem s u 0"
  define v1 where "v1 = (if archive_entry_time_is_set K time ?e (os s) then
      lua_pushnumber A (lua_pushnumber A (vm s) (archive_entry_time K time ?e (os s))) (archive_entry_time_nsec K time ?e (os s))
    else vm s)"
  have e: "toentry A 1 s = Inr ?e"
    using lua_vm.checkudata_at [OF assms(1) _ assms(3), of 1] assms(2) by (simp add: toentry_def toudata_def toudatap_def at_def)
  have l: "lua_gettop A (vm s) = 2" using lua_vm.gettop_law [OF assms(1)] assms(2) by simp
  have at2: "at (stk v1) 2 = Some (LNum t)"
    and at3: "at (stk v1) 3 = (if archive_entry_time_is_set K time ?e (os s) then Some (LNum (archive_entry_time K time ?e (os s))) else None)"
    using assms(2) lua_vm.pushnumber_law(1) [OF assms(1)] by (simp_all add: v1_def at_def)
  have n: "lua_tonumber A v1 2 = t"
    "lua_tonumber A v1 3 = (if archive_entry_time_is_set K time ?e (os s) then archive_entry_time K time ?e (os s) else 0)"
    using lua_vm.tonumber_law(1) [OF assms(1) at2] lua_vm.tonumber_law [OF assms(1)] at3 by (auto split: if_splits)
  have ty: "lua_type A v1 2 = LUA_TNUMBER" using lua_vm.type_at [OF assms(1) at2] by simp
  have "\<not> lua_isnil A v1 2" using ty by (simp add: lua_isnil_def)
  then show ?thesis
    using l n ty by (auto simp: DEF_ENTRY_TIME_METH_def e Let_def v1_def split: if_splits)
qed

theorem entry_time_stale_nsec_witness:
  "\<exists>s'. DEF_ENTRY_TIME_METH ''mtime'' ref_lua ref_arc (arc_st [LUd 1, LNum 100] METH_ARCHIVE_ENTRY) = Some (Inr 2, s') \<and>
    os s' = archive_entry_set_time ref_arc ''mtime'' 5 100 1700000000 []"
proof -
  let ?s = "arc_st [LUd 1, LNum 100] METH_ARCHIVE_ENTRY"
  have st: "r_stk (vm ?s) = [LUd 1, LNum 100]" "r_meta (vm ?s) 1 = Some METH_ARCHIVE_ENTRY" "mem ?s 1 0 = 5" "os ?s = []"
    "archive_entry_time_is_set ref_arc ''mtime'' 5 []" "archive_entry_time ref_arc ''mtime'' 5 [] = 1700000000"
    by (simp_all add: arc_st_def ref_arc_def)
  show ?thesis using entry_time_stale_nsec [OF rv.lua_vm_axioms st(1,2), of "''mtime''" ref_arc] st by simp
qed

lemma archive_free_failing:
  assumes "lua_vm A stk tget meta" and "stk (vm s) = [LUd u]" and "meta (vm s) u = Some m"
    and "mem s u 0 \<noteq> 0" and "fst (archive_close K name (mem s u 0) (os s)) \<noteq> ARCHIVE_OK K"
  shows "\<exists>e s'. DEF_ARCHIVE_FREE name m cb lua_call A K s = Some (Inl e, s') \<and> mem s' = mem s \<and>
    os s' = snd (archive_free K name (mem s u 0) (snd (archive_close K name (mem s u 0) (os s))))"
proof -
  let ?a = "mem s u 0"
  have at: "at (stk (vm s)) 1 = Some (LUd u)" "at (stk (vm s)) (- 1) = Some (LUd u)"
    using assms(2) by (simp_all add: at_def)
  have p: "toudatap A m 1 s = Inr u" using lua_vm.checkudata_at [OF assms(1) at(1) assms(3)] by (simp add: toudatap_def)
  have ty: "luaL_checktype A (vm s) (- 1) LUA_TUSERDATA = Inr ()"
    using lua_vm.type_at [OF assms(1) at(2)] by (simp add: luaL_checktype_def)
  obtain r w where c: "archive_close K name ?a (os s) = (r, w)" by fastforce
  obtain r' w' where f: "archive_free K name ?a w = (r', w')" by fastforce
  show ?thesis
    using assms(4,5) c f
    by (simp add: DEF_ARCHIVE_FREE_def p registry_set_def ty andthen_def call_os_def Let_def)
qed

text \<open>
  Releasing an archive whose close fails: the archive is released and a Lua error raised, but the
  pointer stays in the userdata, so the collection of the userdata closes and releases it again.
\<close>

theorem archive_free_dangling:
  assumes "lua_vm A stk tget meta" and "stk (vm s) = [LUd u]" and "meta (vm s) u = Some METH_ARCHIVE_WRITE"
    and "a = mem s u 0" and "a \<noteq> 0" and "\<And>w. fst (archive_close K ''write'' a w) \<noteq> ARCHIVE_OK K"
  shows "\<exists>e s1 e' s2. write_archive_free lua_call A K s = Some (Inl e, s1) \<and>
    write_archive_free lua_call A K (s1\<lparr>vm := vm s\<rparr>) = Some (Inl e', s2) \<and>
    os s1 = snd (archive_free K ''write'' a (snd (archive_close K ''write'' a (os s)))) \<and>
    os s2 = snd (archive_free K ''write'' a (snd (archive_close K ''write'' a (os s1))))"
proof -
  obtain e s1 where s1: "write_archive_free lua_call A K s = Some (Inl e, s1)" "mem s1 = mem s"
    "os s1 = snd (archive_free K ''write'' a (snd (archive_close K ''write'' a (os s))))"
    using archive_free_failing [OF assms(1-3), of K "''write''" "''writer''" lua_call] assms(4-6)
    by (auto simp: write_archive_free_def)
  have again: "stk (vm (s1\<lparr>vm := vm s\<rparr>)) = [LUd u]" "meta (vm (s1\<lparr>vm := vm s\<rparr>)) u = Some METH_ARCHIVE_WRITE"
    using assms(2,3) by simp_all
  show ?thesis
    using archive_free_failing [OF assms(1) again, of K "''write''" "''writer''" lua_call] s1 assms(4-6)
    by (auto simp: write_archive_free_def)
qed

theorem archive_free_dangling_witness:
  "\<exists>e s1 e' s2. write_archive_free (\<lambda>_ _ _. None) ref_lua ref_arc (arc_st [LUd 1] METH_ARCHIVE_WRITE) = Some (Inl e, s1) \<and>
    write_archive_free (\<lambda>_ _ _. None) ref_lua ref_arc (s1\<lparr>vm := vm (arc_st [LUd 1] METH_ARCHIVE_WRITE)\<rparr>) = Some (Inl e', s2) \<and>
    os s2 = [''close'', ''free'', ''close'', ''free'']"
proof -
  let ?s = "arc_st [LUd 1] METH_ARCHIVE_WRITE"
  have st: "r_stk (vm ?s) = [LUd 1]" "r_meta (vm ?s) 1 = Some METH_ARCHIVE_WRITE" "(5 :: 64 word) = mem ?s 1 0"
    "(5 :: 64 word) \<noteq> 0" by (simp_all add: arc_st_def)
  have cl: "fst (archive_close ref_arc ''write'' 5 w) \<noteq> ARCHIVE_OK ref_arc" for w by (simp add: ref_arc_def)
  have "snd (archive_close ref_arc ''write'' 5 w) = w @ [''close'']" "snd (archive_free ref_arc ''write'' 5 w) = w @ [''free'']" for w
    by (simp_all add: ref_arc_def)
  moreover have "os ?s = []" by (simp add: arc_st_def)
  ultimately show ?thesis
    using archive_free_dangling [OF rv.lua_vm_axioms st cl, of "\<lambda>_ _ _. None"] by fastforce
qed

end
