(* ===== verification/Lua_Systemd.thy ===== *)
theory Lua_Systemd
  imports Lua_Aux
begin

text \<open>
  The systemd binding (\<open>src/daemon/lua_systemd.c\<close>): messages and connections of sd-bus. The record \<open>sdapi\<close> has
  the library functions and the system calls of the peer check. \<open>sd_bus_message_read_basic\<close> writes as many bytes of
  the variable \<open>p\<close> as the type has; the field takes the old and returns the new content. \<open>sd_cstr\<close> reads the C string
  at an address. Functions whose name the D-Bus binding uses as well have the prefix \<open>systemd_\<close>.
\<close>

record 'w sdapi =
  SD_BUS_TYPE_BOOLEAN :: char
  SD_BUS_TYPE_INT16 :: char
  SD_BUS_TYPE_UINT16 :: char
  SD_BUS_TYPE_INT32 :: char
  SD_BUS_TYPE_UINT32 :: char
  SD_BUS_TYPE_STRING :: char
  SD_BUS_TYPE_OBJECT_PATH :: char
  SD_BUS_TYPE_ARRAY :: char
  sd_cstr :: "64 word \<Rightarrow> 'w \<Rightarrow> string"
  sd_bus_message_append_string :: "64 word \<Rightarrow> char \<Rightarrow> string \<Rightarrow> 'w \<Rightarrow> int \<times> 'w"
  sd_bus_message_append_word :: "64 word \<Rightarrow> char \<Rightarrow> 32 word \<Rightarrow> 'w \<Rightarrow> int \<times> 'w"
  sd_bus_message_read_basic :: "64 word \<Rightarrow> char \<Rightarrow> 64 word \<Rightarrow> 'w \<Rightarrow> (int \<times> 64 word) \<times> 'w"
  sd_bus_message_peek_type :: "64 word \<Rightarrow> 'w \<Rightarrow> int \<times> char \<times> string option"
  sd_bus_message_enter_container :: "64 word \<Rightarrow> char \<Rightarrow> string option \<Rightarrow> 'w \<Rightarrow> int \<times> 'w"
  sd_bus_message_exit_container :: "64 word \<Rightarrow> 'w \<Rightarrow> int \<times> 'w"
  sd_bus_message_rewind :: "64 word \<Rightarrow> bool \<Rightarrow> 'w \<Rightarrow> int \<times> 'w"
  sd_bus_message_unref :: "64 word \<Rightarrow> 'w \<Rightarrow> 'w"
  sd_bus_set_flag :: "string \<Rightarrow> 64 word \<Rightarrow> bool \<Rightarrow> 'w \<Rightarrow> int \<times> 'w"
  sd_bus_get_flag :: "string \<Rightarrow> 64 word \<Rightarrow> 'w \<Rightarrow> int"
  sd_bus_set_address :: "64 word \<Rightarrow> string \<Rightarrow> 'w \<Rightarrow> int \<times> 'w"
  sd_bus_get_fd :: "64 word \<Rightarrow> 'w \<Rightarrow> int"
  sd_getsockopt_peercred :: "int \<Rightarrow> 'w \<Rightarrow> int \<times> nat \<times> int \<times> 32 word"
  sizeof_ucred :: nat
  sd_errno :: "'w \<Rightarrow> int"
  sd_geteuid :: "'w \<Rightarrow> 32 word"
  sd_bus_start :: "64 word \<Rightarrow> 'w \<Rightarrow> int \<times> 'w"
  sd_bus_message_new :: "64 word \<Rightarrow> 8 word \<Rightarrow> 'w \<Rightarrow> (int \<times> 64 word option) \<times> 'w"
  sd_bus_message_new_signal :: "64 word \<Rightarrow> string \<Rightarrow> string \<Rightarrow> string \<Rightarrow> 'w \<Rightarrow> (int \<times> 64 word option) \<times> 'w"
  sd_bus_message_new_method_call ::
    "64 word \<Rightarrow> string \<Rightarrow> string \<Rightarrow> string \<Rightarrow> string \<Rightarrow> 'w \<Rightarrow> (int \<times> 64 word option) \<times> 'w"
  sd_bus_call :: "64 word \<Rightarrow> 64 word \<Rightarrow> 64 word \<Rightarrow> 'w \<Rightarrow> (int \<times> 64 word option \<times> 64 word) \<times> 'w"
  sd_bus_error_free :: "64 word \<Rightarrow> 'w \<Rightarrow> 'w"
  sd_bus_call_method ::
    "64 word \<Rightarrow> string \<Rightarrow> string \<Rightarrow> string \<Rightarrow> string \<Rightarrow> string \<Rightarrow> string \<Rightarrow> 'w \<Rightarrow>
      (int \<times> 64 word option \<times> 64 word) \<times> 'w"
  sd_bus_close :: "64 word \<Rightarrow> 'w \<Rightarrow> 'w"
  sd_booted :: "'w \<Rightarrow> int"
  sd_bus_open :: "string \<Rightarrow> 'w \<Rightarrow> (int \<times> 64 word option) \<times> 'w"
  sd_bus_open_with :: "string \<Rightarrow> string \<Rightarrow> 'w \<Rightarrow> (int \<times> 64 word option) \<times> 'w"

definition METH_SYSTEMD_BUS :: string where "METH_SYSTEMD_BUS = ''meth_systemd_bus''"
definition METH_SYSTEMD_MESSAGE :: string where "METH_SYSTEMD_MESSAGE = ''meth_systemd_message''"

type_synonym ('v, 'w) sdfun = "'v lua_api \<Rightarrow> 'w sdapi \<Rightarrow> ('v, 'w) st \<Rightarrow> ('v, 'w) ret"

definition tobus :: "'v lua_api \<Rightarrow> int \<Rightarrow> ('v, 'w) st \<Rightarrow> string + 64 word" where
  "tobus A idx s = toudata A METH_SYSTEMD_BUS idx s"

definition systemd_tomessage :: "'v lua_api \<Rightarrow> int \<Rightarrow> ('v, 'w) st \<Rightarrow> string + 64 word" where
  "systemd_tomessage A idx s = toudata A METH_SYSTEMD_MESSAGE idx s"

text \<open>\<open>lua_pushnil(L); lua_pushinteger(L, -err); return 2;\<close>\<close>

definition sd_error :: "'v lua_api \<Rightarrow> int \<Rightarrow> ('v, 'w) st \<Rightarrow> ('v, 'w) ret" where
  "sd_error A err s = push_ret 2 (\<lambda>v. lua_pushinteger A (lua_pushnil A v) (- err)) s"

section \<open>Messages\<close>

function systemd_append_loop ::
  "'v lua_api \<Rightarrow> 'w sdapi \<Rightarrow> 'v \<Rightarrow> 64 word \<Rightarrow> int \<Rightarrow> int \<Rightarrow> 'w \<Rightarrow> int \<times> 'w" where
  "systemd_append_loop A K v m n idx w =
     (if n < idx then (0, w)
      else
        (let (err, w1) = (case lua_type A v idx of
               LUA_TSTRING \<Rightarrow> sd_bus_message_append_string K m (SD_BUS_TYPE_STRING K) (lua_tostring A v idx) w
             | LUA_TNUMBER \<Rightarrow> sd_bus_message_append_word K m (SD_BUS_TYPE_UINT32 K) (c_uint (lua_tointeger A v idx)) w
             | _ \<Rightarrow> (- EINVAL, w))
         in if err < 0 then (err, w1) else systemd_append_loop A K v m n (idx + 1) w1))"
  by auto
termination
  by (relation "measure (\<lambda>(A, K, v, m, n, idx, w). nat (n + 1 - idx))") auto

declare systemd_append_loop.simps [simp del]

definition systemd_message_append :: "('v, 'w) sdfun" where
  "systemd_message_append A K s =
     arg (systemd_tomessage A 1 s) s (\<lambda>m.
       let (err, s1) = call_os (systemd_append_loop A K (vm s) m (lua_gettop A (vm s)) 2) s
       in if err < 0 then sd_error A err s1 else push_ret 1 (\<lambda>v. lua_settop A v 1) s1)"

text \<open>A string at an address; NULL pushes nil.\<close>

definition push_ptr :: "'v lua_api \<Rightarrow> 'w sdapi \<Rightarrow> 'w \<Rightarrow> 64 word \<Rightarrow> 'v \<Rightarrow> 'v" where
  "push_ptr A K w p v = push_cstring A v (if p = 0 then None else Some (sd_cstr K p w))"

definition message_read_basic :: "('v, 'w) sdfun" where
  "message_read_basic A K s =
     arg (systemd_tomessage A 1 s) s (\<lambda>m.
     arg (luaL_checkinteger A (vm s) 2) s (\<lambda>n.
       let type = char_of (nat (n mod 256));
           ((err, p), s1) = call_os (sd_bus_message_read_basic K m type 0) s
       in if err < 0 then sd_error A err s1
          else
            push_ret 1 (\<lambda>v.
              if type = SD_BUS_TYPE_STRING K then push_ptr A K (os s1) p v
              else if type = SD_BUS_TYPE_UINT32 K then lua_pushinteger A v (uint (ucast p :: 32 word))
              else lua_pushnil A v) s1))"

text \<open>The switch of \<open>message_read\<close>.\<close>

definition push_read :: "'v lua_api \<Rightarrow> 'w sdapi \<Rightarrow> 'w \<Rightarrow> char \<Rightarrow> 64 word \<Rightarrow> 'v \<Rightarrow> 'v" where
  "push_read A K w t p v =
     (if t = SD_BUS_TYPE_BOOLEAN K then lua_pushboolean A v ((ucast p :: 32 word) \<noteq> 0)
      else if t = SD_BUS_TYPE_INT16 K then lua_pushinteger A v (sint (ucast p :: 16 word))
      else if t = SD_BUS_TYPE_UINT16 K then lua_pushinteger A v (uint (ucast p :: 16 word))
      else if t = SD_BUS_TYPE_INT32 K then lua_pushinteger A v (sint (ucast p :: 32 word))
      else if t = SD_BUS_TYPE_UINT32 K then lua_pushinteger A v (uint (ucast p :: 32 word))
      else if t = SD_BUS_TYPE_STRING K \<or> t = SD_BUS_TYPE_OBJECT_PATH K then push_ptr A K w p v
      else lua_pushnil A v)"

text \<open>The loop over the type characters; \<open>p\<close> keeps its content from one round to the next.\<close>

fun read_loop :: "'v lua_api \<Rightarrow> 'w sdapi \<Rightarrow> 64 word \<Rightarrow> string \<Rightarrow> 64 word \<Rightarrow> nat \<Rightarrow> ('v, 'w) st \<Rightarrow> ('v, 'w) ret" where
  "read_loop A K m [] p nres s = Some (Inr nres, s)"
| "read_loop A K m (t # ts) p nres s =
     (let ((err, p1), s1) = call_os (sd_bus_message_read_basic K m t p) s
      in if err < 0 then sd_error A err s1
         else read_loop A K m ts p1 (nres + 1) (upd_vm (push_read A K (os s1) t p1) s1))"

definition message_read :: "('v, 'w) sdfun" where
  "message_read A K s =
     arg (systemd_tomessage A 1 s) s (\<lambda>m.
     arg (luaL_checkstring A (vm s) 2) s (\<lambda>types. read_loop A K m types 0 0 s))"

text \<open>
  The loop of \<open>do_message_decode\<close> with the recursive call for an array; the value is the \<open>int\<close> the C function
  returns. All container types but arrays and all other basic types end in \<open>-EDOM\<close>.
\<close>

partial_function (option) do_message_decode ::
  "'v lua_api \<Rightarrow> 'w sdapi \<Rightarrow> 64 word \<Rightarrow> int \<Rightarrow> ('v, 'w) st \<Rightarrow> (int \<times> ('v, 'w) st) option" where
  "do_message_decode A K m idx s =
     (let (err, type, types) = sd_bus_message_peek_type K m (os s)
      in if err \<le> 0 then Some (err, s)
         else
           (let ((err, p), s1) = call_os (sd_bus_message_read_basic K m type 0) s
            in if err < 0 then Some (err, s1)
               else if type = SD_BUS_TYPE_UINT32 K then
                 do_message_decode A K m (idx + 1) (upd_vm (\<lambda>v.
                   lua_rawseti A (lua_pushinteger A v (uint (ucast p :: 32 word))) (- 2) idx) s1)
               else if type = SD_BUS_TYPE_STRING K \<or> type = SD_BUS_TYPE_OBJECT_PATH K then
                 do_message_decode A K m (idx + 1) (upd_vm (\<lambda>v.
                   lua_rawseti A (push_ptr A K (os s1) p v) (- 2) idx) s1)
               else if type = SD_BUS_TYPE_ARRAY K then
                 (let (err, s2) = call_os (sd_bus_message_enter_container K m (SD_BUS_TYPE_ARRAY K) types) s1
                  in if err \<le> 0 then Some (err, s2)
                     else
                       do {
                         (err, s3) \<leftarrow> do_message_decode A K m 1 (upd_vm (lua_newtable A) s2);
                         (if err < 0 then Some (err, s3)
                          else
                            (let (err, s4) = call_os (sd_bus_message_exit_container K m)
                                               (upd_vm (\<lambda>v. lua_rawseti A v (- 2) idx) s3)
                             in if err < 0 then Some (err, s4) else do_message_decode A K m (idx + 1) s4))
                       })
               else Some (- EDOM, s1)))"

declare do_message_decode.simps [code]

definition systemd_message_decode :: "('v, 'w) sdfun" where
  "systemd_message_decode A K s =
     arg (systemd_tomessage A 1 s) s (\<lambda>m.
       case do_message_decode A K m 1 (upd_vm (lua_newtable A) s) of
         None \<Rightarrow> None
       | Some (err, s1) \<Rightarrow> if err < 0 then sd_error A err s1 else Some (Inr 1, s1))"

definition message_peek_type :: "('v, 'w) sdfun" where
  "message_peek_type A K s =
     arg (systemd_tomessage A 1 s) s (\<lambda>m.
       let (err, type, types) = sd_bus_message_peek_type K m (os s)
       in if err \<le> 0 then sd_error A err s
          else push_ret 2 (\<lambda>v. push_cstring A (lua_pushinteger A v (sint (of_char type :: 8 word))) types) s)"

definition message_rewind :: "('v, 'w) sdfun" where
  "message_rewind A K s =
     arg (systemd_tomessage A 1 s) s (\<lambda>m.
       let (err, s1) = call_os (sd_bus_message_rewind K m (lua_toboolean A (vm s) 2)) s
       in if err < 0 then sd_error A err s1 else push_ret 1 (\<lambda>v. lua_pushboolean A v True) s1)"

definition message_unref :: "('v, 'w) sdfun" where
  "message_unref A K s =
     arg (systemd_tomessage A 1 s) s (\<lambda>m. Some (Inr 0, do_os (sd_bus_message_unref K m) s))"

section \<open>Connections\<close>

text \<open>The two functions of \<open>METH_BUS_ATTR_DEF\<close>.\<close>

definition METH_BUS_ATTR_DEF_set :: "string \<Rightarrow> ('v, 'w) sdfun" where
  "METH_BUS_ATTR_DEF_set name A K s =
     arg (tobus A 1 s) s (\<lambda>bus.
       let (err, s1) = call_os (sd_bus_set_flag K name bus (lua_toboolean A (vm s) 2)) s
       in if err < 0 then sd_error A err s1 else Some (Inr 1, s1))"

definition METH_BUS_ATTR_DEF_get :: "string \<Rightarrow> ('v, 'w) sdfun" where
  "METH_BUS_ATTR_DEF_get name A K s =
     arg (tobus A 1 s) s (\<lambda>bus. push_ret 1 (\<lambda>v. lua_pushboolean A v (sd_bus_get_flag K name bus (os s) \<noteq> 0)) s)"

text \<open>\<open>if (err < 0) \<dots>; lua_settop(L, 1); return 1;\<close>\<close>

definition sd_self :: "'v lua_api \<Rightarrow> int \<times> ('v, 'w) st \<Rightarrow> ('v, 'w) ret" where
  "sd_self A p = (case p of (err, s) \<Rightarrow> if err < 0 then sd_error A err s else push_ret 1 (\<lambda>v. lua_settop A v 1) s)"

definition bus_set_address :: "('v, 'w) sdfun" where
  "bus_set_address A K s =
     arg (tobus A 1 s) s (\<lambda>bus.
     arg (luaL_checkstring A (vm s) 2) s (\<lambda>address. sd_self A (call_os (sd_bus_set_address K bus address) s)))"

text \<open>The result of \<open>getpeercred\<close> and, when it is 0, the uid it stores.\<close>

definition getpeercred :: "'w sdapi \<Rightarrow> int \<Rightarrow> 'w \<Rightarrow> int \<times> 32 word" where
  "getpeercred K fd w =
     (let (err, n, pid, uid) = sd_getsockopt_peercred K fd w
      in if err < 0 then (- sd_errno K w, 0)
         else if n \<noteq> sizeof_ucred K then (- EIO, 0)
         else if pid \<le> 0 then (- ENODATA, 0)
         else (0, uid))"

definition do_bus_check_peercred :: "'w sdapi \<Rightarrow> 64 word \<Rightarrow> 'w \<Rightarrow> int" where
  "do_bus_check_peercred K bus w =
     (let fd = sd_bus_get_fd K bus w
      in if fd < 0 then fd
         else
           (let (err, uid) = getpeercred K fd w
            in if err < 0 then err
               else if uid \<noteq> 0 \<and> uid \<noteq> sd_geteuid K w then - EPERM
               else 0))"

definition bus_check_peercred :: "('v, 'w) sdfun" where
  "bus_check_peercred A K s =
     arg (tobus A 1 s) s (\<lambda>bus. sd_self A (do_bus_check_peercred K bus (os s), s))"

definition bus_start :: "('v, 'w) sdfun" where
  "bus_start A K s = arg (tobus A 1 s) s (\<lambda>bus. sd_self A (call_os (sd_bus_start K bus) s))"

text \<open>A new userdata for the handle that \<open>call\<close> stores through its pointer argument, if it stores one.\<close>

definition new_sd :: "'v lua_api \<Rightarrow> string \<Rightarrow> ('w \<Rightarrow> (int \<times> 64 word option) \<times> 'w) \<Rightarrow> ('v, 'w) st \<Rightarrow> ('v, 'w) ret" where
  "new_sd A metatable call s =
     (let (p, s1) = newcptr A metatable s;
          ((err, h), s2) = call_os call s1;
          s3 = (case h of None \<Rightarrow> s2 | Some h \<Rightarrow> poke p 0 h s2)
      in if err < 0 then sd_error A err s3 else Some (Inr 1, s3))"

definition bus_message_new :: "('v, 'w) sdfun" where
  "bus_message_new A K s =
     arg (tobus A 1 s) s (\<lambda>bus.
     arg (luaL_checkinteger A (vm s) 2) s (\<lambda>type.
       new_sd A METH_SYSTEMD_MESSAGE (sd_bus_message_new K bus (word_of_int type)) s))"

definition bus_message_new_signal :: "('v, 'w) sdfun" where
  "bus_message_new_signal A K s =
     arg (tobus A 1 s) s (\<lambda>bus.
     arg (luaL_checkstring A (vm s) 2) s (\<lambda>path.
     arg (luaL_checkstring A (vm s) 3) s (\<lambda>iface.
     arg (luaL_checkstring A (vm s) 4) s (\<lambda>member.
       new_sd A METH_SYSTEMD_MESSAGE (sd_bus_message_new_signal K bus path iface member) s))))"

definition bus_message_new_method_call :: "('v, 'w) sdfun" where
  "bus_message_new_method_call A K s =
     arg (tobus A 1 s) s (\<lambda>bus.
     arg (luaL_checkstring A (vm s) 2) s (\<lambda>destination.
     arg (luaL_checkstring A (vm s) 3) s (\<lambda>path.
     arg (luaL_checkstring A (vm s) 4) s (\<lambda>iface.
     arg (luaL_checkstring A (vm s) 5) s (\<lambda>member.
       new_sd A METH_SYSTEMD_MESSAGE (sd_bus_message_new_method_call K bus destination path iface member) s)))))"

text \<open>
  The third result of a call is the error it fills in (0 when it is empty). \<open>bus_call\<close> releases it unread,
  \<open>bus_unit_filestate\<close> drops it.
\<close>

definition bus_call :: "('v, 'w) sdfun" where
  "bus_call A K s =
     arg (tobus A 1 s) s (\<lambda>bus.
     arg (systemd_tomessage A 2 s) s (\<lambda>m.
     arg (luaL_optinteger A (vm s) 3 0) s (\<lambda>usec.
       new_sd A METH_SYSTEMD_MESSAGE (\<lambda>w.
         let ((err, reply, error), w1) = sd_bus_call K bus m (word_of_int usec) w
         in ((err, reply), sd_bus_error_free K error w1)) s)))"

definition bus_call_async :: "('v, 'w) sdfun" where
  "bus_call_async A K s = Some (Inr 0, s)"

definition bus_unit_filestate :: "('v, 'w) sdfun" where
  "bus_unit_filestate A K s =
     arg (tobus A 1 s) s (\<lambda>bus.
     arg (luaL_checkstring A (vm s) 2) s (\<lambda>name.
       new_sd A METH_SYSTEMD_MESSAGE (\<lambda>w.
         let ((err, reply, error), w1) = sd_bus_call_method K bus ''org.freedesktop.systemd1''
               ''/org/freedesktop/systemd1'' ''org.freedesktop.systemd1.Manager'' ''GetUnitFileState'' ''s'' name w
         in ((err, reply), w1)) s))"

definition bus_close :: "('v, 'w) sdfun" where
  "bus_close A K s = arg (tobus A 1 s) s (\<lambda>bus. Some (Inr 0, do_os (sd_bus_close K bus) s))"

section \<open>Library functions\<close>

definition daemon_sd_booted :: "('v, 'w) sdfun" where
  "daemon_sd_booted A K s =
     (let err = sd_booted K (os s)
      in if err < 0 then sd_error A err s else push_ret 1 (\<lambda>v. lua_pushboolean A v (err \<noteq> 0)) s)"

definition BUS_FUNCTION_DEF :: "string \<Rightarrow> ('v, 'w) sdfun" where
  "BUS_FUNCTION_DEF name A K s = new_sd A METH_SYSTEMD_BUS (sd_bus_open K name) s"

definition BUS_FUNCTION_WITH_ARGS_DEF :: "string \<Rightarrow> ('v, 'w) sdfun" where
  "BUS_FUNCTION_WITH_ARGS_DEF name A K s =
     arg (luaL_checkstring A (vm s) 1) s (\<lambda>x. new_sd A METH_SYSTEMD_BUS (sd_bus_open_with K name x) s)"

section \<open>Decoding\<close>

text \<open>
  The arguments of a message: 32 bit numbers, strings, object paths, arrays of anything.
\<close>

datatype sdarg = SdWord "32 word" | SdString string | SdPath string | SdArray "sdarg list"

fun sd_code :: "'w sdapi \<Rightarrow> sdarg \<Rightarrow> char" where
  "sd_code K (SdWord x) = SD_BUS_TYPE_UINT32 K"
| "sd_code K (SdString y) = SD_BUS_TYPE_STRING K"
| "sd_code K (SdPath y) = SD_BUS_TYPE_OBJECT_PATH K"
| "sd_code K (SdArray xs) = SD_BUS_TYPE_ARRAY K"

fun sd_value :: "sdarg \<Rightarrow> lval option" where
  "sd_value (SdWord x) = Some (LNum (uint x))"
| "sd_value (SdString y) = Some (LStr y)"
| "sd_value (SdPath y) = Some (LStr y)"
| "sd_value (SdArray xs) = None"

text \<open>
  What sd-bus documents of reading: \<open>rest w m\<close> are the arguments behind the read position of message \<open>m\<close>. Reading
  a basic type moves the position and stores the value; a container type is refused with \<open>-EINVAL\<close>.
\<close>

locale sd_message =
  fixes K :: "'w sdapi" and rest :: "'w \<Rightarrow> 64 word \<Rightarrow> sdarg list"
  assumes peek_end: "rest w m = [] \<Longrightarrow> fst (sd_bus_message_peek_type K m w) = 0"
    and peek_arg: "rest w m = x # xs \<Longrightarrow> \<exists>ts. sd_bus_message_peek_type K m w = (1, sd_code K x, ts)"
    and read_word: "rest w m = SdWord n # xs \<Longrightarrow> sd_bus_message_read_basic K m (SD_BUS_TYPE_UINT32 K) p w = ((err, p'), w') \<Longrightarrow>
       0 < err \<and> ucast p' = n \<and> rest w' m = xs"
    and read_string: "rest w m = SdString y # xs \<Longrightarrow> sd_bus_message_read_basic K m (SD_BUS_TYPE_STRING K) p w = ((err, p'), w') \<Longrightarrow>
       0 < err \<and> p' \<noteq> 0 \<and> sd_cstr K p' w' = y \<and> rest w' m = xs"
    and read_path: "rest w m = SdPath y # xs \<Longrightarrow> sd_bus_message_read_basic K m (SD_BUS_TYPE_OBJECT_PATH K) p w = ((err, p'), w') \<Longrightarrow>
       0 < err \<and> p' \<noteq> 0 \<and> sd_cstr K p' w' = y \<and> rest w' m = xs"
    and read_array: "fst (fst (sd_bus_message_read_basic K m (SD_BUS_TYPE_ARRAY K) p w)) = - EINVAL"
    and sd_codes: "distinct [SD_BUS_TYPE_UINT32 K, SD_BUS_TYPE_STRING K, SD_BUS_TYPE_OBJECT_PATH K, SD_BUS_TYPE_ARRAY K]"

locale sd_lua = lua_vm A stk tget meta + sd_message K rest
  for A :: "'v lua_api" and stk tget meta and K :: "'w sdapi" and rest
begin

text \<open>One round of the decoder on a basic argument.\<close>

lemma decode_basic:
  assumes "rest (os s) m = x # xs" and "sd_value x = Some y" and "stk (vm s) = zs @ [LTab t]"
  shows "\<exists>s1. do_message_decode A K m idx s = do_message_decode A K m (idx + 1) s1 \<and> rest (os s1) m = xs \<and>
    stk (vm s1) = zs @ [LTab t] \<and> tget (vm s1) t = (tget (vm s) t)(idx := y) \<and> mem s1 = mem s"
proof -
  obtain ts where pk: "sd_bus_message_peek_type K m (os s) = (1, sd_code K x, ts)" using peek_arg [OF assms(1)] by blast
  obtain err p w where rd: "sd_bus_message_read_basic K m (sd_code K x) 0 (os s) = ((err, p), w)" by (metis prod.collapse)
  have set: "stk (lua_rawseti A v (- 2) idx) = zs @ [LTab t]" "tget (lua_rawseti A v (- 2) idx) t = (tget v t)(idx := y)"
    if "stk v = zs @ [LTab t, y]" for v
    using rawseti_law(1) [of v "- 2" t "zs @ [LTab t]" y idx] that by simp_all
  let ?done = "\<lambda>v. s\<lparr>os := w, vm := lua_rawseti A v (- 2) idx\<rparr>"
  show ?thesis
  proof (cases x)
    case (SdWord n)
    note r = read_word [OF assms(1) [unfolded SdWord] rd [unfolded SdWord sd_code.simps]]
    let ?v = "lua_pushinteger A (vm s) (uint n)"
    have "stk ?v = zs @ [LTab t, y]" "tget ?v = tget (vm s)" using pushinteger_law assms(2,3) SdWord by simp_all
    moreover have "do_message_decode A K m idx s = do_message_decode A K m (idx + 1) (?done ?v)"
      using pk rd r SdWord by (subst do_message_decode.simps) (simp add: call_os_def upd_vm_def)
    ultimately show ?thesis using set r by (intro exI [of _ "?done ?v"]) simp
  next
    case (SdString z)
    note r = read_string [OF assms(1) [unfolded SdString] rd [unfolded SdString sd_code.simps]]
    let ?v = "lua_pushstring A (vm s) z"
    have "stk ?v = zs @ [LTab t, y]" "tget ?v = tget (vm s)" using pushstring_law assms(2,3) SdString by simp_all
    moreover have "do_message_decode A K m idx s = do_message_decode A K m (idx + 1) (?done ?v)"
      using pk rd r SdString sd_codes
      by (subst do_message_decode.simps) (auto simp: call_os_def upd_vm_def push_ptr_def push_cstring_def)
    ultimately show ?thesis using set r by (intro exI [of _ "?done ?v"]) simp
  next
    case (SdPath z)
    note r = read_path [OF assms(1) [unfolded SdPath] rd [unfolded SdPath sd_code.simps]]
    let ?v = "lua_pushstring A (vm s) z"
    have "stk ?v = zs @ [LTab t, y]" "tget ?v = tget (vm s)" using pushstring_law assms(2,3) SdPath by simp_all
    moreover have "do_message_decode A K m idx s = do_message_decode A K m (idx + 1) (?done ?v)"
      using pk rd r SdPath sd_codes
      by (subst do_message_decode.simps) (auto simp: call_os_def upd_vm_def push_ptr_def push_cstring_def)
    ultimately show ?thesis using set r by (intro exI [of _ "?done ?v"]) simp
  qed (use assms(2) in simp)
qed

text \<open>
  The decoder over basic arguments \<open>xs\<close>, followed by the end of the message or an array.
\<close>

lemma decode_run:
  assumes "rest (os s) m = xs @ more_args" and "map sd_value xs = map Some ys" and "stk (vm s) = zs @ [LTab t]"
  shows "\<exists>s1. do_message_decode A K m idx s = do_message_decode A K m (idx + int (length xs)) s1 \<and>
    rest (os s1) m = more_args \<and> stk (vm s1) = zs @ [LTab t] \<and> mem s1 = mem s \<and>
    (\<forall>k. tget (vm s1) t k = (if idx \<le> k \<and> k < idx + int (length xs) then ys ! nat (k - idx) else tget (vm s) t k))"
  using assms
proof (induction xs arbitrary: s idx ys)
  case Nil
  then show ?case by (intro exI [of _ s]) auto
next
  case (Cons x xs)
  obtain y ys' where ys: "ys = y # ys'" "sd_value x = Some y" "map sd_value xs = map Some ys'"
    using Cons.prems(2) by (cases ys) auto
  obtain s1 where s1: "do_message_decode A K m idx s = do_message_decode A K m (idx + 1) s1"
    "rest (os s1) m = xs @ more_args" "stk (vm s1) = zs @ [LTab t]" "tget (vm s1) t = (tget (vm s) t)(idx := y)" "mem s1 = mem s"
    using decode_basic [of s m x "xs @ more_args" y zs t idx] Cons.prems ys(2) by auto
  obtain s2 where s2: "do_message_decode A K m (idx + 1) s1 = do_message_decode A K m (idx + 1 + int (length xs)) s2"
    "rest (os s2) m = more_args" "stk (vm s2) = zs @ [LTab t]" "mem s2 = mem s1"
    "\<forall>k. tget (vm s2) t k = (if idx + 1 \<le> k \<and> k < idx + 1 + int (length xs) then ys' ! nat (k - (idx + 1)) else tget (vm s1) t k)"
    using Cons.IH [OF s1(2) ys(3) s1(3)] by blast
  have "tget (vm s2) t k = (if idx \<le> k \<and> k < idx + int (length (x # xs)) then ys ! nat (k - idx) else tget (vm s) t k)" for k
  proof (cases "idx + 1 \<le> k")
    case True
    then have "nat (k - idx) = Suc (nat (k - (idx + 1)))" by simp
    then show ?thesis using True s2(5) s1(4) ys(1) by auto
  next
    case False
    then show ?thesis using s2(5) s1(4) ys(1) by auto
  qed
  then show ?case using s1 s2 by (intro exI [of _ s2]) (simp add: ac_simps)
qed

lemma decode_stop:
  "rest (os s) m = [] \<Longrightarrow> do_message_decode A K m idx s = Some (0, s)"
  "rest (os s) m = SdArray xs # bs \<Longrightarrow> \<exists>s'. do_message_decode A K m idx s = Some (- EINVAL, s') \<and> vm s' = vm s"
proof -
  assume "rest (os s) m = []"
  then have "fst (sd_bus_message_peek_type K m (os s)) = 0" by (rule peek_end)
  then obtain ty ts where "sd_bus_message_peek_type K m (os s) = (0, ty, ts)" by (metis prod.collapse)
  then show "do_message_decode A K m idx s = Some (0, s)"
    by (subst do_message_decode.simps) simp
next
  assume "rest (os s) m = SdArray xs # bs"
  then obtain ts where pk: "sd_bus_message_peek_type K m (os s) = (1, SD_BUS_TYPE_ARRAY K, ts)" using peek_arg by fastforce
  obtain err p w where rd: "sd_bus_message_read_basic K m (SD_BUS_TYPE_ARRAY K) 0 (os s) = ((err, p), w)" by (metis prod.collapse)
  then have "err = - EINVAL" using read_array [of m 0 "os s"] by simp
  then show "\<exists>s'. do_message_decode A K m idx s = Some (- EINVAL, s') \<and> vm s' = vm s"
    using pk rd by (subst do_message_decode.simps) (simp add: call_os_def)
qed

lemma decode_start:
  assumes "stk (vm s) = [LUd u]" and "rest (os s) m = xs @ more_args" and "map sd_value xs = map Some ys"
  shows "\<exists>t s1. do_message_decode A K m 1 (upd_vm (lua_newtable A) s) = do_message_decode A K m (1 + int (length xs)) s1 \<and>
    rest (os s1) m = more_args \<and> stk (vm s1) = [LUd u, LTab t] \<and>
    (\<forall>k. tget (vm s1) t k = (if 1 \<le> k \<and> k \<le> int (length ys) then ys ! nat (k - 1) else LNil))"
proof -
  obtain t where t: "stk (lua_newtable A (vm s)) = [LUd u] @ [LTab t]"
    "tget (lua_newtable A (vm s)) = (tget (vm s))(t := (\<lambda>_. LNil))"
    using newtable_law(1) [of "vm s"] assms(1) by auto
  have len: "length xs = length ys" using assms(3) by (metis length_map)
  show ?thesis
    using decode_run [of "upd_vm (lua_newtable A) s" m xs more_args ys "[LUd u]" t 1] assms(2,3) t
    by (auto simp: len intro!: exI [of _ t])
qed

lemma systemd_tomessage_self:
  assumes "stk (vm s) = [LUd u]" and "meta (vm s) u = Some METH_SYSTEMD_MESSAGE"
  shows "systemd_tomessage A 1 s = Inr (mem s u 0)"
  using checkudata_at [of "vm s" 1 u METH_SYSTEMD_MESSAGE] assms
  by (simp add: systemd_tomessage_def toudata_def toudatap_def at_def)

end

text \<open>
  A reference library with one message: the state is the string read last and the arguments that are
  left.
\<close>

type_synonym sdworld = "string \<times> sdarg list"

fun ref_sd_read :: "64 word \<Rightarrow> char \<Rightarrow> 64 word \<Rightarrow> sdworld \<Rightarrow> (int \<times> 64 word) \<times> sdworld" where
  "ref_sd_read m ty p (c, SdWord n # xs) = (if ty = CHR ''u'' then ((1, ucast n), (c, xs)) else ((- 22, p), (c, SdWord n # xs)))"
| "ref_sd_read m ty p (c, SdString y # xs) = (if ty = CHR ''s'' then ((1, 1), (y, xs)) else ((- 22, p), (c, SdString y # xs)))"
| "ref_sd_read m ty p (c, SdPath y # xs) = (if ty = CHR ''o'' then ((1, 1), (y, xs)) else ((- 22, p), (c, SdPath y # xs)))"
| "ref_sd_read m ty p w = ((- 22, p), w)"

fun ref_sd_peek :: "64 word \<Rightarrow> sdworld \<Rightarrow> int \<times> char \<times> string option" where
  "ref_sd_peek m (c, []) = (0, CHR 0x00, None)"
| "ref_sd_peek m (c, x # xs) =
     (1, case x of SdWord _ \<Rightarrow> CHR ''u'' | SdString _ \<Rightarrow> CHR ''s'' | SdPath _ \<Rightarrow> CHR ''o'' | SdArray _ \<Rightarrow> CHR ''a'', None)"

definition ref_sd :: "sdworld sdapi" where
  "ref_sd =
     \<lparr>SD_BUS_TYPE_BOOLEAN = CHR ''b'', SD_BUS_TYPE_INT16 = CHR ''n'',
      SD_BUS_TYPE_UINT16 = CHR ''q'', SD_BUS_TYPE_INT32 = CHR ''i'', SD_BUS_TYPE_UINT32 = CHR ''u'',
      SD_BUS_TYPE_STRING = CHR ''s'', SD_BUS_TYPE_OBJECT_PATH = CHR ''o'', SD_BUS_TYPE_ARRAY = CHR ''a'',
      sd_cstr = (\<lambda>p w. fst w), sd_bus_message_append_string = (\<lambda>_ _ _ w. (0, w)),
      sd_bus_message_append_word = (\<lambda>_ _ _ w. (0, w)), sd_bus_message_read_basic = ref_sd_read,
      sd_bus_message_peek_type = ref_sd_peek,
      sd_bus_message_enter_container = (\<lambda>_ _ _ w. (0, w)),
      sd_bus_message_exit_container = (\<lambda>_ w. (0, w)),
      sd_bus_message_rewind = (\<lambda>_ _ w. (0, w)), sd_bus_message_unref = (\<lambda>_ w. w),
      sd_bus_set_flag = (\<lambda>_ _ _ w. (0, w)), sd_bus_get_flag = (\<lambda>_ _ _. 0),
      sd_bus_set_address = (\<lambda>_ _ w. (0, w)), sd_bus_get_fd = (\<lambda>_ _. 0),
      sd_getsockopt_peercred = (\<lambda>_ _. (0, 12, 1, 0)), sizeof_ucred = 12,
      sd_errno = (\<lambda>_. 5), sd_geteuid = (\<lambda>_. 1000), sd_bus_start = (\<lambda>_ w. (0, w)),
      sd_bus_message_new = (\<lambda>_ _ w. ((0, None), w)),
      sd_bus_message_new_signal = (\<lambda>_ _ _ _ w. ((0, None), w)),
      sd_bus_message_new_method_call = (\<lambda>_ _ _ _ _ w. ((0, None), w)),
      sd_bus_call = (\<lambda>_ _ _ w. ((0, None, 0), w)), sd_bus_error_free = (\<lambda>_ w. w),
      sd_bus_call_method = (\<lambda>_ _ _ _ _ _ _ w. ((0, None, 0), w)), sd_bus_close = (\<lambda>_ w. w),
      sd_booted = (\<lambda>_. 0), sd_bus_open = (\<lambda>_ w. ((0, None), w)),
      sd_bus_open_with = (\<lambda>_ _ w. ((0, None), w))\<rparr>"

lemma ucast_up_down: "(ucast (ucast (n :: 32 word) :: 64 word) :: 32 word) = n"
  by (rule bit_word_eqI) (simp add: bit_ucast_iff)

lemma ref_sd_array: "ref_sd_read m (CHR ''a'') p w = ((- 22, p), w)"
  by (cases "(m, CHR ''a'', p, w)" rule: ref_sd_read.cases) auto

lemma ref_sd_codes:
  "SD_BUS_TYPE_UINT32 ref_sd = CHR ''u''" "SD_BUS_TYPE_STRING ref_sd = CHR ''s''"
  "SD_BUS_TYPE_OBJECT_PATH ref_sd = CHR ''o''" "SD_BUS_TYPE_ARRAY ref_sd = CHR ''a''"
  "sd_bus_message_read_basic ref_sd = ref_sd_read" "sd_bus_message_peek_type ref_sd = ref_sd_peek"
  "sd_cstr ref_sd = (\<lambda>p w. fst w)"
  by (simp_all add: ref_sd_def)

interpretation rsd: sd_message ref_sd "\<lambda>w m. snd w"
proof unfold_locales
  fix w :: sdworld and m x xs assume "snd w = x # xs"
  then show "\<exists>ts. sd_bus_message_peek_type ref_sd m w = (1, sd_code ref_sd x, ts)"
    by (cases w; cases x) (simp_all add: ref_sd_codes)
next
  fix w :: sdworld and m assume "snd w = []"
  then show "fst (sd_bus_message_peek_type ref_sd m w) = 0" by (cases w) (simp add: ref_sd_codes)
qed (auto simp: ref_sd_codes ref_sd_array ucast_up_down)

interpretation rsl: sd_lua ref_lua r_stk r_tab r_meta ref_sd "\<lambda>w m. snd w"
  by unfold_locales

section \<open>Properties\<close>


text \<open>The reference machine with a message.\<close>

definition sd_st :: "sdarg list \<Rightarrow> (ref_vm, sdworld) st" where
  "sd_st xs = \<lparr>vm = \<lparr>r_stk = [LUd 3], r_tab = (\<lambda>_ _. LNil), r_meta = (\<lambda>_. Some METH_SYSTEMD_MESSAGE), r_next = 3,
     r_fld = (\<lambda>_ _. LNil), r_upv = [], r_glob = (\<lambda>_. LNil)\<rparr>, mem = (\<lambda>_ _. 7), os = ([], xs)\<rparr>"


text \<open>
  The peer check of a bus connection passes exactly when the socket is open, its credentials could be read in
  full, the peer has a process and runs as root or as the effective user of the daemon; it changes
  nothing but the Lua stack.
\<close>

theorem peercred_iff:
  assumes "0 < sd_errno K (os s)" and "luaL_checkudata A (vm s) 1 METH_SYSTEMD_BUS = Inr u"
  shows "(\<exists>s'. bus_check_peercred A K s = Some (Inr 1, s') \<and> os s' = os s \<and> mem s' = mem s) \<longleftrightarrow>
    (0 \<le> sd_bus_get_fd K (mem s u 0) (os s) \<and>
     (case sd_getsockopt_peercred K (sd_bus_get_fd K (mem s u 0) (os s)) (os s) of
        (err, n, pid, uid) \<Rightarrow> 0 \<le> err \<and> n = sizeof_ucred K \<and> 0 < pid \<and> uid \<in> {0, sd_geteuid K (os s)}))"
  using assms
  by (auto simp: bus_check_peercred_def tobus_def toudata_def toudatap_def sd_self_def sd_error_def push_ret_def
      do_bus_check_peercred_def getpeercred_def Let_def split: prod.splits if_splits)

theorem peercred_iff_witness:
  "\<exists>s'. bus_check_peercred ref_lua ref_sd ((sd_st [])\<lparr>vm := (vm (sd_st []))\<lparr>r_meta := (\<lambda>_. Some METH_SYSTEMD_BUS)\<rparr>\<rparr>) = Some (Inr 1, s') \<and>
    os s' = ([], [])"
proof -
  let ?s = "(sd_st [])\<lparr>vm := (vm (sd_st []))\<lparr>r_meta := (\<lambda>_. Some METH_SYSTEMD_BUS)\<rparr>\<rparr>"
  have h: "0 < sd_errno ref_sd (os ?s)" "luaL_checkudata ref_lua (vm ?s) 1 METH_SYSTEMD_BUS = Inr 3" "os ?s = ([], [])"
    by (simp_all add: sd_st_def ref_sd_def ref_lua_def r_checkudata_def at_def)
  show ?thesis using peercred_iff [OF h(1,2)] h(3) by (auto simp: ref_sd_def)
qed

end
