(* ===== verification/Lua_Mount.thy ===== *)
theory Lua_Mount
  imports Lua_Aux
begin

text \<open>
  The mount binding (\<open>src/daemon/lua_mount.c\<close>): file systems, tables, caches, iterators and contexts of
  libmount. The record \<open>mntapi\<close> has the library functions. Functions that the source generates with a macro
  come from one field that takes the class (\<open>fs\<close>, \<open>table\<close>, \<open>context\<close>, \<open>cache\<close>) and the name. A function that stores a handle
  through a pointer returns it as an option, \<open>None\<close> when it stores nothing. Integers are the values converted to \<open>lua_Integer\<close>.
\<close>

record 'w mntapi =
  MNT_ITER_FORWARD :: int
  MNT_ITER_BACKWARD :: int
  mnt_new :: "string \<Rightarrow> 'w \<Rightarrow> 64 word \<times> 'w"
  mnt_free :: "string \<Rightarrow> 64 word \<Rightarrow> 'w \<Rightarrow> 'w"
  mnt_ref :: "string \<Rightarrow> 64 word \<Rightarrow> 'w \<Rightarrow> 'w"
  mnt_unref :: "string \<Rightarrow> 64 word \<Rightarrow> 'w \<Rightarrow> 'w"
  mnt_get_string :: "string \<Rightarrow> string \<Rightarrow> 64 word \<Rightarrow> 'w \<Rightarrow> string option \<times> 'w"
  mnt_get_integer :: "string \<Rightarrow> string \<Rightarrow> 64 word \<Rightarrow> 'w \<Rightarrow> int \<times> 'w"
  mnt_set_string :: "string \<Rightarrow> string \<Rightarrow> 64 word \<Rightarrow> string option \<Rightarrow> 'w \<Rightarrow> int \<times> 'w"
  mnt_set_integer :: "string \<Rightarrow> string \<Rightarrow> 64 word \<Rightarrow> int \<Rightarrow> 'w \<Rightarrow> int \<times> 'w"
  mnt_test :: "string \<Rightarrow> string \<Rightarrow> 64 word \<Rightarrow> 'w \<Rightarrow> int \<times> 'w"
  mnt_test_string :: "string \<Rightarrow> string \<Rightarrow> 64 word \<Rightarrow> string \<Rightarrow> 'w \<Rightarrow> int \<times> 'w"
  mnt_op :: "string \<Rightarrow> string \<Rightarrow> 64 word \<Rightarrow> 'w \<Rightarrow> int \<times> 'w"
  mnt_op_string :: "string \<Rightarrow> string \<Rightarrow> 64 word \<Rightarrow> string \<Rightarrow> 'w \<Rightarrow> int \<times> 'w"
  mnt_op_integer :: "string \<Rightarrow> string \<Rightarrow> 64 word \<Rightarrow> int \<Rightarrow> 'w \<Rightarrow> int \<times> 'w"
  mnt_op_handle :: "string \<Rightarrow> string \<Rightarrow> 64 word \<Rightarrow> 64 word \<Rightarrow> 'w \<Rightarrow> int \<times> 'w"
  mnt_op_boolean :: "string \<Rightarrow> string \<Rightarrow> 64 word \<Rightarrow> bool \<Rightarrow> 'w \<Rightarrow> int \<times> 'w"
  mnt_find :: "string \<Rightarrow> string \<Rightarrow> 64 word \<Rightarrow> string list \<Rightarrow> int \<Rightarrow> 'w \<Rightarrow> 64 word \<times> 'w"
  mnt_fs_out :: "string \<Rightarrow> string \<Rightarrow> 64 word \<Rightarrow> 'w \<Rightarrow> (int \<times> 64 word option) \<times> 'w"
  mnt_match_cache :: "string \<Rightarrow> string \<Rightarrow> 64 word \<Rightarrow> string \<Rightarrow> 64 word \<Rightarrow> 'w \<Rightarrow> int \<times> 'w"
  mnt_cache_device_has_tag :: "64 word \<Rightarrow> string \<Rightarrow> string \<Rightarrow> string \<Rightarrow> 'w \<Rightarrow> int \<times> 'w"
  mnt_cache_find_tag_value :: "64 word \<Rightarrow> string \<Rightarrow> string \<Rightarrow> 'w \<Rightarrow> string option \<times> 'w"
  mnt_cache_read_tags :: "64 word \<Rightarrow> string \<Rightarrow> 'w \<Rightarrow> int \<times> 'w"
  mnt_cache_set_targets :: "64 word \<Rightarrow> 64 word \<Rightarrow> 'w \<Rightarrow> int \<times> 'w"
  mnt_new_table_from_dir :: "string \<Rightarrow> 'w \<Rightarrow> 64 word \<times> 'w"
  mnt_new_table_from_file :: "string \<Rightarrow> 'w \<Rightarrow> 64 word \<times> 'w"
  mnt_table_enable_comments :: "64 word \<Rightarrow> bool \<Rightarrow> 'w \<Rightarrow> 'w"
  mnt_table_find_devno :: "64 word \<Rightarrow> 64 word \<Rightarrow> int \<Rightarrow> 'w \<Rightarrow> 64 word \<times> 'w"
  mnt_table_get_cache :: "64 word \<Rightarrow> 'w \<Rightarrow> 64 word \<times> 'w"
  mnt_table_set_cache :: "64 word \<Rightarrow> 64 word \<Rightarrow> 'w \<Rightarrow> int \<times> 'w"
  mnt_table_get_nents :: "64 word \<Rightarrow> 'w \<Rightarrow> int \<times> 'w"
  mnt_table_is_fs_mounted :: "64 word \<Rightarrow> 64 word \<Rightarrow> 'w \<Rightarrow> int \<times> 'w"
  mnt_table_set_iter :: "64 word \<Rightarrow> 64 word \<Rightarrow> 64 word \<Rightarrow> 'w \<Rightarrow> int \<times> 'w"
  mnt_new_iter :: "int \<Rightarrow> 'w \<Rightarrow> 64 word \<times> 'w"
  mnt_table_next_fs :: "64 word \<Rightarrow> 64 word \<Rightarrow> 'w \<Rightarrow> (int \<times> 64 word option) \<times> 'w"
  mnt_table_next_child_fs :: "64 word \<Rightarrow> 64 word \<Rightarrow> 64 word \<Rightarrow> 'w \<Rightarrow> (int \<times> 64 word option) \<times> 'w"
  mnt_table_over_fs :: "64 word \<Rightarrow> 64 word \<Rightarrow> 'w \<Rightarrow> (int \<times> 64 word option) \<times> 'w"
  mnt_table_find_fs :: "64 word \<Rightarrow> 64 word \<Rightarrow> 'w \<Rightarrow> int \<times> 'w"
  mnt_table_insert_fs :: "64 word \<Rightarrow> bool \<Rightarrow> 64 word \<Rightarrow> 64 word \<Rightarrow> 'w \<Rightarrow> int \<times> 'w"
  mnt_table_move_fs :: "64 word \<Rightarrow> 64 word \<Rightarrow> bool \<Rightarrow> 64 word \<Rightarrow> 64 word \<Rightarrow> 'w \<Rightarrow> int \<times> 'w"
  mnt_context_get_mtab :: "64 word \<Rightarrow> 'w \<Rightarrow> (int \<times> 64 word option) \<times> 'w"
  mnt_context_get_table :: "64 word \<Rightarrow> string \<Rightarrow> 'w \<Rightarrow> (int \<times> 64 word option) \<times> 'w"
  mnt_context_is_fs_mounted :: "64 word \<Rightarrow> 64 word \<Rightarrow> 'w \<Rightarrow> (int \<times> int) \<times> 'w"
  mnt_context_wait_for_children :: "64 word \<Rightarrow> 'w \<Rightarrow> (int \<times> int \<times> int) \<times> 'w"
  mnt_context_get_flags :: "string \<Rightarrow> 64 word \<Rightarrow> 'w \<Rightarrow> (int \<times> 64 word) \<times> 'w"
  mnt_context_set_flags :: "string \<Rightarrow> 64 word \<Rightarrow> 64 word \<Rightarrow> 'w \<Rightarrow> int \<times> 'w"
  mnt_get_library_version :: string
  mnt_get_library_features :: "int \<times> (nat \<Rightarrow> string)"
  mnt_cstr :: "64 word \<Rightarrow> 'w \<Rightarrow> string"
  mnt_cfree :: "64 word \<Rightarrow> 'w \<Rightarrow> 'w"
  mnt_get_mountpoint :: "string \<Rightarrow> 'w \<Rightarrow> 64 word \<times> 'w"
  mnt_match_fstype :: "string \<Rightarrow> string option \<Rightarrow> int"
  mnt_misc_path :: "string \<Rightarrow> 'w \<Rightarrow> 64 word \<times> 'w"
  mnt_misc_test :: "string \<Rightarrow> string \<Rightarrow> 'w \<Rightarrow> int \<times> 'w"
  mnt_misc_string :: "string \<Rightarrow> string \<Rightarrow> 'w \<Rightarrow> 64 word \<times> 'w"

text \<open>The five metatable names are \<open>METH_MOUNT c\<close> for the classes \<open>fs\<close>, \<open>table\<close>, \<open>context\<close>, \<open>cache\<close> and \<open>iter\<close>.\<close>

definition METH_MOUNT :: "string \<Rightarrow> string" where
  "METH_MOUNT c = ''meth_mount_mnt_'' @ c"

type_synonym ('v, 'w) mfun = "'v lua_api \<Rightarrow> 'w mntapi \<Rightarrow> ('v, 'w) st \<Rightarrow> ('v, 'w) ret"

definition tomnt :: "'v lua_api \<Rightarrow> string \<Rightarrow> int \<Rightarrow> ('v, 'w) st \<Rightarrow> string + 64 word" where
  "tomnt A c idx s = toudata A (METH_MOUNT c) idx s"

definition mnt_result :: "'v lua_api \<Rightarrow> int \<times> ('v, 'w) st \<Rightarrow> ('v, 'w) ret" where
  "mnt_result A p =
     (case p of (err, s) \<Rightarrow>
        if err = 0 then push_ret 1 (\<lambda>v. lua_pushboolean A v True) s
        else if 0 < err then push_ret 1 (\<lambda>v. lua_pushinteger A v err) s
        else push_ret 2 (\<lambda>v. lua_pushinteger A (lua_pushnil A v) (- err)) s)"

text \<open>Results of a library call pushed as a boolean or an integer.\<close>

definition push_test :: "'v lua_api \<Rightarrow> int \<times> ('v, 'w) st \<Rightarrow> ('v, 'w) ret" where
  "push_test A p = (case p of (b, s) \<Rightarrow> push_ret 1 (\<lambda>v. lua_pushboolean A v (b \<noteq> 0)) s)"

definition push_int :: "'v lua_api \<Rightarrow> int \<times> ('v, 'w) st \<Rightarrow> ('v, 'w) ret" where
  "push_int A p = (case p of (n, s) \<Rightarrow> push_ret 1 (\<lambda>v. lua_pushinteger A v n) s)"

section \<open>Handles\<close>

definition new_mnt :: "'v lua_api \<Rightarrow> string \<Rightarrow> ('w \<Rightarrow> 64 word \<times> 'w) \<Rightarrow> ('v, 'w) st \<Rightarrow> ('v, 'w) ret" where
  "new_mnt A c call s =
     (let (pp, s1) = newcptr A (METH_MOUNT c) s;
          (h, s2) = call_os call s1;
          s3 = poke pp 0 h s2
      in if h = 0 then push_ret 1 (lua_pushnil A) s3 else Some (Inr 1, s3))"

definition MNT_UDATA_DEF_new :: "string \<Rightarrow> ('v, 'w) mfun" where
  "MNT_UDATA_DEF_new name A K s = new_mnt A name (mnt_new K name) s"

definition MNT_UDATA_DEF_free :: "string \<Rightarrow> ('v, 'w) mfun" where
  "MNT_UDATA_DEF_free name A K s = free_cptr A (METH_MOUNT name) (mnt_free K name) s"

definition MNT_UDATA_GC :: "string \<Rightarrow> ('v, 'w) mfun" where
  "MNT_UDATA_GC name A K s =
     arg (tomnt A name 1 s) s (\<lambda>p. Some (Inr 0, do_os (mnt_unref K name p) s))"

text \<open>
  The three shapes of a function that hands out a handle: the library returns the handle; the
  library stores it and returns 0; the same for tables of a context, where only a negative value is
  an error. The reference is taken when there is a handle.
\<close>

definition found :: "'v lua_api \<Rightarrow> 'w mntapi \<Rightarrow> string \<Rightarrow> ('w \<Rightarrow> 64 word \<times> 'w) \<Rightarrow> ('v, 'w) st \<Rightarrow> ('v, 'w) ret" where
  "found A K c call s =
     (let (pp, s1) = newcptr A (METH_MOUNT c) s;
          (h, s2) = call_os call s1;
          s3 = poke pp 0 h s2
      in if h = 0 then push_ret 1 (lua_pushnil A) s3 else Some (Inr 1, do_os (mnt_ref K c h) s3))"

definition store_handle :: "nat \<Rightarrow> 64 word option \<Rightarrow> ('v, 'w) st \<Rightarrow> ('v, 'w) st" where
  "store_handle pp h s = (case h of None \<Rightarrow> s | Some h \<Rightarrow> poke pp 0 h s)"

definition stored_fs :: "'v lua_api \<Rightarrow> 'w mntapi \<Rightarrow> ('w \<Rightarrow> (int \<times> 64 word option) \<times> 'w) \<Rightarrow> ('v, 'w) st \<Rightarrow> ('v, 'w) ret" where
  "stored_fs A K call s =
     (let (fsp, s1) = newcptr A (METH_MOUNT ''fs'') s;
          ((err, h), s2) = call_os call s1;
          s3 = store_handle fsp h s2
      in if err \<noteq> 0 then push_ret 1 (lua_pushnil A) s3
         else Some (Inr 1, do_os (mnt_ref K ''fs'' (mem s3 fsp 0)) s3))"

definition stored_table :: "'v lua_api \<Rightarrow> 'w mntapi \<Rightarrow> ('w \<Rightarrow> (int \<times> 64 word option) \<times> 'w) \<Rightarrow> ('v, 'w) st \<Rightarrow> ('v, 'w) ret" where
  "stored_table A K call s =
     (let (tbp, s1) = newcptr A (METH_MOUNT ''table'') s;
          ((err, h), s2) = call_os call s1;
          s3 = store_handle tbp h s2
      in if err < 0 then push_ret 2 (\<lambda>v. lua_pushinteger A (lua_pushnil A v) (- err)) s3
         else Some (Inr 1, do_os (mnt_ref K ''table'' (mem s3 tbp 0)) s3))"

section \<open>Generated accessors\<close>

definition MNT_METH_FUNC_string :: "string \<Rightarrow> string \<Rightarrow> ('v, 'w) mfun" where
  "MNT_METH_FUNC_string c name A K s =
     arg (tomnt A c 1 s) s (\<lambda>p.
       if lua_gettop A (vm s) = 1 then
         (let (x, s1) = call_os (mnt_get_string K c name p) s in push_ret 1 (\<lambda>v. push_cstring A v x) s1)
       else mnt_result A (call_os (mnt_set_string K c name p (lua_tocstring A (vm s) 2)) s))"

definition MNT_METH_FUNC_integer :: "string \<Rightarrow> string \<Rightarrow> ('v, 'w) mfun" where
  "MNT_METH_FUNC_integer c name A K s =
     arg (tomnt A c 1 s) s (\<lambda>p.
       if lua_gettop A (vm s) = 1 then push_int A (call_os (mnt_get_integer K c name p) s)
       else mnt_result A (call_os (mnt_set_integer K c name p (c_int (lua_tointeger A (vm s) 2))) s))"

definition MNT_METH_GET_string :: "string \<Rightarrow> string \<Rightarrow> ('v, 'w) mfun" where
  "MNT_METH_GET_string c name A K s =
     arg (tomnt A c 1 s) s (\<lambda>p.
       let (x, s1) = call_os (mnt_get_string K c name p) s in push_ret 1 (\<lambda>v. push_cstring A v x) s1)"

definition MNT_METH_GET_integer :: "string \<Rightarrow> string \<Rightarrow> ('v, 'w) mfun" where
  "MNT_METH_GET_integer c name A K s =
     arg (tomnt A c 1 s) s (\<lambda>p. push_int A (call_os (mnt_get_integer K c name p) s))"

definition MNT_METH_GET_number :: "string \<Rightarrow> string \<Rightarrow> ('v, 'w) mfun" where
  "MNT_METH_GET_number c name A K s =
     arg (tomnt A c 1 s) s (\<lambda>p.
       let (n, s1) = call_os (mnt_get_integer K c name p) s in push_ret 1 (\<lambda>v. lua_pushnumber A v n) s1)"

definition MNT_METH_R0_boolean :: "string \<Rightarrow> string \<Rightarrow> ('v, 'w) mfun" where
  "MNT_METH_R0_boolean c name A K s =
     arg (tomnt A c 1 s) s (\<lambda>p. push_test A (call_os (mnt_test K c name p) s))"

definition MNT_METH_R0_integer :: "string \<Rightarrow> string \<Rightarrow> ('v, 'w) mfun" where
  "MNT_METH_R0_integer c name A K s =
     arg (tomnt A c 1 s) s (\<lambda>p. push_int A (call_os (mnt_test K c name p) s))"

definition MNT_METH_R1S :: "string \<Rightarrow> string \<Rightarrow> ('v, 'w) mfun" where
  "MNT_METH_R1S c name A K s =
     arg (tomnt A c 1 s) s (\<lambda>p.
     arg (luaL_checkstring A (vm s) 2) s (\<lambda>x. push_test A (call_os (mnt_test_string K c name p x) s)))"

definition MNT_METH_OP0 :: "string \<Rightarrow> string \<Rightarrow> ('v, 'w) mfun" where
  "MNT_METH_OP0 c name A K s =
     arg (tomnt A c 1 s) s (\<lambda>p. mnt_result A (call_os (mnt_op K c name p) s))"

definition MNT_METH_OP1S :: "string \<Rightarrow> string \<Rightarrow> ('v, 'w) mfun" where
  "MNT_METH_OP1S c name A K s =
     arg (tomnt A c 1 s) s (\<lambda>p.
     arg (luaL_checkstring A (vm s) 2) s (\<lambda>x. mnt_result A (call_os (mnt_op_string K c name p x) s)))"

definition MNT_METH_OP1I :: "string \<Rightarrow> string \<Rightarrow> ('v, 'w) mfun" where
  "MNT_METH_OP1I c name A K s =
     arg (tomnt A c 1 s) s (\<lambda>p.
     arg (luaL_checkinteger A (vm s) 2) s (\<lambda>n. mnt_result A (call_os (mnt_op_integer K c name p (c_int n)) s)))"

definition MNT_METH_OP1C :: "string \<Rightarrow> string \<Rightarrow> string \<Rightarrow> ('v, 'w) mfun" where
  "MNT_METH_OP1C c name c1 A K s =
     arg (tomnt A c 1 s) s (\<lambda>p.
     arg (tomnt A c1 2 s) s (\<lambda>x. mnt_result A (call_os (mnt_op_handle K c name p x) s)))"

section \<open>Iterators and caches\<close>

definition mntiter_free :: "('v, 'w) mfun" where
  "mntiter_free A K s = free_cptr A (METH_MOUNT ''iter'') (mnt_free K ''iter'') s"

definition mntcache_device_has_tag :: "('v, 'w) mfun" where
  "mntcache_device_has_tag A K s =
     arg (tomnt A ''cache'' 1 s) s (\<lambda>cache.
     arg (luaL_checkstring A (vm s) 2) s (\<lambda>devname.
     arg (luaL_checkstring A (vm s) 3) s (\<lambda>token.
     arg (luaL_checkstring A (vm s) 4) s (\<lambda>val.
       push_test A (call_os (mnt_cache_device_has_tag K cache devname token val) s)))))"

definition mntcache_find_tag_value :: "('v, 'w) mfun" where
  "mntcache_find_tag_value A K s =
     arg (tomnt A ''cache'' 1 s) s (\<lambda>cache.
     arg (luaL_checkstring A (vm s) 2) s (\<lambda>devname.
     arg (luaL_checkstring A (vm s) 3) s (\<lambda>token.
       let (result, s1) = call_os (mnt_cache_find_tag_value K cache devname token) s
       in push_ret 1 (\<lambda>v. push_cstring A v result) s1)))"

definition mntcache_read_tags :: "('v, 'w) mfun" where
  "mntcache_read_tags A K s =
     arg (tomnt A ''cache'' 1 s) s (\<lambda>cache.
     arg (luaL_checkstring A (vm s) 2) s (\<lambda>devname. mnt_result A (call_os (mnt_cache_read_tags K cache devname) s)))"

definition mntcache_set_targets :: "('v, 'w) mfun" where
  "mntcache_set_targets A K s =
     arg (tomnt A ''cache'' 1 s) s (\<lambda>cache.
     arg (tomnt A ''table'' 2 s) s (\<lambda>mtab. mnt_result A (call_os (mnt_cache_set_targets K cache mtab) s)))"

section \<open>Tables\<close>

definition mnttable_new_from_dir :: "('v, 'w) mfun" where
  "mnttable_new_from_dir A K s =
     arg (luaL_checkstring A (vm s) 1) s (\<lambda>x. new_mnt A ''table'' (mnt_new_table_from_dir K x) s)"

definition mnttable_new_from_file :: "('v, 'w) mfun" where
  "mnttable_new_from_file A K s =
     arg (luaL_checkstring A (vm s) 1) s (\<lambda>x. new_mnt A ''table'' (mnt_new_table_from_file K x) s)"

definition mnttable_enable_comments :: "('v, 'w) mfun" where
  "mnttable_enable_comments A K s =
     arg (tomnt A ''table'' 1 s) s (\<lambda>tb.
       let enable = (if lua_gettop A (vm s) < 2 then True else lua_toboolean A (vm s) 2)
       in Some (Inr 0, do_os (mnt_table_enable_comments K tb enable) s))"

definition direction :: "'w mntapi \<Rightarrow> bool \<Rightarrow> int" where
  "direction K backward = (if backward then MNT_ITER_BACKWARD K else MNT_ITER_FORWARD K)"

definition mnttable_find_devno :: "('v, 'w) mfun" where
  "mnttable_find_devno A K s =
     arg (tomnt A ''table'' 1 s) s (\<lambda>tb.
     arg (luaL_checkinteger A (vm s) 2) s (\<lambda>devno.
       found A K ''fs'' (mnt_table_find_devno K tb (word_of_int devno) (direction K (lua_toboolean A (vm s) 3))) s))"

definition mnttable_cache :: "('v, 'w) mfun" where
  "mnttable_cache A K s =
     arg (tomnt A ''table'' 1 s) s (\<lambda>tb.
       if lua_gettop A (vm s) = 1 then found A K ''cache'' (mnt_table_get_cache K tb) s
       else arg (tomnt A ''cache'' 2 s) s (\<lambda>cache. mnt_result A (call_os (mnt_table_set_cache K tb cache) s)))"

definition mnttable_nents :: "('v, 'w) mfun" where
  "mnttable_nents A K s =
     arg (tomnt A ''table'' 1 s) s (\<lambda>tb. push_int A (call_os (mnt_table_get_nents K tb) s))"

definition mnttable_is_fs_mounted :: "('v, 'w) mfun" where
  "mnttable_is_fs_mounted A K s =
     arg (tomnt A ''table'' 1 s) s (\<lambda>tb.
     arg (tomnt A ''fs'' 2 s) s (\<lambda>fs. push_test A (call_os (mnt_table_is_fs_mounted K tb fs) s)))"

definition mnttable_set_iter :: "('v, 'w) mfun" where
  "mnttable_set_iter A K s =
     arg (tomnt A ''table'' 1 s) s (\<lambda>tb.
     arg (tomnt A ''iter'' 2 s) s (\<lambda>iter.
     arg (tomnt A ''fs'' 3 s) s (\<lambda>fs. mnt_result A (call_os (mnt_table_set_iter K tb iter fs) s))))"

definition mnttable_child_fs_next :: "('v, 'w) mfun" where
  "mnttable_child_fs_next A K s =
     arg (tomnt A ''table'' (lua_upvalueindex 1) s) s (\<lambda>tb.
     arg (tomnt A ''fs'' (lua_upvalueindex 2) s) s (\<lambda>parent.
     arg (tomnt A ''iter'' (lua_upvalueindex 3) s) s (\<lambda>iter.
       stored_fs A K (mnt_table_next_child_fs K tb iter parent) s)))"

text \<open>A new iterator and the closure over the values on the stack and the iterator.\<close>

definition iter_closure :: "'v lua_api \<Rightarrow> 'w mntapi \<Rightarrow> bool \<Rightarrow> string \<Rightarrow> int \<Rightarrow> ('v, 'w) st \<Rightarrow> ('v, 'w) ret" where
  "iter_closure A K backward f n s =
     (let (iterp, s1) = newcptr A (METH_MOUNT ''iter'') s;
          (it, s2) = call_os (mnt_new_iter K (direction K backward)) s1;
          s3 = poke iterp 0 it s2
      in push_ret 1 (\<lambda>v. if it \<noteq> 0 then lua_pushcclosure A v f n else lua_pushnil A v) s3)"

definition mnttable_child_fs :: "('v, 'w) mfun" where
  "mnttable_child_fs A K s =
     arg (tomnt A ''table'' 1 s) s (\<lambda>tb.
     arg (tomnt A ''fs'' 2 s) s (\<lambda>fs.
       iter_closure A K (lua_toboolean A (vm s) 3) ''mnttable_child_fs_next'' 3 (upd_vm (\<lambda>v. lua_settop A v 2) s)))"

definition mnttable_fs_next :: "('v, 'w) mfun" where
  "mnttable_fs_next A K s =
     arg (tomnt A ''table'' (lua_upvalueindex 1) s) s (\<lambda>tb.
     arg (tomnt A ''iter'' (lua_upvalueindex 2) s) s (\<lambda>iter.
       stored_fs A K (mnt_table_next_fs K tb iter) s))"

definition mnttable_fs :: "('v, 'w) mfun" where
  "mnttable_fs A K s =
     arg (tomnt A ''table'' 1 s) s (\<lambda>tb.
       iter_closure A K (lua_toboolean A (vm s) 2) ''mnttable_fs_next'' 2 (upd_vm (\<lambda>v. lua_settop A v 1) s))"

definition mnttable_find_fs :: "('v, 'w) mfun" where
  "mnttable_find_fs A K s =
     arg (tomnt A ''table'' 1 s) s (\<lambda>tb.
     arg (tomnt A ''fs'' 2 s) s (\<lambda>fs. mnt_result A (call_os (mnt_table_find_fs K tb fs) s)))"

definition mnttable_insert_fs :: "('v, 'w) mfun" where
  "mnttable_insert_fs A K s =
     arg (tomnt A ''table'' 1 s) s (\<lambda>tb.
     arg (tomnt A ''fs'' 3 s) s (\<lambda>pos.
     arg (tomnt A ''fs'' 4 s) s (\<lambda>fs.
       mnt_result A (call_os (mnt_table_insert_fs K tb (lua_toboolean A (vm s) 2) pos fs) s))))"

definition mnttable_move_fs :: "('v, 'w) mfun" where
  "mnttable_move_fs A K s =
     arg (tomnt A ''table'' 1 s) s (\<lambda>src.
     arg (tomnt A ''table'' 2 s) s (\<lambda>dst.
     arg (tomnt A ''fs'' 4 s) s (\<lambda>pos.
     arg (tomnt A ''fs'' 5 s) s (\<lambda>fs.
       mnt_result A (call_os (mnt_table_move_fs K src dst (lua_toboolean A (vm s) 3) pos fs) s)))))"

text \<open>The parent is a plain userdata of the closure; \<open>None\<close> is the access through NULL if there were none.\<close>

definition mnttable_over_fs_next :: "('v, 'w) mfun" where
  "mnttable_over_fs_next A K s =
     arg (tomnt A ''table'' (lua_upvalueindex 1) s) s (\<lambda>tb.
       case lua_touserdata A (vm s) (lua_upvalueindex 2) of
         None \<Rightarrow> None
       | Some parent \<Rightarrow>
           (let (childp, s1) = newcptr A (METH_MOUNT ''fs'') s;
                ((err, h), s2) = call_os (mnt_table_over_fs K tb (mem s1 parent 0)) s1;
                s3 = store_handle childp h s2
            in if err = 0 then
                 (let s4 = do_os (mnt_ref K ''fs'' (mem s3 childp 0)) s3
                  in Some (Inr 1, poke parent 0 (mem s4 childp 0) s4))
               else push_ret 1 (lua_pushnil A) s3))"

definition mnttable_over_fs :: "('v, 'w) mfun" where
  "mnttable_over_fs A K s =
     arg (tomnt A ''table'' 1 s) s (\<lambda>tb.
     arg (tomnt A ''fs'' 2 s) s (\<lambda>fs.
       let s1 = upd_vm (\<lambda>v. lua_settop A v 1) s;
           (p, v) = lua_newuserdata A (vm s1)
       in push_ret 1 (\<lambda>v. lua_pushcclosure A v ''mnttable_over_fs_next'' 2) (poke p 0 fs (s1\<lparr>vm := v\<rparr>))))"

definition MNT_METH_FIND1 :: "string \<Rightarrow> string \<Rightarrow> ('v, 'w) mfun" where
  "MNT_METH_FIND1 c name A K s =
     arg (tomnt A c 1 s) s (\<lambda>p.
     arg (luaL_checkstring A (vm s) 2) s (\<lambda>x.
       found A K ''fs'' (mnt_find K c name p [x] (direction K (lua_toboolean A (vm s) 3))) s))"

definition MNT_METH_FIND2 :: "string \<Rightarrow> string \<Rightarrow> ('v, 'w) mfun" where
  "MNT_METH_FIND2 c name A K s =
     arg (tomnt A c 1 s) s (\<lambda>p.
     arg (luaL_checkstring A (vm s) 2) s (\<lambda>x1.
     arg (luaL_checkstring A (vm s) 3) s (\<lambda>x2.
       found A K ''fs'' (mnt_find K c name p [x1, x2] (direction K (lua_toboolean A (vm s) 4))) s)))"

definition MNT_METH_FIND3 :: "string \<Rightarrow> string \<Rightarrow> ('v, 'w) mfun" where
  "MNT_METH_FIND3 c name A K s =
     arg (tomnt A c 1 s) s (\<lambda>p.
     arg (luaL_checkstring A (vm s) 2) s (\<lambda>x1.
     arg (luaL_checkstring A (vm s) 3) s (\<lambda>x2.
     arg (luaL_checkstring A (vm s) 4) s (\<lambda>x3.
       found A K ''fs'' (mnt_find K c name p [x1, x2, x3] (direction K (lua_toboolean A (vm s) 5))) s))))"

definition MNT_METH_FS :: "string \<Rightarrow> string \<Rightarrow> ('v, 'w) mfun" where
  "MNT_METH_FS c name A K s =
     arg (tomnt A c 1 s) s (\<lambda>p. stored_fs A K (mnt_fs_out K c name p) s)"

definition MNT_METH_FS_OP :: "string \<Rightarrow> string \<Rightarrow> ('v, 'w) mfun" where
  "MNT_METH_FS_OP c name A K s =
     arg (tomnt A c 1 s) s (\<lambda>p.
     arg (tomnt A ''fs'' 2 s) s (\<lambda>fs. mnt_result A (call_os (mnt_op_handle K c name p fs) s)))"

section \<open>File systems and contexts\<close>

definition MNT_METH_MATCH_CACHE :: "string \<Rightarrow> string \<Rightarrow> ('v, 'w) mfun" where
  "MNT_METH_MATCH_CACHE c name A K s =
     arg (tomnt A c 1 s) s (\<lambda>p.
     arg (luaL_checkstring A (vm s) 2) s (\<lambda>x.
     arg (tomnt A ''cache'' 3 s) s (\<lambda>cache. push_test A (call_os (mnt_match_cache K c name p x cache) s))))"

definition mntcontext_get_mtab :: "('v, 'w) mfun" where
  "mntcontext_get_mtab A K s =
     arg (tomnt A ''context'' 1 s) s (\<lambda>ctx. stored_table A K (mnt_context_get_mtab K ctx) s)"

definition mntcontext_get_table :: "('v, 'w) mfun" where
  "mntcontext_get_table A K s =
     arg (tomnt A ''context'' 1 s) s (\<lambda>ctx.
     arg (luaL_checkstring A (vm s) 2) s (\<lambda>filename. stored_table A K (mnt_context_get_table K ctx filename) s))"

definition mntcontext_is_fs_mounted :: "('v, 'w) mfun" where
  "mntcontext_is_fs_mounted A K s =
     arg (tomnt A ''context'' 1 s) s (\<lambda>ctx.
     arg (tomnt A ''fs'' 2 s) s (\<lambda>fs.
       let ((err, mounted), s1) = call_os (mnt_context_is_fs_mounted K ctx fs) s
       in if err < 0 then push_ret 2 (\<lambda>v. lua_pushinteger A (lua_pushnil A v) (- err)) s1
          else push_ret 1 (\<lambda>v. lua_pushboolean A v (mounted \<noteq> 0)) s1))"

definition mntcontext_wait_for_children :: "('v, 'w) mfun" where
  "mntcontext_wait_for_children A K s =
     arg (tomnt A ''context'' 1 s) s (\<lambda>ctx.
       let ((err, nchildren, nerrs), s1) = call_os (mnt_context_wait_for_children K ctx) s
       in push_ret 2 (\<lambda>v.
            if err < 0 then lua_pushinteger A (lua_pushnil A v) (- err)
            else lua_pushinteger A (lua_pushinteger A v nchildren) nerrs) s1)"

definition MNT_METH_ENABLE :: "string \<Rightarrow> string \<Rightarrow> ('v, 'w) mfun" where
  "MNT_METH_ENABLE c name A K s =
     arg (tomnt A c 1 s) s (\<lambda>p.
       let b = (if lua_gettop A (vm s) < 2 then True else lua_toboolean A (vm s) 2)
       in mnt_result A (call_os (mnt_op_boolean K c name p b) s))"

definition MNT_METH_UINT :: "string \<Rightarrow> ('v, 'w) mfun" where
  "MNT_METH_UINT name A K s =
     arg (tomnt A ''context'' 1 s) s (\<lambda>ctx.
       if lua_gettop A (vm s) = 1 then
         (let ((err, mflags), s1) = call_os (mnt_context_get_flags K name ctx) s
          in if err = 0 then push_ret 1 (\<lambda>v. lua_pushinteger A v (sint mflags)) s1
             else mnt_result A (err, s1))
       else
         arg (luaL_checkinteger A (vm s) 2) s (\<lambda>n.
           mnt_result A (call_os (mnt_context_set_flags K name ctx (word_of_int n)) s)))"

section \<open>Library functions\<close>

definition mnt_version :: "('v, 'w) mfun" where
  "mnt_version A K s = push_ret 1 (\<lambda>v. lua_pushstring A v (mnt_get_library_version K)) s"

definition mnt_features :: "('v, 'w) mfun" where
  "mnt_features A K s =
     (let (n, features) = mnt_get_library_features K
      in if n \<le> 0 then Some (Inr 0, s)
         else
           push_ret 1 (\<lambda>v. fold (\<lambda>i v. lua_rawseti A (lua_pushstring A v (features i)) (- 2) (int i + 1))
             [0..<nat n] (lua_newtable A v)) s)"

definition mntmisc_mountpoint :: "('v, 'w) mfun" where
  "mntmisc_mountpoint A K s =
     arg (luaL_checkstring A (vm s) 1) s (\<lambda>path.
       let (mp, s1) = call_os (mnt_get_mountpoint K path) s
       in if mp \<noteq> 0 then
            Some (Inr 1, do_os (mnt_cfree K mp) (upd_vm (\<lambda>v. lua_pushstring A v (mnt_cstr K mp (os s1))) s1))
          else push_ret 1 (lua_pushnil A) s1)"

definition mntmisc_match_fstype :: "('v, 'w) mfun" where
  "mntmisc_match_fstype A K s =
     arg (luaL_checkstring A (vm s) 1) s (\<lambda>type.
     arg (luaL_optstring A (vm s) 2) s (\<lambda>pattern.
       push_ret 1 (\<lambda>v. lua_pushboolean A v (mnt_match_fstype K type pattern \<noteq> 0)) s))"

text \<open>A C string that the library returned, NULL as nil.\<close>

definition push_str_ptr :: "'v lua_api \<Rightarrow> 'w mntapi \<Rightarrow> 64 word \<times> ('v, 'w) st \<Rightarrow> ('v, 'w) ret" where
  "push_str_ptr A K x =
     (case x of (p, s) \<Rightarrow> push_ret 1 (\<lambda>v. push_cstring A v (if p = 0 then None else Some (mnt_cstr K p (os s)))) s)"

definition MNTMISC_METH_ARG0 :: "string \<Rightarrow> ('v, 'w) mfun" where
  "MNTMISC_METH_ARG0 name A K s = push_str_ptr A K (call_os (mnt_misc_path K name) s)"

definition MNTMISC_METH_ARG1_boolean :: "string \<Rightarrow> ('v, 'w) mfun" where
  "MNTMISC_METH_ARG1_boolean name A K s =
     arg (luaL_checkstring A (vm s) 1) s (\<lambda>x. push_test A (call_os (mnt_misc_test K name x) s))"

definition MNTMISC_METH_ARG1_string :: "string \<Rightarrow> ('v, 'w) mfun" where
  "MNTMISC_METH_ARG1_string name A K s =
     arg (luaL_checkstring A (vm s) 1) s (\<lambda>x. push_str_ptr A K (call_os (mnt_misc_string K name x) s))"

section \<open>What libmount promises\<close>

text \<open>
  The contract of libmount: \<open>refs w h\<close> is the reference count of file system \<open>h\<close>, \<open>ents w tb\<close> are the file systems
  of table \<open>tb\<close> in order, \<open>rest w tb it\<close> those that iterator \<open>it\<close> has not delivered yet. A function that returns 0 has
  stored a handle, one that fails has stored none; none of the functions that hand out a file
  system takes a reference itself. The law \<open>handle_law\<close> has one premise per such function.
\<close>

definition hands_out :: "(int \<times> 64 word option) \<times> 'w \<Rightarrow> ('w \<Rightarrow> 64 word \<Rightarrow> int) \<Rightarrow> 'w \<Rightarrow> bool" where
  "hands_out r refs w \<longleftrightarrow>
     (case r of ((err, h), w') \<Rightarrow> refs w' = refs w \<and> (if err = 0 then \<exists>x. h = Some x \<and> x \<noteq> 0 else h \<in> {None, Some 0}))"

text \<open>
  What a step from \<open>s\<close> to \<open>s1\<close> does that hands out one file system: the new userdata \<open>u\<close> holds it and the count is one higher, or
  \<open>u\<close> holds NULL, nil is returned and no count has changed.
\<close>

definition one_handle ::
  "('v \<Rightarrow> lval list) \<Rightarrow> ('v \<Rightarrow> nat \<Rightarrow> string option) \<Rightarrow> ('w \<Rightarrow> 64 word \<Rightarrow> int) \<Rightarrow> ('v, 'w) st \<Rightarrow> ('v, 'w) st \<Rightarrow> nat \<Rightarrow> bool" where
  "one_handle stk meta refs s s1 u \<longleftrightarrow>
     LUd u \<notin> set (stk (vm s)) \<and> meta (vm s1) u = Some (METH_MOUNT ''fs'') \<and>
     (if mem s1 u 0 = 0 then stk (vm s1) = stk (vm s) @ [LUd u, LNil] \<and> refs (os s1) = refs (os s)
      else stk (vm s1) = stk (vm s) @ [LUd u] \<and> refs (os s1) = (refs (os s))(mem s1 u 0 := refs (os s) (mem s1 u 0) + 1))"

locale mnt_lua = lua_upvalues A stk tget meta upv
  for A :: "'v lua_api" and stk tget meta upv +
  fixes K :: "'w mntapi" and refs :: "'w \<Rightarrow> 64 word \<Rightarrow> int" and ents :: "'w \<Rightarrow> 64 word \<Rightarrow> 64 word list"
    and rest :: "'w \<Rightarrow> 64 word \<Rightarrow> 64 word \<Rightarrow> 64 word list"
  assumes ref_law: "h \<noteq> 0 \<Longrightarrow> refs (mnt_ref K ''fs'' h w) = (refs w)(h := refs w h + 1)"
      "rest (mnt_ref K ''fs'' h w) = rest w"
    and unref_law: "refs (mnt_unref K ''fs'' h w) = (if h = 0 then refs w else (refs w)(h := refs w h - 1))"
    and find_law: "refs (snd (mnt_find K c name p xs d w)) = refs w" "refs (snd (mnt_table_find_devno K tb devno d w)) = refs w"
    and handle_law: "hands_out (mnt_fs_out K c name tb w) refs w" "hands_out (mnt_table_next_child_fs K tb it parent w) refs w"
      "hands_out (mnt_table_over_fs K tb parent w) refs w" "hands_out (mnt_table_next_fs K tb it w) refs w"
    and dir_law: "MNT_ITER_FORWARD K \<noteq> MNT_ITER_BACKWARD K"
    and new_iter_law: "mnt_new_iter K d w = (it, w') \<Longrightarrow> it \<noteq> 0 \<Longrightarrow>
       rest w' tb it = (if d = MNT_ITER_BACKWARD K then rev (ents w tb) else ents w tb) \<and> refs w' = refs w"
    and next_law: "rest w tb it = h # hs \<Longrightarrow> \<exists>w'. mnt_table_next_fs K tb it w = ((0, Some h), w') \<and> rest w' tb it = hs"
      "rest w tb it = [] \<Longrightarrow> fst (fst (mnt_table_next_fs K tb it w)) \<noteq> 0"
begin

lemma found_one_handle:
  assumes "found A K ''fs'' call s = Some (r, s1)" and "\<And>w. refs (snd (call w)) = refs w"
  shows "r = Inr 1 \<and> (\<exists>u. one_handle stk meta refs s s1 u)"
proof -
  obtain u s' where nc: "newcptr A (METH_MOUNT ''fs'') s = (u, s')" by fastforce
  note new = newcptr_new [OF nc]
  obtain h w where c: "call (os s) = (h, w)" by fastforce
  have "refs w = refs (os s)" using assms(2) [of "os s"] c by simp
  then show ?thesis
    using assms(1) new c
    by (auto simp: found_def Let_def nc call_os_def push_ret_def one_handle_def ref_law pushnil_law split: if_splits intro!: exI [of _ u])
qed

lemma stored_one_handle:
  assumes "stored_fs A K call s = Some (r, s1)" and "\<And>w. hands_out (call w) refs w"
  shows "r = Inr 1 \<and> (\<exists>u. one_handle stk meta refs s s1 u)"
proof -
  obtain u s' where nc: "newcptr A (METH_MOUNT ''fs'') s = (u, s')" by fastforce
  note new = newcptr_new [OF nc]
  obtain err h w where c: "call (os s) = ((err, h), w)" by (metis prod.exhaust)
  have "refs w = refs (os s)" "if err = 0 then \<exists>x. h = Some x \<and> x \<noteq> 0 else h \<in> {None, Some 0}"
    using assms(2) [of "os s"] c by (simp_all add: hands_out_def split: if_splits)
  then show ?thesis
    using assms(1) new c
    by (auto simp: stored_fs_def Let_def nc call_os_def push_ret_def store_handle_def one_handle_def ref_law pushnil_law
        split: if_splits intro!: exI [of _ u])
qed

lemma over_one_handle:
  assumes "mnttable_over_fs_next A K s = Some (Inr n, s1)" and "at (upv (vm s)) 2 = Some (LUd parent)"
  shows "n = 1 \<and> (\<exists>u. one_handle stk meta refs s s1 u)"
proof -
  obtain u s' where nc: "newcptr A (METH_MOUNT ''fs'') s = (u, s')" by fastforce
  note new = newcptr_new [OF nc]
  have up: "u \<noteq> parent" using newcptr_upv [OF nc] at_mem [OF assms(2)] by auto
  obtain tb where tb: "tomnt A ''table'' (lua_upvalueindex 1) s = Inr tb"
    using assms(1) by (cases "tomnt A ''table'' (lua_upvalueindex 1) s") (simp_all add: mnttable_over_fs_next_def)
  obtain err h w where c: "mnt_table_over_fs K tb (mem s' parent 0) (os s) = ((err, h), w)" by (metis prod.exhaust)
  have "refs w = refs (os s)" "if err = 0 then \<exists>x. h = Some x \<and> x \<noteq> 0 else h \<in> {None, Some 0}"
    using handle_law(3) [of tb "mem s' parent 0" "os s"] c by (simp_all add: hands_out_def split: if_splits)
  then show ?thesis
    using assms(1) new c tb up upvalue_touserdata [OF _ assms(2)]
    by (auto simp: mnttable_over_fs_next_def Let_def nc call_os_def push_ret_def store_handle_def one_handle_def ref_law pushnil_law
        split: if_splits intro!: exI [of _ u])
qed

end

section \<open>Handing out and collecting file systems\<close>

text \<open>
  The functions that hand out a file system, with the precondition of the closure over a parent.
\<close>

context mnt_lua
begin

lemma argD: "arg r s f = Some (Inr n, s1) \<Longrightarrow> \<exists>x. r = Inr x \<and> f x = Some (Inr n, s1)"
  by (cases r) (simp_all add: arg_def)

lemma find_one_handle:
  assumes "f \<in> {MNT_METH_FIND1 ''table'' name, MNT_METH_FIND2 ''table'' name, MNT_METH_FIND3 ''table'' name,
      mnttable_find_devno, MNT_METH_FS ''table'' name, mnttable_fs_next, mnttable_child_fs_next}"
    and "f A K s = Some (Inr n, s1)"
  shows "n = 1 \<and> (\<exists>u. one_handle stk meta refs s s1 u)"
  using assms
  by (auto simp: MNT_METH_FIND1_def MNT_METH_FIND2_def MNT_METH_FIND3_def mnttable_find_devno_def MNT_METH_FS_def
      mnttable_fs_next_def mnttable_child_fs_next_def dest!: argD
      dest!: found_one_handle [OF _ find_law(1)] found_one_handle [OF _ find_law(2)] stored_one_handle [OF _ handle_law(1)]
      stored_one_handle [OF _ handle_law(2)] stored_one_handle [OF _ handle_law(4)])

lemma gc_handle:
  assumes "stk (vm s) = [LUd u]" and "meta (vm s) u = Some (METH_MOUNT ''fs'')"
  shows "\<exists>s'. MNT_UDATA_GC ''fs'' A K s = Some (Inr 0, s') \<and>
    refs (os s') = (if mem s u 0 = 0 then refs (os s) else (refs (os s))(mem s u 0 := refs (os s) (mem s u 0) - 1))"
proof -
  have "at (stk (vm s)) 1 = Some (LUd u)" using assms(1) by (simp add: at_def)
  then have "tomnt A ''fs'' 1 s = Inr (mem s u 0)"
    using checkudata_at assms(2) by (simp add: tomnt_def toudata_def toudatap_def)
  then show ?thesis by (simp add: MNT_UDATA_GC_def unref_law)
qed

end

section \<open>Iterating over a table\<close>

text \<open>
  A generic \<open>for\<close> over the closure: \<open>enter\<close> is what Lua does between two calls (it makes the upvalues of the closure
  current). The handles the loop body gets, in order, and the state in which the loop has ended.
\<close>

primrec for_fs ::
  "'v lua_api \<Rightarrow> ('v \<Rightarrow> lval list) \<Rightarrow> 'w mntapi \<Rightarrow> (('v, 'w) st \<Rightarrow> ('v, 'w) st) \<Rightarrow> nat \<Rightarrow> ('v, 'w) st \<Rightarrow> (64 word list \<times> ('v, 'w) st) option" where
  "for_fs A stk K enter 0 s = None"
| "for_fs A stk K enter (Suc n) s =
     (case mnttable_fs_next A K (enter s) of
        Some (Inr _, s1) \<Rightarrow>
          (case last (stk (vm s1)) of
             LUd b \<Rightarrow> map_option (apfst ((#) (mem s1 b 0))) (for_fs A stk K enter n s1)
           | _ \<Rightarrow> Some ([], s1))
      | _ \<Rightarrow> None)"

context mnt_lua
begin

text \<open>One call of the closure, with the block \<open>u\<close> of the new userdata.\<close>

lemma fs_next_step:
  assumes "upv (vm s) = [LUd t, LUd i]" and "meta (vm s) t = Some (METH_MOUNT ''table'')" and "meta (vm s) i = Some (METH_MOUNT ''iter'')"
    and "mnt_table_next_fs K (mem s t 0) (mem s i 0) (os s) = ((err, h), w)"
  shows "\<exists>u s1. mnttable_fs_next A K s = Some (Inr 1, s1) \<and> u \<notin> {t, i} \<and> mem s1 t = mem s t \<and> mem s1 i = mem s i \<and>
    (if err = 0 then \<exists>x. h = Some x \<and> x \<noteq> 0 \<and> last (stk (vm s1)) = LUd u \<and> mem s1 u 0 = x \<and> os s1 = mnt_ref K ''fs'' x w
     else last (stk (vm s1)) = LNil \<and> os s1 = w)"
proof -
  obtain u s' where nc: "newcptr A (METH_MOUNT ''fs'') s = (u, s')" by fastforce
  note new = newcptr_new [OF nc]
  have u: "u \<noteq> t" "u \<noteq> i" using newcptr_upv [OF nc] assms(1) by auto
  have ud: "luaL_checkudata A (vm s) (lua_upvalueindex 1) (METH_MOUNT ''table'') = Inr t"
    "luaL_checkudata A (vm s) (lua_upvalueindex 2) (METH_MOUNT ''iter'') = Inr i"
    using assms(1-3) by (simp_all add: upvalue_law at_def)
  have "if err = 0 then \<exists>x. h = Some x \<and> x \<noteq> 0 else h \<in> {None, Some 0}"
    using handle_law(4) [of "mem s t 0" "mem s i 0" "os s"] assms(4) by (simp add: hands_out_def split: if_splits)
  then show ?thesis
    using u new assms(4) ud
    by (auto simp: mnttable_fs_next_def tomnt_def toudata_def toudatap_def stored_fs_def Let_def nc call_os_def push_ret_def
        store_handle_def pushnil_law split: if_splits intro!: exI [of _ u])
qed

lemma for_fs_all:
  assumes "\<And>s. upv (vm (enter s)) = [LUd t, LUd i] \<and> meta (vm (enter s)) t = Some (METH_MOUNT ''table'') \<and>
      meta (vm (enter s)) i = Some (METH_MOUNT ''iter'') \<and> mem (enter s) = mem s \<and> os (enter s) = os s"
    and "rest (os s) (mem s t 0) (mem s i 0) = hs" and "length hs < n"
  shows "\<exists>s'. for_fs A stk K enter n s = Some (hs, s') \<and> (\<forall>h. refs (os s') h = refs (os s) h + int (count_list hs h))"
  using assms(2,3)
proof (induction hs arbitrary: s n)
  case Nil
  obtain err h w where nx: "mnt_table_next_fs K (mem s t 0) (mem s i 0) (os s) = ((err, h), w)" by (metis prod.exhaust)
  have "err \<noteq> 0" using next_law(2) [OF Nil.prems(1)] nx by simp
  moreover have "refs w = refs (os s)" using handle_law(4) [of "mem s t 0" "mem s i 0" "os s"] nx by (simp add: hands_out_def)
  moreover obtain n' where "n = Suc n'" using Nil.prems(2) by (cases n) auto
  ultimately show ?case using fs_next_step [of "enter s" t i err h w] nx assms(1) [of s] by auto
next
  case (Cons h hs)
  obtain n' where n: "n = Suc n'" "length hs < n'" using Cons.prems(2) by (cases n) auto
  obtain w where nx: "mnt_table_next_fs K (mem s t 0) (mem s i 0) (os s) = ((0, Some h), w)" "rest w (mem s t 0) (mem s i 0) = hs"
    using next_law(1) [OF Cons.prems(1)] by blast
  have w: "refs w = refs (os s)" "h \<noteq> 0" using handle_law(4) [of "mem s t 0" "mem s i 0" "os s"] nx(1) by (simp_all add: hands_out_def)
  obtain u s1 where s1: "mnttable_fs_next A K (enter s) = Some (Inr 1, s1)" "mem s1 t = mem s t" "mem s1 i = mem s i"
    "last (stk (vm s1)) = LUd u" "mem s1 u 0 = h" "os s1 = mnt_ref K ''fs'' h w"
    using fs_next_step [of "enter s" t i 0 "Some h" w] nx(1) assms(1) [of s] by auto
  have "rest (os s1) (mem s1 t 0) (mem s1 i 0) = hs" using s1 nx(2) ref_law(2) by simp
  then obtain s' where "for_fs A stk K enter n' s1 = Some (hs, s')" "\<forall>h. refs (os s') h = refs (os s1) h + int (count_list hs h)"
    using Cons.IH [of s1 n'] n(2) by auto
  then show ?case using s1 w n(1) ref_law(1) by (auto simp: fun_upd_apply)
qed

text \<open>The call that starts the iteration.\<close>

lemma fs_start:
  assumes "stk (vm s) = LUd t # xs" and "meta (vm s) t = Some (METH_MOUNT ''table'')" and "\<And>d w. fst (mnt_new_iter K d w) \<noteq> 0"
    and "hs = (if take 1 xs \<in> {[], [LNil], [LBool False]} then ents (os s) (mem s t 0) else rev (ents (os s) (mem s t 0)))"
  shows "\<exists>s1 i. mnttable_fs A K s = Some (Inr 1, s1) \<and> stk (vm s1) = [LFun ''mnttable_fs_next''] \<and> i \<noteq> t \<and>
    rest (os s1) (mem s1 t 0) (mem s1 i 0) = hs \<and> refs (os s1) = refs (os s)"
proof -
  let ?b = "lua_toboolean A (vm s) 2" and ?s = "upd_vm (\<lambda>v. lua_settop A v 1) s"
  have at: "at (stk (vm s)) 1 = Some (LUd t)" using assms(1) by (simp add: at_def)
  have tb: "tomnt A ''table'' 1 s = Inr (mem s t 0)"
    using checkudata_at [OF at assms(2)] by (simp add: tomnt_def toudata_def toudatap_def)
  have "?b \<longleftrightarrow> take 1 xs \<notin> {[], [LNil], [LBool False]}"
    using assms(1) toboolean_law [of 2 "vm s"] by (cases xs) (auto simp: at_def)
  then have hs: "hs = (if ?b then rev (ents (os s) (mem s t 0)) else ents (os s) (mem s t 0))" using assms(4) by simp
  obtain i s' where nc: "newcptr A (METH_MOUNT ''iter'') ?s = (i, s')" by fastforce
  note new = newcptr_new [OF nc]
  have "stk (vm ?s) = [LUd t]" using settop_law(1) [of "vm s" 1] assms(1) by (simp add: settop_def)
  then have st: "stk (vm s') = [] @ [LUd t, LUd i]" "i \<noteq> t" using new(1,2) by auto
  obtain it w where it: "mnt_new_iter K (direction K ?b) (os s) = (it, w)" "it \<noteq> 0" using assms(3) by (metis fst_conv prod.exhaust)
  have "rest w (mem s t 0) it = hs" "refs w = refs (os s)"
    using new_iter_law [OF it] dir_law hs by (simp_all add: direction_def)
  then show ?thesis
    using new(3,4) st it tb pushcclosure_law(1) [OF st(1), of 2 "''mnttable_fs_next''"]
    by (auto simp: mnttable_fs_def iter_closure_def Let_def nc call_os_def push_ret_def intro!: exI [of _ i])
qed

end

section \<open>A reference libmount\<close>

text \<open>
  One table with the file systems of the first component; the second has those the iterator has not
  delivered, the third the reference counts.
\<close>

type_synonym mworld = "64 word list \<times> 64 word list \<times> (64 word \<Rightarrow> int)"

fun ref_next :: "mworld \<Rightarrow> (int \<times> 64 word option) \<times> mworld" where
  "ref_next (es, [], r) = ((1, Some 0), (es, [], r))"
| "ref_next (es, h # hs, r) = (if h = 0 then ((1, Some 0), (es, h # hs, r)) else ((0, Some h), (es, hs, r)))"

definition ref_mnt :: "mworld mntapi" where
  "ref_mnt =
     \<lparr>MNT_ITER_FORWARD = 1, MNT_ITER_BACKWARD = 2, mnt_new = (\<lambda>_ w. (1, w)),
      mnt_free = (\<lambda>_ _ w. w), mnt_ref = (\<lambda>c h (es, hs, r). (es, hs, r(h := r h + 1))),
      mnt_unref = (\<lambda>c h (es, hs, r). (es, hs, if h = 0 then r else r(h := r h - 1))),
      mnt_get_string = (\<lambda>_ _ _ w. (None, w)), mnt_get_integer = (\<lambda>_ _ _ w. (0, w)),
      mnt_set_string = (\<lambda>_ _ _ _ w. (0, w)), mnt_set_integer = (\<lambda>_ _ _ _ w. (0, w)),
      mnt_test = (\<lambda>_ _ _ w. (0, w)), mnt_test_string = (\<lambda>_ _ _ _ w. (0, w)),
      mnt_op = (\<lambda>_ _ _ w. (0, w)), mnt_op_string = (\<lambda>_ _ _ _ w. (0, w)),
      mnt_op_integer = (\<lambda>_ _ _ _ w. (0, w)), mnt_op_handle = (\<lambda>_ _ _ _ w. (0, w)),
      mnt_op_boolean = (\<lambda>_ _ _ _ w. (0, w)),
      mnt_find = (\<lambda>_ _ _ _ _ w. (case fst w of [] \<Rightarrow> 0 | h # hs \<Rightarrow> h, w)),
      mnt_fs_out = (\<lambda>_ _ _ w. ((1, None), w)), mnt_match_cache = (\<lambda>_ _ _ _ _ w. (0, w)),
      mnt_cache_device_has_tag = (\<lambda>_ _ _ _ w. (0, w)),
      mnt_cache_find_tag_value = (\<lambda>_ _ _ w. (None, w)),
      mnt_cache_read_tags = (\<lambda>_ _ w. (0, w)), mnt_cache_set_targets = (\<lambda>_ _ w. (0, w)),
      mnt_new_table_from_dir = (\<lambda>_ w. (1, w)), mnt_new_table_from_file = (\<lambda>_ w. (1, w)),
      mnt_table_enable_comments = (\<lambda>_ _ w. w), mnt_table_find_devno = (\<lambda>_ _ _ w. (1, w)),
      mnt_table_get_cache = (\<lambda>_ w. (1, w)), mnt_table_set_cache = (\<lambda>_ _ w. (0, w)),
      mnt_table_get_nents = (\<lambda>_ w. (0, w)), mnt_table_is_fs_mounted = (\<lambda>_ _ w. (0, w)),
      mnt_table_set_iter = (\<lambda>_ _ _ w. (0, w)),
      mnt_new_iter = (\<lambda>d (es, hs, r). (7, (es, (if d = 2 then rev else id) (filter (\<lambda>h. h \<noteq> 0) es), r))),
      mnt_table_next_fs = (\<lambda>tb it w. ref_next w),
      mnt_table_next_child_fs = (\<lambda>_ _ _ w. ((1, None), w)),
      mnt_table_over_fs = (\<lambda>_ _ w. ((1, None), w)), mnt_table_find_fs = (\<lambda>_ _ w. (0, w)),
      mnt_table_insert_fs = (\<lambda>_ _ _ _ w. (0, w)),
      mnt_table_move_fs = (\<lambda>_ _ _ _ _ w. (0, w)),
      mnt_context_get_mtab = (\<lambda>_ w. ((0, None), w)),
      mnt_context_get_table = (\<lambda>_ _ w. ((0, None), w)),
      mnt_context_is_fs_mounted = (\<lambda>_ _ w. ((0, 0), w)),
      mnt_context_wait_for_children = (\<lambda>_ w. ((0, 0, 0), w)),
      mnt_context_get_flags = (\<lambda>_ _ w. ((0, 1), w)),
      mnt_context_set_flags = (\<lambda>_ _ _ w. (0, w)), mnt_get_library_version = [],
      mnt_get_library_features = (1, \<lambda>_. ''selinux''), mnt_cstr = (\<lambda>_ _. []),
      mnt_cfree = (\<lambda>_ w. w), mnt_get_mountpoint = (\<lambda>_ w. (1, w)),
      mnt_match_fstype = (\<lambda>_ _. 0), mnt_misc_path = (\<lambda>_ w. (1, w)),
      mnt_misc_test = (\<lambda>_ _ w. (0, w)), mnt_misc_string = (\<lambda>_ _ w. (1, w))\<rparr>"

interpretation rm: mnt_lua ref_lua r_stk r_tab r_meta r_upv ref_mnt "\<lambda>w. snd (snd w)" "\<lambda>w tb. filter (\<lambda>h. h \<noteq> 0) (fst w)"
  "\<lambda>w tb it. takeWhile (\<lambda>h. h \<noteq> 0) (fst (snd w))"
proof unfold_locales
  fix w :: mworld and tb it h hs
  show "takeWhile (\<lambda>h. h \<noteq> 0) (fst (snd w)) = h # hs \<Longrightarrow>
      \<exists>w'. mnt_table_next_fs ref_mnt tb it w = ((0, Some h), w') \<and> takeWhile (\<lambda>h. h \<noteq> 0) (fst (snd w')) = hs"
    by (cases w rule: ref_next.cases) (auto simp: ref_mnt_def split: if_splits)
  show "takeWhile (\<lambda>h. h \<noteq> 0) (fst (snd w)) = [] \<Longrightarrow> fst (fst (mnt_table_next_fs ref_mnt tb it w)) \<noteq> 0"
    by (cases w rule: ref_next.cases) (auto simp: ref_mnt_def split: if_splits)
  show "hands_out (mnt_table_next_fs ref_mnt tb it w) (\<lambda>w. snd (snd w)) w"
    by (cases w rule: ref_next.cases) (auto simp: ref_mnt_def hands_out_def split: if_splits)
qed (auto simp: ref_mnt_def hands_out_def rev_filter split: prod.splits)

section \<open>Properties\<close>

text \<open>
  C35. References to file systems are balanced: every function that hands out a file system, whether found
  by a criterion, first, last or root of the table, or next of an iteration, returns it in a new userdata and
  takes exactly one reference, or returns nil and takes none; when the userdata is collected every reference
  count is back at its value before the call.
\<close>

theorem fs_handles_balanced:
  assumes "mnt_lua A stk tget meta upv K refs ents rest"
    and "f \<in> {MNT_METH_FIND1 ''table'' name, MNT_METH_FIND2 ''table'' name, MNT_METH_FIND3 ''table'' name,
      mnttable_find_devno, MNT_METH_FS ''table'' name, mnttable_fs_next, mnttable_child_fs_next} \<or>
      f = mnttable_over_fs_next \<and> at (upv (vm s)) 2 = Some (LUd parent)"
    and "f A K s = Some (Inr n, s1)"
  shows "n = 1 \<and> (\<exists>u. one_handle stk meta refs s s1 u \<and>
    (\<forall>s2. stk (vm s2) = [LUd u] \<and> meta (vm s2) u = meta (vm s1) u \<and> mem s2 u 0 = mem s1 u 0 \<and> os s2 = os s1 \<longrightarrow>
      (\<exists>s3. MNT_UDATA_GC ''fs'' A K s2 = Some (Inr 0, s3) \<and> refs (os s3) = refs (os s))))"
proof -
  obtain u where u: "n = 1" "one_handle stk meta refs s s1 u"
    using assms(2,3) mnt_lua.find_one_handle [OF assms(1)] mnt_lua.over_one_handle [OF assms(1)] by blast
  have "\<exists>s3. MNT_UDATA_GC ''fs'' A K s2 = Some (Inr 0, s3) \<and> refs (os s3) = refs (os s)"
    if "stk (vm s2) = [LUd u]" "meta (vm s2) u = meta (vm s1) u" "mem s2 u 0 = mem s1 u 0" "os s2 = os s1" for s2
    using mnt_lua.gc_handle [OF assms(1) that(1)] u(2) that by (fastforce simp: one_handle_def split: if_splits)
  then show ?thesis using u by blast
qed

text \<open>The reference machine with a table of two file systems.\<close>

definition mnt_st :: "(ref_vm, mworld) st" where
  "mnt_st = \<lparr>vm = \<lparr>r_stk = [LUd 1, LStr ''/home''], r_tab = (\<lambda>_ _. LNil), r_meta = (\<lambda>_. Some (METH_MOUNT ''table'')),
     r_next = 1, r_fld = (\<lambda>_ _. LNil), r_upv = [], r_glob = (\<lambda>_. LNil)\<rparr>, mem = (\<lambda>_ _. 3), os = ([5, 6], [], (\<lambda>_. 1))\<rparr>"

theorem fs_handles_balanced_witness:
  "\<exists>s1 u. MNT_METH_FIND1 ''table'' ''find_target'' ref_lua ref_mnt mnt_st = Some (Inr 1, s1) \<and>
    snd (snd (os s1)) 5 = 2 \<and> (\<exists>s3. MNT_UDATA_GC ''fs'' ref_lua ref_mnt (s1\<lparr>vm := (vm s1)\<lparr>r_stk := [LUd u]\<rparr>\<rparr>) = Some (Inr 0, s3) \<and>
      snd (snd (os s3)) 5 = 1)"
proof -
  obtain s1 where s1: "MNT_METH_FIND1 ''table'' ''find_target'' ref_lua ref_mnt mnt_st = Some (Inr 1, s1)" "snd (snd (os s1)) 5 = 2"
    by (simp add: MNT_METH_FIND1_def mnt_st_def tomnt_def toudata_def toudatap_def ref_lua_def ref_mnt_def
        r_checkudata_def r_checkstring_def at_def found_def newcptr_def fresh_id_def call_os_def Let_def)
  obtain u where u: "\<forall>s2. r_stk (vm s2) = [LUd u] \<and> r_meta (vm s2) u = r_meta (vm s1) u \<and> mem s2 u 0 = mem s1 u 0 \<and> os s2 = os s1 \<longrightarrow>
      (\<exists>s3. MNT_UDATA_GC ''fs'' ref_lua ref_mnt s2 = Some (Inr 0, s3) \<and> snd (snd (os s3)) = snd (snd (os mnt_st)))"
    using fs_handles_balanced [where f = "MNT_METH_FIND1 ''table'' ''find_target''" and name = "''find_target''", OF rm.mnt_lua_axioms _ s1(1)]
    by blast
  have "\<exists>s3. MNT_UDATA_GC ''fs'' ref_lua ref_mnt (s1\<lparr>vm := (vm s1)\<lparr>r_stk := [LUd u]\<rparr>\<rparr>) = Some (Inr 0, s3) \<and> snd (snd (os s3)) 5 = 1"
    using u [rule_format, of "s1\<lparr>vm := (vm s1)\<lparr>r_stk := [LUd u]\<rparr>\<rparr>"] by (auto simp: mnt_st_def)
  then show ?thesis using s1 by blast
qed

text \<open>
  C36. Iterating over a table is complete: \<open>for fs in tb:fs(backward)\<close> delivers exactly the file systems of the table,
  in order or, with \<open>backward\<close>, in reverse order, and ends; each delivered file system carries one reference
  of its own.
\<close>

theorem table_iteration_complete:
  assumes "mnt_lua A stk tget meta upv K refs ents rest"
    and "stk (vm s) = LUd t # xs" and "meta (vm s) t = Some (METH_MOUNT ''table'')"
    and "\<And>d w. fst (mnt_new_iter K d w) \<noteq> 0"
    and "hs = (if take 1 xs \<in> {[], [LNil], [LBool False]} then ents (os s) (mem s t 0) else rev (ents (os s) (mem s t 0)))"
  shows "\<exists>s1 i. mnttable_fs A K s = Some (Inr 1, s1) \<and> stk (vm s1) = [LFun ''mnttable_fs_next''] \<and> i \<noteq> t \<and>
    (\<forall>enter n. (\<forall>s. upv (vm (enter s)) = [LUd t, LUd i] \<and> meta (vm (enter s)) t = Some (METH_MOUNT ''table'') \<and>
        meta (vm (enter s)) i = Some (METH_MOUNT ''iter'') \<and> mem (enter s) = mem s \<and> os (enter s) = os s) \<and> length hs < n \<longrightarrow>
      (\<exists>s2. for_fs A stk K enter n s1 = Some (hs, s2) \<and> (\<forall>h. refs (os s2) h = refs (os s) h + int (count_list hs h))))"
proof -
  obtain s1 i where s1: "mnttable_fs A K s = Some (Inr 1, s1)" "stk (vm s1) = [LFun ''mnttable_fs_next'']" "i \<noteq> t"
    "rest (os s1) (mem s1 t 0) (mem s1 i 0) = hs" "refs (os s1) = refs (os s)"
    using mnt_lua.fs_start [OF assms] by blast
  show ?thesis
    using s1(1-3) mnt_lua.for_fs_all [OF assms(1) _ s1(4)] s1(5) by (intro exI [of _ s1] exI [of _ i]) auto
qed

theorem table_iteration_complete_witness:
  "\<exists>s1 i. mnttable_fs ref_lua ref_mnt mnt_st = Some (Inr 1, s1) \<and>
    (\<exists>s2. for_fs ref_lua r_stk ref_mnt (\<lambda>s. s\<lparr>vm := (vm s)\<lparr>r_stk := [], r_upv := [LUd 1, LUd i],
        r_meta := (\<lambda>u. Some (METH_MOUNT (if u = 1 then ''table'' else ''iter'')))\<rparr>\<rparr>) 3 s1 = Some ([6, 5], s2) \<and> snd (snd (os s2)) 6 = 2)"
proof -
  have st: "r_stk (vm mnt_st) = LUd 1 # [LStr ''/home'']" "r_meta (vm mnt_st) 1 = Some (METH_MOUNT ''table'')"
    "fst (mnt_new_iter ref_mnt d w) \<noteq> 0" "os mnt_st = ([5, 6], [], (\<lambda>_. 1))" for d w
    by (simp_all add: mnt_st_def ref_mnt_def split: prod.splits)
  obtain s1 i where s1: "mnttable_fs ref_lua ref_mnt mnt_st = Some (Inr 1, s1)" "i \<noteq> 1"
    "\<forall>enter n. (\<forall>s. r_upv (vm (enter s)) = [LUd 1, LUd i] \<and> r_meta (vm (enter s)) 1 = Some (METH_MOUNT ''table'') \<and>
        r_meta (vm (enter s)) i = Some (METH_MOUNT ''iter'') \<and> mem (enter s) = mem s \<and> os (enter s) = os s) \<and> length [6, 5 :: 64 word] < n \<longrightarrow>
      (\<exists>s2. for_fs ref_lua r_stk ref_mnt enter n s1 = Some ([6, 5], s2) \<and>
        (\<forall>h. snd (snd (os s2)) h = snd (snd (os mnt_st)) h + int (count_list [6, 5] h)))"
    using table_iteration_complete [OF rm.mnt_lua_axioms st(1-3), of "[6, 5]"] st(4) by auto
  have "\<exists>s2. for_fs ref_lua r_stk ref_mnt (\<lambda>s. s\<lparr>vm := (vm s)\<lparr>r_stk := [], r_upv := [LUd 1, LUd i],
        r_meta := (\<lambda>u. Some (METH_MOUNT (if u = 1 then ''table'' else ''iter'')))\<rparr>\<rparr>) 3 s1 = Some ([6, 5], s2) \<and>
      (\<forall>h. snd (snd (os s2)) h = snd (snd (os mnt_st)) h + int (count_list [6, 5] h))"
    by (rule s1(3) [rule_format]) (simp add: s1(2) [simplified])
  then show ?thesis using s1(1) st(4) by fastforce
qed

end
