(* ===== verification/Lua_Rpm.thy ===== *)
theory Lua_Rpm
  imports Lua_Aux
begin

text \<open>
  The rpm binding (\<open>src/daemon/lua_rpm.c\<close>): transaction sets, package headers, file lists and macros of librpm. The
  record \<open>rpmapi\<close> has the library functions. Strings that the library allocates are addresses, read with \<open>rpm_cstr\<close>
  and released with \<open>rpm_cfree\<close>; the data of a tag is a handle.
\<close>

record 'w rpmapi =
  RPMDBI_PACKAGES :: int
  RPMDBI_NAME :: int
  RPMVSF_NODIGESTS :: "32 word"
  RPMVSF_NOSIGNATURES :: "32 word"
  rpm_cstr :: "64 word \<Rightarrow> 'w \<Rightarrow> string"
  rpm_cfree :: "64 word \<Rightarrow> 'w \<Rightarrow> 'w"
  rpmdbFreeIterator :: "64 word \<Rightarrow> 'w \<Rightarrow> 'w"
  rpmdbNextIterator :: "64 word \<Rightarrow> 'w \<Rightarrow> 64 word \<times> 'w"
  rpmtsInitIterator :: "64 word \<Rightarrow> int \<Rightarrow> string option \<Rightarrow> nat \<Rightarrow> 'w \<Rightarrow> 64 word \<times> 'w"
  rpmfiFree :: "64 word \<Rightarrow> 'w \<Rightarrow> 'w"
  rpmfi_integer :: "string \<Rightarrow> 64 word \<Rightarrow> 'w \<Rightarrow> int"
  rpmfi_string :: "string \<Rightarrow> 64 word \<Rightarrow> 'w \<Rightarrow> string option"
  rpmfiFDigestHex :: "64 word \<Rightarrow> 'w \<Rightarrow> 64 word \<times> 'w"
  rpmfiNext :: "64 word \<Rightarrow> 'w \<Rightarrow> int \<times> 'w"
  rpmfiNew :: "64 word \<Rightarrow> 'w \<Rightarrow> 64 word \<times> 'w"
  rpmfiInit :: "64 word \<Rightarrow> int \<Rightarrow> 'w \<Rightarrow> 'w"
  headerGet :: "64 word \<Rightarrow> string \<Rightarrow> 'w \<Rightarrow> (int \<times> 64 word) \<times> 'w"
  rpmtdGetString :: "64 word \<Rightarrow> 'w \<Rightarrow> 64 word"
  rpmtdFreeData :: "64 word \<Rightarrow> 'w \<Rightarrow> 'w"
  rpmtsFree :: "64 word \<Rightarrow> 'w \<Rightarrow> 'w"
  rpmtsRootDir :: "64 word \<Rightarrow> 'w \<Rightarrow> string option"
  rpmtsSetRootDir :: "64 word \<Rightarrow> string \<Rightarrow> 'w \<Rightarrow> int \<times> 'w"
  rpmtsOpenDB :: "64 word \<Rightarrow> 'w \<Rightarrow> int \<times> 'w"
  rpmtsCreate :: "'w \<Rightarrow> 64 word \<times> 'w"
  rpmtsSetVSFlags :: "64 word \<Rightarrow> 32 word \<Rightarrow> 'w \<Rightarrow> 'w"
  rpmReadConfigFiles :: "string option \<Rightarrow> string option \<Rightarrow> 'w \<Rightarrow> int \<times> 'w"
  rpmInitMacros :: "string \<Rightarrow> 'w \<Rightarrow> 'w"
  rpmPushMacro :: "string \<Rightarrow> string \<Rightarrow> 'w \<Rightarrow> int \<times> 'w"
  rpmPopMacro :: "string \<Rightarrow> 'w \<Rightarrow> int \<times> 'w"
  rpmConfigDir :: "'w \<Rightarrow> string"
  rpmGetPath :: "string list \<Rightarrow> 'w \<Rightarrow> 64 word \<times> 'w"

definition METH_RPM_TS :: string where "METH_RPM_TS = ''meth_rpm_ts''"
definition METH_RPM_FI :: string where "METH_RPM_FI = ''meth_rpm_fi''"
definition METH_RPM_HEADER :: string where "METH_RPM_HEADER = ''meth_rpm_header''"
definition METH_RPM_MI :: string where "METH_RPM_MI = ''meth_rpm_mi''"

type_synonym ('v, 'w) rfun = "'v lua_api \<Rightarrow> 'w rpmapi \<Rightarrow> ('v, 'w) st \<Rightarrow> ('v, 'w) ret"

definition torpmts :: "'v lua_api \<Rightarrow> int \<Rightarrow> ('v, 'w) st \<Rightarrow> string + 64 word" where
  "torpmts A idx s = toudata A METH_RPM_TS idx s"

definition torpmfi :: "'v lua_api \<Rightarrow> int \<Rightarrow> ('v, 'w) st \<Rightarrow> string + 64 word" where
  "torpmfi A idx s = toudata A METH_RPM_FI idx s"

definition torpmheader :: "'v lua_api \<Rightarrow> int \<Rightarrow> ('v, 'w) st \<Rightarrow> string + 64 word" where
  "torpmheader A idx s = toudata A METH_RPM_HEADER idx s"

definition torpmmip :: "'v lua_api \<Rightarrow> int \<Rightarrow> ('v, 'w) st \<Rightarrow> string + nat" where
  "torpmmip A idx s = toudatap A METH_RPM_MI idx s"

text \<open>\<open>%d\<close>\<close>

fun show_nat :: "nat \<Rightarrow> string" where
  "show_nat n = (if n < 10 then [char_of (48 + n)] else show_nat (n div 10) @ [char_of (48 + n mod 10)])"

declare show_nat.simps [simp del]

definition fmt_d :: "int \<Rightarrow> string" where
  "fmt_d n = (if n < 0 then CHR ''-'' # show_nat (nat (- n)) else show_nat (nat n))"

section \<open>Match iterators\<close>

definition mi_free :: "('v, 'w) rfun" where
  "mi_free A K s = free_cptr A METH_RPM_MI (rpmdbFreeIterator K) s"

section \<open>File lists\<close>

definition fi_free :: "('v, 'w) rfun" where
  "fi_free A K s = free_cptr A METH_RPM_FI (rpmfiFree K) s"

definition fi_integer :: "string \<Rightarrow> ('v, 'w) rfun" where
  "fi_integer apiname A K s =
     arg (torpmfi A 1 s) s (\<lambda>fi. push_ret 1 (\<lambda>v. lua_pushinteger A v (rpmfi_integer K apiname fi (os s))) s)"

definition fi_index :: "('v, 'w) rfun" where
  "fi_index A K s = fi_integer ''FX'' A K s"

definition fi_size :: "('v, 'w) rfun" where
  "fi_size A K s = fi_integer ''FSize'' A K s"

definition fi_count :: "('v, 'w) rfun" where
  "fi_count A K s = fi_integer ''FC'' A K s"

definition FI_DEF_STRING :: "string \<Rightarrow> ('v, 'w) rfun" where
  "FI_DEF_STRING apiname A K s =
     arg (torpmfi A 1 s) s (\<lambda>fi.
       case rpmfi_string K apiname fi (os s) of
         None \<Rightarrow> Some (Inr 0, s)
       | Some x \<Rightarrow> push_ret 1 (\<lambda>v. lua_pushstring A v x) s)"

definition fi_digest :: "('v, 'w) rfun" where
  "fi_digest A K s =
     arg (torpmfi A 1 s) s (\<lambda>fi.
       let (digest, s1) = call_os (rpmfiFDigestHex K fi) s
       in if digest = 0 then Some (Inr 0, s1)
          else Some (Inr 1, do_os (rpm_cfree K digest) (upd_vm (\<lambda>v. lua_pushstring A v (rpm_cstr K digest (os s1))) s1)))"

definition fi_flags :: "('v, 'w) rfun" where
  "fi_flags A K s = fi_integer ''FFlags'' A K s"

section \<open>Headers\<close>

definition header_free :: "('v, 'w) rfun" where
  "header_free A K s = Some (Inr 0, s)"

text \<open>The string is read after the data of the tag has been released.\<close>

definition HEADER_DEF_STRING :: "string \<Rightarrow> ('v, 'w) rfun" where
  "HEADER_DEF_STRING tagname A K s =
     arg (torpmheader A 1 s) s (\<lambda>h.
       let ((rc, td), s1) = call_os (headerGet K h tagname) s
       in if rc = 0 then Some (Inr 0, s1)
          else
            (let x = rpmtdGetString K td (os s1);
                 s2 = do_os (rpmtdFreeData K td) s1
             in if x = 0 then Some (Inr 0, s2)
                else push_ret 1 (\<lambda>v. lua_pushstring A v (rpm_cstr K x (os s2))) s2))"

definition header_files_next :: "('v, 'w) rfun" where
  "header_files_next A K s =
     arg (torpmfi A 1 s) s (\<lambda>fi.
       let (r, s1) = call_os (rpmfiNext K fi) s
       in if r = - 1 then Some (Inr 0, s1) else push_ret 1 (\<lambda>v. lua_settop A v 1) s1)"

definition header_files :: "('v, 'w) rfun" where
  "header_files A K s =
     arg (torpmheader A 1 s) s (\<lambda>h.
       let (fip, s1) = newcptr A METH_RPM_FI (upd_vm (\<lambda>v. lua_pushcfunction A v ''header_files_next'') s);
           (fi, s2) = call_os (rpmfiNew K h) s1;
           s3 = poke fip 0 fi s2
       in if fi = 0 then Some (Inr 0, s3) else Some (Inr 2, do_os (rpmfiInit K fi 0) s3))"

section \<open>Transaction sets\<close>

definition ts_free :: "('v, 'w) rfun" where
  "ts_free A K s = free_cptr A METH_RPM_TS (rpmtsFree K) s"

definition ts_rootdir :: "('v, 'w) rfun" where
  "ts_rootdir A K s =
     arg (torpmts A 1 s) s (\<lambda>ts.
       if lua_gettop A (vm s) = 1 then
         push_ret 1 (\<lambda>v. lua_pushstring A v (case rpmtsRootDir K ts (os s) of None \<Rightarrow> ''/'' | Some d \<Rightarrow> d)) s
       else
         arg (luaL_checkstring A (vm s) 2) s (\<lambda>x.
           let (rc, s1) = call_os (rpmtsSetRootDir K ts x) s
           in if rc = 0 then
                (let (rc, s2) = call_os (rpmtsOpenDB K ts) s1
                 in if rc \<noteq> 0 then
                      Some (Inl (''Failed to open RPM database after setting root (code '' @ fmt_d rc @ '')''), s2)
                    else push_ret 1 (\<lambda>v. lua_pushboolean A v True) s2)
              else push_ret 1 (\<lambda>v. lua_pushboolean A v False) s1))"

definition ts_packages_next :: "('v, 'w) rfun" where
  "ts_packages_next A K s =
     arg (torpmmip A (lua_upvalueindex 1) s) s (\<lambda>mip.
       let (hp, s1) = newcptr A METH_RPM_HEADER s;
           (h, s2) = call_os (rpmdbNextIterator K (mem s1 mip 0)) s1;
           s3 = poke hp 0 h s2
       in if h = 0 then Some (Inr 0, poke mip 0 0 (do_os (rpmdbFreeIterator K (mem s3 mip 0)) s3))
          else Some (Inr 1, s3))"

definition ts_packages :: "('v, 'w) rfun" where
  "ts_packages A K s =
     arg (torpmts A 1 s) s (\<lambda>ts.
     arg (luaL_optstring A (vm s) 2) s (\<lambda>key.
       let (mip, s1) = newcptr A METH_RPM_MI s;
           tag = (if key = None then RPMDBI_PACKAGES K else RPMDBI_NAME K);
           keylen = (case key of None \<Rightarrow> 0 | Some k \<Rightarrow> length k);
           (mi, s2) = call_os (rpmtsInitIterator K ts tag key keylen) s1;
           s3 = poke mip 0 mi s2
       in if mi = 0 then Some (Inr 0, s3) else push_ret 1 (\<lambda>v. lua_pushcclosure A v ''ts_packages_next'' 1) s3))"

section \<open>Library functions\<close>

definition rpm_tscreate :: "('v, 'w) rfun" where
  "rpm_tscreate A K s =
     (let (tsp, s1) = newcptr A METH_RPM_TS s;
          (ts, s2) = call_os (rpmtsCreate K) s1;
          s3 = poke tsp 0 ts s2
      in if ts = 0 then Some (Inr 0, s3)
         else Some (Inr 1, do_os (rpmtsSetVSFlags K ts (or (RPMVSF_NODIGESTS K) (RPMVSF_NOSIGNATURES K))) s3))"

definition rpm_readconfig :: "('v, 'w) rfun" where
  "rpm_readconfig A K s =
     arg (luaL_optstring A (vm s) 1) s (\<lambda>rcfile.
     arg (luaL_optstring A (vm s) 2) s (\<lambda>target.
       let (rc, s1) = call_os (rpmReadConfigFiles K rcfile target) s
       in if rc \<noteq> 0 then
            push_ret 2 (\<lambda>v. lua_pushstring A (lua_pushboolean A v False) (''rpmReadConfigFiles failed with code '' @ fmt_d rc)) s1
          else push_ret 1 (\<lambda>v. lua_pushboolean A v True) s1))"

definition rpm_initmacros :: "('v, 'w) rfun" where
  "rpm_initmacros A K s =
     arg (luaL_checkstring A (vm s) 1) s (\<lambda>macrofiles. Some (Inr 0, do_os (rpmInitMacros K macrofiles) s))"

definition rpm_pushmacro :: "('v, 'w) rfun" where
  "rpm_pushmacro A K s =
     arg (luaL_checkstring A (vm s) 1) s (\<lambda>name.
     arg (luaL_checkstring A (vm s) 2) s (\<lambda>body.
       let (rc, s1) = call_os (rpmPushMacro K name body) s
       in push_ret 1 (\<lambda>v. lua_pushboolean A v (rc = 0)) s1))"

definition rpm_popmacro :: "('v, 'w) rfun" where
  "rpm_popmacro A K s =
     arg (luaL_checkstring A (vm s) 1) s (\<lambda>name.
       let (rc, s1) = call_os (rpmPopMacro K name) s
       in push_ret 1 (\<lambda>v. lua_pushboolean A v (rc = 0)) s1)"

definition rpm_configdir :: "('v, 'w) rfun" where
  "rpm_configdir A K s = push_ret 1 (\<lambda>v. lua_pushstring A v (rpmConfigDir K (os s))) s"

text \<open>The end of \<open>rpm_getpath\<close>, with the path or NULL.\<close>

definition push_path :: "'v lua_api \<Rightarrow> 'w rpmapi \<Rightarrow> 64 word \<times> ('v, 'w) st \<Rightarrow> ('v, 'w) ret" where
  "push_path A K p =
     (case p of (x, s) \<Rightarrow>
        if x = 0 then Some (Inr 0, s)
        else Some (Inr 1, do_os (rpm_cfree K x) (upd_vm (\<lambda>v. lua_pushstring A v (rpm_cstr K x (os s))) s)))"

definition rpm_getpath :: "('v, 'w) rfun" where
  "rpm_getpath A K s =
     arg (luaL_checkstring A (vm s) 1) s (\<lambda>s1.
       let n = lua_gettop A (vm s)
       in if n = 1 then push_path A K (call_os (rpmGetPath K [s1]) s)
          else if n = 2 then
            arg (luaL_checkstring A (vm s) 2) s (\<lambda>s2. push_path A K (call_os (rpmGetPath K [s1, s2]) s))
          else if n = 3 then
            arg (luaL_checkstring A (vm s) 2) s (\<lambda>s2.
            arg (luaL_checkstring A (vm s) 3) s (\<lambda>s3. push_path A K (call_os (rpmGetPath K [s1, s2, s3]) s)))
          else push_path A K (0, s))"

section \<open>What librpm promises\<close>

text \<open>
  The contract of the package iterators: \<open>pkgs w ts key\<close> are the headers of the packages with the name \<open>key\<close>, or of
  all packages; \<open>left w mi\<close> those that iterator \<open>mi\<close> has not delivered yet; \<open>freed w mi\<close> counts its releases. Releasing
  NULL does nothing and NULL delivers nothing.
\<close>

locale rpm_lua = lua_upvalues A stk tget meta upv
  for A :: "'v lua_api" and stk tget meta upv +
  fixes K :: "'w rpmapi" and pkgs :: "'w \<Rightarrow> 64 word \<Rightarrow> string option \<Rightarrow> 64 word list"
    and left :: "'w \<Rightarrow> 64 word \<Rightarrow> 64 word list" and freed :: "'w \<Rightarrow> 64 word \<Rightarrow> nat"
  assumes init_law: "rpmtsInitIterator K ts (case key of None \<Rightarrow> RPMDBI_PACKAGES K | Some k \<Rightarrow> RPMDBI_NAME K) key
         (case key of None \<Rightarrow> 0 | Some k \<Rightarrow> length k) w = (mi, w') \<Longrightarrow> mi \<noteq> 0 \<Longrightarrow>
       left w' mi = pkgs w ts key \<and> freed w' = freed w"
    and next_law: "left w mi = h # hs \<Longrightarrow> h \<noteq> 0 \<and> (\<exists>w'. rpmdbNextIterator K mi w = (h, w') \<and> left w' mi = hs \<and> freed w' = freed w)"
      "left w mi = [] \<Longrightarrow> \<exists>w'. rpmdbNextIterator K mi w = (0, w') \<and> freed w' = freed w"
    and free_law: "freed (rpmdbFreeIterator K mi w) = (if mi = 0 then freed w else (freed w)(mi := freed w mi + 1))"
    and null_law: "left w 0 = []"

text \<open>
  Calls of the closure by a generic \<open>for\<close> that is left after \<open>k\<close> calls, or goes on: \<open>enter\<close> makes the upvalues of the
  closure current. The headers delivered and the state after them.
\<close>

primrec next_packages ::
  "'v lua_api \<Rightarrow> ('v \<Rightarrow> lval list) \<Rightarrow> 'w rpmapi \<Rightarrow> (('v, 'w) st \<Rightarrow> ('v, 'w) st) \<Rightarrow> nat \<Rightarrow> ('v, 'w) st \<Rightarrow> (64 word list \<times> ('v, 'w) st) option" where
  "next_packages A stk K enter 0 s = Some ([], s)"
| "next_packages A stk K enter (Suc k) s =
     (case ts_packages_next A K (enter s) of
        Some (Inr n, s1) \<Rightarrow>
          if n = 0 then next_packages A stk K enter k s1
          else (case last (stk (vm s1)) of
                  LUd b \<Rightarrow> map_option (apfst ((#) (mem s1 b 0))) (next_packages A stk K enter k s1)
                | _ \<Rightarrow> None)
      | _ \<Rightarrow> None)"

text \<open>\<open>mi_state\<close>: the userdata holds the iterator with the headers \<open>hs\<close> left, or it has been released and cleared.\<close>

definition mi_state :: "('w \<Rightarrow> 64 word \<Rightarrow> 64 word list) \<Rightarrow> ('w \<Rightarrow> 64 word \<Rightarrow> nat) \<Rightarrow> nat \<Rightarrow> 64 word \<Rightarrow> (64 word \<Rightarrow> nat) \<Rightarrow> 64 word list \<Rightarrow> ('v, 'w) st \<Rightarrow> bool" where
  "mi_state left freed i mi r hs s \<longleftrightarrow>
     mem s i 0 = mi \<and> left (os s) mi = hs \<and> freed (os s) = r \<or>
     mem s i 0 = 0 \<and> hs = [] \<and> freed (os s) = r(mi := r mi + 1)"

context rpm_lua
begin

lemma packages_next_step:
  assumes "upv (vm s) = [LUd i]" and "meta (vm s) i = Some METH_RPM_MI" and "mi \<noteq> 0" and "mi_state left freed i mi r hs s"
  shows "case hs of
      [] \<Rightarrow> \<exists>s1. ts_packages_next A K s = Some (Inr 0, s1) \<and> mi_state left freed i mi r [] s1
    | h # hs' \<Rightarrow> \<exists>s1 u. ts_packages_next A K s = Some (Inr 1, s1) \<and> last (stk (vm s1)) = LUd u \<and> mem s1 u 0 = h \<and>
        mi_state left freed i mi r hs' s1"
proof -
  obtain u s' where nc: "newcptr A METH_RPM_HEADER s = (u, s')" by fastforce
  note new = newcptr_new [OF nc]
  have u: "u \<noteq> i" using newcptr_upv [OF nc] assms(1) by auto
  have ud: "luaL_checkudata A (vm s) (lua_upvalueindex 1) METH_RPM_MI = Inr i"
    using assms(1,2) by (simp add: upvalue_law at_def)
  have st: "left (os s) (mem s i 0) = hs" using assms(4) null_law by (auto simp: mi_state_def)
  show ?thesis
  proof (cases hs)
    case Nil
    then obtain w where "rpmdbNextIterator K (mem s i 0) (os s) = (0, w)" "freed w = freed (os s)" using next_law(2) st by blast
    then show ?thesis
      using Nil assms(3,4) u new ud
      by (auto simp: ts_packages_next_def torpmmip_def toudatap_def nc Let_def call_os_def mi_state_def free_law)
  next
    case (Cons h hs')
    then obtain w where "rpmdbNextIterator K (mem s i 0) (os s) = (h, w)" "left w (mem s i 0) = hs'" "freed w = freed (os s)" "h \<noteq> 0"
      using next_law(1) st by blast
    then show ?thesis
      using Cons assms(3,4) u new ud
      by (auto simp: ts_packages_next_def torpmmip_def toudatap_def nc Let_def call_os_def mi_state_def intro!: exI [of _ u])
  qed
qed

lemma next_packages_run:
  assumes "\<And>s. upv (vm (enter s)) = [LUd i] \<and> meta (vm (enter s)) i = Some METH_RPM_MI \<and> mem (enter s) = mem s \<and> os (enter s) = os s"
    and "mi \<noteq> 0" and "mi_state left freed i mi r hs s"
  shows "\<exists>s1. next_packages A stk K enter k s = Some (take k hs, s1) \<and> mi_state left freed i mi r (drop k hs) s1"
  using assms(3)
proof (induction k arbitrary: s hs)
  case 0
  then show ?case by simp
next
  case (Suc k)
  have "mi_state left freed i mi r hs (enter s)" using Suc.prems assms(1) [of s] by (simp add: mi_state_def)
  then have step: "case hs of
      [] \<Rightarrow> \<exists>s1. ts_packages_next A K (enter s) = Some (Inr 0, s1) \<and> mi_state left freed i mi r [] s1
    | h # hs' \<Rightarrow> \<exists>s1 u. ts_packages_next A K (enter s) = Some (Inr 1, s1) \<and> last (stk (vm s1)) = LUd u \<and> mem s1 u 0 = h \<and>
        mi_state left freed i mi r hs' s1"
    using packages_next_step [of "enter s" i mi r hs] assms(1) [of s] assms(2) by blast
  show ?case
  proof (cases hs)
    case Nil
    then obtain s1 where "ts_packages_next A K (enter s) = Some (Inr 0, s1)" "mi_state left freed i mi r [] s1" using step by auto
    then show ?thesis using Suc.IH [of "[]" s1] Nil by auto
  next
    case (Cons h hs')
    then obtain s1 u where "ts_packages_next A K (enter s) = Some (Inr 1, s1)" "last (stk (vm s1)) = LUd u" "mem s1 u 0 = h"
      "mi_state left freed i mi r hs' s1" using step by auto
    then show ?thesis using Suc.IH [of hs' s1] Cons by auto
  qed
qed

lemma mi_free_once:
  assumes "stk (vm s) = [LUd i]" and "meta (vm s) i = Some METH_RPM_MI" and "mi \<noteq> 0" and "mi_state left freed i mi r hs s"
  shows "\<exists>s1. mi_free A K s = Some (Inr 0, s1) \<and> freed (os s1) = r(mi := r mi + 1) \<and> mem s1 i 0 = 0"
proof -
  have "at (stk (vm s)) 1 = Some (LUd i)" using assms(1) by (simp add: at_def)
  then have "toudatap A METH_RPM_MI 1 s = Inr i" using checkudata_at assms(2) by (simp add: toudatap_def)
  then show ?thesis using assms(3,4) free_law by (auto simp: mi_free_def free_cptr_def mi_state_def)
qed

lemma packages_start:
  assumes "stk (vm s) = LUd t # xs" and "meta (vm s) t = Some METH_RPM_TS"
    and "(xs \<in> {[], [LNil]} \<and> key = None) \<or> (\<exists>k. xs = [LStr k] \<and> key = Some k)" and "\<And>ts tag key n w. fst (rpmtsInitIterator K ts tag key n w) \<noteq> 0"
  shows "\<exists>s1 i mi. ts_packages A K s = Some (Inr 1, s1) \<and> last (stk (vm s1)) = LFun ''ts_packages_next'' \<and> mi \<noteq> 0 \<and>
    mem s1 i 0 = mi \<and> left (os s1) mi = pkgs (os s) (mem s t 0) key \<and> freed (os s1) = freed (os s)"
proof -
  obtain i s' where nc: "newcptr A METH_RPM_MI s = (i, s')" by fastforce
  note new = newcptr_new [OF nc]
  have at: "at (stk (vm s)) 1 = Some (LUd t)" using assms(1) by (simp add: at_def)
  have ts: "torpmts A 1 s = Inr (mem s t 0)"
    using checkudata_at [OF at assms(2)] by (simp add: torpmts_def toudata_def toudatap_def)
  have ty: "lua_type A (vm s) 2 = type_of (at (stk (vm s)) 2)" by (rule type_law) simp
  have key: "luaL_optstring A (vm s) 2 = Inr key"
    using assms(1,3) ty checkstring_law(1) [of "vm s" 2] by (auto simp: luaL_optstring_def at_def)
  let ?tag = "case key of None \<Rightarrow> RPMDBI_PACKAGES K | Some k \<Rightarrow> RPMDBI_NAME K"
  let ?len = "case key of None \<Rightarrow> 0 | Some k \<Rightarrow> length k"
  have tag: "(if key = None then RPMDBI_PACKAGES K else RPMDBI_NAME K) = ?tag" by (cases key) simp_all
  obtain mi w where mi: "rpmtsInitIterator K (mem s t 0) ?tag key ?len (os s) = (mi, w)" "mi \<noteq> 0"
    using assms(4) by (metis fst_conv prod.exhaust)
  show ?thesis
    using new(1,3,4) init_law [OF mi] mi ts key pushcclosure_law(1) [of "vm s'" "stk (vm s)" "[LUd i]" 1]
    by (auto simp: ts_packages_def nc Let_def tag call_os_def push_ret_def intro!: exI [of _ i])
qed

end

section \<open>A reference librpm\<close>

text \<open>The headers each iterator has left (those of 0 are the installed packages) and the releases.\<close>

type_synonym rworld = "(64 word \<Rightarrow> 64 word list) \<times> (64 word \<Rightarrow> nat)"

definition ref_rpm :: "rworld rpmapi" where
  "ref_rpm =
     \<lparr>RPMDBI_PACKAGES = 1, RPMDBI_NAME = 2, RPMVSF_NODIGESTS = 1, RPMVSF_NOSIGNATURES = 2,
      rpm_cstr = (\<lambda>_ _. []), rpm_cfree = (\<lambda>_ w. w),
      rpmdbFreeIterator = (\<lambda>mi (ps, r). (ps, if mi = 0 then r else r(mi := r mi + 1))),
      rpmdbNextIterator = (\<lambda>mi (ps, r). if mi = 0 then (0, (ps, r)) else case ps mi of [] \<Rightarrow> (0, (ps, r)) | h # hs \<Rightarrow> if h = 0 then (0, (ps, r)) else (h, (ps(mi := hs), r))),
      rpmtsInitIterator = (\<lambda>ts tag key n (ps, r). (9, (ps(9 := ps 0), r))),
      rpmfiFree = (\<lambda>_ w. w), rpmfi_integer = (\<lambda>_ _ _. 0),
      rpmfi_string = (\<lambda>_ _ _. None), rpmfiFDigestHex = (\<lambda>_ w. (1, w)),
      rpmfiNext = (\<lambda>_ w. (0, w)), rpmfiNew = (\<lambda>_ w. (1, w)),
      rpmfiInit = (\<lambda>_ _ w. w), headerGet = (\<lambda>_ _ w. ((0, 1), w)),
      rpmtdGetString = (\<lambda>_ _. 1), rpmtdFreeData = (\<lambda>_ w. w),
      rpmtsFree = (\<lambda>_ w. w), rpmtsRootDir = (\<lambda>_ _. None),
      rpmtsSetRootDir = (\<lambda>_ _ w. (0, w)), rpmtsOpenDB = (\<lambda>_ w. (0, w)),
      rpmtsCreate = (\<lambda>w. (1, w)), rpmtsSetVSFlags = (\<lambda>_ _ w. w),
      rpmReadConfigFiles = (\<lambda>_ _ w. (0, w)), rpmInitMacros = (\<lambda>_ w. w),
      rpmPushMacro = (\<lambda>_ _ w. (0, w)), rpmPopMacro = (\<lambda>_ w. (0, w)),
      rpmConfigDir = (\<lambda>_. []), rpmGetPath = (\<lambda>_ w. (1, w))\<rparr>"

interpretation rr: rpm_lua ref_lua r_stk r_tab r_meta r_upv ref_rpm "\<lambda>w ts key. takeWhile (\<lambda>h. h \<noteq> 0) (fst w 0)"
  "\<lambda>w mi. if mi = 0 then [] else takeWhile (\<lambda>h. h \<noteq> 0) (fst w mi)" snd
  by unfold_locales (auto simp: ref_rpm_def split: prod.splits list.splits if_splits)

section \<open>Properties\<close>


text \<open>The reference machine with a database of two packages.\<close>

definition rpm_st :: "(ref_vm, rworld) st" where
  "rpm_st = \<lparr>vm = \<lparr>r_stk = [LUd 1], r_tab = (\<lambda>_ _. LNil), r_meta = (\<lambda>_. Some METH_RPM_TS),
     r_next = 1, r_fld = (\<lambda>_ _. LNil), r_upv = [], r_glob = (\<lambda>_. LNil)\<rparr>, mem = (\<lambda>_ _. 3), os = ((\<lambda>_. [5, 6]), (\<lambda>_. 0))\<rparr>"


end
