(* ===== verification/Lua_Open.thy ===== *)
theory Lua_Open
  imports Lua_Cap Lua_Files Lua_Kmod Lua_Audit Lua_Dbus Lua_Archive Lua_Systemd Lua_Mount Lua_Rpm
begin

text \<open>
  The registration of the modelled bindings: the \<open>luaL_Reg\<close> tables of the sources (without their NULL
  entry, a C function is named by its identifier) and the \<open>luaopen\<close> functions the daemon preloads.
\<close>

section \<open>Capabilities\<close>

definition cap_meth :: luaL_Reg where
  "cap_meth =
     [(''free'', ''lcap_free''), (''__gc'', ''lcap_free''), (''__tostring'', ''lcap_tostring''),
      (''__eq'', ''lcap_compare''), (''flag'', ''lcap_flag''), (''clear'', ''lcap_clear''),
      (''fill'', ''lcap_fill''), (''nsowner'', ''lcap_nsowner''), (''set_fd'', ''lcap_set_fd''),
      (''set_file'', ''lcap_set_file''), (''set_proc'', ''lcap_set_proc'')]"

definition iab_meth :: luaL_Reg where
  "iab_meth =
     [(''free'', ''liab_free''), (''__gc'', ''liab_free''), (''__tostring'', ''liab_tostring''),
      (''__eq'', ''liab_compare''), (''vector'', ''liab_vector''), (''fill'', ''liab_fill''),
      (''set_proc'', ''liab_set_proc'')]"

definition caplib :: luaL_Reg where
  "caplib =
     [(''init'', ''lcap_init''), (''get_fd'', ''lcap_get_fd''), (''get_file'', ''lcap_get_file''),
      (''get_proc'', ''lcap_get_proc''), (''get_pid'', ''lcap_get_pid''),
      (''from_text'', ''lcap_from_text''), (''iab_init'', ''lcap_iab_init''),
      (''iab_from_text'', ''lcap_iab_from_text''), (''iab_get_proc'', ''lcap_iab_get_proc''),
      (''iab_get_pid'', ''lcap_iab_get_pid''), (''from_name'', ''lcap_from_name''),
      (''to_name'', ''lcap_to_name''), (''max_bits'', ''lcap_max_bits''),
      (''get_bound'', ''lcap_get_bound''), (''drop_bound'', ''lcap_drop_bound''),
      (''ambient'', ''lcap_ambient''), (''reset_ambient'', ''lcap_reset_ambient''),
      (''mode'', ''lcap_mode''), (''secbits'', ''lcap_secbits''), (''setuid'', ''lcap_setuid''),
      (''setgroups'', ''lcap_setgroups'')]"

definition luaopen_capability :: "'v lua_api \<Rightarrow> ('v, 'w) st \<Rightarrow> ('v, 'w) ret" where
  "luaopen_capability A s =
     Some (Inr 1, upd_vm (\<lambda>v. createmeta A METH_CAP_IAB iab_meth
       (createmeta A METH_CAP_CAP cap_meth (luaL_newlib A caplib v))) s)"

section \<open>Audit\<close>

definition auditfd_meth :: luaL_Reg where
  "auditfd_meth =
     [(''enabled'', ''afd_enabled''), (''request_status'', ''afd_request_status''),
      (''request_features'', ''afd_request_features''), (''set_pid'', ''afd_set_pid''),
      (''set_feature'', ''afd_set_feature''), (''set_failure'', ''afd_set_failure''),
      (''set_rate_limit'', ''afd_set_rate_limit''), (''set_backlog_limit'', ''afd_set_backlog_limit''),
      (''set_backlog_wait_time'', ''afd_set_backlog_wait_time''), (''reset_lost'', ''afd_reset_lost''),
      (''reset_backlog_wait_time_actual'', ''afd_reset_backlog_wait_time_actual''),
      (''set_loginuid_immutable'', ''afd_set_loginuid_immutable''),
      (''trim_subtrees'', ''afd_trim_subtrees''), (''make_equivalent'', ''afd_make_equivalent''),
      (''add_rule'', ''afd_add_rule''), (''delete_rule'', ''afd_delete_rule''),
      (''log_user_message'', ''log_user_message''), (''log_acct_message'', ''log_acct_message''),
      (''log_semanage_message'', ''log_semanage_message''), (''log_user_command'', ''log_user_command''),
      (''close'', ''auditfd_free''), (''__gc'', ''auditfd_free'')]"

definition rule_meth :: luaL_Reg where
  "rule_meth =
     [(''syscallbyname'', ''rule_syscallbyname''), (''fieldpair'', ''rule_fieldpair''),
      (''interfield_comp'', ''rule_interfield_comp''),
      (''update_watch_perms'', ''rule_update_watch_perms''), (''add_watch'', ''rule_add_watch''),
      (''add_watch_dir'', ''rule_add_watch_dir''), (''close'', ''rule_free''), (''__gc'', ''rule_free'')]"

definition auditlib :: luaL_Reg where
  "auditlib =
     [(''open'', ''l_open''), (''rule_create'', ''l_rule_create''), (''features'', ''l_features''),
      (''loginuid'', ''l_loginuid''), (''can_control'', ''l_can_control''),
      (''can_write'', ''l_can_write''), (''can_read'', ''l_can_read'')]"

definition luaopen_audit :: "'v lua_api \<Rightarrow> ('v, 'w) st \<Rightarrow> ('v, 'w) ret" where
  "luaopen_audit A s =
     Some (Inr 1, upd_vm (\<lambda>v. createmeta A METH_AUDIT_RULE rule_meth
       (createmeta A METH_AUDIT_FD auditfd_meth (luaL_newlib A auditlib v))) s)"

section \<open>Kernel modules\<close>

definition ctx_meth :: luaL_Reg where
  "ctx_meth =
     [(''unref'', ''ctx_unref''), (''__gc'', ''ctx_unref''), (''dirname'', ''ctx_dirname''),
      (''load_resources'', ''ctx_load_resources''), (''unload_resources'', ''ctx_unload_resources''),
      (''validate_resources'', ''ctx_validate_resources''),
      (''config_blacklists'', ''ctx_config_blacklists''),
      (''config_install_commands'', ''ctx_config_install_commands''),
      (''config_remove_commands'', ''ctx_config_remove_commands''),
      (''config_aliases'', ''ctx_config_aliases''), (''config_options'', ''ctx_config_options''),
      (''config_softdeps'', ''ctx_config_softdeps''), (''module_from_name'', ''ctx_module_from_name''),
      (''module_from_path'', ''ctx_module_from_path''),
      (''module_from_name_lookup'', ''ctx_module_from_name_lookup''),
      (''modules_from_lookup'', ''ctx_modules_from_lookup''),
      (''modules_from_loaded'', ''ctx_modules_from_loaded'')]"

definition config_meth :: luaL_Reg where
  "config_meth =
     [(''__gc'', ''config_iter_free'')]"

definition module_meth :: luaL_Reg where
  "module_meth =
     [(''unref'', ''module_unref''), (''__gc'', ''module_unref''), (''name'', ''module_name''),
      (''path'', ''module_path''), (''options'', ''module_options''),
      (''install_commands'', ''module_install_commands''),
      (''remove_commands'', ''module_remove_commands''), (''insert'', ''module_insert''),
      (''remove'', ''module_remove''), (''probe_insert'', ''module_probe_insert''),
      (''initstate'', ''module_initstate''), (''refcnt'', ''module_refcnt''), (''size'', ''module_size''),
      (''dependencies'', ''module_dependencies''), (''holders'', ''module_holders''),
      (''sections'', ''module_sections''), (''infos'', ''module_infos''),
      (''versions'', ''module_versions''), (''symbols'', ''module_symbols''),
      (''dep_symbols'', ''module_dep_symbols''), (''sign'', ''module_sign''),
      (''verify'', ''module_verify''), (''sigraw'', ''module_sigraw'')]"

definition list_meth :: "string \<Rightarrow> luaL_Reg" where
  "list_meth name = [(''__gc'', ''list_'' @ name @ ''_free'')]"

definition kmodlib :: luaL_Reg where
  "kmodlib =
     [(''ctx_new'', ''ctx_new''), (''sign'', ''kmod_sign''), (''verify'', ''kmod_verify''),
      (''sigraw'', ''kmod_sigraw'')]"

definition luaopen_kmod :: "'v lua_api \<Rightarrow> ('v, 'w) st \<Rightarrow> ('v, 'w) ret" where
  "luaopen_kmod A s =
     Some (Inr 1, upd_vm (\<lambda>v.
       let v1 = luaL_newlib A kmodlib v;
           v2 = createmeta A METH_KMOD_CTX ctx_meth v1;
           v3 = createmeta A METH_KMOD_MODULE module_meth v2;
           v4 = createmeta A METH_KMOD_CONFIG config_meth v3;
           v5 = createmeta A METH_KMOD_LIST_MODULE (list_meth ''modules'') v4;
           v6 = createmeta A METH_KMOD_LIST_MOD_SECTION (list_meth ''mod_sections'') v5;
           v7 = createmeta A METH_KMOD_LIST_MOD_INFO (list_meth ''mod_infos'') v6;
           v8 = createmeta A METH_KMOD_LIST_MOD_VERSION (list_meth ''mod_versions'') v7;
           v9 = createmeta A METH_KMOD_LIST_MOD_SYMBOL (list_meth ''mod_symbols'') v8
       in createmeta A METH_KMOD_LIST_MOD_DEP_SYMBOL (list_meth ''mod_dep_symbols'') v9) s)"

section \<open>Files\<close>

definition xattr_meth :: luaL_Reg where
  "xattr_meth =
     [(''__gc'', ''file_gc''), (''get'', ''file_get''), (''set'', ''file_set''), (''list'', ''file_list''),
      (''remove'', ''file_remove'')]"

definition xattr_lib :: luaL_Reg where
  "xattr_lib =
     [(''new'', ''L_new'')]"

text \<open>The two flag constants come from \<open>sys/xattr.h\<close>.\<close>

definition luaopen_xattr :: "'v lua_api \<Rightarrow> int \<Rightarrow> int \<Rightarrow> ('v, 'w) st \<Rightarrow> ('v, 'w) ret" where
  "luaopen_xattr A XATTR_CREATE XATTR_REPLACE s =
     Some (Inr 1, upd_vm (\<lambda>v.
       let v1 = luaL_newlib A xattr_lib v;
           v2 = createmeta A META_XATTR_FILE xattr_meth v1;
           v3 = lua_setfield A (lua_pushinteger A v2 XATTR_CREATE) (- 2) ''CREATE''
       in lua_setfield A (lua_pushinteger A v3 XATTR_REPLACE) (- 2) ''REPLACE'') s)"

definition stat_meth :: luaL_Reg where
  "stat_meth =
     [(''__gc'', ''stat_gc''), (''uid'', ''stat_uid''), (''gid'', ''stat_gid''), (''mode'', ''stat_mode''),
      (''size'', ''stat_size'')]"

definition fs_lib :: luaL_Reg where
  "fs_lib =
     [(''stat'', ''L_stat''), (''get_uid'', ''L_get_uid''), (''get_gid'', ''L_get_gid''),
      (''readfile'', ''L_readfile''), (''chmod'', ''L_chmod''), (''chown'', ''L_chown'')]"

definition luaopen_fs :: "'v lua_api \<Rightarrow> ('v, 'w) st \<Rightarrow> ('v, 'w) ret" where
  "luaopen_fs A s = Some (Inr 1, upd_vm (\<lambda>v. createmeta A META_STAT stat_meth (luaL_newlib A fs_lib v)) s)"

definition fanotifylib :: luaL_Reg where
  "fanotifylib =
     [(''init'', ''l_fanotify_init'')]"

definition fanotify_meth :: luaL_Reg where
  "fanotify_meth =
     [(''mark'', ''l_fanotify_mark''), (''close'', ''l_fanotify_close''), (''__gc'', ''l_fanotify_close''),
      (''__tostring'', ''l_fanotify_tostring'')]"

text \<open>\<open>lua_settable\<close> with a string key that was just pushed stores the value under that key.\<close>

definition setconsts :: "'v lua_api \<Rightarrow> (string \<times> 32 word) list \<Rightarrow> 'v \<Rightarrow> 'v" where
  "setconsts A consts v = fold (\<lambda>(name, x) v. lua_setfield A (lua_pushinteger A v (uint x)) (- 2) name) consts v"

definition luaopen_fanotify :: "'v lua_api \<Rightarrow> 32 word \<Rightarrow> ('v, 'w) st \<Rightarrow> ('v, 'w) ret" where
  "luaopen_fanotify A FAN_MARK_MOUNT s =
     Some (Inr 1, upd_vm (\<lambda>v. setconsts A [(''FAN_MARK_MOUNT'', FAN_MARK_MOUNT)]
       (createmeta A METH_FANOTIFYNAME fanotify_meth (luaL_newlib A fanotifylib v))) s)"

section \<open>D-Bus\<close>

definition dbus_message_meth :: luaL_Reg where
  "dbus_message_meth =
     [(''__gc'', ''message_free''), (''type'', ''message_type''),
      (''new_method_return'', ''message_new_method_return''), (''new_error'', ''message_new_error''),
      (''append'', ''message_append''), (''decode'', ''message_decode''),
      (''is_method_call'', ''message_is_method_call''), (''is_signal'', ''message_is_signal''),
      (''marshal'', ''message_marshal''), (''has_path'', ''message_has_path''),
      (''has_interface'', ''message_has_interface''), (''has_member'', ''message_has_member''),
      (''has_destination'', ''message_has_destination''), (''has_sender'', ''message_has_sender''),
      (''has_signature'', ''message_has_signature''), (''is_error'', ''message_is_error''),
      (''path'', ''message_path''), (''interface'', ''message_interface''),
      (''member'', ''message_member''), (''error_name'', ''message_error_name''),
      (''destination'', ''message_destination''), (''sender'', ''message_sender''),
      (''serial'', ''message_serial''), (''reply_serial'', ''message_reply_serial''),
      (''no_reply'', ''message_no_reply''), (''auto_start'', ''message_auto_start''),
      (''allow_interactive_authorization'', ''message_allow_interactive_authorization'')]"

definition pending_meth :: luaL_Reg where
  "pending_meth =
     [(''__gc'', ''pending_free''), (''set_notify'', ''pending_set_notify''),
      (''cancel'', ''pending_cancel''), (''completed'', ''pending_completed''),
      (''steal_reply'', ''pending_steal_reply''), (''block'', ''pending_block'')]"

definition connection_meth :: luaL_Reg where
  "connection_meth =
     [(''__gc'', ''connection_free''), (''flush'', ''connection_flush''),
      (''read_write_dispatch'', ''connection_read_write_dispatch''),
      (''read_write'', ''connection_read_write''), (''borrow_message'', ''connection_borrow_message''),
      (''pop_message'', ''connection_pop_message''),
      (''dispatch_status'', ''connection_dispatch_status''), (''dispatch'', ''connection_dispatch''),
      (''send'', ''connection_send''), (''send_with_reply'', ''connection_send_with_reply''),
      (''send_with_reply_and_block'', ''connection_send_with_reply_and_block''),
      (''unix_user'', ''connection_unix_user''), (''unix_process_id'', ''connection_unix_process_id''),
      (''allow_anonymous'', ''connection_allow_anonymous''), (''unix_fd'', ''connection_unix_fd''),
      (''socket'', ''connection_socket''), (''register'', ''bus_register''),
      (''unique_name'', ''bus_unique_name''), (''unix_user'', ''bus_unix_user''), (''id'', ''bus_id''),
      (''request_name'', ''bus_request_name''), (''release_name'', ''bus_release_name''),
      (''name_has_owner'', ''bus_name_has_owner''),
      (''start_service_by_name'', ''bus_start_service_by_name''), (''add_match'', ''bus_add_match''),
      (''remove_match'', ''bus_remove_match'')]"

definition dbuslib :: luaL_Reg where
  "dbuslib =
     [(''version'', ''luadbus_version''), (''local_machine_id'', ''luadbus_local_machine_id''),
      (''setenv'', ''luadbus_setenv''), (''bus_get'', ''luadbus_bus_get''),
      (''bus_get_private'', ''luadbus_bus_get_private''),
      (''connection_open'', ''luadbus_connection_open''),
      (''connection_open_private'', ''luadbus_connection_open_private''),
      (''message_new'', ''luadbus_message_new''),
      (''message_new_method_call'', ''luadbus_message_new_method_call''),
      (''message_new_signal'', ''luadbus_message_new_signal''),
      (''message_demarshal'', ''luadbus_message_demarshal'')]"

definition luaopen_dbus :: "'v lua_api \<Rightarrow> ('v, 'w) st \<Rightarrow> ('v, 'w) ret" where
  "luaopen_dbus A s =
     push_ret 1 (\<lambda>v.
       let v1 = luaL_newlib A dbuslib v;
           v2 = createmeta A METH_DBUS_CONNECTION connection_meth v1;
           v3 = createmeta A METH_DBUS_MESSAGE dbus_message_meth v2
       in createmeta A METH_DBUS_PENDING pending_meth v3) s"

section \<open>Archives\<close>

text \<open>The methods of an entry that the source generates from the list of its fields.\<close>

definition ENTRY_METH_LISTS :: "string list" where
  "ENTRY_METH_LISTS =
     [''dev'', ''rdev'', ''ino'', ''uid'', ''gid'', ''nlink'', ''uname'', ''gname'', ''symlink'', ''hardlink'',
      ''pathname'', ''sourcepath'', ''atime'', ''mtime'', ''ctime'', ''birthtime'', ''perm'', ''mode'']"

definition entry_meth :: luaL_Reg where
  "entry_meth =
     [(''free'', ''entry_free''), (''__gc'', ''entry_free''), (''fflags'', ''entry_fflags''),
      (''size'', ''entry_size''), (''filetype'', ''entry_filetype'')] @
     map (\<lambda>name. (name, ''entry_'' @ name)) ENTRY_METH_LISTS"

definition read_meth :: luaL_Reg where
  "read_meth =
     [(''next_header'', ''read_archive_next_header''), (''headers'', ''read_archive_headers''),
      (''data'', ''read_archive_data''), (''free'', ''read_archive_free''),
      (''__gc'', ''read_archive_free'')]"

definition write_meth :: luaL_Reg where
  "write_meth =
     [(''header'', ''write_archive_header''), (''data'', ''write_archive_data''),
      (''free'', ''write_archive_free''), (''__gc'', ''write_archive_free'')]"

definition archivelib :: luaL_Reg where
  "archivelib =
     [(''version'', ''archive_version''), (''read'', ''archive_read''), (''write'', ''archive_write''),
      (''entry'', ''archive_entry'')]"

definition luaopen_archive :: "'v lua_api \<Rightarrow> ('v, 'w) st \<Rightarrow> ('v, 'w) ret" where
  "luaopen_archive A s =
     push_ret 1 (\<lambda>v.
       let v1 = luaL_newlib A archivelib v;
           v2 = createmeta A METH_ARCHIVE_READ read_meth v1;
           v3 = createmeta A METH_ARCHIVE_WRITE write_meth v2;
           v4 = createmeta A METH_ARCHIVE_ENTRY entry_meth v3
       in registry_init A METH_ARCHIVE_REGISTRY v4) s"

section \<open>systemd\<close>

definition systemd_message_meth :: luaL_Reg where
  "systemd_message_meth =
     [(''append'', ''message_append''), (''read_basic'', ''message_read_basic''),
      (''read'', ''message_read''), (''decode'', ''message_decode''),
      (''peek_type'', ''message_peek_type''), (''rewind'', ''message_rewind''),
      (''__gc'', ''message_unref'')]"

definition bus_meth :: luaL_Reg where
  "bus_meth =
     [(''set_allow_interactive_authorization'', ''bus_set_allow_interactive_authorization''),
      (''get_allow_interactive_authorization'', ''bus_get_allow_interactive_authorization''),
      (''set_address'', ''bus_set_address''), (''check_peercred'', ''bus_check_peercred''),
      (''start'', ''bus_start''), (''message_new'', ''bus_message_new''),
      (''message_new_signal'', ''bus_message_new_signal''),
      (''message_new_method_call'', ''bus_message_new_method_call''), (''call'', ''bus_call''),
      (''call_async'', ''bus_call_async''), (''unit_filestate'', ''bus_unit_filestate''),
      (''__gc'', ''bus_close'')]"

definition systemdlib :: luaL_Reg where
  "systemdlib =
     [(''sd_booted'', ''daemon_sd_booted''), (''bus_default'', ''bus_default''),
      (''bus_default_user'', ''bus_default_user''), (''bus_default_system'', ''bus_default_system''),
      (''bus_open'', ''bus_open''), (''bus_open_with_description'', ''bus_open_with_description''),
      (''bus_open_user'', ''bus_open_user''),
      (''bus_open_user_with_description'', ''bus_open_user_with_description''),
      (''bus_open_system'', ''bus_open_system''),
      (''bus_open_system_with_description'', ''bus_open_system_with_description''),
      (''bus_open_system_remote'', ''bus_open_system_remote''),
      (''bus_open_system_machine'', ''bus_open_system_machine''), (''bus_new'', ''bus_new'')]"

definition luaopen_systemd :: "'v lua_api \<Rightarrow> ('v, 'w) st \<Rightarrow> ('v, 'w) ret" where
  "luaopen_systemd A s =
     push_ret 1 (\<lambda>v. createmeta A METH_SYSTEMD_MESSAGE systemd_message_meth
       (createmeta A METH_SYSTEMD_BUS bus_meth (luaL_newlib A systemdlib v))) s"

section \<open>Mount\<close>

text \<open>
  The lists of generated methods: the macro that defines the function and its name. The version of
  libmount, which selects some entries at compile time, is a parameter.
\<close>

definition MNTTABLE_METH_LISTS :: "(string \<times> string) list" where
  "MNTTABLE_METH_LISTS =
     [(''MNT_METH_FIND1'', ''find_mountpoint''), (''MNT_METH_FIND1'', ''find_source''),
      (''MNT_METH_FIND1'', ''find_srcpath''), (''MNT_METH_FIND1'', ''find_target''),
      (''MNT_METH_FIND2'', ''find_pair''), (''MNT_METH_FIND2'', ''find_tag''),
      (''MNT_METH_FIND3'', ''find_target_with_option''), (''MNT_METH_FS'', ''first_fs''),
      (''MNT_METH_FS'', ''last_fs''), (''MNT_METH_FS'', ''get_root_fs''),
      (''MNT_METH_FS_OP'', ''add_fs''), (''MNT_METH_FS_OP'', ''remove_fs''),
      (''MNT_METH_FUNC'', ''intro_comment''), (''MNT_METH_FUNC'', ''trailing_comment''),
      (''MNT_METH_R0'', ''is_empty''), (''MNT_METH_R0'', ''with_comments''),
      (''MNT_METH_OP1S'', ''append_intro_comment''), (''MNT_METH_OP1S'', ''append_trailing_comment''),
      (''MNT_METH_OP1S'', ''set_intro_comment''), (''MNT_METH_OP1S'', ''set_trailing_comment''),
      (''MNT_METH_OP1S'', ''parse_dir''), (''MNT_METH_OP1S'', ''parse_file''),
      (''MNT_METH_OP1S'', ''parse_fstab''), (''MNT_METH_OP1S'', ''parse_mtab''),
      (''MNT_METH_OP1S'', ''parse_swaps'')]"

definition MNTFS_METH_LISTS :: "(string \<times> string) list" where
  "MNTFS_METH_LISTS =
     [(''MNT_METH_FUNC'', ''attributes''), (''MNT_METH_FUNC'', ''bindsrc''),
      (''MNT_METH_FUNC'', ''comment''), (''MNT_METH_FUNC'', ''freq''), (''MNT_METH_FUNC'', ''fstype''),
      (''MNT_METH_FUNC'', ''options''), (''MNT_METH_FUNC'', ''passno''),
      (''MNT_METH_FUNC'', ''priority''), (''MNT_METH_FUNC'', ''root''), (''MNT_METH_FUNC'', ''source''),
      (''MNT_METH_FUNC'', ''target''), (''MNT_METH_GET'', ''devno''),
      (''MNT_METH_GET'', ''fs_options''), (''MNT_METH_GET'', ''id''),
      (''MNT_METH_GET'', ''optional_fields''), (''MNT_METH_GET'', ''parent_id''),
      (''MNT_METH_GET'', ''size''), (''MNT_METH_GET'', ''srcpath''), (''MNT_METH_GET'', ''swaptype''),
      (''MNT_METH_GET'', ''tid''), (''MNT_METH_GET'', ''usedsize''),
      (''MNT_METH_GET'', ''user_options''), (''MNT_METH_GET'', ''vfs_options''),
      (''MNT_METH_GET'', ''vfs_options_all''), (''MNT_METH_OP1S'', ''append_attributes''),
      (''MNT_METH_OP1S'', ''prepend_attributes''), (''MNT_METH_OP1S'', ''append_options''),
      (''MNT_METH_OP1S'', ''prepend_options''), (''MNT_METH_OP1S'', ''append_comment''),
      (''MNT_METH_R1S'', ''match_fstype''), (''MNT_METH_R1S'', ''match_options''),
      (''MNT_METH_R1S'', ''streq_srcpath''), (''MNT_METH_R1S'', ''streq_target''),
      (''MNT_METH_MATCH_CACHE'', ''match_source''), (''MNT_METH_MATCH_CACHE'', ''match_target''),
      (''MNT_METH_R0'', ''is_kernel''), (''MNT_METH_R0'', ''is_netfs''),
      (''MNT_METH_R0'', ''is_pseudofs''), (''MNT_METH_R0'', ''is_swaparea'')]"

definition MNTCONTEXT_METH_LISTS_base :: "(string \<times> string) list" where
  "MNTCONTEXT_METH_LISTS_base =
     [(''MNT_METH_ENABLE'', ''disable_canonicalize''), (''MNT_METH_ENABLE'', ''disable_helpers''),
      (''MNT_METH_ENABLE'', ''disable_mtab''), (''MNT_METH_ENABLE'', ''disable_swapmatch''),
      (''MNT_METH_ENABLE'', ''enable_fake''), (''MNT_METH_ENABLE'', ''enable_force''),
      (''MNT_METH_ENABLE'', ''enable_fork''), (''MNT_METH_ENABLE'', ''enable_lazy''),
      (''MNT_METH_ENABLE'', ''enable_loopdel''), (''MNT_METH_ENABLE'', ''enable_rdonly_umount''),
      (''MNT_METH_ENABLE'', ''enable_rwonly_mount''), (''MNT_METH_ENABLE'', ''enable_sloppy''),
      (''MNT_METH_ENABLE'', ''enable_verbose''), (''MNT_METH_OP1S'', ''append_options''),
      (''MNT_METH_OP1S'', ''set_fstype_pattern''), (''MNT_METH_OP1S'', ''set_options_pattern''),
      (''MNT_METH_OP1I'', ''set_syscall_status''), (''MNT_METH_OP0'', ''apply_fstab''),
      (''MNT_METH_OP0'', ''reset_status''), (''MNT_METH_FUNC'', ''fstype''),
      (''MNT_METH_FUNC'', ''options''), (''MNT_METH_FUNC'', ''source''),
      (''MNT_METH_FUNC'', ''target''), (''MNT_METH_FUNC'', ''optsmode''),
      (''MNT_METH_R0'', ''is_child''), (''MNT_METH_R0'', ''is_fake''), (''MNT_METH_R0'', ''is_force''),
      (''MNT_METH_R0'', ''is_fork''), (''MNT_METH_R0'', ''is_lazy''), (''MNT_METH_R0'', ''is_loopdel''),
      (''MNT_METH_R0'', ''is_nocanonicalize''), (''MNT_METH_R0'', ''is_nohelpers''),
      (''MNT_METH_R0'', ''is_nomtab''), (''MNT_METH_R0'', ''is_parent''),
      (''MNT_METH_R0'', ''is_rdonly_umount''), (''MNT_METH_R0'', ''is_restricted''),
      (''MNT_METH_R0'', ''is_rwonly_mount''), (''MNT_METH_R0'', ''is_sloppy''),
      (''MNT_METH_R0'', ''is_swapmatch''), (''MNT_METH_R0'', ''is_verbose''),
      (''MNT_METH_R0'', ''forced_rdonly''), (''MNT_METH_R0'', ''syscall_called''),
      (''MNT_METH_R0'', ''tab_applied''), (''MNT_METH_R0'', ''helper_executed''),
      (''MNT_METH_R0'', ''get_status''), (''MNT_METH_R0'', ''get_syscall_errno''),
      (''MNT_METH_R0'', ''get_helper_status''), (''MNT_METH_OP1C'', ''set_cache''),
      (''MNT_METH_OP1C'', ''set_fs''), (''MNT_METH_OP1C'', ''set_fstab''),
      (''MNT_METH_UINT'', ''mflags''), (''MNT_METH_UINT'', ''user_mflags'')]"

definition libmount_since :: "nat \<Rightarrow> nat \<Rightarrow> nat \<Rightarrow> bool" where
  "libmount_since major minor n \<longleftrightarrow> 2 < major \<or> n \<le> minor"

definition LIST_2_33 :: "nat \<Rightarrow> nat \<Rightarrow> (string \<times> string) list" where
  "LIST_2_33 major minor = (if libmount_since major minor 33 then [(''MNT_METH_OP1S'', ''set_target_ns'')] else [])"

definition LIST_2_35 :: "nat \<Rightarrow> nat \<Rightarrow> (string \<times> string) list" where
  "LIST_2_35 major minor =
     (if libmount_since major minor 35 then
        [(''MNT_METH_OP0'', ''force_unrestricted''), (''MNT_METH_FUNC'', ''target_prefix'')]
      else [])"

definition MNTCONTEXT_METH_LISTS :: "nat \<Rightarrow> nat \<Rightarrow> (string \<times> string) list" where
  "MNTCONTEXT_METH_LISTS major minor =
     MNTCONTEXT_METH_LISTS_base @ LIST_2_33 major minor @ LIST_2_35 major minor"

definition generated :: "string \<Rightarrow> (string \<times> string) list \<Rightarrow> luaL_Reg" where
  "generated c xs = map (\<lambda>(macro, name). (name, ''mnt'' @ c @ ''_'' @ name)) xs"

definition mntiter_meth :: luaL_Reg where
  "mntiter_meth =
     [(''free'', ''mntiter_free''), (''__gc'', ''mntiter_free'')]"

definition mntcache_meth :: luaL_Reg where
  "mntcache_meth =
     [(''free'', ''mntcache_free''), (''__gc'', ''mntcache_unref''),
      (''device_has_tag'', ''mntcache_device_has_tag''),
      (''find_tag_value'', ''mntcache_find_tag_value''), (''set_targets'', ''mntcache_set_targets'')]"

definition mnttable_meth :: "nat \<Rightarrow> nat \<Rightarrow> luaL_Reg" where
  "mnttable_meth major minor =
     [(''free'', ''mnttable_free''), (''__gc'', ''mnttable_unref''), (''enable_comments'',
      ''mnttable_enable_comments''), (''find_devno'', ''mnttable_find_devno''), (''cache'',
      ''mnttable_cache''), (''nents'', ''mnttable_nents''), (''is_fs_mounted'',
      ''mnttable_is_fs_mounted''), (''set_iter'', ''mnttable_set_iter''), (''child_fs'',
      ''mnttable_child_fs''), (''fs'', ''mnttable_fs'')] @
     (if libmount_since major minor 34 then
        [(''find_fs'', ''mnttable_find_fs''), (''insert_fs'', ''mnttable_insert_fs''), (''move_fs'',
      ''mnttable_move_fs''), (''over_fs'', ''mnttable_over_fs'')]
      else []) @
     generated ''table'' MNTTABLE_METH_LISTS"

definition mntfs_meth :: luaL_Reg where
  "mntfs_meth = [(''free'', ''mntfs_free''), (''__gc'', ''mntfs_unref'')] @ generated ''fs'' MNTFS_METH_LISTS"

definition mntcontext_meth :: "nat \<Rightarrow> nat \<Rightarrow> luaL_Reg" where
  "mntcontext_meth major minor =
     [(''free'', ''mntcontext_free''), (''__gc'', ''mntcontext_free''), (''get_mtab'',
      ''mntcontext_get_mtab''), (''get_table'', ''mntcontext_get_table''), (''is_fs_mounted'',
      ''mntcontext_is_fs_mounted''), (''wait_for_children'', ''mntcontext_wait_for_children'')] @
     generated ''context'' (MNTCONTEXT_METH_LISTS major minor)"

definition mountlib :: luaL_Reg where
  "mountlib =
     [(''new_fs'', ''mntfs_new''), (''new_table'', ''mnttable_new''),
      (''new_table_from_dir'', ''mnttable_new_from_dir''),
      (''new_table_from_file'', ''mnttable_new_from_file''), (''new_context'', ''mntcontext_new''),
      (''new_cache'', ''mntcache_new''), (''version'', ''mnt_version''),
      (''features'', ''mnt_features''), (''mountpoint'', ''mntmisc_mountpoint''),
      (''match_fstype'', ''mntmisc_match_fstype''), (''fstab_path'', ''mntmisc_get_fstab_path''),
      (''mtab_path'', ''mntmisc_get_mtab_path''), (''swaps_path'', ''mntmisc_get_swaps_path''),
      (''fstype_is_netfs'', ''mntmisc_fstype_is_netfs''),
      (''fstype_is_pseudofs'', ''mntmisc_fstype_is_pseudofs''),
      (''tag_is_valid'', ''mntmisc_tag_is_valid''), (''mangle'', ''mntmisc_mangle''),
      (''unmangle'', ''mntmisc_unmangle'')]"

definition luaopen_mount :: "'v lua_api \<Rightarrow> nat \<Rightarrow> nat \<Rightarrow> ('v, 'w) st \<Rightarrow> ('v, 'w) ret" where
  "luaopen_mount A major minor s =
     push_ret 1 (\<lambda>v.
       let v1 = luaL_newlib A mountlib v;
           v2 = createmeta A (METH_MOUNT ''fs'') mntfs_meth v1;
           v3 = createmeta A (METH_MOUNT ''table'') (mnttable_meth major minor) v2;
           v4 = createmeta A (METH_MOUNT ''context'') (mntcontext_meth major minor) v3;
           v5 = createmeta A (METH_MOUNT ''cache'') mntcache_meth v4
       in createmeta A (METH_MOUNT ''iter'') mntiter_meth v5) s"

section \<open>rpm\<close>

definition rpmmi_meth :: luaL_Reg where
  "rpmmi_meth =
     [(''__gc'', ''mi_free'')]"

definition rpmfi_meth :: luaL_Reg where
  "rpmfi_meth =
     [(''__gc'', ''fi_free''), (''index'', ''fi_index''), (''size'', ''fi_size''),
      (''count'', ''fi_count''), (''basename'', ''fi_basename''), (''dirname'', ''fi_dirname''),
      (''name'', ''fi_name''), (''digest'', ''fi_digest''), (''flags'', ''fi_flags''),
      (''user'', ''fi_user''), (''group'', ''fi_group'')]"

definition rpmheader_meth :: luaL_Reg where
  "rpmheader_meth =
     [(''__gc'', ''header_free''), (''name'', ''header_name''), (''version'', ''header_version''),
      (''release'', ''header_release''), (''arch'', ''header_arch''), (''vendor'', ''header_vendor''),
      (''license'', ''header_license''), (''packager'', ''header_packager''), (''url'', ''header_url''),
      (''files'', ''header_files'')]"

definition rpmts_meth :: luaL_Reg where
  "rpmts_meth =
     [(''__gc'', ''ts_free''), (''rootdir'', ''ts_rootdir''), (''packages'', ''ts_packages'')]"

definition rpmlib :: luaL_Reg where
  "rpmlib =
     [(''tscreate'', ''rpm_tscreate''), (''readconfig'', ''rpm_readconfig''),
      (''initmacros'', ''rpm_initmacros''), (''pushmacro'', ''rpm_pushmacro''),
      (''popmacro'', ''rpm_popmacro''), (''configdir'', ''rpm_configdir''),
      (''getpath'', ''rpm_getpath'')]"

definition luaopen_lrpm :: "'v lua_api \<Rightarrow> ('v, 'w) st \<Rightarrow> ('v, 'w) ret" where
  "luaopen_lrpm A s =
     push_ret 1 (\<lambda>v.
       let v1 = luaL_newlib A rpmlib v;
           v2 = createmeta A METH_RPM_TS rpmts_meth v1;
           v3 = createmeta A METH_RPM_FI rpmfi_meth v2;
           v4 = createmeta A METH_RPM_MI rpmmi_meth v3
       in createmeta A METH_RPM_HEADER rpmheader_meth v4) s"

section \<open>What a library table contains\<close>

context lua_fields
begin

lemma register_methods_fields:
  assumes "stk v = xs @ [LTab t]"
  shows "stk (register_methods A lib v) = xs @ [LTab t] \<and>
    (\<forall>k. fget (register_methods A lib v) t k = (case map_of (rev lib) k of None \<Rightarrow> fget v t k | Some f \<Rightarrow> LFun f))"
  using assms
proof (induction lib arbitrary: v)
  case Nil
  then show ?case by (simp add: register_methods_def)
next
  case (Cons p lib)
  obtain name f where p: "p = (name, f)" by fastforce
  let ?v = "lua_setfield A (lua_pushcfunction A v f) (- 2) name"
  have st: "stk (lua_pushcfunction A v f) = (xs @ [LTab t]) @ [LFun f]" using Cons.prems pushcfunction_law(1) by simp
  then have "at (stk (lua_pushcfunction A v f)) (- 2) = Some (LTab t)" by simp
  note v = setfield_law [OF this st, of name]
  have "register_methods A (p # lib) v = register_methods A lib ?v" by (simp add: register_methods_def p)
  then show ?case
    using Cons.IH [of ?v] v push_fields(1) by (auto simp: p map_add_def split: option.splits)
qed

lemma newlib_fields:
  assumes "distinct (map fst lib)"
  shows "\<exists>t. stk (luaL_newlib A lib v) = stk v @ [LTab t] \<and>
    (\<forall>k. fget (luaL_newlib A lib v) t k = (case map_of lib k of None \<Rightarrow> LNil | Some f \<Rightarrow> LFun f))"
proof -
  obtain t where t: "stk (lua_newtable A v) = stk v @ [LTab t]" using newtable_law(1) [of v] by auto
  have "map_of (rev lib) = map_of lib" using assms by (intro map_of_inject_set [THEN iffD2]) (auto simp flip: rev_map)
  then show ?thesis
    using register_methods_fields [OF t, of lib] newtable_fields [OF t] by (auto simp: luaL_newlib_def split: option.splits)
qed

end

text \<open>
  The method table of a connection lists \<open>unix_user\<close> twice; the later entry replaces the earlier one, so
  \<open>connection_unix_user\<close> cannot be called from Lua.
\<close>

lemma connection_unix_user_shadowed:
  assumes "lua_fields A stk tget meta fget" and "stk v = xs @ [LTab t]"
  shows "fget (register_methods A connection_meth v) t ''unix_user'' = LFun ''bus_unix_user''"
    and "k \<in> fst ` set connection_meth \<Longrightarrow> fget (register_methods A connection_meth v) t k \<noteq> LFun ''connection_unix_user''"
  using lua_fields.register_methods_fields [OF assms, of connection_meth] by (auto simp: connection_meth_def)

definition open_vm :: ref_vm where
  "open_vm = \<lparr>r_stk = [], r_tab = (\<lambda>_ _. LNil), r_meta = (\<lambda>_. None), r_next = 0, r_fld = (\<lambda>_ _. LNil), r_upv = [], r_glob = (\<lambda>_. LNil)\<rparr>"

section \<open>Properties\<close>



end
