(* ===== verification/Lua_Start.thy ===== *)
theory Lua_Start
  imports Lua_Aux
begin

text \<open>
  The start of the daemon: \<open>src/daemon/lualibs.c\<close> (loading of the built-in libraries), \<open>ramfs.c\<close> (the first Lua code and
  its arguments) and \<open>main.c\<close>. Calls of Lua functions are parameters: \<open>lua_call\<close> returns or raises an error,
  \<open>lua_pcall\<close> returns a status. The compiled first script and the initial archive are generated by the build and
  are parameters as well. Logging is left out.
\<close>

type_synonym ('v, 'w) call = "int \<Rightarrow> int \<Rightarrow> ('v, 'w) st \<Rightarrow> ('v, 'w) ret"
type_synonym ('v, 'w) protected_call = "int \<Rightarrow> int \<Rightarrow> int \<Rightarrow> ('v, 'w) st \<Rightarrow> (int \<times> ('v, 'w) st) option"

section \<open>Built-in libraries\<close>

definition builtinlibs :: luaL_Reg where
  "builtinlibs =
     [(''lpeg'', ''luaopen_lpeg''), (''lfs'', ''luaopen_lfs''),
      (''cjson.safe'', ''luaopen_cjson_safe''), (''lcurl.safe'', ''luaopen_lcurl_safe''),
      (''luv'', ''luaopen_luv''), (''openssl'', ''luaopen_openssl''), (''kmod'', ''luaopen_kmod''),
      (''systemd'', ''luaopen_systemd''), (''archive'', ''luaopen_archive''),
      (''audit'', ''luaopen_audit''), (''mount'', ''luaopen_mount''), (''lrpm'', ''luaopen_lrpm''),
      (''dbus'', ''luaopen_dbus''), (''capability'', ''luaopen_capability''),
      (''posix.unistd'', ''luaopen_posix_unistd''), (''posix.glob'', ''luaopen_posix_glob''),
      (''posix.sys.utsname'', ''luaopen_posix_sys_utsname''), (''xattr'', ''luaopen_xattr''),
      (''fs'', ''luaopen_fs''), (''yaml'', ''luaopen_yaml'')]"

definition luaL_requiref ::
  "'v lua_api \<Rightarrow> ('v, 'w) call \<Rightarrow> string \<Rightarrow> string \<Rightarrow> bool \<Rightarrow> ('v, 'w) st \<Rightarrow> ('v, 'w) ret" where
  "luaL_requiref A lua_call modname openf glb s =
     (let s1 = upd_vm (\<lambda>v. lua_getfield A (luaL_findtable A v LUA_REGISTRYINDEX ''_LOADED'') (- 1) modname) s;
          rest = (\<lambda>s2. Some (Inr 0, upd_vm (\<lambda>v.
            let v1 = lua_remove A v (- 2)
            in if glb then lua_setglobal A (lua_pushvalue A v1 (- 1)) modname else v1) s2))
      in if \<not> lua_toboolean A (vm s1) (- 1) then
           (case lua_call 1 1 (upd_vm (\<lambda>v. lua_pushstring A (lua_pushcfunction A (lua_pop A v 1) openf) modname) s1) of
              None \<Rightarrow> None
            | Some (Inl e, s2) \<Rightarrow> Some (Inl e, s2)
            | Some (Inr _, s2) \<Rightarrow> rest (upd_vm (\<lambda>v. lua_setfield A (lua_pushvalue A v (- 1)) (- 3) modname) s2))
         else rest s1)"

fun openall_loop :: "'v lua_api \<Rightarrow> ('v, 'w) call \<Rightarrow> luaL_Reg \<Rightarrow> ('v, 'w) st \<Rightarrow> ('v, 'w) ret" where
  "openall_loop A lua_call [] s = Some (Inr 0, s)"
| "openall_loop A lua_call ((name, func) # libs) s =
     (case luaL_requiref A lua_call name func True s of
        None \<Rightarrow> None
      | Some (Inl e, s1) \<Rightarrow> Some (Inl e, s1)
      | Some (Inr _, s1) \<Rightarrow> openall_loop A lua_call libs (upd_vm (\<lambda>v. lua_pop A v 1) s1))"

definition lualibs_openall :: "'v lua_api \<Rightarrow> ('v, 'w) call \<Rightarrow> ('v, 'w) st \<Rightarrow> ('v, 'w) ret" where
  "lualibs_openall A lua_call s = openall_loop A lua_call builtinlibs s"

section \<open>The first script\<close>

text \<open>The handler that \<open>lua_pcall\<close> runs on an error.\<close>

definition traceback :: "'v lua_api \<Rightarrow> ('v, 'w) call \<Rightarrow> ('v, 'w) st \<Rightarrow> ('v, 'w) ret" where
  "traceback A lua_call s =
     (if \<not> lua_isstring A (vm s) 1 then Some (Inr 1, s)
      else
        (let s1 = upd_vm (\<lambda>v. lua_getfield A v LUA_GLOBALSINDEX ''debug'') s
         in if lua_type A (vm s1) (- 1) \<noteq> LUA_TTABLE then push_ret 1 (\<lambda>v. lua_pop A v 1) s1
            else
              (let s2 = upd_vm (\<lambda>v. lua_getfield A v (- 1) ''traceback'') s1
               in if lua_type A (vm s2) (- 1) \<noteq> LUA_TFUNCTION then push_ret 1 (\<lambda>v. lua_pop A v 2) s2
                  else
                    (case lua_call 2 1 (upd_vm (\<lambda>v. lua_pushinteger A (lua_pushvalue A v 1) 2) s2) of
                       None \<Rightarrow> None
                     | Some (Inl e, s3) \<Rightarrow> Some (Inl e, s3)
                     | Some (Inr _, s3) \<Rightarrow> Some (Inr 1, s3)))))"

text \<open>A new table with the strings of a C array.\<close>

definition push_array :: "'v lua_api \<Rightarrow> string list \<Rightarrow> 'v \<Rightarrow> 'v" where
  "push_array A xs v =
     fold (\<lambda>(i, x) v. lua_rawseti A (lua_pushstring A v x) (- 2) (int i + 1)) (enumerate 0 xs) (lua_newtable A v)"

definition ramfs_vfsinit ::
  "'v lua_api \<Rightarrow> ('v, 'w) protected_call \<Rightarrow> string \<Rightarrow> string \<Rightarrow> string \<Rightarrow> string list \<Rightarrow> string list \<Rightarrow> ('v, 'w) st \<Rightarrow> (int \<times> ('v, 'w) st) option" where
  "ramfs_vfsinit A lua_pcall ramfs_luac initrd_tar pathname argv envp s =
     (let (status, v) = luaL_loadbuffer A (vm s) ramfs_luac;
          s1 = s\<lparr>vm := v\<rparr>
      in if status \<noteq> 0 then Some (- ENOENT, s1)
         else do {
           (status, s2) \<leftarrow> lua_pcall 1 1 0 (upd_vm (\<lambda>v. lua_pushstring A v ''ramfs'') s1);
           (if status \<noteq> 0 \<or> lua_type A (vm s2) (- 1) \<noteq> LUA_TTABLE then Some (- ENOEXEC, s2)
            else
              (let s3 = upd_vm (\<lambda>v.
                     let v1 = lua_getfield A v LUA_REGISTRYINDEX ''_LOADED'';
                         v2 = lua_setfield A (lua_pushvalue A v1 (- 2)) (- 2) ''ramfs'';
                         v3 = lua_pop A v2 1
                     in lua_getfield A (lua_pushcfunction A v3 ''traceback'') (- 2) ''init'') s2
               in if lua_type A (vm s3) (- 1) \<noteq> LUA_TFUNCTION then Some (- EDOM, s3)
                  else do {
                    (status, s4) \<leftarrow> lua_pcall 4 1 (- 6) (upd_vm (\<lambda>v.
                      push_array A envp (push_array A argv (lua_pushstring A (lua_pushstring A v initrd_tar) pathname))) s3);
                    (if status \<noteq> 0 then Some (- ENOEXEC, s4) else Some (0, s4))
                  }))
         })"

section \<open>The program\<close>

definition EXIT_SUCCESS :: int where "EXIT_SUCCESS = 0"
definition EXIT_FAILURE :: int where "EXIT_FAILURE = 1"

text \<open>
  \<open>pmain\<close>: \<open>openlibs\<close> is \<open>luaL_openlibs\<close>. The argument array has the strings \<open>argv\<close> and the environment the strings \<open>envp\<close>; the
  first stack value is their number \<open>argc\<close>, the other two are the addresses of the arrays.
\<close>

definition pmain ::
  "'v lua_api \<Rightarrow> ('v, 'w) call \<Rightarrow> ('v, 'w) protected_call \<Rightarrow> ('v \<Rightarrow> 'v) \<Rightarrow> string \<Rightarrow> string \<Rightarrow> string list \<Rightarrow> string list \<Rightarrow> ('v, 'w) st \<Rightarrow> ('v, 'w) ret" where
  "pmain A lua_call lua_pcall openlibs ramfs_luac initrd_tar argv envp s =
     (let argc = c_int (lua_tointeger A (vm s) 1)
      in case lualibs_openall A lua_call (upd_vm openlibs s) of
           None \<Rightarrow> None
         | Some (Inl e, s1) \<Rightarrow> Some (Inl e, s1)
         | Some (Inr _, s1) \<Rightarrow>
             (case ramfs_vfsinit A lua_pcall ramfs_luac initrd_tar ''/init'' (take (nat argc) argv) envp s1 of
                None \<Rightarrow> None
              | Some (err, s2) \<Rightarrow>
                  if err < 0 then push_ret 1 (\<lambda>v. lua_pushinteger A v EXIT_FAILURE) s2
                  else if \<not> lua_isnumber A (vm s2) (- 1) then
                    push_ret 1 (\<lambda>v. lua_pushinteger A v (if lua_toboolean A v (- 1) then EXIT_SUCCESS else EXIT_FAILURE)) s2
                  else Some (Inr 1, s2)))"

text \<open>
  \<open>main\<close>: \<open>newstate\<close> gives a new machine or none, \<open>pcall_c\<close> is the protected call of \<open>pmain\<close>, and \<open>lua_close\<close> runs the finalizers
  and gives the state of the system after them. The result is the exit status and that state. Stopping and restarting the
  collector has no effect on the modelled state.
\<close>

definition daemon_main ::
  "'v lua_api \<Rightarrow> ('w \<Rightarrow> 'v option) \<Rightarrow> ((('v, 'w) st \<Rightarrow> ('v, 'w) ret) \<Rightarrow> int \<Rightarrow> int \<Rightarrow> ('v, 'w) st \<Rightarrow> (int \<times> ('v, 'w) st) option) \<Rightarrow>
   (('v, 'w) st \<Rightarrow> 'w) \<Rightarrow> (('v, 'w) st \<Rightarrow> ('v, 'w) ret) \<Rightarrow> int \<Rightarrow> 64 word \<Rightarrow> 64 word \<Rightarrow> 'w \<Rightarrow> (int \<times> 'w) option" where
  "daemon_main A newstate pcall_c lua_close body argc argv envp w =
     (case newstate w of
        None \<Rightarrow> Some (EXIT_FAILURE, w)
      | Some v \<Rightarrow>
          (let s = \<lparr>vm = v, mem = (\<lambda>_ _. 0), os = w\<rparr>;
               s1 = upd_vm (\<lambda>v. lua_pushlightuserdata A (lua_pushlightuserdata A (lua_pushinteger A
                      (lua_pushcfunction A v ''pmain'') argc) argv) envp) s
           in case pcall_c body 3 1 s1 of
                None \<Rightarrow> None
              | Some (status, s2) \<Rightarrow>
                  if status \<noteq> 0 then Some (EXIT_FAILURE, lua_close (upd_vm (\<lambda>v. lua_pop A v 1) s2))
                  else Some
                    (if lua_isnumber A (vm s2) (- 1) then c_int (lua_tointeger A (vm s2) (- 1))
                     else if lua_toboolean A (vm s2) (- 1) then EXIT_SUCCESS
                     else EXIT_FAILURE, lua_close s2)))"

section \<open>Loading libraries\<close>

lemma at_from_end: "length ys < 9999 \<Longrightarrow> at (xs @ y # ys) (- int (length ys) - 1) = Some y"
proof -
  have "nat (int (length (xs @ y # ys)) + (- int (length ys) - 1)) = length xs" by simp
  then show "length ys < 9999 \<Longrightarrow> ?thesis" by (simp add: at_def nth_append LUA_REGISTRYINDEX_def)
qed

lemma at_last [simp, lua_simps]: "at (xs @ [x, y]) (- 1) = Some y" "at (xs @ [x, y, z]) (- 3) = Some x"
  using at_from_end [of "[]" "xs @ [x]" y] at_from_end [of "[y, z]" xs x] by simp_all

text \<open>What a module name stands for after it was required: the module that was loaded before, or the opened one.\<close>

definition required :: "lval \<Rightarrow> lval \<Rightarrow> lval" where
  "required old m = (if old \<in> {LNil, LBool False} then m else old)"

text \<open>What the open function of a module promises: it returns the module and changes no loaded module and no global.\<close>

definition opens_module ::
  "('v \<Rightarrow> lval list) \<Rightarrow> ('v \<Rightarrow> nat \<Rightarrow> string \<Rightarrow> lval) \<Rightarrow> ('v \<Rightarrow> string \<Rightarrow> lval) \<Rightarrow> nat \<Rightarrow> ('v, 'w) call \<Rightarrow> string \<Rightarrow> string \<Rightarrow> lval \<Rightarrow> bool" where
  "opens_module stk fget glob loaded lua_call name f m \<longleftrightarrow>
     (\<forall>s xs. stk (vm s) = xs @ [LFun f, LStr name] \<longrightarrow>
       (\<exists>s'. lua_call 1 1 s = Some (Inr 1, s') \<and> stk (vm s') = xs @ [m] \<and>
         fget (vm s') loaded = fget (vm s) loaded \<and> glob (vm s') = glob (vm s)))"

context lua_loaded
begin

lemma requiref_loads:
  assumes "opens_module stk fget glob loaded lua_call name f m" and "x = required (fget (vm s) loaded name) m"
  shows "\<exists>s'. luaL_requiref A lua_call name f True s = Some (Inr 0, s') \<and> stk (vm s') = stk (vm s) @ [x] \<and>
    fget (vm s') loaded = (fget (vm s) loaded)(name := x) \<and> glob (vm s') = (glob (vm s))(name := x)"
proof -
  let ?v = "lua_getfield A (luaL_findtable A (vm s) LUA_REGISTRYINDEX ''_LOADED'') (- 1) name"
  let ?fin = "\<lambda>v. lua_setglobal A (lua_pushvalue A (lua_remove A v (- 2)) (- 1)) name"
  have tab: "at (stk (luaL_findtable A (vm s) LUA_REGISTRYINDEX ''_LOADED'')) (- 1) = Some (LTab loaded)"
    using findtable_law(1) by simp
  have v: "stk ?v = stk (vm s) @ [LTab loaded, fget (vm s) loaded name]" "fget ?v = fget (vm s)" "glob ?v = glob (vm s)"
    using getfield_law(1) [OF tab] getfield_law(2) findtable_law push_globals(1) by simp_all
  have fin: "stk (?fin v) = xs @ [y] \<and> fget (?fin v) = fget v \<and> glob (?fin v) = (glob v)(name := y)"
    if "stk v = xs @ [LTab loaded, y]" for v xs y
  proof -
    have r: "stk (lua_remove A v (- 2)) = xs @ [y]" using remove_law(1) that by simp
    then have "stk (lua_pushvalue A (lua_remove A v (- 2)) (- 1)) = (xs @ [y]) @ [y]" using pushvalue_law(1) by simp
    then show ?thesis using setglobal_law pushvalue_law(2,3) remove_law(2,3) by metis
  qed
  have b: "lua_toboolean A ?v (- 1) \<longleftrightarrow> fget (vm s) loaded name \<notin> {LNil, LBool False}"
    using toboolean_at [of ?v "- 1"] v(1) by (metis append.assoc append_Cons append_Nil at_simps(1))
  show ?thesis
  proof (cases "lua_toboolean A ?v (- 1)")
    case True
    then show ?thesis
      using fin [OF v(1)] v b assms(2) by (auto simp: luaL_requiref_def required_def Let_def)
  next
    case False
    let ?s = "upd_vm (\<lambda>v. lua_pushstring A (lua_pushcfunction A (lua_pop A v 1) f) name)
      (upd_vm (\<lambda>v. lua_getfield A (luaL_findtable A v LUA_REGISTRYINDEX ''_LOADED'') (- 1) name) s)"
    have st: "stk (vm ?s) = (stk (vm s) @ [LTab loaded]) @ [LFun f, LStr name]"
      using v(1) settop_law(1) pushcfunction_law(1) pushstring_law(1) settop_pop [of "stk (vm s) @ [LTab loaded]"]
      by (simp add: lua_pop_def)
    have "fget (vm ?s) = fget (vm s)" "glob (vm ?s) = glob (vm s)"
      using v settop_fields push_fields push_globals by (simp_all add: lua_pop_def)
    then obtain s2 where s2: "lua_call 1 1 ?s = Some (Inr 1, s2)" "stk (vm s2) = (stk (vm s) @ [LTab loaded]) @ [m]"
      "fget (vm s2) loaded = fget (vm s) loaded" "glob (vm s2) = glob (vm s)" using assms(1) [unfolded opens_module_def, rule_format, OF st] by auto
    let ?w = "lua_setfield A (lua_pushvalue A (vm s2) (- 1)) (- 3) name"
    have p: "stk (lua_pushvalue A (vm s2) (- 1)) = (stk (vm s) @ [LTab loaded, m]) @ [m]"
      using pushvalue_law(1) [of "vm s2" "- 1" m] s2(2) by simp
    then have "at (stk (lua_pushvalue A (vm s2) (- 1))) (- 3) = Some (LTab loaded)" by simp
    from setfield_law [OF this p, of name]
    have w: "stk ?w = stk (vm s) @ [LTab loaded, m]" "fget ?w loaded = (fget (vm s) loaded)(name := m)" "glob ?w = glob (vm s)"
      using pushvalue_law(2,3) s2(3,4) push_globals(2) by simp_all
    show ?thesis
      using False s2(1) fin [OF w(1)] w b assms(2) by (auto simp: luaL_requiref_def required_def Let_def)
  qed
qed

lemma openall_loads:
  assumes "\<And>name f. (name, f) \<in> set libs \<Longrightarrow> opens_module stk fget glob loaded lua_call name f (m f)"
    and "distinct (map fst libs)"
  shows "\<exists>s'. openall_loop A lua_call libs s = Some (Inr 0, s') \<and> stk (vm s') = stk (vm s) \<and>
    (\<forall>k. fget (vm s') loaded k = (case map_of libs k of None \<Rightarrow> fget (vm s) loaded k | Some f \<Rightarrow> required (fget (vm s) loaded k) (m f))) \<and>
    (\<forall>k. glob (vm s') k = (case map_of libs k of None \<Rightarrow> glob (vm s) k | Some f \<Rightarrow> fget (vm s') loaded k))"
  using assms
proof (induction libs arbitrary: s)
  case Nil
  then show ?case by simp
next
  case (Cons p libs)
  obtain name f where p: "p = (name, f)" by fastforce
  let ?x = "required (fget (vm s) loaded name) (m f)"
  obtain s1 where s1: "luaL_requiref A lua_call name f True s = Some (Inr 0, s1)" "stk (vm s1) = stk (vm s) @ [?x]"
    "fget (vm s1) loaded = (fget (vm s) loaded)(name := ?x)" "glob (vm s1) = (glob (vm s))(name := ?x)"
    using requiref_loads [OF Cons.prems(1) [of name f] refl, of s] p by auto
  let ?s = "upd_vm (\<lambda>v. lua_pop A v 1) s1"
  have pop: "stk (vm ?s) = stk (vm s)" "fget (vm ?s) = fget (vm s1)" "glob (vm ?s) = glob (vm s1)"
    using s1(2) settop_law(1) settop_fields by (simp_all add: lua_pop_def)
  have "name \<notin> fst ` set libs" using Cons.prems(2) p by auto
  then have none: "map_of libs name = None" by (simp add: map_of_eq_None_iff)
  have "opens_module stk fget glob loaded lua_call n g (m g)" if "(n, g) \<in> set libs" for n g using Cons.prems(1) that by simp
  moreover have "distinct (map fst libs)" using Cons.prems(2) by simp
  ultimately obtain s' where s': "openall_loop A lua_call libs ?s = Some (Inr 0, s')" "stk (vm s') = stk (vm s)"
    "\<And>k. fget (vm s') loaded k = (case map_of libs k of None \<Rightarrow> fget (vm s1) loaded k | Some f \<Rightarrow> required (fget (vm s1) loaded k) (m f))"
    "\<And>k. glob (vm s') k = (case map_of libs k of None \<Rightarrow> glob (vm s1) k | Some f \<Rightarrow> fget (vm s') loaded k)"
    using Cons.IH [of ?s, unfolded pop] by blast
  have "fget (vm s') loaded k = (case map_of (p # libs) k of None \<Rightarrow> fget (vm s) loaded k | Some f \<Rightarrow> required (fget (vm s) loaded k) (m f))" for k
    by (cases "k = name") (simp_all add: s'(3) s1(3) p none split: option.split)
  moreover have "glob (vm s') k = (case map_of (p # libs) k of None \<Rightarrow> glob (vm s) k | Some f \<Rightarrow> fget (vm s') loaded k)" for k
    by (cases "k = name") (simp_all add: s'(3,4) s1(3,4) p none split: option.split)
  ultimately show ?case using s1(1) s'(1,2) p by simp
qed

end

section \<open>Properties\<close>


text \<open>A reference for \<open>lua_call\<close>: the open functions return a table.\<close>

definition ref_open :: "(ref_vm, unit) call" where
  "ref_open n r s = Some (Inr 1, s\<lparr>vm := (vm s)\<lparr>r_stk := butlast (butlast (r_stk (vm s))) @ [LTab 3]\<rparr>\<rparr>)"

definition start_st :: "(ref_vm, unit) st" where
  "start_st = \<lparr>vm = \<lparr>r_stk = [], r_tab = (\<lambda>_ _. LNil), r_meta = (\<lambda>_. None), r_next = 9, r_fld = (\<lambda>_ _. LNil), r_upv = [],
     r_glob = (\<lambda>_. LNil)\<rparr>, mem = (\<lambda>_ _. 0), os = ()\<rparr>"


section \<open>The arguments of the first script\<close>

definition array_content :: "string list \<Rightarrow> int \<Rightarrow> lval" where
  "array_content xs k = (if 1 \<le> k \<and> k \<le> int (length xs) then LStr (xs ! nat (k - 1)) else LNil)"

context lua_vm
begin

lemma push_array_content:
  "\<exists>t. stk (push_array A xs v) = stk v @ [LTab t] \<and> LTab t \<notin> set (stk v) \<and>
    tget (push_array A xs v) = (tget v)(t := array_content xs)"
proof -
  obtain t where t: "stk (lua_newtable A v) = stk v @ [LTab t]" "tget (lua_newtable A v) = (tget v)(t := (\<lambda>_. LNil))" "LTab t \<notin> set (stk v)"
    using newtable_law(1) [of v] by auto
  let ?f = "\<lambda>(i, x) v. lua_rawseti A (lua_pushstring A v x) (- 2) (int i + 1)"
  have "stk (fold ?f (enumerate 0 xs) (lua_newtable A v)) = stk v @ [LTab t] \<and>
      tget (fold ?f (enumerate 0 xs) (lua_newtable A v)) = (tget v)(t := array_content xs)"
  proof (induction xs rule: rev_induct)
    case Nil
    then show ?case using t(1,2) by (auto simp: array_content_def fun_eq_iff)
  next
    case (snoc x xs)
    let ?u = "fold ?f (enumerate 0 xs) (lua_newtable A v)"
    have st: "stk (lua_pushstring A ?u x) = (stk v @ [LTab t]) @ [LStr x]" using snoc pushstring_law(1) by simp
    then have "at (stk (lua_pushstring A ?u x)) (- 2) = Some (LTab t)" by simp
    note rs = rawseti_law(1) [OF this st, of "int (length xs) + 1"]
    have "array_content (xs @ [x]) = (array_content xs)(int (length xs) + 1 := LStr x)"
      by (auto simp: array_content_def fun_eq_iff nth_append)
    then show ?case using rs snoc pushstring_law(2) by (auto simp: enumerate_append_eq fun_eq_iff)
  qed
  then show ?thesis using t(3) unfolding push_array_def by blast
qed

end

context lua_loaded
begin

text \<open>The stack before \<open>init\<close> is looked at, and then with its arguments.\<close>

lemma vfs_registered:
  assumes "stk v = xs @ [LTab ram]" and "ram \<noteq> loaded"
  defines "w \<equiv> lua_getfield A (lua_pushcfunction A (lua_pop A (lua_setfield A (lua_pushvalue A (lua_getfield A v LUA_REGISTRYINDEX ''_LOADED'')
    (- 2)) (- 2) ''ramfs'') 1) ''traceback'') (- 2) ''init''"
  shows "stk w = xs @ [LTab ram, LFun ''traceback'', fget v ram ''init'']" "fget w loaded ''ramfs'' = LTab ram"
proof -
  let ?a = "lua_getfield A v LUA_REGISTRYINDEX ''_LOADED''"
  let ?b = "lua_pushvalue A ?a (- 2)"
  let ?c = "lua_setfield A ?b (- 2) ''ramfs''"
  let ?d = "lua_pushcfunction A (lua_pop A ?c 1) ''traceback''"
  have "stk ?a = xs @ [LTab ram, LTab loaded]" using registry_law assms(1) by simp
  then have b: "stk ?b = (xs @ [LTab ram, LTab loaded]) @ [LTab ram]" "fget ?b = fget v"
    using pushvalue_law(1) [of ?a "- 2" "LTab ram"] pushvalue_law(2) getfield_law(2) by simp_all
  have "at (stk ?b) (- 2) = Some (LTab loaded)" using b(1) at_simps(2) [of "xs @ [LTab ram]"] by simp
  from setfield_law [OF this b(1), of "''ramfs''"] b(2)
  have c: "stk ?c = (xs @ [LTab ram]) @ [LTab loaded]" "fget ?c = (fget v)(loaded := (fget v loaded)(''ramfs'' := LTab ram))" by simp_all
  have d: "stk ?d = xs @ [LTab ram, LFun ''traceback'']" "fget ?d = fget ?c"
    using c(1) settop_law(1) [of ?c "- 2"] settop_pop [of "xs @ [LTab ram]" "LTab loaded"] pushcfunction_law(1) settop_fields(1) push_fields(1)
    by (simp_all add: lua_pop_def)
  then have "at (stk ?d) (- 2) = Some (LTab ram)" by simp
  from getfield_law(1) [OF this, of "''init''"] getfield_law(2) d c(2) assms(2)
  show "stk w = xs @ [LTab ram, LFun ''traceback'', fget v ram ''init'']" "fget w loaded ''ramfs'' = LTab ram"
    by (simp_all add: w_def)
qed

lemma init_stack:
  assumes "stk v = ys"
  shows "\<exists>ta te. stk (push_array A envp (push_array A argv (lua_pushstring A (lua_pushstring A v initrd) path))) =
      ys @ [LStr initrd, LStr path, LTab ta, LTab te] \<and>
    tget (push_array A envp (push_array A argv (lua_pushstring A (lua_pushstring A v initrd) path))) ta = array_content argv \<and>
    tget (push_array A envp (push_array A argv (lua_pushstring A (lua_pushstring A v initrd) path))) te = array_content envp"
proof -
  let ?u = "lua_pushstring A (lua_pushstring A v initrd) path"
  obtain ta where ta: "stk (push_array A argv ?u) = ys @ [LStr initrd, LStr path, LTab ta]" "tget (push_array A argv ?u) ta = array_content argv"
    using push_array_content [of argv ?u] pushstring_law(1) assms by auto
  obtain te where "stk (push_array A envp (push_array A argv ?u)) = ys @ [LStr initrd, LStr path, LTab ta, LTab te]" "te \<noteq> ta"
    "tget (push_array A envp (push_array A argv ?u)) = (tget (push_array A argv ?u))(te := array_content envp)"
    using push_array_content [of envp "push_array A argv ?u"] ta(1) by auto
  then show ?thesis using ta(2) by auto
qed

end

text \<open>
  The first script gets its arguments: when the compiled loader runs and returns a table whose \<open>init\<close> is a
  function, that function is called in protected mode with the archive, the path and two tables with
  exactly the arguments and the environment of the process; the error handler is \<open>traceback\<close>, and
  the result is 0 exactly when the call succeeds.
\<close>

theorem init_arguments:
  assumes "lua_loaded A stk tget meta fget glob loaded"
    and "luaL_loadbuffer A (vm s) luac = (0, v)"
    and "lua_pcall 1 1 0 (upd_vm (\<lambda>v. lua_pushstring A v ''ramfs'') (s\<lparr>vm := v\<rparr>)) = Some (0, s2)"
    and "stk (vm s2) = xs @ [LTab ram]" and "ram \<noteq> loaded" and "fget (vm s2) ram ''init'' = LFun f"
  shows "\<exists>s3 ta te. ramfs_vfsinit A lua_pcall luac initrd path argv envp s =
      map_option (\<lambda>(status, s4). (if status = 0 then 0 else - ENOEXEC, s4)) (lua_pcall 4 1 (- 6) s3) \<and>
    stk (vm s3) = xs @ [LTab ram, LFun ''traceback'', LFun f, LStr initrd, LStr path, LTab ta, LTab te] \<and>
    at (stk (vm s3)) (- 6) = Some (LFun ''traceback'') \<and>
    tget (vm s3) ta = array_content argv \<and> tget (vm s3) te = array_content envp"
proof -
  let ?w = "lua_getfield A (lua_pushcfunction A (lua_pop A (lua_setfield A (lua_pushvalue A (lua_getfield A (vm s2)
    LUA_REGISTRYINDEX ''_LOADED'') (- 2)) (- 2) ''ramfs'') 1) ''traceback'') (- 2) ''init''"
  let ?u = "push_array A envp (push_array A argv (lua_pushstring A (lua_pushstring A ?w initrd) path))"
  have vm: "lua_vm A stk tget meta" using assms(1) by (simp add: lua_loaded_def lua_fields_def)
  have w: "stk ?w = xs @ [LTab ram, LFun ''traceback'', LFun f]"
    using lua_loaded.vfs_registered(1) [OF assms(1,4,5)] assms(6) by simp
  obtain ta te where u: "stk ?u = (xs @ [LTab ram, LFun ''traceback'', LFun f]) @ [LStr initrd, LStr path, LTab ta, LTab te]"
    "tget ?u ta = array_content argv" "tget ?u te = array_content envp"
    using lua_loaded.init_stack [OF assms(1), of ?w] w by metis
  have ty: "lua_type A (vm s2) (- 1) = LUA_TTABLE" "lua_type A ?w (- 1) = LUA_TFUNCTION"
    using lua_vm.type_at [OF vm, of "vm s2" "- 1"] lua_vm.type_at [OF vm, of ?w "- 1"] assms(4) w
      at_simps(1) [of "xs @ [LTab ram, LFun ''traceback'']"] by simp_all
  have "ramfs_vfsinit A lua_pcall luac initrd path argv envp s =
      map_option (\<lambda>(status, s4). (if status = 0 then 0 else - ENOEXEC, s4)) (lua_pcall 4 1 (- 6) (s2\<lparr>vm := ?u\<rparr>))"
    using assms(2,3) ty
    by (cases "lua_pcall 4 1 (- 6) (s2\<lparr>vm := ?u\<rparr>)") (auto simp: ramfs_vfsinit_def upd_vm_def Let_def)
  moreover have "at (stk ?u) (- 6) = Some (LFun ''traceback'')"
    using u(1) at_from_end [of "[LFun f, LStr initrd, LStr path, LTab ta, LTab te]" "xs @ [LTab ram]"] by simp
  ultimately show ?thesis using u by (intro exI [of _ "s2\<lparr>vm := ?u\<rparr>"] exI [of _ ta] exI [of _ te]) simp
qed

text \<open>A protected call of the reference machine: the loader returns the table 5, whose \<open>init\<close> is a function.\<close>

definition ref_pcall :: "(ref_vm, unit) protected_call" where
  "ref_pcall n r h s = Some (0, s\<lparr>vm := (vm s)\<lparr>r_stk := take (length (r_stk (vm s)) - Suc (nat n)) (r_stk (vm s)) @ [LTab 5],
     r_fld := (\<lambda>t k. if t = 5 \<and> k = ''init'' then LFun ''vfs_init'' else LNil)\<rparr>\<rparr>)"

theorem init_arguments_witness:
  "\<exists>s3 ta te. ramfs_vfsinit ref_lua ref_pcall ''luac'' ''tar'' ''/init'' [''loongshieldd'', ''-d''] [] start_st =
      map_option (\<lambda>(status, s4). (if status = 0 then 0 else - ENOEXEC, s4)) (ref_pcall 4 1 (- 6) s3) \<and>
    r_stk (vm s3) = [LTab 5, LFun ''traceback'', LFun ''vfs_init'', LStr ''tar'', LStr ''/init'', LTab ta, LTab te] \<and>
    r_tab (vm s3) ta 2 = LStr ''-d'' \<and> r_tab (vm s3) te 1 = LNil"
proof -
  let ?v = "(vm start_st)\<lparr>r_stk := [LFun ''chunk'']\<rparr>"
  let ?s = "start_st\<lparr>vm := ?v\<lparr>r_stk := [LTab 5], r_fld := (\<lambda>t k. if t = 5 \<and> k = ''init'' then LFun ''vfs_init'' else LNil)\<rparr>\<rparr>"
  have h: "luaL_loadbuffer ref_lua (vm start_st) ''luac'' = (0, ?v)"
    "ref_pcall 1 1 0 (upd_vm (\<lambda>v. lua_pushstring ref_lua v ''ramfs'') (start_st\<lparr>vm := ?v\<rparr>)) = Some (0, ?s)"
    "r_stk (vm ?s) = [] @ [LTab 5]" "(5 :: nat) \<noteq> 0" "r_fld (vm ?s) 5 ''init'' = LFun ''vfs_init''"
    by (simp_all add: ref_lua_def r_push_def start_st_def ref_pcall_def upd_vm_def)
  show ?thesis
    using init_arguments [where lua_pcall = ref_pcall and s = start_st and initrd = "''tar''" and path = "''/init''" and
        argv = "[''loongshieldd'', ''-d'']" and envp = "[]", OF rg.lua_loaded_axioms h]
    by (auto simp: array_content_def)
qed

section \<open>The exit status\<close>

text \<open>
  A protected call of a C function: the function runs on a stack with its arguments only (\<open>frame\<close>); its result or its
  error comes back as a status and a value on the stack of the caller.
\<close>

locale lua_protected = lua_vm A stk tget meta
  for A :: "'v lua_api" and stk tget meta +
  fixes pcall_c :: "(('v, 'w) st \<Rightarrow> ('v, 'w) ret) \<Rightarrow> int \<Rightarrow> int \<Rightarrow> ('v, 'w) st \<Rightarrow> (int \<times> ('v, 'w) st) option"
    and frame :: "int \<Rightarrow> ('v, 'w) st \<Rightarrow> ('v, 'w) st"
  assumes frame_law: "stk (vm s) = xs @ ys \<Longrightarrow> int (length ys) = n \<Longrightarrow> stk (vm (frame n s)) = ys"
    and pcall_error: "f (frame n s) = Some (Inl e, s1) \<Longrightarrow> \<exists>status s2. pcall_c f n 1 s = Some (status, s2) \<and> status \<noteq> 0 \<and> os s2 = os s1"
    and pcall_result: "f (frame n s) = Some (Inr 1, s1) \<Longrightarrow> stk (vm s1) = ys @ [x] \<Longrightarrow>
       \<exists>s2 xs. pcall_c f n 1 s = Some (0, s2) \<and> os s2 = os s1 \<and> stk (vm s2) = xs @ [x]"
    and isnumber_law: "at (stk v) i = Some (LNum k) \<Longrightarrow> lua_isnumber A v i"
      "at (stk v) i = Some y \<Longrightarrow> type_of (Some y) \<notin> {LUA_TNUMBER, LUA_TSTRING} \<Longrightarrow> \<not> lua_isnumber A v i"
    and pushlightuserdata_law: "stk (lua_pushlightuserdata A v p) = stk v @ [LLight p]"

fun exit_of :: "lval \<Rightarrow> int" where
  "exit_of (LNum n) = c_int n"
| "exit_of LNil = 1"
| "exit_of (LBool b) = (if b then 0 else 1)"
| "exit_of _ = 0"

text \<open>The state in which \<open>main\<close> calls \<open>pmain\<close>.\<close>

definition main_st :: "'v lua_api \<Rightarrow> 'v \<Rightarrow> int \<Rightarrow> 64 word \<Rightarrow> 64 word \<Rightarrow> 'w \<Rightarrow> ('v, 'w) st" where
  "main_st A v argc argv envp w =
     \<lparr>vm = lua_pushlightuserdata A (lua_pushlightuserdata A (lua_pushinteger A (lua_pushcfunction A v ''pmain'') argc) argv) envp,
      mem = (\<lambda>_ _. 0), os = w\<rparr>"

context lua_protected
begin

lemma exit_of_top:
  assumes "stk v = xs @ [x]" and "type_of (Some x) \<noteq> LUA_TSTRING"
  shows "(if lua_isnumber A v (- 1) then c_int (lua_tointeger A v (- 1)) else if lua_toboolean A v (- 1) then EXIT_SUCCESS else EXIT_FAILURE) = exit_of x"
proof -
  have at: "at (stk v) (- 1) = Some x" using assms(1) by simp
  show ?thesis
  proof (cases "\<exists>n. x = LNum n")
    case True
    then show ?thesis using isnumber_law(1) tointeger_law at by auto
  next
    case False
    then have "\<not> lua_isnumber A v (- 1)" using isnumber_law(2) [OF at] assms(2) by (cases x) auto
    then show ?thesis using toboolean_at [OF at] False assms(2) by (cases x) (auto simp: EXIT_SUCCESS_def EXIT_FAILURE_def)
  qed
qed

lemma main_returns:
  assumes "newstate w = Some v" and "body (frame 3 (main_st A v argc argv envp w)) = Some (Inr 1, s1)"
    and "stk (vm s1) = ys @ [x]" and "type_of (Some x) \<noteq> LUA_TSTRING"
  shows "map_option fst (daemon_main A newstate pcall_c lua_close body argc argv envp w) = Some (exit_of x)"
proof -
  obtain s2 xs where s2: "pcall_c body 3 1 (main_st A v argc argv envp w) = Some (0, s2)" "os s2 = os s1" "stk (vm s2) = xs @ [x]"
    using pcall_result [of body 3 "main_st A v argc argv envp w" s1 ys x] assms(2,3) by auto
  then show ?thesis using assms(1) exit_of_top [OF s2(3) assms(4)] by (simp add: daemon_main_def main_st_def upd_vm_def Let_def)
qed

text \<open>The value \<open>pmain\<close> leaves on top of the stack has the exit status of the value \<open>init\<close> returned.\<close>

lemma pmain_result:
  assumes "c_int (lua_tointeger A (vm s) 1) = argc" and "lualibs_openall A lua_call (upd_vm openlibs s) = Some (Inr k, s1)"
    and "ramfs_vfsinit A lua_pcall luac initrd ''/init'' (take (nat argc) args) env s1 = Some (err, s2)"
    and "0 \<le> err \<longrightarrow> stk (vm s2) = xs @ [x] \<and> type_of (Some x) \<noteq> LUA_TSTRING"
  shows "\<exists>s3 ys y. pmain A lua_call lua_pcall openlibs luac initrd args env s = Some (Inr 1, s3) \<and> stk (vm s3) = ys @ [y] \<and>
    type_of (Some y) \<noteq> LUA_TSTRING \<and> exit_of y = (if err < 0 then 1 else exit_of x) \<and> os s3 = os s2"
proof (cases "err < 0")
  case True
  then show ?thesis
    using assms(1-3) pushinteger_law(1)
    by (simp add: pmain_def Let_def push_ret_def EXIT_FAILURE_def c_int_def)
next
  case False
  then have x: "stk (vm s2) = xs @ [x]" "type_of (Some x) \<noteq> LUA_TSTRING" using assms(4) by simp_all
  show ?thesis
  proof (cases "lua_isnumber A (vm s2) (- 1)")
    case True
    then show ?thesis using False assms(1-3) x by (auto simp: pmain_def Let_def)
  next
    case nan: False
    have "exit_of (LNum (if lua_toboolean A (vm s2) (- 1) then EXIT_SUCCESS else EXIT_FAILURE)) = exit_of x"
      using exit_of_top [OF x] nan by (simp add: EXIT_SUCCESS_def EXIT_FAILURE_def c_int_def split: if_splits)
    then show ?thesis
      using False nan assms(1-3) pushinteger_law(1) by (simp add: pmain_def Let_def push_ret_def)
  qed
qed

lemma pmain_argc:
  assumes "stk v = []" and "- (2 ^ 31) \<le> argc" and "argc < 2 ^ 31"
  shows "c_int (lua_tointeger A (vm (frame 3 (main_st A v argc argv envp w))) 1) = argc"
proof -
  have "stk (vm (main_st A v argc argv envp w)) = [LFun ''pmain''] @ [LNum argc, LLight argv, LLight envp]"
    using assms(1) pushlightuserdata_law pushinteger_law(1) pushcfunction_law(1) by (simp add: main_st_def)
  from frame_law [OF this, of 3] have "at (stk (vm (frame 3 (main_st A v argc argv envp w)))) 1 = Some (LNum argc)"
    by (simp add: at_def)
  then show ?thesis
    using tointeger_law assms(2,3) signed_take_bit_int_eq_self [of 31 argc] by (simp add: c_int_def sint_sbintrunc')
qed

end


text \<open>The reference machine with protected calls; the first script returns 3.\<close>

definition ref_frame :: "int \<Rightarrow> (ref_vm, 'w) st \<Rightarrow> (ref_vm, 'w) st" where
  "ref_frame n s = s\<lparr>vm := (vm s)\<lparr>r_stk := drop (length (r_stk (vm s)) - nat n) (r_stk (vm s))\<rparr>\<rparr>"

definition ref_pcall_c :: "((ref_vm, 'w) st \<Rightarrow> (ref_vm, 'w) ret) \<Rightarrow> int \<Rightarrow> int \<Rightarrow> (ref_vm, 'w) st \<Rightarrow> (int \<times> (ref_vm, 'w) st) option" where
  "ref_pcall_c f n r s =
     (case f (ref_frame n s) of
        None \<Rightarrow> None
      | Some (Inl e, s1) \<Rightarrow> Some (2, s1)
      | Some (Inr k, s1) \<Rightarrow> Some (0, s1\<lparr>vm := (vm s1)\<lparr>r_stk := [last (r_stk (vm s1))]\<rparr>\<rparr>))"

interpretation rp: lua_protected ref_lua r_stk r_tab r_meta ref_pcall_c ref_frame
  by unfold_locales (auto simp: ref_frame_def ref_pcall_c_def ref_lua_def r_push_def)

definition ref_init :: "(ref_vm, unit) protected_call" where
  "ref_init n r h s = Some (0, s\<lparr>vm := (vm s)\<lparr>r_stk := [if n = 1 then LTab 5 else LNum 3],
     r_fld := (\<lambda>t k. if t = 5 \<and> k = ''init'' then LFun ''vfs_init'' else LNil)\<rparr>\<rparr>)"


end
