(* ===== verification/Tree_Order.thy ===== *)
theory Tree_Order
  imports Queue_Mem "HOL-Library.Tree"
begin

text \<open>
  What the tree macros of \<open>src/lib/tree.h\<close> promise: a tree is a sequence of elements in the order of
  their keys, without two equal keys. The operations on sequences here are the specification of the
  splay trees (\<open>Tree_Splay\<close>) and of the rank-balanced trees (\<open>Tree_Rank\<close>). The interface
  \<open>ordered_tree\<close> states the laws both kinds keep, and the client lemma shows that any run of insertions,
  removals and searches gives the results of the run on sequences.

  \<open>cmp\<close> is the comparison function of the client, which orders elements by their keys.
\<close>

type_synonym cmp = "nat \<Rightarrow> nat \<Rightarrow> int"
type_synonym 'a tres = "(qfault + 'a) option"

definition cmp_by :: "(nat \<Rightarrow> 'k::linorder) \<Rightarrow> cmp \<Rightarrow> bool" where
  "cmp_by key cmp \<longleftrightarrow> (\<forall>x y. (cmp x y < 0 \<longleftrightarrow> key x < key y) \<and> (0 < cmp x y \<longleftrightarrow> key y < key x))"

definition strictly_sorted :: "(nat \<Rightarrow> 'k::linorder) \<Rightarrow> nat list \<Rightarrow> bool" where
  "strictly_sorted key xs \<longleftrightarrow> sorted_wrt (<) (map key xs)"

definition find_key :: "(nat \<Rightarrow> 'k) \<Rightarrow> nat \<Rightarrow> nat list \<Rightarrow> nat option" where
  "find_key key x xs = find (\<lambda>y. key y = key x) xs"

definition insert_seq :: "(nat \<Rightarrow> 'k::linorder) \<Rightarrow> nat \<Rightarrow> nat list \<Rightarrow> nat list" where
  "insert_seq key x xs = (if find_key key x xs = None then insort_key key x xs else xs)"

section \<open>Strictly sorted sequences\<close>

lemma cmp_byD:
  assumes "cmp_by key cmp"
  shows "cmp x y < 0 \<longleftrightarrow> key x < key y" "0 < cmp x y \<longleftrightarrow> key y < key x" "cmp x y = 0 \<longleftrightarrow> key x = key y" "0 \<le> cmp x y \<longleftrightarrow> key y \<le> key x"
proof -
  show *: "cmp x y < 0 \<longleftrightarrow> key x < key y" "0 < cmp x y \<longleftrightarrow> key y < key x" using assms by (auto simp: cmp_by_def)
  then show "cmp x y = 0 \<longleftrightarrow> key x = key y" "0 \<le> cmp x y \<longleftrightarrow> key y \<le> key x" by (metis less_irrefl linorder_neqE, metis not_less)
qed

lemma strictly_sorted_simps [simp]:
  "strictly_sorted key []"
  "strictly_sorted key (x # xs) \<longleftrightarrow> (\<forall>y \<in> set xs. key x < key y) \<and> strictly_sorted key xs"
  "strictly_sorted key (xs @ ys) \<longleftrightarrow> strictly_sorted key xs \<and> strictly_sorted key ys \<and> (\<forall>x \<in> set xs. \<forall>y \<in> set ys. key x < key y)"
  by (auto simp: strictly_sorted_def sorted_wrt_append)

lemma strictly_sorted_distinct: "strictly_sorted key xs \<Longrightarrow> distinct xs"
  by (induction xs) auto

lemma strictly_sorted_inj: "strictly_sorted key xs \<Longrightarrow> x \<in> set xs \<Longrightarrow> y \<in> set xs \<Longrightarrow> key x = key y \<Longrightarrow> x = y"
  unfolding strictly_sorted_def strict_sorted_iff distinct_map by (blast dest: inj_onD)

lemma find_key_None: "find_key key x xs = None \<longleftrightarrow> (\<forall>y \<in> set xs. key y \<noteq> key x)"
  by (auto simp: find_key_def find_None_iff)

lemma find_key_Some:
  assumes "strictly_sorted key xs"
  shows "find_key key x xs = Some a \<longleftrightarrow> a \<in> set xs \<and> key a = key x"
  using assms by (induction xs) (auto simp: find_key_def)

lemma find_key_self: "strictly_sorted key xs \<Longrightarrow> x \<in> set xs \<Longrightarrow> find_key key x xs = Some x"
  by (simp add: find_key_Some)

lemma insort_key_split:
  assumes "\<forall>y \<in> set xs. key y < key x" and "\<forall>y \<in> set ys. key x < key y"
  shows "insort_key key x (xs @ ys) = xs @ x # ys"
proof -
  have "insort_key key x ys = x # ys" using assms(2) by (cases ys) auto
  then show ?thesis using assms(1) by (induction xs) auto
qed

lemma strictly_sorted_insert:
  assumes "strictly_sorted key xs"
  shows "strictly_sorted key (insert_seq key x xs)"
proof -
  have "strictly_sorted key (insort_key key x xs)" if "\<forall>y \<in> set xs. key y \<noteq> key x"
    using assms that by (induction xs) (auto simp: set_insort_key)
  then show ?thesis using assms find_key_None [of key x xs] by (simp add: insert_seq_def)
qed

lemma strictly_sorted_remove: "strictly_sorted key xs \<Longrightarrow> strictly_sorted key (remove1 x xs)"
  using set_remove1_subset [of x] by (induction xs) auto

section \<open>The interface of an ordered tree\<close>

locale ordered_tree =
  fixes key :: "nat \<Rightarrow> 'k::linorder"
    and elems :: "'m \<Rightarrow> nat list \<Rightarrow> bool"
    and ins :: "'m \<Rightarrow> nat \<Rightarrow> (nat option \<times> 'm) tres"
    and del :: "'m \<Rightarrow> nat \<Rightarrow> (nat option \<times> 'm) tres"
    and fnd :: "'m \<Rightarrow> nat \<Rightarrow> (nat option \<times> 'm) tres"
  assumes elems_sorted: "elems m xs \<Longrightarrow> strictly_sorted key xs"
    and ins_law: "elems m xs \<Longrightarrow> x \<notin> set xs \<Longrightarrow> \<exists>m'. ins m x = Some (Inr (find_key key x xs, m')) \<and> elems m' (insert_seq key x xs)"
    and del_law: "elems m xs \<Longrightarrow> x \<in> set xs \<Longrightarrow> \<exists>m'. del m x = Some (Inr (Some x, m')) \<and> elems m' (remove1 x xs)"
    and fnd_law: "elems m xs \<Longrightarrow> \<exists>m'. fnd m x = Some (Inr (find_key key x xs, m')) \<and> elems m' xs"

datatype tree_op = Insert nat | Remove nat | Find nat

text \<open>A run of operations, with the pointers they return; the run on sequences; which operations a client may call.\<close>

fun tree_run :: "('m \<Rightarrow> nat \<Rightarrow> (nat option \<times> 'm) tres) \<Rightarrow> ('m \<Rightarrow> nat \<Rightarrow> (nat option \<times> 'm) tres) \<Rightarrow> ('m \<Rightarrow> nat \<Rightarrow> (nat option \<times> 'm) tres) \<Rightarrow>
    tree_op list \<Rightarrow> 'm \<Rightarrow> (nat option list \<times> 'm) tres" where
  "tree_run ins del fnd [] m = Some (Inr ([], m))"
| "tree_run ins del fnd (a # as) m =
     (case (case a of Insert x \<Rightarrow> ins m x | Remove x \<Rightarrow> del m x | Find x \<Rightarrow> fnd m x) of
        None \<Rightarrow> None
      | Some (Inl e) \<Rightarrow> Some (Inl e)
      | Some (Inr (r, m1)) \<Rightarrow> map_option (map_sum id (map_prod (Cons r) id)) (tree_run ins del fnd as m1))"

fun seq_step :: "(nat \<Rightarrow> 'k::linorder) \<Rightarrow> tree_op \<Rightarrow> nat list \<Rightarrow> nat option \<times> nat list" where
  "seq_step key (Insert x) xs = (find_key key x xs, insert_seq key x xs)"
| "seq_step key (Remove x) xs = (Some x, remove1 x xs)"
| "seq_step key (Find x) xs = (find_key key x xs, xs)"

fun seq_run :: "(nat \<Rightarrow> 'k::linorder) \<Rightarrow> tree_op list \<Rightarrow> nat list \<Rightarrow> nat option list \<times> nat list" where
  "seq_run key [] xs = ([], xs)"
| "seq_run key (a # as) xs = (let (r, ys) = seq_step key a xs; (rs, zs) = seq_run key as ys in (r # rs, zs))"

fun legal_op :: "tree_op \<Rightarrow> nat list \<Rightarrow> bool" where
  "legal_op (Insert x) xs \<longleftrightarrow> x \<notin> set xs"
| "legal_op (Remove x) xs \<longleftrightarrow> x \<in> set xs"
| "legal_op (Find x) xs \<longleftrightarrow> True"

fun legal_run :: "(nat \<Rightarrow> 'k::linorder) \<Rightarrow> tree_op list \<Rightarrow> nat list \<Rightarrow> bool" where
  "legal_run key [] xs \<longleftrightarrow> True"
| "legal_run key (a # as) xs \<longleftrightarrow> legal_op a xs \<and> legal_run key as (snd (seq_step key a xs))"

context ordered_tree
begin

lemma run_refines:
  assumes "elems m xs" and "legal_run key as xs"
  shows "\<exists>m'. tree_run ins del fnd as m = Some (Inr (fst (seq_run key as xs), m')) \<and> elems m' (snd (seq_run key as xs))"
  using assms
proof (induction as arbitrary: m xs)
  case (Cons a as)
  have "\<exists>m1. (case a of Insert x \<Rightarrow> ins m x | Remove x \<Rightarrow> del m x | Find x \<Rightarrow> fnd m x) = Some (Inr (fst (seq_step key a xs), m1)) \<and>
    elems m1 (snd (seq_step key a xs))"
    using Cons.prems(2) ins_law [OF Cons.prems(1)] del_law [OF Cons.prems(1)] fnd_law [OF Cons.prems(1)] by (cases a) simp_all
  then obtain m1 where m1: "(case a of Insert x \<Rightarrow> ins m x | Remove x \<Rightarrow> del m x | Find x \<Rightarrow> fnd m x) = Some (Inr (fst (seq_step key a xs), m1))"
    "elems m1 (snd (seq_step key a xs))" by blast
  then show ?case using Cons.IH [OF m1(2)] Cons.prems(2) by (auto simp: split_beta Let_def)
qed simp

end

end
