(* ===== verification/Tree_Splay.thy ===== *)
theory Tree_Splay
  imports Tree_Order
begin

text \<open>
  The splay tree macros of \<open>src/lib/tree.h\<close>, for one \<open>field\<close> of one element type and one head.

  An element is named by a number and a \<open>struct type *\<close> is such a number or NULL. \<open>SPLAY\<close> also uses
  the fields of a local variable \<open>__node\<close>, so a place for fields is an \<open>adr\<close>. \<open>cmp\<close> is the comparison
  function of the client; it reads its arguments, so that calling it with NULL faults. \<open>None\<close> is a loop
  that does not end.

  The pointer code is related to a function \<open>topdown\<close> on trees, which keeps the two outer trees of a top-down splay as spines.
  From it follow the contents, the place of the root and the order of every operation.
\<close>

datatype adr = Elm nat | Local

record splay =
  sph_root :: "nat option"
  spe_left :: "adr \<Rightarrow> nat option"
  spe_right :: "adr \<Rightarrow> nat option"

section \<open>The macros\<close>

definition SPLAY_INIT :: "splay \<Rightarrow> splay" where
  "SPLAY_INIT m = m\<lparr>sph_root := None\<rparr>"

definition SPLAY_EMPTY :: "splay \<Rightarrow> bool" where
  "SPLAY_EMPTY m \<longleftrightarrow> sph_root m = None"

definition set_root :: "nat option \<Rightarrow> splay \<Rightarrow> splay" where
  "set_root p m = m\<lparr>sph_root := p\<rparr>"

definition SPLAY_LEFT_set :: "adr \<Rightarrow> nat option \<Rightarrow> splay \<Rightarrow> splay" where
  "SPLAY_LEFT_set a p m = m\<lparr>spe_left := (spe_left m)(a := p)\<rparr>"

definition SPLAY_RIGHT_set :: "adr \<Rightarrow> nat option \<Rightarrow> splay \<Rightarrow> splay" where
  "SPLAY_RIGHT_set a p m = m\<lparr>spe_right := (spe_right m)(a := p)\<rparr>"

definition SPLAY_ROTATE_RIGHT :: "nat \<Rightarrow> splay \<Rightarrow> qfault + splay" where
  "SPLAY_ROTATE_RIGHT tmp m =
     (case sph_root m of
        None \<Rightarrow> Inl NullDeref
      | Some r \<Rightarrow>
          (let m1 = SPLAY_LEFT_set (Elm r) (spe_right m (Elm tmp)) m;
               m2 = SPLAY_RIGHT_set (Elm tmp) (sph_root m1) m1
           in Inr (set_root (Some tmp) m2)))"

definition SPLAY_ROTATE_LEFT :: "nat \<Rightarrow> splay \<Rightarrow> qfault + splay" where
  "SPLAY_ROTATE_LEFT tmp m =
     (case sph_root m of
        None \<Rightarrow> Inl NullDeref
      | Some r \<Rightarrow>
          (let m1 = SPLAY_RIGHT_set (Elm r) (spe_left m (Elm tmp)) m;
               m2 = SPLAY_LEFT_set (Elm tmp) (sph_root m1) m1
           in Inr (set_root (Some tmp) m2)))"

text \<open>The two link macros also assign to their argument \<open>tmp\<close>; its new value is the first result.\<close>

definition SPLAY_LINKLEFT :: "adr \<Rightarrow> splay \<Rightarrow> qfault + adr \<times> splay" where
  "SPLAY_LINKLEFT tmp m =
     (let m1 = SPLAY_LEFT_set tmp (sph_root m) m
      in case sph_root m1 of
           None \<Rightarrow> Inl NullDeref
         | Some r \<Rightarrow> Inr (Elm r, set_root (spe_left m1 (Elm r)) m1))"

definition SPLAY_LINKRIGHT :: "adr \<Rightarrow> splay \<Rightarrow> qfault + adr \<times> splay" where
  "SPLAY_LINKRIGHT tmp m =
     (let m1 = SPLAY_RIGHT_set tmp (sph_root m) m
      in case sph_root m1 of
           None \<Rightarrow> Inl NullDeref
         | Some r \<Rightarrow> Inr (Elm r, set_root (spe_right m1 (Elm r)) m1))"

definition SPLAY_ASSEMBLE :: "adr \<Rightarrow> adr \<Rightarrow> adr \<Rightarrow> splay \<Rightarrow> qfault + splay" where
  "SPLAY_ASSEMBLE node lp rp m =
     (case sph_root m of
        None \<Rightarrow> Inl NullDeref
      | Some r \<Rightarrow>
          (let m1 = SPLAY_RIGHT_set lp (spe_left m (Elm r)) m;
               m2 = SPLAY_LEFT_set rp (spe_right m1 (Elm r)) m1;
               m3 = SPLAY_LEFT_set (Elm r) (spe_right m2 node) m2
           in Inr (SPLAY_RIGHT_set (Elm r) (spe_left m3 node) m3)))"

section \<open>The generated functions\<close>

text \<open>The loop of \<open>SPLAY\<close> with its local variables \<open>__left\<close> and \<open>__right\<close>.\<close>

partial_function (option) splay_loop :: "cmp \<Rightarrow> nat \<Rightarrow> adr \<Rightarrow> adr \<Rightarrow> splay \<Rightarrow> (adr \<times> adr \<times> splay) tres" where
  "splay_loop cmp elm lp rp m =
     (case sph_root m of
        None \<Rightarrow> Some (Inl NullDeref)
      | Some r \<Rightarrow>
          if cmp elm r < 0 then
            (case spe_left m (Elm r) of
               None \<Rightarrow> Some (Inr (lp, rp, m))
             | Some tmp \<Rightarrow>
                 (case (if cmp elm tmp < 0 then SPLAY_ROTATE_RIGHT tmp m else Inr m) of
                    Inl e \<Rightarrow> Some (Inl e)
                  | Inr m1 \<Rightarrow>
                      (case sph_root m1 of
                         None \<Rightarrow> Some (Inl NullDeref)
                       | Some r1 \<Rightarrow>
                           if cmp elm tmp < 0 \<and> spe_left m1 (Elm r1) = None then Some (Inr (lp, rp, m1))
                           else (case SPLAY_LINKLEFT rp m1 of
                                   Inl e \<Rightarrow> Some (Inl e)
                                 | Inr p \<Rightarrow> splay_loop cmp elm lp (fst p) (snd p)))))
          else if cmp elm r > 0 then
            (case spe_right m (Elm r) of
               None \<Rightarrow> Some (Inr (lp, rp, m))
             | Some tmp \<Rightarrow>
                 (case (if cmp elm tmp > 0 then SPLAY_ROTATE_LEFT tmp m else Inr m) of
                    Inl e \<Rightarrow> Some (Inl e)
                  | Inr m1 \<Rightarrow>
                      (case sph_root m1 of
                         None \<Rightarrow> Some (Inl NullDeref)
                       | Some r1 \<Rightarrow>
                           if cmp elm tmp > 0 \<and> spe_right m1 (Elm r1) = None then Some (Inr (lp, rp, m1))
                           else (case SPLAY_LINKRIGHT lp m1 of
                                   Inl e \<Rightarrow> Some (Inl e)
                                 | Inr p \<Rightarrow> splay_loop cmp elm (fst p) rp (snd p)))))
          else Some (Inr (lp, rp, m)))"

definition clear_local :: "splay \<Rightarrow> splay" where
  "clear_local m = SPLAY_LEFT_set Local None (SPLAY_RIGHT_set Local None m)"

definition assemble :: "(adr \<times> adr \<times> splay) tres \<Rightarrow> splay tres" where
  "assemble r =
     (case r of
        None \<Rightarrow> None
      | Some (Inl e) \<Rightarrow> Some (Inl e)
      | Some (Inr (lp, rp, m)) \<Rightarrow> Some (SPLAY_ASSEMBLE Local lp rp m))"

definition SPLAY :: "cmp \<Rightarrow> splay \<Rightarrow> nat \<Rightarrow> splay tres" where
  "SPLAY cmp m elm = assemble (splay_loop cmp elm Local Local (clear_local m))"

text \<open>The loop of \<open>SPLAY_MINMAX\<close>; with \<open>cv\<close> 0 it would not end.\<close>

partial_function (option) minmax_loop :: "int \<Rightarrow> adr \<Rightarrow> adr \<Rightarrow> splay \<Rightarrow> (adr \<times> adr \<times> splay) tres" where
  "minmax_loop cv lp rp m =
     (if cv < 0 then
        (case sph_root m of
           None \<Rightarrow> Some (Inl NullDeref)
         | Some r \<Rightarrow>
             (case spe_left m (Elm r) of
                None \<Rightarrow> Some (Inr (lp, rp, m))
              | Some tmp \<Rightarrow>
                  (case SPLAY_ROTATE_RIGHT tmp m of
                     Inl e \<Rightarrow> Some (Inl e)
                   | Inr m1 \<Rightarrow>
                       (case sph_root m1 of
                          None \<Rightarrow> Some (Inl NullDeref)
                        | Some r1 \<Rightarrow>
                            if spe_left m1 (Elm r1) = None then Some (Inr (lp, rp, m1))
                            else (case SPLAY_LINKLEFT rp m1 of
                                    Inl e \<Rightarrow> Some (Inl e)
                                  | Inr p \<Rightarrow> minmax_loop cv lp (fst p) (snd p))))))
      else if cv > 0 then
        (case sph_root m of
           None \<Rightarrow> Some (Inl NullDeref)
         | Some r \<Rightarrow>
             (case spe_right m (Elm r) of
                None \<Rightarrow> Some (Inr (lp, rp, m))
              | Some tmp \<Rightarrow>
                  (case SPLAY_ROTATE_LEFT tmp m of
                     Inl e \<Rightarrow> Some (Inl e)
                   | Inr m1 \<Rightarrow>
                       (case sph_root m1 of
                          None \<Rightarrow> Some (Inl NullDeref)
                        | Some r1 \<Rightarrow>
                            if spe_right m1 (Elm r1) = None then Some (Inr (lp, rp, m1))
                            else (case SPLAY_LINKRIGHT lp m1 of
                                    Inl e \<Rightarrow> Some (Inl e)
                                  | Inr p \<Rightarrow> minmax_loop cv (fst p) rp (snd p))))))
      else minmax_loop cv lp rp m)"

definition SPLAY_MINMAX :: "splay \<Rightarrow> int \<Rightarrow> splay tres" where
  "SPLAY_MINMAX m cv = assemble (minmax_loop cv Local Local (clear_local m))"

definition SPLAY_MIN_MAX :: "splay \<Rightarrow> int \<Rightarrow> (nat option \<times> splay) tres" where
  "SPLAY_MIN_MAX m cv = map_option (map_sum id (\<lambda>m1. (sph_root m1, m1))) (SPLAY_MINMAX m cv)"

abbreviation (input) SPLAY_NEGINF :: int where "SPLAY_NEGINF \<equiv> - 1"
abbreviation (input) SPLAY_INF :: int where "SPLAY_INF \<equiv> 1"

definition SPLAY_MIN :: "splay \<Rightarrow> (nat option \<times> splay) tres" where
  "SPLAY_MIN m = (if SPLAY_EMPTY m then Some (Inr (None, m)) else SPLAY_MIN_MAX m SPLAY_NEGINF)"

definition SPLAY_MAX :: "splay \<Rightarrow> (nat option \<times> splay) tres" where
  "SPLAY_MAX m = (if SPLAY_EMPTY m then Some (Inr (None, m)) else SPLAY_MIN_MAX m SPLAY_INF)"

text \<open>After a splay: the tests of \<open>SPLAY_FIND\<close>, \<open>SPLAY_INSERT\<close> and \<open>SPLAY_REMOVE\<close> read the root.\<close>

definition with_root :: "splay tres \<Rightarrow> (nat \<Rightarrow> splay \<Rightarrow> 'a tres) \<Rightarrow> 'a tres" where
  "with_root r f =
     (case r of
        None \<Rightarrow> None
      | Some (Inl e) \<Rightarrow> Some (Inl e)
      | Some (Inr m) \<Rightarrow> (case sph_root m of None \<Rightarrow> Some (Inl NullDeref) | Some a \<Rightarrow> f a m))"

definition SPLAY_FIND :: "cmp \<Rightarrow> splay \<Rightarrow> nat \<Rightarrow> (nat option \<times> splay) tres" where
  "SPLAY_FIND cmp m elm =
     (if SPLAY_EMPTY m then Some (Inr (None, m))
      else with_root (SPLAY cmp m elm) (\<lambda>r m1. Some (Inr (if cmp elm r = 0 then Some r else None, m1))))"

text \<open>\<open>while (SPLAY_LEFT(elm)) elm = SPLAY_LEFT(elm)\<close>.\<close>

partial_function (option) leftmost :: "(adr \<Rightarrow> nat option) \<Rightarrow> nat \<Rightarrow> nat option" where
  "leftmost l elm = (case l (Elm elm) of None \<Rightarrow> Some elm | Some a \<Rightarrow> leftmost l a)"

definition SPLAY_NEXT :: "cmp \<Rightarrow> splay \<Rightarrow> nat \<Rightarrow> (nat option \<times> splay) tres" where
  "SPLAY_NEXT cmp m elm =
     (case SPLAY cmp m elm of
        None \<Rightarrow> None
      | Some (Inl e) \<Rightarrow> Some (Inl e)
      | Some (Inr m1) \<Rightarrow>
          (case spe_right m1 (Elm elm) of
             None \<Rightarrow> Some (Inr (None, m1))
           | Some a \<Rightarrow> map_option (\<lambda>b. Inr (Some b, m1)) (leftmost (spe_left m1) a)))"

definition SPLAY_INSERT :: "cmp \<Rightarrow> splay \<Rightarrow> nat \<Rightarrow> (nat option \<times> splay) tres" where
  "SPLAY_INSERT cmp m elm =
     (if SPLAY_EMPTY m then
        Some (Inr (None, set_root (Some elm) (SPLAY_LEFT_set (Elm elm) None (SPLAY_RIGHT_set (Elm elm) None m))))
      else with_root (SPLAY cmp m elm) (\<lambda>r m1.
        if cmp elm r < 0 then
          (let m2 = SPLAY_LEFT_set (Elm elm) (spe_left m1 (Elm r)) m1;
               m3 = SPLAY_RIGHT_set (Elm elm) (sph_root m2) m2;
               m4 = SPLAY_LEFT_set (Elm r) None m3
           in Some (Inr (None, set_root (Some elm) m4)))
        else if cmp elm r > 0 then
          (let m2 = SPLAY_RIGHT_set (Elm elm) (spe_right m1 (Elm r)) m1;
               m3 = SPLAY_LEFT_set (Elm elm) (sph_root m2) m2;
               m4 = SPLAY_RIGHT_set (Elm r) None m3
           in Some (Inr (None, set_root (Some elm) m4)))
        else Some (Inr (Some r, m1))))"

definition SPLAY_REMOVE :: "cmp \<Rightarrow> splay \<Rightarrow> nat \<Rightarrow> (nat option \<times> splay) tres" where
  "SPLAY_REMOVE cmp m elm =
     (if SPLAY_EMPTY m then Some (Inr (None, m))
      else with_root (SPLAY cmp m elm) (\<lambda>r m1.
        if cmp elm r = 0 then
          (if spe_left m1 (Elm r) = None then Some (Inr (Some elm, set_root (spe_right m1 (Elm r)) m1))
           else
             (let tmp = spe_right m1 (Elm r)
              in with_root (SPLAY cmp (set_root (spe_left m1 (Elm r)) m1) elm) (\<lambda>r2 m2.
                   Some (Inr (Some elm, SPLAY_RIGHT_set (Elm r2) tmp m2)))))
        else Some (Inr (None, m1))))"

text \<open>\<open>SPLAY_FOREACH\<close> with a body that changes the state of the client.\<close>

partial_function (option) splay_foreach :: "cmp \<Rightarrow> (nat \<Rightarrow> 's \<Rightarrow> 's) \<Rightarrow> nat option \<Rightarrow> splay \<Rightarrow> 's \<Rightarrow> (splay \<times> 's) tres" where
  "splay_foreach cmp body x m s =
     (case x of
        None \<Rightarrow> Some (Inr (m, s))
      | Some a \<Rightarrow>
          (case SPLAY_NEXT cmp m a of
             None \<Rightarrow> None
           | Some r \<Rightarrow>
               (case r of
                  Inl e \<Rightarrow> Some (Inl e)
                | Inr p \<Rightarrow> splay_foreach cmp body (fst p) (snd p) (body a s))))"

definition SPLAY_FOREACH :: "cmp \<Rightarrow> (nat \<Rightarrow> 's \<Rightarrow> 's) \<Rightarrow> splay \<Rightarrow> 's \<Rightarrow> (splay \<times> 's) tres" where
  "SPLAY_FOREACH cmp body m s =
     (case SPLAY_MIN m of
        None \<Rightarrow> None
      | Some (Inl e) \<Rightarrow> Some (Inl e)
      | Some (Inr (x, m1)) \<Rightarrow> splay_foreach cmp body x m1 s)"

declare splay_loop.simps [code] minmax_loop.simps [code] leftmost.simps [code] splay_foreach.simps [code]

section \<open>Trees and spines in memory\<close>

fun tree_at :: "(adr \<Rightarrow> nat option) \<Rightarrow> (adr \<Rightarrow> nat option) \<Rightarrow> nat option \<Rightarrow> nat tree \<Rightarrow> bool" where
  "tree_at L R p \<langle>\<rangle> = (p = None)"
| "tree_at L R p \<langle>l, a, r\<rangle> = (p = Some a \<and> tree_at L R (L (Elm a)) l \<and> tree_at L R (R (Elm a)) r)"

type_synonym spine = "(nat \<times> nat tree) list"

text \<open>
  The outer trees of a top-down splay. From the place \<open>c\<close> to the place \<open>e\<close>, a right spine follows right
  pointers, and each of its nodes has its left subtree; a left spine is the mirror image. What the
  field at the place \<open>e\<close> holds is left open: the next link overwrites it.
\<close>

fun rspine :: "(adr \<Rightarrow> nat option) \<Rightarrow> (adr \<Rightarrow> nat option) \<Rightarrow> adr \<Rightarrow> spine \<Rightarrow> adr \<Rightarrow> bool" where
  "rspine L R c [] e = (e = c)"
| "rspine L R c ((a, t) # xs) e = (R c = Some a \<and> tree_at L R (L (Elm a)) t \<and> rspine L R (Elm a) xs e)"

fun lspine :: "(adr \<Rightarrow> nat option) \<Rightarrow> (adr \<Rightarrow> nat option) \<Rightarrow> adr \<Rightarrow> spine \<Rightarrow> adr \<Rightarrow> bool" where
  "lspine L R c [] e = (e = c)"
| "lspine L R c ((a, t) # xs) e = (L c = Some a \<and> tree_at L R (R (Elm a)) t \<and> lspine L R (Elm a) xs e)"

definition spine_nodes :: "spine \<Rightarrow> nat list" where
  "spine_nodes xs = concat (map (\<lambda>(a, t). a # inorder t) xs)"

lemma spine_nodes_simps [simp]:
  "spine_nodes [] = []"
  "spine_nodes ((a, t) # xs) = a # inorder t @ spine_nodes xs"
  "spine_nodes (xs @ ys) = spine_nodes xs @ spine_nodes ys"
  by (simp_all add: spine_nodes_def)

lemma tree_at_frame [simp]:
  "x \<notin> set_tree t \<Longrightarrow> tree_at (L(Elm x := q)) R p t = tree_at L R p t"
  "x \<notin> set_tree t \<Longrightarrow> tree_at L (R(Elm x := q)) p t = tree_at L R p t"
  "tree_at (L(Local := q)) R p t = tree_at L R p t"
  "tree_at L (R(Local := q)) p t = tree_at L R p t"
  by (induction t arbitrary: p) auto

text \<open>The end of a spine is a node of it, or the place where it starts.\<close>

lemma spine_end:
  "rspine L R c xs e \<Longrightarrow> e = c \<or> (\<exists>a \<in> set (spine_nodes xs). e = Elm a)"
  "lspine L R c xs e \<Longrightarrow> e = c \<or> (\<exists>a \<in> set (spine_nodes xs). e = Elm a)"
  by (induction xs arbitrary: c) fastforce+

lemma rspine_frame [simp]:
  "x \<notin> set (spine_nodes xs) \<Longrightarrow> rspine (L(Elm x := q)) R c xs e = rspine L R c xs e"
  "rspine (L(Local := q)) R c xs e = rspine L R c xs e"
  "x \<notin> set (spine_nodes xs) \<Longrightarrow> c \<noteq> Elm x \<Longrightarrow> rspine L (R(Elm x := q)) c xs e = rspine L R c xs e"
  by (induction xs arbitrary: c) auto

lemma lspine_frame [simp]:
  "x \<notin> set (spine_nodes xs) \<Longrightarrow> lspine L (R(Elm x := q)) c xs e = lspine L R c xs e"
  "lspine L (R(Local := q)) c xs e = lspine L R c xs e"
  "x \<notin> set (spine_nodes xs) \<Longrightarrow> c \<noteq> Elm x \<Longrightarrow> lspine (L(Elm x := q)) R c xs e = lspine L R c xs e"
  by (induction xs arbitrary: c) auto

text \<open>A field written at the end of a spine is outside every tree that shares no node with the spine.\<close>

lemma tree_at_set_end:
  assumes "e = Local \<or> (\<exists>a \<in> A. e = Elm a)" and "set_tree t \<inter> A = {}"
  shows "tree_at (L(e := q)) R p t = tree_at L R p t" "tree_at L (R(e := q)) p t = tree_at L R p t"
  using assms by (metis disjoint_iff tree_at_frame)+

lemma spine_set_other:
  assumes "e = Local \<or> (\<exists>a \<in> A. e = Elm a)" and "set (spine_nodes xs) \<inter> A = {}"
  shows "rspine (L(e := q)) R Local xs d = rspine L R Local xs d" "lspine L (R(e := q)) Local xs d = lspine L R Local xs d"
  using assms by (metis disjoint_iff rspine_frame(1,2) lspine_frame(1,2))+

text \<open>Writing the field at the end of a spine.\<close>

lemma rspine_set_end:
  assumes "rspine L R c xs e" and "distinct (spine_nodes xs)" and "\<And>a. c = Elm a \<Longrightarrow> a \<notin> set (spine_nodes xs)"
  shows "rspine L (R(e := q)) c xs e"
  using assms
proof (induction xs arbitrary: c)
  case (Cons x xs)
  obtain a t where x: "x = (a, t)" by fastforce
  have r: "rspine L R (Elm a) xs e" using Cons.prems(1) x by simp
  have "rspine L (R(e := q)) (Elm a) xs e" using Cons.prems(2) x by (intro Cons.IH [OF r]) auto
  moreover have "e \<noteq> c" using spine_end(1) [OF r] Cons.prems x by auto
  moreover have "tree_at L (R(e := q)) (L (Elm a)) t"
    using tree_at_set_end(2) [of e "insert a (set (spine_nodes xs))" t] spine_end(1) [OF r] Cons.prems x by auto
  ultimately show ?case using Cons.prems(1) x by (simp del: fun_upd_apply add: fun_upd_other)
qed simp

lemma lspine_set_end:
  assumes "lspine L R c xs e" and "distinct (spine_nodes xs)" and "\<And>a. c = Elm a \<Longrightarrow> a \<notin> set (spine_nodes xs)"
  shows "lspine (L(e := q)) R c xs e"
  using assms
proof (induction xs arbitrary: c)
  case (Cons x xs)
  obtain a t where x: "x = (a, t)" by fastforce
  have r: "lspine L R (Elm a) xs e" using Cons.prems(1) x by simp
  have "lspine (L(e := q)) R (Elm a) xs e" using Cons.prems(2) x by (intro Cons.IH [OF r]) auto
  moreover have "e \<noteq> c" using spine_end(2) [OF r] Cons.prems x by auto
  moreover have "tree_at (L(e := q)) R (R (Elm a)) t"
    using tree_at_set_end(1) [of e "insert a (set (spine_nodes xs))" t] spine_end(2) [OF r] Cons.prems x by auto
  ultimately show ?case using Cons.prems(1) x by (simp del: fun_upd_apply add: fun_upd_other)
qed simp

lemma rspine_snoc: "rspine L R c (xs @ [(a, t)]) e \<longleftrightarrow> (\<exists>d. rspine L R c xs d \<and> R d = Some a \<and> tree_at L R (L (Elm a)) t \<and> e = Elm a)"
  by (induction xs arbitrary: c) auto

lemma lspine_snoc: "lspine L R c (xs @ [(a, t)]) e \<longleftrightarrow> (\<exists>d. lspine L R c xs d \<and> L d = Some a \<and> tree_at L R (R (Elm a)) t \<and> e = Elm a)"
  by (induction xs arbitrary: c) auto

section \<open>Top-down splaying of trees\<close>

fun topdown :: "(nat \<Rightarrow> int) \<Rightarrow> spine \<Rightarrow> spine \<Rightarrow> nat tree \<Rightarrow> spine \<times> spine \<times> nat tree" where
  "topdown c ls rs \<langle>\<rangle> = (ls, rs, \<langle>\<rangle>)"
| "topdown c ls rs \<langle>l, a, r\<rangle> =
     (if c a < 0 then
        (case l of
           \<langle>\<rangle> \<Rightarrow> (ls, rs, \<langle>l, a, r\<rangle>)
         | \<langle>ll, b, lr\<rangle> \<Rightarrow>
             if c b < 0 then
               (if ll = \<langle>\<rangle> then (ls, rs, \<langle>ll, b, \<langle>lr, a, r\<rangle>\<rangle>) else topdown c ls (rs @ [(b, \<langle>lr, a, r\<rangle>)]) ll)
             else topdown c ls (rs @ [(a, r)]) \<langle>ll, b, lr\<rangle>)
      else if c a > 0 then
        (case r of
           \<langle>\<rangle> \<Rightarrow> (ls, rs, \<langle>l, a, r\<rangle>)
         | \<langle>rl, b, rr\<rangle> \<Rightarrow>
             if c b > 0 then
               (if rr = \<langle>\<rangle> then (ls, rs, \<langle>\<langle>l, a, rl\<rangle>, b, rr\<rangle>) else topdown c (ls @ [(b, \<langle>l, a, rl\<rangle>)]) rs rr)
             else topdown c (ls @ [(a, l)]) rs \<langle>rl, b, rr\<rangle>)
      else (ls, rs, \<langle>l, a, r\<rangle>))"

declare topdown.simps(2) [simp del]

text \<open>The rounds of a splay, one equation for each, and the induction over them.\<close>

lemma topdown_stop:
  "(c a < 0 \<longrightarrow> l = \<langle>\<rangle>) \<Longrightarrow> (0 < c a \<longrightarrow> r = \<langle>\<rangle>) \<Longrightarrow> topdown c ls rs \<langle>l, a, r\<rangle> = (ls, rs, \<langle>l, a, r\<rangle>)"
  by (auto simp: topdown.simps(2) split: tree.split)

lemma topdown_zig_zig:
  "c a < 0 \<Longrightarrow> c b < 0 \<Longrightarrow> topdown c ls rs \<langle>\<langle>ll, b, lr\<rangle>, a, r\<rangle> =
     (if ll = \<langle>\<rangle> then (ls, rs, \<langle>ll, b, \<langle>lr, a, r\<rangle>\<rangle>) else topdown c ls (rs @ [(b, \<langle>lr, a, r\<rangle>)]) ll)"
  "0 < c a \<Longrightarrow> 0 < c b \<Longrightarrow> topdown c ls rs \<langle>l, a, \<langle>rl, b, rr\<rangle>\<rangle> =
     (if rr = \<langle>\<rangle> then (ls, rs, \<langle>\<langle>l, a, rl\<rangle>, b, rr\<rangle>) else topdown c (ls @ [(b, \<langle>l, a, rl\<rangle>)]) rs rr)"
  by (auto simp: topdown.simps(2))

lemma topdown_zig_zag:
  "c a < 0 \<Longrightarrow> \<not> c b < 0 \<Longrightarrow> topdown c ls rs \<langle>\<langle>ll, b, lr\<rangle>, a, r\<rangle> = topdown c ls (rs @ [(a, r)]) \<langle>ll, b, lr\<rangle>"
  "0 < c a \<Longrightarrow> \<not> 0 < c b \<Longrightarrow> topdown c ls rs \<langle>l, a, \<langle>rl, b, rr\<rangle>\<rangle> = topdown c (ls @ [(a, l)]) rs \<langle>rl, b, rr\<rangle>"
  by (simp_all add: topdown.simps(2) [of c ls rs "\<langle>ll, b, lr\<rangle>" a r] topdown.simps(2) [of c ls rs l a "\<langle>rl, b, rr\<rangle>"])

lemmas topdown_rounds = topdown_stop topdown_zig_zig topdown_zig_zag

lemma topdown_induct [consumes 1, case_names stop zig_zig_left zig_zag_left zig_zig_right zig_zag_right]:
  fixes c :: "nat \<Rightarrow> int"
  assumes "t \<noteq> \<langle>\<rangle>"
    and stop: "\<And>ls rs l a r. (c a < 0 \<longrightarrow> l = \<langle>\<rangle>) \<Longrightarrow> (0 < c a \<longrightarrow> r = \<langle>\<rangle>) \<Longrightarrow> P ls rs \<langle>l, a, r\<rangle>"
    and zzl: "\<And>ls rs ll b lr a r. c a < 0 \<Longrightarrow> c b < 0 \<Longrightarrow> (ll \<noteq> \<langle>\<rangle> \<Longrightarrow> P ls (rs @ [(b, \<langle>lr, a, r\<rangle>)]) ll) \<Longrightarrow> P ls rs \<langle>\<langle>ll, b, lr\<rangle>, a, r\<rangle>"
    and zgl: "\<And>ls rs ll b lr a r. c a < 0 \<Longrightarrow> \<not> c b < 0 \<Longrightarrow> P ls (rs @ [(a, r)]) \<langle>ll, b, lr\<rangle> \<Longrightarrow> P ls rs \<langle>\<langle>ll, b, lr\<rangle>, a, r\<rangle>"
    and zzr: "\<And>ls rs l a rl b rr. 0 < c a \<Longrightarrow> 0 < c b \<Longrightarrow> (rr \<noteq> \<langle>\<rangle> \<Longrightarrow> P (ls @ [(b, \<langle>l, a, rl\<rangle>)]) rs rr) \<Longrightarrow> P ls rs \<langle>l, a, \<langle>rl, b, rr\<rangle>\<rangle>"
    and zgr: "\<And>ls rs l a rl b rr. 0 < c a \<Longrightarrow> \<not> 0 < c b \<Longrightarrow> P (ls @ [(a, l)]) rs \<langle>rl, b, rr\<rangle> \<Longrightarrow> P ls rs \<langle>l, a, \<langle>rl, b, rr\<rangle>\<rangle>"
  shows "P ls rs t"
  using assms(1)
proof (induction "size t" arbitrary: ls rs t rule: less_induct)
  case less
  then obtain l a r where t: "t = \<langle>l, a, r\<rangle>" by (cases t) auto
  consider (below) ll b lr where "c a < 0" "l = \<langle>ll, b, lr\<rangle>" | (above) rl b rr where "0 < c a" "r = \<langle>rl, b, rr\<rangle>"
    | (here) "c a < 0 \<longrightarrow> l = \<langle>\<rangle>" "0 < c a \<longrightarrow> r = \<langle>\<rangle>" by (metis tree.exhaust)
  then show ?case
  proof cases
    case below
    then show ?thesis using less(1) t zzl zgl by (cases "c b < 0") auto
  next
    case above
    then show ?thesis using less(1) t zzr zgr by (cases "0 < c b") auto
  next
    case here
    then show ?thesis using t stop by simp
  qed
qed

text \<open>Hanging a tree below the end of a spine.\<close>

definition hang_right :: "spine \<Rightarrow> nat tree \<Rightarrow> nat tree" where
  "hang_right xs t = foldr (\<lambda>(a, l) r. \<langle>l, a, r\<rangle>) xs t"

definition hang_left :: "spine \<Rightarrow> nat tree \<Rightarrow> nat tree" where
  "hang_left xs t = foldr (\<lambda>(a, r) l. \<langle>l, a, r\<rangle>) xs t"

fun assembled :: "spine \<times> spine \<times> nat tree \<Rightarrow> nat tree" where
  "assembled (ls, rs, \<langle>\<rangle>) = \<langle>\<rangle>"
| "assembled (ls, rs, \<langle>l, a, r\<rangle>) = \<langle>hang_right ls l, a, hang_left rs r\<rangle>"

definition splayed :: "(nat \<Rightarrow> int) \<Rightarrow> nat tree \<Rightarrow> nat tree" where
  "splayed c t = assembled (topdown c [] [] t)"

section \<open>The pointer code computes the top-down splay\<close>

definition unchanged :: "nat set \<Rightarrow> splay \<Rightarrow> splay \<Rightarrow> bool" where
  "unchanged A m m' \<longleftrightarrow> (\<forall>x. x \<notin> A \<longrightarrow> spe_left m' (Elm x) = spe_left m (Elm x) \<and> spe_right m' (Elm x) = spe_right m (Elm x))"

lemma unchanged_trans: "unchanged A m m1 \<Longrightarrow> unchanged A m1 m2 \<Longrightarrow> unchanged A m m2"
  by (simp add: unchanged_def)

lemma unchanged_tree:
  "unchanged A m m' \<Longrightarrow> set_tree t \<inter> A = {} \<Longrightarrow> tree_at (spe_left m') (spe_right m') p t = tree_at (spe_left m) (spe_right m) p t"
  by (induction t arbitrary: p) (auto simp: unchanged_def)

text \<open>The state inside the loop: the middle tree, the two spines, and all their nodes.\<close>

definition splay_rep :: "nat set \<Rightarrow> splay \<Rightarrow> spine \<Rightarrow> spine \<Rightarrow> nat tree \<Rightarrow> adr \<Rightarrow> adr \<Rightarrow> bool" where
  "splay_rep A m ls rs t lp rp \<longleftrightarrow>
     tree_at (spe_left m) (spe_right m) (sph_root m) t \<and>
     rspine (spe_left m) (spe_right m) Local ls lp \<and> lspine (spe_left m) (spe_right m) Local rs rp \<and>
     distinct (spine_nodes ls @ inorder t @ spine_nodes rs) \<and> A = set (spine_nodes ls @ inorder t @ spine_nodes rs)"

lemmas field_set_defs = SPLAY_LEFT_set_def SPLAY_RIGHT_set_def set_root_def

lemma rotate_right_rep:
  assumes "splay_rep A m ls rs \<langle>\<langle>ll, b, lr\<rangle>, a, r\<rangle> lp rp"
  shows "\<exists>m1. SPLAY_ROTATE_RIGHT b m = Inr m1 \<and> splay_rep A m1 ls rs \<langle>ll, b, \<langle>lr, a, r\<rangle>\<rangle> lp rp \<and> unchanged A m m1"
  using assms by (auto simp: splay_rep_def SPLAY_ROTATE_RIGHT_def field_set_defs unchanged_def)

lemma rotate_left_rep:
  assumes "splay_rep A m ls rs \<langle>l, a, \<langle>rl, b, rr\<rangle>\<rangle> lp rp"
  shows "\<exists>m1. SPLAY_ROTATE_LEFT b m = Inr m1 \<and> splay_rep A m1 ls rs \<langle>\<langle>l, a, rl\<rangle>, b, rr\<rangle> lp rp \<and> unchanged A m m1"
  using assms by (auto simp: splay_rep_def SPLAY_ROTATE_LEFT_def field_set_defs unchanged_def)

text \<open>The ends of the spines, and the trees they do not touch.\<close>

lemma splay_rep_ends:
  assumes "splay_rep A m ls rs t lp rp"
  shows "lp = Local \<or> (\<exists>a \<in> set (spine_nodes ls). lp = Elm a)" "rp = Local \<or> (\<exists>a \<in> set (spine_nodes rs). rp = Elm a)"
  using assms spine_end [of "spe_left m" "spe_right m" Local] by (auto simp: splay_rep_def)

lemma link_left_rep:
  assumes "splay_rep A m ls rs \<langle>l, a, r\<rangle> lp rp"
  shows "\<exists>m1. SPLAY_LINKLEFT rp m = Inr (Elm a, m1) \<and> splay_rep A m1 ls (rs @ [(a, r)]) l lp (Elm a) \<and> unchanged A m m1"
proof -
  let ?L = "(spe_left m)(rp := Some a)" and ?R = "spe_right m"
  have d: "distinct (spine_nodes rs)" "set_tree l \<inter> set (spine_nodes rs) = {}" "set_tree r \<inter> set (spine_nodes rs) = {}"
    "set (spine_nodes ls) \<inter> set (spine_nodes rs) = {}" "a \<notin> set (spine_nodes rs)" using assms by (auto simp: splay_rep_def)
  note e = splay_rep_ends(2) [OF assms]
  have "rp \<noteq> Elm a" using e d(5) by auto
  moreover have "tree_at ?L ?R p l = tree_at (spe_left m) ?R p l" "tree_at ?L ?R p r = tree_at (spe_left m) ?R p r" for p
    using tree_at_set_end(1) [OF e] d(2,3) by auto
  moreover have "rspine ?L ?R Local ls lp" using spine_set_other(1) [OF e d(4)] assms by (simp add: splay_rep_def)
  moreover have "lspine ?L ?R Local rs rp" using assms d(1) by (intro lspine_set_end) (simp_all add: splay_rep_def)
  moreover have "unchanged A m (m\<lparr>spe_left := ?L, sph_root := spe_left m (Elm a)\<rparr>)"
    using e assms by (auto simp: unchanged_def splay_rep_def)
  ultimately show ?thesis
    using assms by (auto simp: splay_rep_def SPLAY_LINKLEFT_def field_set_defs lspine_snoc)
qed

lemma link_right_rep:
  assumes "splay_rep A m ls rs \<langle>l, a, r\<rangle> lp rp"
  shows "\<exists>m1. SPLAY_LINKRIGHT lp m = Inr (Elm a, m1) \<and> splay_rep A m1 (ls @ [(a, l)]) rs r (Elm a) rp \<and> unchanged A m m1"
proof -
  let ?R = "(spe_right m)(lp := Some a)" and ?L = "spe_left m"
  have d: "distinct (spine_nodes ls)" "set_tree l \<inter> set (spine_nodes ls) = {}" "set_tree r \<inter> set (spine_nodes ls) = {}"
    "set (spine_nodes rs) \<inter> set (spine_nodes ls) = {}" "a \<notin> set (spine_nodes ls)" using assms by (auto simp: splay_rep_def)
  note e = splay_rep_ends(1) [OF assms]
  have "lp \<noteq> Elm a" using e d(5) by auto
  moreover have "tree_at ?L ?R p l = tree_at ?L (spe_right m) p l" "tree_at ?L ?R p r = tree_at ?L (spe_right m) p r" for p
    using tree_at_set_end(2) [OF e] d(2,3) by auto
  moreover have "lspine ?L ?R Local rs rp" using spine_set_other(2) [OF e d(4)] assms by (simp add: splay_rep_def)
  moreover have "rspine ?L ?R Local ls lp" using assms d(1) by (intro rspine_set_end) (simp_all add: splay_rep_def)
  moreover have "unchanged A m (m\<lparr>spe_right := ?R, sph_root := spe_right m (Elm a)\<rparr>)"
    using e assms by (auto simp: unchanged_def splay_rep_def)
  ultimately show ?thesis
    using assms by (auto simp: splay_rep_def SPLAY_LINKRIGHT_def field_set_defs rspine_snoc)
qed

text \<open>Putting the pieces together.\<close>

lemma hang_simps [simp]:
  "hang_right [] t = t" "hang_right ((a, l) # xs) t = \<langle>l, a, hang_right xs t\<rangle>"
  "hang_left [] t = t" "hang_left ((a, r) # xs) t = \<langle>hang_left xs t, a, r\<rangle>"
  by (simp_all add: hang_right_def hang_left_def)

lemma set_hang [simp]:
  "set_tree (hang_right xs t) = set (spine_nodes xs) \<union> set_tree t"
  "set_tree (hang_left xs t) = set (spine_nodes xs) \<union> set_tree t"
  by (induction xs) auto

lemma spine_hang:
  "rspine L R c xs e \<Longrightarrow> tree_at L R (R e) t \<Longrightarrow> tree_at L R (R c) (hang_right xs t)"
  "lspine L R c xs e \<Longrightarrow> tree_at L R (L e) t \<Longrightarrow> tree_at L R (L c) (hang_left xs t)"
  by (induction xs arbitrary: c) auto

lemma assemble_rep:
  assumes "splay_rep A m ls rs \<langle>l, a, r\<rangle> lp rp"
  shows "\<exists>m1. SPLAY_ASSEMBLE Local lp rp m = Inr m1 \<and>
    tree_at (spe_left m1) (spe_right m1) (sph_root m1) \<langle>hang_right ls l, a, hang_left rs r\<rangle> \<and> unchanged A m m1"
proof -
  let ?L = "(spe_left m)(rp := spe_right m (Elm a))" and ?R = "(spe_right m)(lp := spe_left m (Elm a))"
  have d: "distinct (spine_nodes ls)" "distinct (spine_nodes rs)" "set_tree l \<inter> set (spine_nodes rs) = {}" "set_tree r \<inter> set (spine_nodes rs) = {}"
    "set_tree l \<inter> set (spine_nodes ls) = {}" "set_tree r \<inter> set (spine_nodes ls) = {}"
    "set (spine_nodes ls) \<inter> set (spine_nodes rs) = {}" "set (spine_nodes rs) \<inter> set (spine_nodes ls) = {}"
    "a \<notin> set (spine_nodes rs)" "a \<notin> set (spine_nodes ls)" "a \<notin> set_tree l" "a \<notin> set_tree r"
    using assms by (auto simp: splay_rep_def)
  note el = splay_rep_ends(1) [OF assms] and er = splay_rep_ends(2) [OF assms]
  have ne: "rp \<noteq> Elm a" "lp \<noteq> Elm a" using el er d(9,10) by auto
  have "rspine ?L ?R Local ls lp"
    using assms d(1) spine_set_other(1) [OF er d(7)] by (intro rspine_set_end) (simp_all add: splay_rep_def)
  moreover have "tree_at ?L ?R (?R lp) l"
    using assms tree_at_set_end(2) [OF el d(5)] tree_at_set_end(1) [OF er d(3)] by (simp add: splay_rep_def)
  ultimately have l: "tree_at ?L ?R (?R Local) (hang_right ls l)" by (rule spine_hang(1))
  have "lspine ?L ?R Local rs rp"
    using assms d(2) spine_set_other(2) [OF el d(8)] by (intro lspine_set_end) (simp_all add: splay_rep_def)
  moreover have "tree_at ?L ?R (?L rp) r"
    using assms tree_at_set_end(2) [OF el d(6)] tree_at_set_end(1) [OF er d(4)] by (simp add: splay_rep_def)
  ultimately have r: "tree_at ?L ?R (?L Local) (hang_left rs r)" by (rule spine_hang(2))
  let ?m = "m\<lparr>spe_left := ?L(Elm a := ?R Local), spe_right := ?R(Elm a := ?L Local)\<rparr>"
  have "SPLAY_ASSEMBLE Local lp rp m = Inr ?m"
    using assms ne by (auto simp: SPLAY_ASSEMBLE_def field_set_defs splay_rep_def)
  moreover have "unchanged A m ?m" using el er assms by (auto simp: unchanged_def splay_rep_def)
  moreover have "tree_at (spe_left ?m) (spe_right ?m) (?R Local) (hang_right ls l)" "tree_at (spe_left ?m) (spe_right ?m) (?L Local) (hang_left rs r)"
    using l r d(9-12) by (simp_all del: fun_upd_apply)
  ultimately show ?thesis using assms by (auto simp: splay_rep_def)
qed

text \<open>The loop of \<open>SPLAY\<close> does what \<open>topdown\<close> does.\<close>

lemma splay_rep_fields:
  "splay_rep A m ls rs \<langle>l, a, r\<rangle> lp rp \<Longrightarrow> sph_root m = Some a"
  "splay_rep A m ls rs \<langle>\<langle>\<rangle>, a, r\<rangle> lp rp \<Longrightarrow> spe_left m (Elm a) = None"
  "splay_rep A m ls rs \<langle>l, a, \<langle>\<rangle>\<rangle> lp rp \<Longrightarrow> spe_right m (Elm a) = None"
  "splay_rep A m ls rs \<langle>\<langle>ll, b, lr\<rangle>, a, r\<rangle> lp rp \<Longrightarrow> spe_left m (Elm a) = Some b"
  "splay_rep A m ls rs \<langle>l, a, \<langle>rl, b, rr\<rangle>\<rangle> lp rp \<Longrightarrow> spe_right m (Elm a) = Some b"
  by (auto simp: splay_rep_def)

lemma tree_at_null: "tree_at L R p t \<Longrightarrow> p = None \<longleftrightarrow> t = \<langle>\<rangle>"
  by (cases t) auto

lemma splay_rep_null: "splay_rep A m ls rs \<langle>l, a, r\<rangle> lp rp \<Longrightarrow> spe_left m (Elm a) = None \<longleftrightarrow> l = \<langle>\<rangle>"
  "splay_rep A m ls rs \<langle>l, a, r\<rangle> lp rp \<Longrightarrow> spe_right m (Elm a) = None \<longleftrightarrow> r = \<langle>\<rangle>"
  using tree_at_null by (auto simp: splay_rep_def)

definition splay_done :: "nat set \<Rightarrow> splay \<Rightarrow> spine \<times> spine \<times> nat tree \<Rightarrow> (adr \<times> adr \<times> splay) tres \<Rightarrow> bool" where
  "splay_done A m p r \<longleftrightarrow>
     (\<exists>lp rp m1. r = Some (Inr (lp, rp, m1)) \<and> splay_rep A m1 (fst p) (fst (snd p)) (snd (snd p)) lp rp \<and> snd (snd p) \<noteq> \<langle>\<rangle> \<and> unchanged A m m1)"

lemma splay_done_trans: "unchanged A m m1 \<Longrightarrow> splay_done A m1 p r \<Longrightarrow> splay_done A m p r"
  unfolding splay_done_def using unchanged_trans by blast

text \<open>One round of the loop: a rotation and a link, or a link alone.\<close>

lemma loop_zig_zig_left:
  assumes "splay_rep A m ls rs \<langle>\<langle>ll, b, lr\<rangle>, a, r\<rangle> lp rp" and "cmp elm a < 0" and "cmp elm b < 0"
  shows "\<exists>m1. splay_loop cmp elm lp rp m = (if ll = \<langle>\<rangle> then Some (Inr (lp, rp, m1)) else splay_loop cmp elm lp (Elm b) m1) \<and>
    (if ll = \<langle>\<rangle> then splay_rep A m1 ls rs \<langle>ll, b, \<langle>lr, a, r\<rangle>\<rangle> lp rp else splay_rep A m1 ls (rs @ [(b, \<langle>lr, a, r\<rangle>)]) ll lp (Elm b)) \<and>
    unchanged A m m1"
proof -
  obtain m1 where m1: "SPLAY_ROTATE_RIGHT b m = Inr m1" "splay_rep A m1 ls rs \<langle>ll, b, \<langle>lr, a, r\<rangle>\<rangle> lp rp" "unchanged A m m1"
    using rotate_right_rep [OF assms(1)] by blast
  obtain m2 where m2: "SPLAY_LINKLEFT rp m1 = Inr (Elm b, m2)" "splay_rep A m2 ls (rs @ [(b, \<langle>lr, a, r\<rangle>)]) ll lp (Elm b)" "unchanged A m1 m2"
    using link_left_rep [OF m1(2)] by blast
  have "splay_loop cmp elm lp rp m = (if ll = \<langle>\<rangle> then Some (Inr (lp, rp, m1)) else splay_loop cmp elm lp (Elm b) m2)"
    using assms(2,3) m1(1) m2(1) splay_rep_fields(1,4) [OF assms(1)] splay_rep_fields(1) [OF m1(2)] splay_rep_null(1) [OF m1(2)]
    by (subst splay_loop.simps) auto
  then show ?thesis using m1(2,3) m2(2) unchanged_trans [OF m1(3) m2(3)] by (cases "ll = \<langle>\<rangle>") auto
qed

lemma loop_zig_zig_right:
  assumes "splay_rep A m ls rs \<langle>l, a, \<langle>rl, b, rr\<rangle>\<rangle> lp rp" and "cmp elm a > 0" and "cmp elm b > 0"
  shows "\<exists>m1. splay_loop cmp elm lp rp m = (if rr = \<langle>\<rangle> then Some (Inr (lp, rp, m1)) else splay_loop cmp elm (Elm b) rp m1) \<and>
    (if rr = \<langle>\<rangle> then splay_rep A m1 ls rs \<langle>\<langle>l, a, rl\<rangle>, b, rr\<rangle> lp rp else splay_rep A m1 (ls @ [(b, \<langle>l, a, rl\<rangle>)]) rs rr (Elm b) rp) \<and>
    unchanged A m m1"
proof -
  obtain m1 where m1: "SPLAY_ROTATE_LEFT b m = Inr m1" "splay_rep A m1 ls rs \<langle>\<langle>l, a, rl\<rangle>, b, rr\<rangle> lp rp" "unchanged A m m1"
    using rotate_left_rep [OF assms(1)] by blast
  obtain m2 where m2: "SPLAY_LINKRIGHT lp m1 = Inr (Elm b, m2)" "splay_rep A m2 (ls @ [(b, \<langle>l, a, rl\<rangle>)]) rs rr (Elm b) rp" "unchanged A m1 m2"
    using link_right_rep [OF m1(2)] by blast
  have "splay_loop cmp elm lp rp m = (if rr = \<langle>\<rangle> then Some (Inr (lp, rp, m1)) else splay_loop cmp elm (Elm b) rp m2)"
    using assms(2,3) m1(1) m2(1) splay_rep_fields(1,5) [OF assms(1)] splay_rep_fields(1) [OF m1(2)] splay_rep_null(2) [OF m1(2)]
    by (subst splay_loop.simps) auto
  then show ?thesis using m1(2,3) m2(2) unchanged_trans [OF m1(3) m2(3)] by (cases "rr = \<langle>\<rangle>") auto
qed

lemma loop_zig_zag_left:
  assumes "splay_rep A m ls rs \<langle>\<langle>ll, b, lr\<rangle>, a, r\<rangle> lp rp" and "cmp elm a < 0" and "\<not> cmp elm b < 0"
  shows "\<exists>m1. splay_loop cmp elm lp rp m = splay_loop cmp elm lp (Elm a) m1 \<and>
    splay_rep A m1 ls (rs @ [(a, r)]) \<langle>ll, b, lr\<rangle> lp (Elm a) \<and> unchanged A m m1"
  using link_left_rep [OF assms(1)] assms(2,3) splay_rep_fields(1,4) [OF assms(1)] by (subst splay_loop.simps) auto

lemma loop_zig_zag_right:
  assumes "splay_rep A m ls rs \<langle>l, a, \<langle>rl, b, rr\<rangle>\<rangle> lp rp" and "cmp elm a > 0" and "\<not> cmp elm b > 0"
  shows "\<exists>m1. splay_loop cmp elm lp rp m = splay_loop cmp elm (Elm a) rp m1 \<and>
    splay_rep A m1 (ls @ [(a, l)]) rs \<langle>rl, b, rr\<rangle> (Elm a) rp \<and> unchanged A m m1"
  using link_right_rep [OF assms(1)] assms(2,3) splay_rep_fields(1,5) [OF assms(1)] by (subst splay_loop.simps) auto

lemma splay_loop_stops:
  assumes "splay_rep A m ls rs \<langle>l, a, r\<rangle> lp rp" and "cmp elm a < 0 \<longrightarrow> l = \<langle>\<rangle>" and "cmp elm a > 0 \<longrightarrow> r = \<langle>\<rangle>"
  shows "splay_done A m (ls, rs, \<langle>l, a, r\<rangle>) (splay_loop cmp elm lp rp m)"
  using assms splay_rep_null [OF assms(1)] splay_rep_fields(1) [OF assms(1)]
  by (subst splay_loop.simps) (auto simp: splay_done_def unchanged_def)

lemma splay_loop_topdown:
  "t \<noteq> \<langle>\<rangle> \<Longrightarrow> splay_rep A m ls rs t lp rp \<Longrightarrow> splay_done A m (topdown (cmp elm) ls rs t) (splay_loop cmp elm lp rp m)"
proof (induction t arbitrary: m lp rp rule: topdown_induct [where c = "cmp elm"])
  case (stop ls rs l a r)
  then show ?case using splay_loop_stops [of A m ls rs l a r lp rp cmp elm] by (simp add: topdown_stop)
next
  case (zig_zig_left ls rs ll b lr a r)
  obtain m1 where m1: "splay_loop cmp elm lp rp m = (if ll = \<langle>\<rangle> then Some (Inr (lp, rp, m1)) else splay_loop cmp elm lp (Elm b) m1)"
    "if ll = \<langle>\<rangle> then splay_rep A m1 ls rs \<langle>ll, b, \<langle>lr, a, r\<rangle>\<rangle> lp rp else splay_rep A m1 ls (rs @ [(b, \<langle>lr, a, r\<rangle>)]) ll lp (Elm b)"
    "unchanged A m m1" using loop_zig_zig_left [of A m ls rs ll b lr a r lp rp cmp elm] zig_zig_left.prems zig_zig_left.hyps by blast
  then show ?case
    using zig_zig_left.IH zig_zig_left.hyps splay_done_trans [OF m1(3)] by (cases "ll = \<langle>\<rangle>") (auto simp: splay_done_def topdown_zig_zig)
next
  case (zig_zag_left ls rs ll b lr a r)
  obtain m1 where m1: "splay_loop cmp elm lp rp m = splay_loop cmp elm lp (Elm a) m1"
    "splay_rep A m1 ls (rs @ [(a, r)]) \<langle>ll, b, lr\<rangle> lp (Elm a)" "unchanged A m m1"
    using loop_zig_zag_left [of A m ls rs ll b lr a r lp rp cmp elm] zig_zag_left.prems zig_zag_left.hyps by blast
  from splay_done_trans [OF m1(3) zig_zag_left.IH [OF m1(2)]] show ?case using zig_zag_left.hyps m1(1) by (simp add: topdown_zig_zag)
next
  case (zig_zig_right ls rs l a rl b rr)
  obtain m1 where m1: "splay_loop cmp elm lp rp m = (if rr = \<langle>\<rangle> then Some (Inr (lp, rp, m1)) else splay_loop cmp elm (Elm b) rp m1)"
    "if rr = \<langle>\<rangle> then splay_rep A m1 ls rs \<langle>\<langle>l, a, rl\<rangle>, b, rr\<rangle> lp rp else splay_rep A m1 (ls @ [(b, \<langle>l, a, rl\<rangle>)]) rs rr (Elm b) rp"
    "unchanged A m m1" using loop_zig_zig_right [of A m ls rs l a rl b rr lp rp cmp elm] zig_zig_right.prems zig_zig_right.hyps by blast
  then show ?case
    using zig_zig_right.IH zig_zig_right.hyps splay_done_trans [OF m1(3)] by (cases "rr = \<langle>\<rangle>") (auto simp: splay_done_def topdown_zig_zig)
next
  case (zig_zag_right ls rs l a rl b rr)
  obtain m1 where m1: "splay_loop cmp elm lp rp m = splay_loop cmp elm (Elm a) rp m1"
    "splay_rep A m1 (ls @ [(a, l)]) rs \<langle>rl, b, rr\<rangle> (Elm a) rp" "unchanged A m m1"
    using loop_zig_zag_right [of A m ls rs l a rl b rr lp rp cmp elm] zig_zag_right.prems zig_zag_right.hyps by blast
  from splay_done_trans [OF m1(3) zig_zag_right.IH [OF m1(2)]] show ?case using zig_zag_right.hyps m1(1) by (simp add: topdown_zig_zag)
qed

section \<open>Contents and order\<close>

definition seq_below :: "spine \<Rightarrow> nat list" where
  "seq_below ls = concat (map (\<lambda>(a, l). inorder l @ [a]) ls)"

definition seq_above :: "spine \<Rightarrow> nat list" where
  "seq_above rs = concat (map (\<lambda>(a, r). a # inorder r) (rev rs))"

lemma seq_simps [simp]:
  "seq_below [] = []" "seq_below (xs @ ys) = seq_below xs @ seq_below ys" "seq_below [(a, l)] = inorder l @ [a]"
  "seq_above [] = []" "seq_above (xs @ ys) = seq_above ys @ seq_above xs" "seq_above [(a, r)] = a # inorder r"
  by (simp_all add: seq_below_def seq_above_def)

lemma inorder_hang:
  "inorder (hang_right xs t) = seq_below xs @ inorder t"
  "inorder (hang_left xs t) = inorder t @ seq_above xs"
  by (induction xs) (auto simp: seq_below_def seq_above_def)

fun splay_seq :: "spine \<times> spine \<times> nat tree \<Rightarrow> nat list" where
  "splay_seq (ls, rs, t) = seq_below ls @ inorder t @ seq_above rs"

lemma topdown_seq: "t \<noteq> \<langle>\<rangle> \<Longrightarrow> splay_seq (topdown c ls rs t) = seq_below ls @ inorder t @ seq_above rs"
  by (induction t rule: topdown_induct [where c = c]) (auto simp: topdown_rounds)

lemma topdown_nonempty: "t \<noteq> \<langle>\<rangle> \<Longrightarrow> snd (snd (topdown c ls rs t)) \<noteq> \<langle>\<rangle>"
  by (induction t rule: topdown_induct [where c = c]) (auto simp: topdown_rounds)

lemma inorder_splayed: "inorder (splayed c t) = inorder t"
proof (cases "t = \<langle>\<rangle>")
  case False
  obtain ls rs l a r where "topdown c [] [] t = (ls, rs, \<langle>l, a, r\<rangle>)"
    using topdown_nonempty [OF False, of c "[]" "[]"] by (metis prod.collapse tree.exhaust)
  then show ?thesis using topdown_seq [OF False, of c "[]" "[]"] by (simp add: splayed_def inorder_hang)
qed (simp add: splayed_def)

text \<open>
  The sign of the comparison along the sequence: positive before the place of the key, negative after
  it. A constant sign, as \<open>SPLAY_MINMAX\<close> uses it, is a special case.
\<close>

definition signed_seq :: "(nat \<Rightarrow> int) \<Rightarrow> nat list \<Rightarrow> bool" where
  "signed_seq c xs \<longleftrightarrow> sorted_wrt (\<lambda>x y. (c x < 0 \<longrightarrow> c y < 0) \<and> (0 < c y \<longrightarrow> 0 < c x)) xs"

lemma signed_seq_simps [simp]:
  "signed_seq c []"
  "signed_seq c (x # xs) \<longleftrightarrow> (\<forall>y \<in> set xs. (c x < 0 \<longrightarrow> c y < 0) \<and> (0 < c y \<longrightarrow> 0 < c x)) \<and> signed_seq c xs"
  "signed_seq c (xs @ ys) \<longleftrightarrow> signed_seq c xs \<and> signed_seq c ys \<and> (\<forall>x \<in> set xs. \<forall>y \<in> set ys. (c x < 0 \<longrightarrow> c y < 0) \<and> (0 < c y \<longrightarrow> 0 < c x))"
  by (auto simp: signed_seq_def sorted_wrt_append)

text \<open>The spines hold only elements before and after the place of the key, and the splay ends at that place.\<close>

lemma topdown_split:
  assumes "t \<noteq> \<langle>\<rangle>" and "signed_seq c (inorder t)" and "\<forall>x \<in> set (spine_nodes ls). 0 < c x" and "\<forall>x \<in> set (spine_nodes rs). c x < 0"
  shows "\<exists>ls' rs' l a r. topdown c ls rs t = (ls', rs', \<langle>l, a, r\<rangle>) \<and> (\<forall>x \<in> set (spine_nodes ls'). 0 < c x) \<and>
    (\<forall>x \<in> set (spine_nodes rs'). c x < 0) \<and> (c a < 0 \<longrightarrow> l = \<langle>\<rangle>) \<and> (0 < c a \<longrightarrow> r = \<langle>\<rangle>)"
  using assms
proof (induction t rule: topdown_induct [where c = c])
  case (stop ls rs l a r)
  show ?case using topdown_stop [where c = c, OF stop.hyps] stop.hyps stop.prems(2,3) by simp
next
  case (zig_zig_left ls rs ll b lr a r)
  then have sg: "\<forall>x \<in> set (spine_nodes (rs @ [(b, \<langle>lr, a, r\<rangle>)])). c x < 0" "signed_seq c (inorder ll)" by auto
  show ?case
    using zig_zig_left.IH [OF _ sg(2) zig_zig_left.prems(2) sg(1)] zig_zig_left.hyps zig_zig_left.prems(2,3)
    by (cases "ll = \<langle>\<rangle>") (auto simp: topdown_zig_zig)
next
  case (zig_zag_left ls rs ll b lr a r)
  then have sg: "\<forall>x \<in> set (spine_nodes (rs @ [(a, r)])). c x < 0" "signed_seq c (inorder \<langle>ll, b, lr\<rangle>)" by auto
  show ?case
    using zig_zag_left.IH [OF sg(2) zig_zag_left.prems(2) sg(1)] zig_zag_left.hyps by (simp add: topdown_zig_zag)
next
  case (zig_zig_right ls rs l a rl b rr)
  then have sg: "\<forall>x \<in> set (spine_nodes (ls @ [(b, \<langle>l, a, rl\<rangle>)])). 0 < c x" "signed_seq c (inorder rr)" by auto
  show ?case
    using zig_zig_right.IH [OF _ sg(2,1) zig_zig_right.prems(3)] zig_zig_right.hyps zig_zig_right.prems(2,3)
    by (cases "rr = \<langle>\<rangle>") (auto simp: topdown_zig_zig)
next
  case (zig_zag_right ls rs l a rl b rr)
  then have sg: "\<forall>x \<in> set (spine_nodes (ls @ [(a, l)])). 0 < c x" "signed_seq c (inorder \<langle>rl, b, rr\<rangle>)" by auto
  show ?case
    using zig_zag_right.IH [OF sg(2,1) zig_zag_right.prems(3)] zig_zag_right.hyps by (simp add: topdown_zig_zag)
qed

lemma splayed_root:
  assumes "t \<noteq> \<langle>\<rangle>" and "signed_seq c (inorder t)"
  shows "\<exists>l a r. splayed c t = \<langle>l, a, r\<rangle> \<and> inorder t = inorder l @ a # inorder r \<and>
    (c a < 0 \<longrightarrow> (\<forall>x \<in> set_tree l. 0 < c x)) \<and> (0 < c a \<longrightarrow> (\<forall>x \<in> set_tree r. c x < 0))"
proof -
  obtain ls rs l a r where "topdown c [] [] t = (ls, rs, \<langle>l, a, r\<rangle>)" "\<forall>x \<in> set (spine_nodes ls). 0 < c x" "\<forall>x \<in> set (spine_nodes rs). c x < 0"
    "c a < 0 \<longrightarrow> l = \<langle>\<rangle>" "0 < c a \<longrightarrow> r = \<langle>\<rangle>" using topdown_split [OF assms, of "[]" "[]"] by auto
  then show ?thesis using inorder_splayed [of c t] by (simp add: splayed_def)
qed

section \<open>Laws of the operations\<close>

abbreviation tree_of :: "splay \<Rightarrow> nat tree \<Rightarrow> bool" where
  "tree_of m t \<equiv> tree_at (spe_left m) (spe_right m) (sph_root m) t"

text \<open>\<open>SPLAY\<close> on any tree: it ends, splays the tree, and touches no element outside it.\<close>

lemma clear_local_simps [simp]:
  "sph_root (clear_local m) = sph_root m"
  "tree_at (spe_left (clear_local m)) (spe_right (clear_local m)) p t = tree_at (spe_left m) (spe_right m) p t"
  by (simp_all add: clear_local_def field_set_defs)

lemma assemble_done:
  assumes "splay_done (set_tree t) (clear_local m) (topdown c [] [] t) r"
  shows "\<exists>m1. assemble r = Some (Inr m1) \<and> tree_of m1 (splayed c t) \<and> unchanged (set_tree t) m m1"
proof -
  obtain ls rs u where p: "topdown c [] [] t = (ls, rs, u)" using prod_cases3 by blast
  have "\<exists>lp rp m1. r = Some (Inr (lp, rp, m1)) \<and> splay_rep (set_tree t) m1 ls rs u lp rp \<and> u \<noteq> \<langle>\<rangle> \<and> unchanged (set_tree t) (clear_local m) m1"
    using assms by (simp add: splay_done_def p)
  then obtain lp rp m1 where r: "r = Some (Inr (lp, rp, m1))" "splay_rep (set_tree t) m1 ls rs u lp rp" "u \<noteq> \<langle>\<rangle>"
    "unchanged (set_tree t) (clear_local m) m1" by blast
  obtain l a r' where u: "u = \<langle>l, a, r'\<rangle>" using r(3) by (cases u) auto
  note * = r(1) p [unfolded u] r(2) [unfolded u] r(4)
  obtain m2 where m2: "SPLAY_ASSEMBLE Local lp rp m1 = Inr m2" "tree_of m2 \<langle>hang_right ls l, a, hang_left rs r'\<rangle>" "unchanged (set_tree t) m1 m2"
    using assemble_rep [OF *(3)] by blast
  have "unchanged (set_tree t) m (clear_local m)" by (simp add: unchanged_def clear_local_def field_set_defs)
  then have "unchanged (set_tree t) m m2" using *(4) m2(3) unchanged_trans by blast
  then show ?thesis using *(1,2) m2(1,2) by (simp add: assemble_def splayed_def)
qed

lemma initial_rep: "tree_of m t \<Longrightarrow> distinct (inorder t) \<Longrightarrow> splay_rep (set_tree t) (clear_local m) [] [] t Local Local"
  by (simp add: splay_rep_def)

lemma SPLAY_tree:
  assumes "tree_of m t" and "distinct (inorder t)" and "t \<noteq> \<langle>\<rangle>"
  shows "\<exists>m1. SPLAY cmp m elm = Some (Inr m1) \<and> tree_of m1 (splayed (cmp elm) t) \<and> unchanged (set_tree t) m m1"
  unfolding SPLAY_def using assemble_done [OF splay_loop_topdown [OF assms(3) initial_rep [OF assms(1,2)]]] .

text \<open>\<open>SPLAY_MINMAX\<close> is \<open>SPLAY\<close> with a constant comparison.\<close>

lemma minmax_loop_eq:
  "t \<noteq> \<langle>\<rangle> \<Longrightarrow> splay_rep A m ls rs t lp rp \<Longrightarrow> cv \<noteq> 0 \<Longrightarrow> minmax_loop cv lp rp m = splay_loop (\<lambda>_ _. cv) elm lp rp m"
proof (induction t arbitrary: m lp rp rule: topdown_induct [where c = "\<lambda>_. cv"])
  case (stop ls rs l a r)
  then show ?case
    using splay_rep_null [OF stop.prems(1)] splay_rep_fields(1) [OF stop.prems(1)]
    by (subst minmax_loop.simps, subst splay_loop.simps) auto
next
  case (zig_zig_left ls rs ll b lr a r)
  obtain m1 where m1: "SPLAY_ROTATE_RIGHT b m = Inr m1" "splay_rep A m1 ls rs \<langle>ll, b, \<langle>lr, a, r\<rangle>\<rangle> lp rp"
    using rotate_right_rep [OF zig_zig_left.prems(1)] by blast
  obtain m2 where m2: "SPLAY_LINKLEFT rp m1 = Inr (Elm b, m2)" "splay_rep A m2 ls (rs @ [(b, \<langle>lr, a, r\<rangle>)]) ll lp (Elm b)"
    using link_left_rep [OF m1(2)] by blast
  show ?case
    using zig_zig_left.hyps zig_zig_left.IH [OF _ m2(2) zig_zig_left.prems(2)] m1(1) m2(1)
      splay_rep_fields(1,4) [OF zig_zig_left.prems(1)] splay_rep_fields(1) [OF m1(2)] splay_rep_null(1) [OF m1(2)]
    by (subst minmax_loop.simps, subst splay_loop.simps) auto
next
  case (zig_zig_right ls rs l a rl b rr)
  obtain m1 where m1: "SPLAY_ROTATE_LEFT b m = Inr m1" "splay_rep A m1 ls rs \<langle>\<langle>l, a, rl\<rangle>, b, rr\<rangle> lp rp"
    using rotate_left_rep [OF zig_zig_right.prems(1)] by blast
  obtain m2 where m2: "SPLAY_LINKRIGHT lp m1 = Inr (Elm b, m2)" "splay_rep A m2 (ls @ [(b, \<langle>l, a, rl\<rangle>)]) rs rr (Elm b) rp"
    using link_right_rep [OF m1(2)] by blast
  show ?case
    using zig_zig_right.hyps zig_zig_right.IH [OF _ m2(2) zig_zig_right.prems(2)] m1(1) m2(1)
      splay_rep_fields(1,5) [OF zig_zig_right.prems(1)] splay_rep_fields(1) [OF m1(2)] splay_rep_null(2) [OF m1(2)]
    by (subst minmax_loop.simps, subst splay_loop.simps) auto
qed simp_all

lemma SPLAY_MINMAX_tree:
  assumes "tree_of m t" and "distinct (inorder t)" and "t \<noteq> \<langle>\<rangle>" and "cv \<noteq> 0"
  shows "\<exists>m1. SPLAY_MINMAX m cv = Some (Inr m1) \<and> tree_of m1 (splayed (\<lambda>_. cv) t) \<and> unchanged (set_tree t) m m1"
proof -
  let ?r = "splay_loop (\<lambda>_ _. cv) 0 Local Local (clear_local m)"
  have d: "splay_done (set_tree t) (clear_local m) (topdown (\<lambda>_. cv) [] [] t) ?r"
    using splay_loop_topdown [OF assms(3) initial_rep [OF assms(1,2)], of "\<lambda>_ _. cv" 0] .
  have "?r = minmax_loop cv Local Local (clear_local m)"
    using minmax_loop_eq [OF assms(3) initial_rep [OF assms(1,2)] assms(4)] by simp
  then show ?thesis using assemble_done [OF d] by (simp add: SPLAY_MINMAX_def)
qed

text \<open>A set of elements in a splay tree.\<close>

definition splay_elems :: "(nat \<Rightarrow> 'k::linorder) \<Rightarrow> splay \<Rightarrow> nat list \<Rightarrow> bool" where
  "splay_elems key m xs \<longleftrightarrow> strictly_sorted key xs \<and> (\<exists>t. tree_of m t \<and> inorder t = xs)"

lemma splay_elems_empty: "splay_elems key m xs \<Longrightarrow> SPLAY_EMPTY m \<longleftrightarrow> xs = []"
  using tree_at_null by (fastforce simp: splay_elems_def SPLAY_EMPTY_def)

lemma signed_seq_cmp: "cmp_by key cmp \<Longrightarrow> strictly_sorted key xs \<Longrightarrow> signed_seq (cmp elm) xs"
  by (induction xs) (auto simp: cmp_byD)

text \<open>A splay brings the element with the key, or a neighbour of its place, to the root.\<close>

lemma SPLAY_law:
  assumes "cmp_by key cmp" and "splay_elems key m xs" and "xs \<noteq> []"
  shows "\<exists>m1 l a r. SPLAY cmp m elm = Some (Inr m1) \<and> tree_of m1 \<langle>l, a, r\<rangle> \<and> xs = inorder l @ a # inorder r \<and> unchanged (set xs) m m1 \<and>
    (key elm < key a \<longrightarrow> (\<forall>x \<in> set (inorder l). key x < key elm)) \<and> (key a < key elm \<longrightarrow> (\<forall>x \<in> set (inorder r). key elm < key x))"
proof -
  obtain t where t: "tree_of m t" "inorder t = xs" "strictly_sorted key xs" using assms(2) by (auto simp: splay_elems_def)
  then have ne: "t \<noteq> \<langle>\<rangle>" using assms(3) by auto
  obtain m1 where m1: "SPLAY cmp m elm = Some (Inr m1)" "tree_of m1 (splayed (cmp elm) t)" "unchanged (set xs) m m1"
    using SPLAY_tree [OF t(1) _ ne, of cmp elm] strictly_sorted_distinct [OF t(3)] t(2) by (metis set_inorder)
  obtain l a r where "splayed (cmp elm) t = \<langle>l, a, r\<rangle>" "xs = inorder l @ a # inorder r"
    "cmp elm a < 0 \<longrightarrow> (\<forall>x \<in> set_tree l. 0 < cmp elm x)" "0 < cmp elm a \<longrightarrow> (\<forall>x \<in> set_tree r. cmp elm x < 0)"
    using splayed_root [OF ne, of "cmp elm"] signed_seq_cmp [OF assms(1) t(3)] t(2) by auto
  with m1 show ?thesis unfolding cmp_byD [OF assms(1)] set_inorder by metis
qed

text \<open>What the root says about the searched key.\<close>

lemma find_at_root:
  assumes "strictly_sorted key (ls @ a # rs)" and "key elm < key a \<longrightarrow> (\<forall>x \<in> set ls. key x < key elm)" and "key a < key elm \<longrightarrow> (\<forall>x \<in> set rs. key elm < key x)"
  shows "find_key key elm (ls @ a # rs) = (if key elm = key a then Some a else None)"
    "key elm < key a \<Longrightarrow> insort_key key elm (ls @ a # rs) = ls @ elm # a # rs"
    "key a < key elm \<Longrightarrow> insort_key key elm (ls @ a # rs) = (ls @ [a]) @ elm # rs"
proof -
  have n: "\<forall>x \<in> set ls. key x < key a" "\<forall>x \<in> set rs. key a < key x" using assms(1) by simp_all
  show "find_key key elm (ls @ a # rs) = (if key elm = key a then Some a else None)"
  proof (cases "key elm = key a")
    case True
    then show ?thesis using find_key_Some [OF assms(1), of elm a] by simp
  next
    case False
    then show ?thesis using assms find_key_None [of key elm "ls @ a # rs"] by (auto simp: neq_iff) 
  qed
  show "key elm < key a \<Longrightarrow> insort_key key elm (ls @ a # rs) = ls @ elm # a # rs"
    using insort_key_split [of ls key elm "a # rs"] assms(2) n(2) less_trans [of "key elm" "key a"] by (metis append.assoc set_ConsD)
  show "key a < key elm \<Longrightarrow> insort_key key elm (ls @ a # rs) = (ls @ [a]) @ elm # rs"
    using insort_key_split [of "ls @ [a]" key elm rs] assms(3) n(1) less_trans [of _ "key a" "key elm"] by (metis append.assoc append_Cons append_Nil rotate1.simps(2) set_ConsD set_rotate1)
qed

lemma FIND_law:
  assumes "cmp_by key cmp" and "splay_elems key m xs"
  shows "\<exists>m1. SPLAY_FIND cmp m elm = Some (Inr (find_key key elm xs, m1)) \<and> splay_elems key m1 xs"
proof (cases "xs = []")
  case True
  then show ?thesis using assms splay_elems_empty [OF assms(2)] by (simp add: SPLAY_FIND_def find_key_def)
next
  case False
  have st: "strictly_sorted key xs" using assms(2) by (simp add: splay_elems_def)
  obtain m1 l a r where s: "SPLAY cmp m elm = Some (Inr m1)" "tree_of m1 \<langle>l, a, r\<rangle>" "xs = inorder l @ a # inorder r"
    "key elm < key a \<longrightarrow> (\<forall>x \<in> set (inorder l). key x < key elm)" "key a < key elm \<longrightarrow> (\<forall>x \<in> set (inorder r). key elm < key x)"
    using SPLAY_law [OF assms False, of elm] by blast
  have "find_key key elm xs = (if key elm = key a then Some a else None)"
    using find_at_root(1) [OF st [unfolded s(3)] s(4,5)] s(3) by simp
  moreover have "splay_elems key m1 xs" using st s(2,3) by (auto simp: splay_elems_def intro: exI [of _ "\<langle>l, a, r\<rangle>"])
  moreover have "\<not> SPLAY_EMPTY m" using splay_elems_empty [OF assms(2)] False by simp
  ultimately show ?thesis using s(1,2) cmp_byD(3) [OF assms(1)] by (simp add: SPLAY_FIND_def with_root_def)
qed

lemma INSERT_law:
  assumes "cmp_by key cmp" and "splay_elems key m xs" and "elm \<notin> set xs"
  shows "\<exists>m1. SPLAY_INSERT cmp m elm = Some (Inr (find_key key elm xs, m1)) \<and> splay_elems key m1 (insert_seq key elm xs)"
proof (cases "xs = []")
  case True
  then show ?thesis using assms splay_elems_empty [OF assms(2)]
    by (auto simp: SPLAY_INSERT_def find_key_def insert_seq_def splay_elems_def field_set_defs intro: exI [of _ "\<langle>\<langle>\<rangle>, elm, \<langle>\<rangle>\<rangle>"])
next
  case False
  have st: "strictly_sorted key xs" using assms(2) by (simp add: splay_elems_def)
  obtain m1 l a r where s: "SPLAY cmp m elm = Some (Inr m1)" "tree_of m1 \<langle>l, a, r\<rangle>" "xs = inorder l @ a # inorder r"
    "key elm < key a \<longrightarrow> (\<forall>x \<in> set (inorder l). key x < key elm)" "key a < key elm \<longrightarrow> (\<forall>x \<in> set (inorder r). key elm < key x)"
    using SPLAY_law [OF assms(1,2) False, of elm] by blast
  note f = find_at_root [OF st [unfolded s(3)] s(4,5)]
  have fk: "find_key key elm xs = (if key elm = key a then Some a else None)" using f(1) s(3) by simp
  have ne: "\<not> SPLAY_EMPTY m" using splay_elems_empty [OF assms(2)] False by simp
  have d: "a \<notin> set_tree l" "a \<notin> set_tree r" "elm \<noteq> a" "elm \<notin> set_tree l" "elm \<notin> set_tree r"
    using strictly_sorted_distinct [OF st] s(3) assms(3) by auto
  have sort: "strictly_sorted key (insert_seq key elm xs)" by (rule strictly_sorted_insert [OF st])
  consider (lt) "key elm < key a" | (gt) "key a < key elm" | (eq) "key elm = key a" by (rule linorder_cases)
  then show ?thesis
  proof cases
    case lt
    let ?m = "m1\<lparr>spe_left := (spe_left m1)(Elm elm := spe_left m1 (Elm a), Elm a := None), spe_right := (spe_right m1)(Elm elm := Some a), sph_root := Some elm\<rparr>"
    have "SPLAY_INSERT cmp m elm = Some (Inr (None, ?m))"
      using s(1,2) ne lt cmp_byD [OF assms(1)] by (simp add: SPLAY_INSERT_def with_root_def field_set_defs Let_def)
    moreover have "tree_of ?m \<langle>l, elm, \<langle>\<langle>\<rangle>, a, r\<rangle>\<rangle>" using s(2) d by simp
    moreover have "insert_seq key elm xs = inorder \<langle>l, elm, \<langle>\<langle>\<rangle>, a, r\<rangle>\<rangle>" using f(2) s(3) lt fk by (simp add: insert_seq_def)
    ultimately show ?thesis using sort fk lt unfolding splay_elems_def by (metis less_irrefl)
  next
    case gt
    let ?m = "m1\<lparr>spe_right := (spe_right m1)(Elm elm := spe_right m1 (Elm a), Elm a := None), spe_left := (spe_left m1)(Elm elm := Some a), sph_root := Some elm\<rparr>"
    have "SPLAY_INSERT cmp m elm = Some (Inr (None, ?m))"
      using s(1,2) ne gt cmp_byD [OF assms(1)] by (simp add: SPLAY_INSERT_def with_root_def field_set_defs Let_def)
    moreover have "tree_of ?m \<langle>\<langle>l, a, \<langle>\<rangle>\<rangle>, elm, r\<rangle>" using s(2) d by simp
    moreover have "insert_seq key elm xs = inorder \<langle>\<langle>l, a, \<langle>\<rangle>\<rangle>, elm, r\<rangle>" using f(3) s(3) gt fk by (simp add: insert_seq_def)
    ultimately show ?thesis using sort fk gt unfolding splay_elems_def by (metis less_irrefl)
  next
    case eq
    then have "SPLAY_INSERT cmp m elm = Some (Inr (Some a, m1))"
      using s(1,2) ne cmp_byD [OF assms(1)] by (simp add: SPLAY_INSERT_def with_root_def)
    moreover have "splay_elems key m1 xs" using st s(2,3) by (auto simp: splay_elems_def intro: exI [of _ "\<langle>l, a, r\<rangle>"])
    ultimately show ?thesis using fk eq by (simp add: insert_seq_def)
  qed
qed

text \<open>A splay for a key above all others brings the greatest element to the root, with nothing at its right.\<close>

lemma SPLAY_greatest:
  assumes "cmp_by key cmp" and "splay_elems key m xs" and "xs \<noteq> []" and "\<forall>x \<in> set xs. key x < key elm"
  shows "\<exists>m1 l b. SPLAY cmp m elm = Some (Inr m1) \<and> tree_of m1 \<langle>l, b, \<langle>\<rangle>\<rangle> \<and> xs = inorder l @ [b] \<and> unchanged (set xs) m m1"
proof -
  obtain m1 l b r where s: "SPLAY cmp m elm = Some (Inr m1)" "tree_of m1 \<langle>l, b, r\<rangle>" "xs = inorder l @ b # inorder r" "unchanged (set xs) m m1"
    "key b < key elm \<longrightarrow> (\<forall>x \<in> set (inorder r). key elm < key x)" using SPLAY_law [OF assms(1-3), of elm] by blast
  have "\<forall>x \<in> set (inorder r). False" using s(3,5) assms(4) less_asym by fastforce
  then have "r = \<langle>\<rangle>" by (cases r) auto
  then show ?thesis using s by auto
qed

text \<open>
  Removal of any key: the element with that key leaves the tree; the pointer returned is the argument, which is the
  removed element itself only if the argument was in the tree.
\<close>

lemma REMOVE_law:
  assumes "cmp_by key cmp" and "splay_elems key m xs"
  shows "\<exists>m1. SPLAY_REMOVE cmp m elm = Some (Inr (if find_key key elm xs = None then None else Some elm, m1)) \<and>
    splay_elems key m1 (filter (\<lambda>y. key y \<noteq> key elm) xs)"
proof (cases "xs = []")
  case True
  then show ?thesis using assms splay_elems_empty [OF assms(2)] by (simp add: SPLAY_REMOVE_def find_key_def)
next
  case False
  have st: "strictly_sorted key xs" using assms(2) by (simp add: splay_elems_def)
  obtain m1 l a r where s: "SPLAY cmp m elm = Some (Inr m1)" "tree_of m1 \<langle>l, a, r\<rangle>" "xs = inorder l @ a # inorder r"
    "key elm < key a \<longrightarrow> (\<forall>x \<in> set (inorder l). key x < key elm)" "key a < key elm \<longrightarrow> (\<forall>x \<in> set (inorder r). key elm < key x)"
    using SPLAY_law [OF assms False, of elm] by blast
  have fk: "find_key key elm xs = (if key elm = key a then Some a else None)" using find_at_root(1) [OF st [unfolded s(3)] s(4,5)] s(3) by simp
  have ne: "\<not> SPLAY_EMPTY m" using splay_elems_empty [OF assms(2)] False by simp
  have sr: "strictly_sorted key (inorder l)" "strictly_sorted key (inorder r)" "strictly_sorted key (inorder l @ inorder r)"
    "\<forall>x \<in> set_tree l. key x < key a" "\<forall>x \<in> set_tree r. key a < key x" "set_tree r \<inter> set_tree l = {}"
    using st s(3) strictly_sorted_distinct [OF st] by auto
  show ?thesis
  proof (cases "key elm = key a")
    case neq: False
    then have "filter (\<lambda>y. key y \<noteq> key elm) xs = xs" using fk find_key_None [of key elm xs] by (simp add: filter_id_conv)
    moreover have "splay_elems key m1 xs" using st s(2,3) by (auto simp: splay_elems_def intro: exI [of _ "\<langle>l, a, r\<rangle>"])
    ultimately show ?thesis using neq s(1,2) ne fk cmp_byD(3) [OF assms(1)] by (simp add: SPLAY_REMOVE_def with_root_def)
  next
    case eq: True
    have flt: "filter (\<lambda>y. key y \<noteq> key elm) xs = inorder l @ inorder r" using sr(4,5) s(3) eq by (auto simp: filter_id_conv less_imp_neq)
    show ?thesis
    proof (cases "l = \<langle>\<rangle>")
      case True
      then have "splay_elems key (set_root (spe_right m1 (Elm a)) m1) (inorder r)"
        using s(2) sr(2) by (auto simp: splay_elems_def set_root_def intro: exI [of _ r])
      then show ?thesis using True eq s(1,2) ne fk flt cmp_byD(3) [OF assms(1)] by (simp add: SPLAY_REMOVE_def with_root_def)
    next
      case nl: False
      let ?m = "set_root (spe_left m1 (Elm a)) m1"
      have "splay_elems key ?m (inorder l)" using s(2) sr(1) by (auto simp: splay_elems_def set_root_def intro: exI [of _ l])
      then obtain m2 l2 b where s2: "SPLAY cmp ?m elm = Some (Inr m2)" "tree_of m2 \<langle>l2, b, \<langle>\<rangle>\<rangle>" "inorder l = inorder l2 @ [b]" "unchanged (set (inorder l)) ?m m2"
        using SPLAY_greatest [OF assms(1), of ?m "inorder l" elm] nl sr(4) eq by (metis eq_inorder_Nil set_inorder)
      have b: "b \<notin> set_tree r" "b \<notin> set_tree l2" using s2(3) sr(6) strictly_sorted_distinct [OF sr(1)] set_inorder [of l] by auto
      have "tree_at (spe_left m2) (spe_right m2) (spe_right m1 (Elm a)) r"
        using unchanged_tree [OF s2(4), of r] sr(6) s(2) by (simp add: set_root_def)
      then have "tree_of (SPLAY_RIGHT_set (Elm b) (spe_right m1 (Elm a)) m2) \<langle>l2, b, r\<rangle>" using s2(2) b by (simp add: SPLAY_RIGHT_set_def)
      moreover have "inorder \<langle>l2, b, r\<rangle> = inorder l @ inorder r" using s2(3) by simp
      ultimately have "splay_elems key (SPLAY_RIGHT_set (Elm b) (spe_right m1 (Elm a)) m2) (inorder l @ inorder r)"
        using sr(3) unfolding splay_elems_def by metis
      moreover have "spe_left m1 (Elm a) \<noteq> None" using s(2) nl tree_at_null by fastforce
      ultimately show ?thesis using eq s(1,2) s2(1,2) ne fk flt cmp_byD(3) [OF assms(1)] by (auto simp: SPLAY_REMOVE_def with_root_def)
    qed
  qed
qed

lemma signed_seq_const: "signed_seq (\<lambda>_. cv) xs"
  by (induction xs) auto

lemma MINMAX_law:
  assumes "splay_elems key m xs" and "xs \<noteq> []" and "cv \<noteq> 0"
  shows "\<exists>m1. SPLAY_MIN_MAX m cv = Some (Inr (Some (if cv < 0 then hd xs else last xs), m1)) \<and> splay_elems key m1 xs"
proof -
  obtain t where t: "tree_of m t" "inorder t = xs" "strictly_sorted key xs" using assms(1) by (auto simp: splay_elems_def)
  then have ne: "t \<noteq> \<langle>\<rangle>" and d: "distinct (inorder t)" using assms(2) strictly_sorted_distinct by auto
  obtain m1 where m1: "SPLAY_MINMAX m cv = Some (Inr m1)" "tree_of m1 (splayed (\<lambda>_. cv) t)"
    using SPLAY_MINMAX_tree [OF t(1) d ne assms(3)] by blast
  obtain l a r where s: "splayed (\<lambda>_. cv) t = \<langle>l, a, r\<rangle>" "xs = inorder l @ a # inorder r"
    "cv < 0 \<longrightarrow> (\<forall>x \<in> set_tree l. 0 < cv)" "0 < cv \<longrightarrow> (\<forall>x \<in> set_tree r. cv < 0)"
    using splayed_root [OF ne signed_seq_const [of cv]] t(2) by auto
  have "cv < 0 \<longrightarrow> l = \<langle>\<rangle>" using s(3) by (cases l) auto
  moreover have "0 < cv \<longrightarrow> r = \<langle>\<rangle>" using s(4) by (cases r) auto
  ultimately have "a = (if cv < 0 then hd xs else last xs)" using s(2) assms(3) by (auto simp: neq_iff)
  moreover have "splay_elems key m1 xs" using t(3) m1(2) s(1,2) by (auto simp: splay_elems_def intro: exI [of _ "\<langle>l, a, r\<rangle>"])
  ultimately show ?thesis using m1 s(1) by (simp add: SPLAY_MIN_MAX_def)
qed

lemma MIN_MAX_law:
  assumes "splay_elems key m xs"
  shows "\<exists>m1. SPLAY_MIN m = Some (Inr (head_ptr xs, m1)) \<and> splay_elems key m1 xs"
    "\<exists>m1. SPLAY_MAX m = Some (Inr (last_ptr xs, m1)) \<and> splay_elems key m1 xs"
proof -
  show "\<exists>m1. SPLAY_MIN m = Some (Inr (head_ptr xs, m1)) \<and> splay_elems key m1 xs"
    using MINMAX_law [OF assms, of "- 1"] splay_elems_empty [OF assms] assms by (cases xs) (auto simp: SPLAY_MIN_def)
  show "\<exists>m1. SPLAY_MAX m = Some (Inr (last_ptr xs, m1)) \<and> splay_elems key m1 xs"
    using MINMAX_law [OF assms, of 1] splay_elems_empty [OF assms] assms by (cases "xs = []") (auto simp: SPLAY_MAX_def last_ptr_def)
qed

lemma leftmost_tree: "tree_at L R (Some p) t \<Longrightarrow> leftmost L p = Some (hd (inorder t))"
proof (induction t arbitrary: p)
  case (Node l a r)
  then show ?case by (cases l) (subst leftmost.simps, auto simp: hd_append)+
qed simp

lemma NEXT_law:
  assumes "cmp_by key cmp" and "splay_elems key m (xs @ x # ys)"
  shows "\<exists>m1. SPLAY_NEXT cmp m x = Some (Inr (head_ptr ys, m1)) \<and> splay_elems key m1 (xs @ x # ys)"
proof -
  have st: "strictly_sorted key (xs @ x # ys)" using assms(2) by (simp add: splay_elems_def)
  obtain m1 l a r where s: "SPLAY cmp m x = Some (Inr m1)" "tree_of m1 \<langle>l, a, r\<rangle>" "xs @ x # ys = inorder l @ a # inorder r"
    "key x < key a \<longrightarrow> (\<forall>y \<in> set (inorder l). key y < key x)" "key a < key x \<longrightarrow> (\<forall>y \<in> set (inorder r). key x < key y)"
    using SPLAY_law [OF assms, of x] by blast
  have "find_key key x (xs @ x # ys) = Some x" using find_key_self [OF st] by simp
  then have "a = x" using find_at_root(1) [OF st [unfolded s(3)] s(4,5)] s(3) by (simp split: if_splits)
  moreover have "distinct (xs @ x # ys)" using st by (rule strictly_sorted_distinct)
  ultimately have ys: "ys = inorder r" using s(3) by (metis append_Cons_eq_iff distinct.simps(2) distinct_append not_distinct_conv_prefix)
  have el: "splay_elems key m1 (xs @ x # ys)" using st s(2,3) by (auto simp: splay_elems_def intro: exI [of _ "\<langle>l, a, r\<rangle>"])
  show ?thesis
  proof (cases "spe_right m1 (Elm x)")
    case None
    then have "r = \<langle>\<rangle>" using s(2) \<open>a = x\<close> tree_at_null by fastforce
    then show ?thesis using None s(1) ys el by (simp add: SPLAY_NEXT_def)
  next
    case (Some p)
    then have r: "tree_at (spe_left m1) (spe_right m1) (Some p) r" using s(2) \<open>a = x\<close> by auto
    then have "head_ptr ys = Some (hd (inorder r))" using ys by (cases r) (auto simp: head_ptr_def split: list.split)
    then show ?thesis using Some s(1) el leftmost_tree [OF r] by (simp add: SPLAY_NEXT_def)
  qed
qed

lemma FOREACH_law:
  assumes "cmp_by key cmp"
  shows "splay_elems key m (xs @ ys) \<Longrightarrow> \<exists>m1. splay_foreach cmp body (head_ptr ys) m s = Some (Inr (m1, fold body ys s)) \<and> splay_elems key m1 (xs @ ys)"
proof (induction ys arbitrary: xs m s)
  case Nil
  then show ?case by (subst splay_foreach.simps) simp
next
  case (Cons y ys)
  obtain m1 where m1: "SPLAY_NEXT cmp m y = Some (Inr (head_ptr ys, m1))" "splay_elems key m1 (xs @ y # ys)"
    using NEXT_law [OF assms Cons.prems] by blast
  then show ?case using Cons.IH [of m1 "xs @ [y]" "body y s"] by (subst splay_foreach.simps) simp
qed

section \<open>Properties\<close>

text \<open>Splay trees are ordered trees, for every key and every comparison function that orders by it.\<close>

lemma splay_remove_member:
  assumes "cmp_by key cmp" and "splay_elems key m xs" and "x \<in> set xs"
  shows "\<exists>m1. SPLAY_REMOVE cmp m x = Some (Inr (Some x, m1)) \<and> splay_elems key m1 (remove1 x xs)"
proof -
  have st: "strictly_sorted key xs" using assms(2) by (simp add: splay_elems_def)
  have "filter (\<lambda>y. key y \<noteq> key x) xs = filter (\<lambda>y. y \<noteq> x) xs"
    using strictly_sorted_inj [OF st] assms(3) by (intro filter_cong) auto
  then have "filter (\<lambda>y. key y \<noteq> key x) xs = remove1 x xs"
    using distinct_remove1_removeAll [OF strictly_sorted_distinct [OF st], of x] by (simp add: removeAll_filter_not_eq eq_commute)
  then show ?thesis using REMOVE_law [OF assms(1,2), of x] find_key_self [OF st assms(3)] by simp
qed

lemma splay_elems_sorted: "splay_elems key m xs \<Longrightarrow> strictly_sorted key xs"
  by (simp add: splay_elems_def)

interpretation spl: ordered_tree key "\<lambda>m xs. cmp_by key cmp \<and> splay_elems key m xs" "SPLAY_INSERT cmp" "SPLAY_REMOVE cmp" "SPLAY_FIND cmp"
  for key :: "nat \<Rightarrow> 'k::linorder" and cmp
  by unfold_locales (use splay_elems_sorted INSERT_law FIND_law splay_remove_member in blast)+


lemma splay_init_elems: "splay_elems key (SPLAY_INIT m) []"
  by (auto simp: splay_elems_def SPLAY_INIT_def intro: exI [of _ "\<langle>\<rangle>"])

text \<open>
  C15. A splay tree is a sorted sequence: after \<open>SPLAY_INIT\<close>, every sequence of insertions of elements that are not in the
  tree, removals of elements that are, and searches ends without a NULL dereference, returns the pointers the same
  operations on a sorted sequence without equal keys return, and leaves a tree whose in-order sequence is the result.
\<close>

theorem splay_refines_sorted_sequence:
  assumes "cmp_by key cmp" and "legal_run key as []"
  shows "\<exists>m' t. tree_run (SPLAY_INSERT cmp) (SPLAY_REMOVE cmp) (SPLAY_FIND cmp) as (SPLAY_INIT m) = Some (Inr (fst (seq_run key as []), m')) \<and>
    tree_at (spe_left m') (spe_right m') (sph_root m') t \<and> inorder t = snd (seq_run key as []) \<and> strictly_sorted key (inorder t)"
  using spl.run_refines [where as = as and cmp = cmp and key = key, OF conjI [OF assms(1) splay_init_elems [of key m]] assms(2)]
  unfolding splay_elems_def by metis

definition empty_splay :: splay where
  "empty_splay = \<lparr>sph_root = None, spe_left = (\<lambda>_. None), spe_right = (\<lambda>_. None)\<rparr>"

definition num_cmp :: cmp where
  "num_cmp x y = int (x mod 10) - int (y mod 10)"

text \<open>Elements with their last digit as the key: 12 and 2 have the same key.\<close>

lemma num_cmp_by: "cmp_by (\<lambda>x. x mod 10) num_cmp"
  by (simp add: cmp_by_def num_cmp_def)

theorem splay_refines_sorted_sequence_witness:
  "\<exists>m' t. tree_run (SPLAY_INSERT num_cmp) (SPLAY_REMOVE num_cmp) (SPLAY_FIND num_cmp)
      [Insert 2, Insert 1, Insert 3, Insert 12, Find 12, Remove 2, Find 2] (SPLAY_INIT empty_splay) =
      Some (Inr ([None, None, None, Some 2, Some 2, Some 2, None], m')) \<and>
    tree_at (spe_left m') (spe_right m') (sph_root m') t \<and> inorder t = [1, 3]"
  using splay_refines_sorted_sequence [OF num_cmp_by, of "[Insert 2, Insert 1, Insert 3, Insert 12, Find 12, Remove 2, Find 2]" empty_splay]
  by (auto simp: find_key_def insert_seq_def)

text \<open>
  C18. Splaying: on a tree that is not empty \<open>SPLAY\<close> always ends, keeps the in-order sequence and every element outside the
  tree, and leaves at the root an element with the searched key if there is one, and otherwise a neighbour of its place: no
  element lies between the root and the key.
\<close>

theorem splay_keeps_sequence:
  assumes "cmp_by key cmp" and "tree_at (spe_left m) (spe_right m) (sph_root m) t" and "t \<noteq> \<langle>\<rangle>" and "strictly_sorted key (inorder t)"
  shows "\<exists>m' l a r. SPLAY cmp m elm = Some (Inr m') \<and> tree_at (spe_left m') (spe_right m') (sph_root m') \<langle>l, a, r\<rangle> \<and>
    inorder \<langle>l, a, r\<rangle> = inorder t \<and>
    ((\<exists>x \<in> set_tree t. key x = key elm) \<longrightarrow> key a = key elm) \<and>
    \<not> (\<exists>x \<in> set_tree t. key elm < key x \<and> key x < key a \<or> key a < key x \<and> key x < key elm) \<and>
    (\<forall>x. x \<notin> set_tree t \<longrightarrow> spe_left m' (Elm x) = spe_left m (Elm x) \<and> spe_right m' (Elm x) = spe_right m (Elm x))"
proof -
  have el: "splay_elems key m (inorder t)" using assms(2,4) by (auto simp: splay_elems_def)
  obtain m1 l a r where s: "SPLAY cmp m elm = Some (Inr m1)" "tree_of m1 \<langle>l, a, r\<rangle>" "inorder t = inorder l @ a # inorder r" "unchanged (set_tree t) m m1"
    "key elm < key a \<longrightarrow> (\<forall>x \<in> set (inorder l). key x < key elm)" "key a < key elm \<longrightarrow> (\<forall>x \<in> set (inorder r). key elm < key x)"
    using SPLAY_law [OF assms(1) el, of elm] assms(3) by auto
  have ord: "\<forall>x \<in> set_tree l. key x < key a" "\<forall>x \<in> set_tree r. key a < key x" "set_tree t = set_tree l \<union> insert a (set_tree r)"
    using assms(4) s(3) set_inorder [of t] by auto
  have "(\<exists>x \<in> set_tree t. key x = key elm) \<longrightarrow> key a = key elm"
    using find_at_root(1) [OF assms(4) [unfolded s(3)] s(5,6)] find_key_None [of key elm "inorder t"] s(3) by (metis option.discI set_inorder)
  moreover have "\<not> (key elm < key x \<and> key x < key a \<or> key a < key x \<and> key x < key elm)" if "x \<in> set_tree t" for x
  proof -
    from that [unfolded ord(3)]
    consider (below) "x \<in> set_tree l" "key x < key a" | (root) "x = a" | (above) "x \<in> set_tree r" "key a < key x"
      using bspec [OF ord(1), of x] bspec [OF ord(2), of x] by (elim UnE insertE) blast+
    then show ?thesis
    proof cases
      case below
      then show ?thesis using s(5) less_trans [of "key elm" "key x" "key a"] less_asym [of "key x"] by (metis set_inorder)
    next
      case above
      then show ?thesis using s(6) less_trans [of "key a" "key x" "key elm"] less_asym [of "key x"] by (metis set_inorder)
    qed simp
  qed
  moreover have "inorder \<langle>l, a, r\<rangle> = inorder t" using s(3) by simp
  ultimately show ?thesis using s(1,2,4) unfolding unchanged_def by blast
qed

text \<open>A tree with the elements 1, 3 and 5.\<close>

definition splay135 :: splay where
  "splay135 = \<lparr>sph_root = Some 1, spe_left = (\<lambda>a. if a = Elm 5 then Some 3 else None), spe_right = (\<lambda>a. if a = Elm 1 then Some 5 else None)\<rparr>"

theorem splay_keeps_sequence_witness:
  "\<exists>m' l a r. SPLAY num_cmp splay135 13 = Some (Inr m') \<and> tree_at (spe_left m') (spe_right m') (sph_root m') \<langle>l, a, r\<rangle> \<and>
    inorder \<langle>l, a, r\<rangle> = [1, 3, 5] \<and> a mod 10 = 3"
  using splay_keeps_sequence [OF num_cmp_by, of splay135 "\<langle>\<langle>\<rangle>, 1, \<langle>\<langle>\<langle>\<rangle>, 3, \<langle>\<rangle>\<rangle>, 5, \<langle>\<rangle>\<rangle>\<rangle>" 13]
  by (auto simp: splay135_def)

text \<open>
  C19. Iteration: although every step splays the tree again, \<open>SPLAY_FOREACH\<close> visits exactly the elements of the tree, once each and in the order of
  their keys, and ends; \<open>SPLAY_MIN\<close> and \<open>SPLAY_MAX\<close> return the ends of that sequence, NULL on the empty tree.
\<close>

theorem splay_foreach_in_order:
  assumes "cmp_by key cmp" and "splay_elems key m xs"
  shows "(\<exists>m'. SPLAY_FOREACH cmp body m s = Some (Inr (m', fold body xs s)) \<and> splay_elems key m' xs) \<and>
    (\<exists>m'. SPLAY_MIN m = Some (Inr (head_ptr xs, m')) \<and> splay_elems key m' xs) \<and>
    (\<exists>m'. SPLAY_MAX m = Some (Inr (last_ptr xs, m')) \<and> splay_elems key m' xs)"
proof -
  obtain m1 where m1: "SPLAY_MIN m = Some (Inr (head_ptr xs, m1))" "splay_elems key m1 xs" using MIN_MAX_law(1) [OF assms(2)] by blast
  show ?thesis
    using m1 FOREACH_law [OF assms(1), of m1 "[]" xs body s] MIN_MAX_law(2) [OF assms(2)] by (simp add: SPLAY_FOREACH_def)
qed

theorem splay_foreach_in_order_witness:
  "\<exists>m'. SPLAY_FOREACH num_cmp (\<lambda>x s. s @ [x]) splay135 [] = Some (Inr (m', [1, 3, 5])) \<and> splay_elems (\<lambda>x. x mod 10) m' [1, 3, 5]"
proof -
  have "splay_elems (\<lambda>x. x mod 10) splay135 [1, 3, 5]"
    by (auto simp: splay_elems_def splay135_def intro: exI [of _ "\<langle>\<langle>\<rangle>, 1, \<langle>\<langle>\<langle>\<rangle>, 3, \<langle>\<rangle>\<rangle>, 5, \<langle>\<rangle>\<rangle>\<rangle>"])
  from splay_foreach_in_order [OF num_cmp_by this, of "\<lambda>x s. s @ [x]" "[]"] show ?thesis by simp
qed

end
