(* ===== verification/Tree_Rank.thy ===== *)
theory Tree_Rank
  imports Tree_Order "HOL-Library.Monad_Syntax"
begin

text \<open>
  The rank-balanced tree macros of \<open>src/lib/tree.h\<close>, for one \<open>field\<close> of one element type and one head:
  the memory, every macro and every function \<open>RB_GENERATE\<close> generates. \<open>RB_AUGMENT\<close>, \<open>RB_STRICT_HST\<close> and the
  diagnostic order checks have their default values: no augmentation, 0 and no check.

  \<open>rbe_link[0]\<close> of an element holds the pointer to its parent; elements have addresses that are multiples of 4, and the
  code keeps two marks in the lowest bits of that pointer: bit \<open>_RB_L\<close> when the edge to the left child is long (\<open>red\<close>), bit
  \<open>_RB_R\<close> for the right child. Here such a word is a pair of a pointer and the two marks. \<open>tagged_pointers\<close> in \<open>Tree_Rank_Props\<close>
  shows that the bit operations on the words are the operations on pairs used here.
\<close>

datatype dir = DL | DR

fun opp :: "dir \<Rightarrow> dir" where
  "opp DL = DR"
| "opp DR = DL"

type_synonym bits = "dir \<Rightarrow> bool"
type_synonym tagged = "nat option \<times> bits"

record rbmem =
  rbh_root :: "nat option"
  rbe_up :: "nat \<Rightarrow> tagged"
  rbe_link :: "dir \<Rightarrow> nat \<Rightarrow> nat option"

text \<open>A pointer without marks, and \<open>_RB_PTR\<close>, which clears them.\<close>

definition untagged :: "nat option \<Rightarrow> tagged" where
  "untagged p = (p, \<lambda>_. False)"

definition RB_PTR :: "tagged \<Rightarrow> nat option" where
  "RB_PTR w = fst w"

text \<open>\<open>_RB_BITS(w) ^= dir\<close> and \<open>_RB_BITS(w) ^= _RB_LR\<close>.\<close>

definition xor_dir :: "dir \<Rightarrow> tagged \<Rightarrow> tagged" where
  "xor_dir d w = (fst w, (snd w)(d := \<not> snd w d))"

definition xor_both :: "tagged \<Rightarrow> tagged" where
  "xor_both w = (fst w, \<lambda>d. \<not> snd w d)"

definition no_bits :: "tagged \<Rightarrow> bool" where
  "no_bits w \<longleftrightarrow> \<not> snd w DL \<and> \<not> snd w DR"

definition set_up :: "nat \<Rightarrow> tagged \<Rightarrow> rbmem \<Rightarrow> rbmem" where
  "set_up a w m = m\<lparr>rbe_up := (rbe_up m)(a := w)\<rparr>"

definition set_link :: "dir \<Rightarrow> nat \<Rightarrow> nat option \<Rightarrow> rbmem \<Rightarrow> rbmem" where
  "set_link d a p m = m\<lparr>rbe_link := (rbe_link m)(d := (rbe_link m d)(a := p))\<rparr>"

section \<open>The macros\<close>

definition RB_INIT :: "rbmem \<Rightarrow> rbmem" where
  "RB_INIT m = m\<lparr>rbh_root := None\<rparr>"

definition RB_EMPTY :: "rbmem \<Rightarrow> bool" where
  "RB_EMPTY m \<longleftrightarrow> rbh_root m = None"

definition RB_PARENT :: "rbmem \<Rightarrow> nat \<Rightarrow> nat option" where
  "RB_PARENT m elm = RB_PTR (rbe_up m elm)"

definition RB_SET_PARENT :: "nat \<Rightarrow> tagged \<Rightarrow> rbmem \<Rightarrow> rbmem" where
  "RB_SET_PARENT dst src m = set_up dst (fst src, \<lambda>d. snd src d \<or> snd (rbe_up m dst) d) m"

definition RB_SET :: "nat \<Rightarrow> nat option \<Rightarrow> rbmem \<Rightarrow> rbmem" where
  "RB_SET elm parent m = set_link DL elm None (set_link DR elm None (set_up elm (untagged parent) m))"

definition RB_SWAP_CHILD :: "nat option \<Rightarrow> nat \<Rightarrow> nat option \<Rightarrow> rbmem \<Rightarrow> rbmem" where
  "RB_SWAP_CHILD par out inn m =
     (case par of
        None \<Rightarrow> m\<lparr>rbh_root := inn\<rparr>
      | Some p \<Rightarrow> if rbe_link m DL p = Some out then set_link DL p inn m else set_link DR p inn m)"

definition RB_ROTATE :: "nat \<Rightarrow> nat \<Rightarrow> dir \<Rightarrow> rbmem \<Rightarrow> rbmem" where
  "RB_ROTATE elm tmp d m =
     (let m1 = set_link (opp d) elm (rbe_link m d tmp) m;
          m2 = (case rbe_link m1 d tmp of None \<Rightarrow> m1 | Some c \<Rightarrow> RB_SET_PARENT c (untagged (Some elm)) m1);
          m3 = set_link d tmp (Some elm) m2
      in RB_SET_PARENT elm (untagged (Some tmp)) m3)"

section \<open>Insertion\<close>

text \<open>
  \<open>RB_INSERT_COLOR\<close>. The local variable \<open>child\<close> is \<open>None\<close> until the loop assigns it; using it before is a fault. The last part, after
  the bits are settled, rotates \<open>child\<close> above \<open>parent\<close>.
\<close>

definition insert_rotate :: "nat \<Rightarrow> nat \<Rightarrow> nat option \<Rightarrow> dir \<Rightarrow> rbmem \<Rightarrow> rbmem" where
  "insert_rotate parent child gpar sibdir m =
     (let m1 = RB_ROTATE parent child sibdir m;
          m2 = set_up child (untagged gpar) m1
      in RB_SWAP_CHILD gpar parent (Some child) m2)"

partial_function (option) RB_INSERT_COLOR :: "nat \<Rightarrow> nat \<Rightarrow> nat option \<Rightarrow> rbmem \<Rightarrow> (nat option \<times> rbmem) tres" where
  "RB_INSERT_COLOR parent elm child m =
     (let gpar = rbe_up m parent;
          elmdir = (if rbe_link m DR parent = Some elm then DR else DL);
          sibdir = opp elmdir
      in if snd gpar elmdir then Some (Inr (None, set_up parent (xor_dir elmdir (rbe_up m parent)) m))
         else
           (let m1 = set_up parent (xor_dir sibdir (rbe_up m parent)) m
            in if no_bits gpar then
                 (case fst gpar of
                    None \<Rightarrow> Some (Inr (None, m1))
                  | Some g \<Rightarrow> RB_INSERT_COLOR g parent (Some elm) m1)
               else
                 (let gp = RB_PTR gpar;
                      m2 = set_up parent (untagged gp) m1
                  in if snd (rbe_up m2 elm) elmdir then
                       (case child of
                          None \<Rightarrow> Some (Inl NullDeref)
                        | Some c \<Rightarrow>
                            (let m3 = RB_ROTATE elm c elmdir m2;
                                 child_up = rbe_up m3 c;
                                 m4 = (if snd child_up sibdir then set_up parent (xor_dir elmdir (rbe_up m3 parent)) m3 else m3);
                                 m5 = (if snd child_up elmdir then set_up elm (xor_both (rbe_up m4 elm)) m4
                                       else set_up elm (xor_dir elmdir (rbe_up m4 elm)) m4)
                             in Some (Inr (Some c, insert_rotate parent c gp sibdir m5))))
                     else Some (Inr (Some elm, insert_rotate parent elm gp sibdir m2)))))"

text \<open>The places a \<open>struct type **\<close> of the insertion functions can point to: the root, or a child field of an element.\<close>

type_synonym slot = "(nat \<times> dir) option"

definition slot_get :: "slot \<Rightarrow> rbmem \<Rightarrow> nat option" where
  "slot_get p m = (case p of None \<Rightarrow> rbh_root m | Some (a, d) \<Rightarrow> rbe_link m d a)"

definition slot_set :: "slot \<Rightarrow> nat option \<Rightarrow> rbmem \<Rightarrow> rbmem" where
  "slot_set p x m = (case p of None \<Rightarrow> m\<lparr>rbh_root := x\<rparr> | Some (a, d) \<Rightarrow> set_link d a x m)"

definition RB_INSERT_FINISH :: "nat option \<Rightarrow> slot \<Rightarrow> nat \<Rightarrow> rbmem \<Rightarrow> (nat option \<times> rbmem) tres" where
  "RB_INSERT_FINISH parent pptr elm m =
     (let m1 = slot_set pptr (Some elm) (RB_SET elm parent m)
      in case parent of
           None \<Rightarrow> Some (Inr (None, m1))
         | Some p \<Rightarrow> map_option (map_sum id (\<lambda>r. (None, snd r))) (RB_INSERT_COLOR p elm None m1))"

text \<open>The descent of \<open>RB_INSERT\<close>: the element with an equal key, or the parent and the place of the new element.\<close>

partial_function (option) insert_descent :: "cmp \<Rightarrow> nat \<Rightarrow> rbmem \<Rightarrow> nat option \<Rightarrow> slot \<Rightarrow> (nat + nat option \<times> slot) option" where
  "insert_descent cmp elm m parent tmpp =
     (case slot_get tmpp m of
        None \<Rightarrow> Some (Inr (parent, tmpp))
      | Some p \<Rightarrow>
          if cmp elm p < 0 then insert_descent cmp elm m (Some p) (Some (p, DL))
          else if 0 < cmp elm p then insert_descent cmp elm m (Some p) (Some (p, DR))
          else Some (Inl p))"

definition RB_INSERT :: "cmp \<Rightarrow> rbmem \<Rightarrow> nat \<Rightarrow> (nat option \<times> rbmem) tres" where
  "RB_INSERT cmp m elm =
     (case insert_descent cmp elm m None None of
        None \<Rightarrow> None
      | Some (Inl p) \<Rightarrow> Some (Inr (Some p, m))
      | Some (Inr (parent, tmpp)) \<Rightarrow> RB_INSERT_FINISH parent tmpp elm m)"

section \<open>Removal\<close>

text \<open>
  The loop of \<open>RB_REMOVE_COLOR\<close>: the tree at the place of \<open>elm\<close> below \<open>parent\<close> has lost one rank. \<open>remove_rotate\<close> is the end of the loop
  body, which rotates the element \<open>e\<close> above \<open>parent\<close>.
\<close>

definition remove_rotate :: "nat \<Rightarrow> nat \<Rightarrow> tagged \<Rightarrow> dir \<Rightarrow> rbmem \<Rightarrow> rbmem" where
  "remove_rotate parent e gpar elmdir m =
     (let m1 = RB_ROTATE parent e elmdir m;
          m2 = RB_SET_PARENT e gpar m1
      in RB_SWAP_CHILD (fst gpar) parent (Some e) m2)"

partial_function (option) remove_color_loop :: "nat \<Rightarrow> nat option \<Rightarrow> rbmem \<Rightarrow> (nat option \<times> rbmem) tres" where
  "remove_color_loop parent elm m =
     (let elmdir = (if rbe_link m DR parent = elm then DR else DL);
          gpar = xor_dir elmdir (rbe_up m parent);
          sibdir = opp elmdir
      in if snd gpar elmdir then Some (Inr (None, set_up parent gpar m))
         else if \<not> no_bits gpar then
           (let m1 = set_up parent (xor_both gpar) m
            in case RB_PTR (xor_both gpar) of
                 None \<Rightarrow> Some (Inr (None, m1))
               | Some g \<Rightarrow> remove_color_loop g (Some parent) m1)
         else
           (case rbe_link m sibdir parent of
              None \<Rightarrow> Some (Inl NullDeref)
            | Some sib \<Rightarrow>
                (let up = xor_both (rbe_up m sib)
                 in if no_bits up then
                      (let m1 = set_up sib up m
                       in case fst gpar of
                            None \<Rightarrow> Some (Inr (None, m1))
                          | Some g \<Rightarrow> remove_color_loop g (Some parent) m1)
                    else if \<not> snd up sibdir then
                      (case rbe_link m elmdir sib of
                         None \<Rightarrow> Some (Inl NullDeref)
                       | Some e \<Rightarrow>
                           (let m1 = RB_ROTATE sib e sibdir m;
                                eup = rbe_up m1 e;
                                m2 = set_up parent ((if snd eup elmdir then xor_both else xor_dir elmdir) (rbe_up m1 parent)) m1;
                                m3 = set_up sib ((if snd eup sibdir then xor_both else xor_dir sibdir) (rbe_up m2 sib)) m2;
                                m4 = set_up e (fst (rbe_up m3 e), \<lambda>_. True) m3
                            in Some (Inr (Some parent, remove_rotate parent e gpar elmdir m4))))
                    else
                      (let m1 = (if \<not> snd up elmdir then
                                   set_up sib (xor_dir sibdir (rbe_up m sib)) (set_up parent (xor_dir elmdir (rbe_up m parent)) m)
                                 else set_up sib (xor_dir sibdir (rbe_up m sib)) m)
                       in Some (Inr (Some parent, remove_rotate parent sib gpar elmdir m1))))))"

definition RB_REMOVE_COLOR :: "nat \<Rightarrow> nat option \<Rightarrow> rbmem \<Rightarrow> (nat option \<times> rbmem) tres" where
  "RB_REMOVE_COLOR parent elm m =
     (if rbe_link m DR parent = elm \<and> rbe_link m DL parent = elm then
        (let m1 = set_up parent (untagged (RB_PTR (rbe_up m parent))) m
         in case fst (rbe_up m1 parent) of
              None \<Rightarrow> Some (Inr (None, m1))
            | Some g \<Rightarrow> remove_color_loop g (Some parent) m1)
      else remove_color_loop parent elm m)"

text \<open>\<open>while (RB_LEFT(a)) a = RB_LEFT(a)\<close> and its mirror image.\<close>

partial_function (option) outermost :: "dir \<Rightarrow> rbmem \<Rightarrow> nat \<Rightarrow> nat option" where
  "outermost d m a = (case rbe_link m d a of None \<Rightarrow> Some a | Some b \<Rightarrow> outermost d m b)"

text \<open>\<open>RB_REMOVE\<close>: the end of the function, and the way to it for an element with one child or none and for one with two.\<close>

definition remove_finish :: "nat \<Rightarrow> nat option \<Rightarrow> nat option \<Rightarrow> nat option \<Rightarrow> nat option \<Rightarrow> rbmem \<Rightarrow> (nat option \<times> rbmem) tres" where
  "remove_finish out opar inn child parent m =
     (let m1 = RB_SWAP_CHILD opar out inn m;
          m2 = (case child of None \<Rightarrow> m1 | Some c \<Rightarrow> set_up c (untagged parent) m1)
      in case parent of
           None \<Rightarrow> Some (Inr (Some out, m2))
         | Some p \<Rightarrow> map_option (map_sum id (\<lambda>r. (Some out, snd r))) (RB_REMOVE_COLOR p child m2))"

definition RB_REMOVE :: "rbmem \<Rightarrow> nat \<Rightarrow> (nat option \<times> rbmem) tres" where
  "RB_REMOVE m out =
     (let opar = rbe_up m out
      in case (rbe_link m DL out, rbe_link m DR out) of
           (Some child, Some r) \<Rightarrow>
             (case outermost DL m r of
                None \<Rightarrow> None
              | Some inn \<Rightarrow>
                  (let m1 = RB_SET_PARENT child (untagged (Some inn)) m;
                       m2 = set_link DL inn (Some child) m1;
                       child2 = rbe_link m2 DR inn
                   in if r \<noteq> inn then
                        (let m3 = RB_SET_PARENT r (untagged (Some inn)) m2;
                             m4 = set_link DR inn (Some r) m3
                         in case RB_PARENT m4 inn of
                              None \<Rightarrow> Some (Inl NullDeref)
                            | Some parent \<Rightarrow>
                                (let m5 = set_link DL parent child2 m4;
                                     m6 = set_up inn opar m5
                                 in remove_finish out (RB_PTR opar) (Some inn) child2 (Some parent) m6))
                      else remove_finish out (RB_PTR opar) (Some inn) child2 (Some r) (set_up inn opar m2)))
         | (l, r) \<Rightarrow>
             (let inn = (if r = None then l else r)
              in remove_finish out (RB_PTR opar) inn inn (RB_PTR opar) m))"

section \<open>Searching and walking\<close>

partial_function (option) find_loop :: "cmp \<Rightarrow> rbmem \<Rightarrow> nat \<Rightarrow> nat option \<Rightarrow> nat option tres" where
  "find_loop cmp m elm tmp =
     (case tmp of
        None \<Rightarrow> Some (Inr None)
      | Some t \<Rightarrow>
          if cmp elm t < 0 then find_loop cmp m elm (rbe_link m DL t)
          else if 0 < cmp elm t then find_loop cmp m elm (rbe_link m DR t)
          else Some (Inr tmp))"

definition RB_FIND :: "cmp \<Rightarrow> rbmem \<Rightarrow> nat \<Rightarrow> nat option tres" where
  "RB_FIND cmp m elm = find_loop cmp m elm (rbh_root m)"

partial_function (option) nfind_loop :: "cmp \<Rightarrow> rbmem \<Rightarrow> nat \<Rightarrow> nat option \<Rightarrow> nat option \<Rightarrow> nat option tres" where
  "nfind_loop cmp m elm res tmp =
     (case tmp of
        None \<Rightarrow> Some (Inr res)
      | Some t \<Rightarrow>
          if cmp elm t < 0 then nfind_loop cmp m elm (Some t) (rbe_link m DL t)
          else if 0 < cmp elm t then nfind_loop cmp m elm res (rbe_link m DR t)
          else Some (Inr tmp))"

definition RB_NFIND :: "cmp \<Rightarrow> rbmem \<Rightarrow> nat \<Rightarrow> nat option tres" where
  "RB_NFIND cmp m elm = nfind_loop cmp m elm None (rbh_root m)"

text \<open>
  \<open>while (RB_PARENT(elm) && elm == LINK(RB_PARENT(elm), d)) elm = RB_PARENT(elm)\<close>, and then the parent.
\<close>

partial_function (option) climb :: "dir \<Rightarrow> rbmem \<Rightarrow> nat \<Rightarrow> nat option tres" where
  "climb d m elm =
     (case RB_PARENT m elm of
        None \<Rightarrow> Some (Inr None)
      | Some p \<Rightarrow> if rbe_link m d p = Some elm then climb d m p else Some (Inr (Some p)))"

definition RB_STEP :: "dir \<Rightarrow> rbmem \<Rightarrow> nat \<Rightarrow> nat option tres" where
  "RB_STEP d m elm =
     (case rbe_link m d elm of
        Some a \<Rightarrow> map_option (\<lambda>b. Inr (Some b)) (outermost (opp d) m a)
      | None \<Rightarrow> climb d m elm)"

definition RB_NEXT :: "rbmem \<Rightarrow> nat \<Rightarrow> nat option tres" where
  "RB_NEXT m elm = RB_STEP DR m elm"

definition RB_PREV :: "rbmem \<Rightarrow> nat \<Rightarrow> nat option tres" where
  "RB_PREV m elm = RB_STEP DL m elm"

partial_function (option) minmax_walk :: "int \<Rightarrow> rbmem \<Rightarrow> nat option \<Rightarrow> nat option \<Rightarrow> nat option tres" where
  "minmax_walk v m tmp parent =
     (case tmp of None \<Rightarrow> Some (Inr parent) | Some t \<Rightarrow> minmax_walk v m (rbe_link m (if v < 0 then DL else DR) t) tmp)"

definition RB_MINMAX :: "rbmem \<Rightarrow> int \<Rightarrow> nat option tres" where
  "RB_MINMAX m v = minmax_walk v m (rbh_root m) None"

abbreviation (input) RB_NEGINF :: int where "RB_NEGINF \<equiv> - 1"
abbreviation (input) RB_INF :: int where "RB_INF \<equiv> 1"

definition RB_MIN :: "rbmem \<Rightarrow> nat option tres" where
  "RB_MIN m = RB_MINMAX m RB_NEGINF"

definition RB_MAX :: "rbmem \<Rightarrow> nat option tres" where
  "RB_MAX m = RB_MINMAX m RB_INF"

text \<open>The way down of \<open>RB_INSERT_NEXT\<close> (\<open>d\<close> left) and \<open>RB_INSERT_PREV\<close> (\<open>d\<close> right).\<close>

partial_function (option) descend :: "dir \<Rightarrow> rbmem \<Rightarrow> nat \<Rightarrow> nat \<times> dir \<Rightarrow> (nat \<times> (nat \<times> dir)) option" where
  "descend d m elm tmpp =
     (case rbe_link m (snd tmpp) (fst tmpp) of
        None \<Rightarrow> Some (elm, tmpp)
      | Some t \<Rightarrow> descend d m t (t, d))"

definition RB_INSERT_NEXT :: "rbmem \<Rightarrow> nat \<Rightarrow> nat \<Rightarrow> (nat option \<times> rbmem) tres" where
  "RB_INSERT_NEXT m elm nxt =
     (case RB_NEXT m elm of
        None \<Rightarrow> None
      | Some _ \<Rightarrow>
          (case descend DL m elm (elm, DR) of
             None \<Rightarrow> None
           | Some (p, tmpp) \<Rightarrow> RB_INSERT_FINISH (Some p) (Some tmpp) nxt m))"

definition RB_INSERT_PREV :: "rbmem \<Rightarrow> nat \<Rightarrow> nat \<Rightarrow> (nat option \<times> rbmem) tres" where
  "RB_INSERT_PREV m elm prv =
     (case RB_PREV m elm of
        None \<Rightarrow> None
      | Some _ \<Rightarrow>
          (case descend DR m elm (elm, DL) of
             None \<Rightarrow> None
           | Some (p, tmpp) \<Rightarrow> RB_INSERT_FINISH (Some p) (Some tmpp) prv m))"

definition RB_REINSERT :: "cmp \<Rightarrow> rbmem \<Rightarrow> nat \<Rightarrow> (nat option \<times> rbmem) tres" where
  "RB_REINSERT cmp m elm =
     (let again =
        (case RB_REMOVE m elm of
           None \<Rightarrow> None
         | Some (Inl e) \<Rightarrow> Some (Inl e)
         | Some (Inr (_, m1)) \<Rightarrow> RB_INSERT cmp m1 elm)
      in case RB_PREV m elm of
           None \<Rightarrow> None
         | Some (Inl e) \<Rightarrow> Some (Inl e)
         | Some (Inr prv) \<Rightarrow>
             if (case prv of None \<Rightarrow> False | Some p \<Rightarrow> 0 \<le> cmp p elm) then again
             else
               (case RB_NEXT m elm of
                  None \<Rightarrow> None
                | Some (Inl e) \<Rightarrow> Some (Inl e)
                | Some (Inr nxt) \<Rightarrow>
                    if (case nxt of None \<Rightarrow> False | Some n \<Rightarrow> 0 \<le> cmp elm n) then again
                    else Some (Inr (None, m))))"

text \<open>
  The \<open>FOREACH\<close> loops over an element \<open>x\<close> and a step: in the plain ones the step is taken after the body, in the \<open>FROM\<close> and \<open>SAFE\<close>
  ones before it. A body maps the memory and the state of the client.
\<close>

partial_function (option) rb_for :: "(rbmem \<Rightarrow> nat \<Rightarrow> nat option tres) \<Rightarrow> (nat \<Rightarrow> rbmem \<times> 's \<Rightarrow> rbmem \<times> 's) \<Rightarrow> nat option \<Rightarrow> rbmem \<times> 's \<Rightarrow> (rbmem \<times> 's) tres" where
  "rb_for step body x s =
     (case x of
        None \<Rightarrow> Some (Inr s)
      | Some a \<Rightarrow>
          (let s1 = body a s
           in case step (fst s1) a of
                None \<Rightarrow> None
              | Some y \<Rightarrow> (case y of Inl e \<Rightarrow> Some (Inl e) | Inr b \<Rightarrow> rb_for step body b s1)))"

partial_function (option) rb_for_safe :: "(rbmem \<Rightarrow> nat \<Rightarrow> nat option tres) \<Rightarrow> (nat \<Rightarrow> rbmem \<times> 's \<Rightarrow> rbmem \<times> 's) \<Rightarrow> nat option \<Rightarrow> rbmem \<times> 's \<Rightarrow> (rbmem \<times> 's) tres" where
  "rb_for_safe step body x s =
     (case x of
        None \<Rightarrow> Some (Inr s)
      | Some a \<Rightarrow>
          (case step (fst s) a of
             None \<Rightarrow> None
           | Some y \<Rightarrow> (case y of Inl e \<Rightarrow> Some (Inl e) | Inr b \<Rightarrow> rb_for_safe step body b (body a s))))"

definition RB_FOREACH :: "(nat \<Rightarrow> rbmem \<times> 's \<Rightarrow> rbmem \<times> 's) \<Rightarrow> rbmem \<times> 's \<Rightarrow> (rbmem \<times> 's) tres" where
  "RB_FOREACH body s = (case RB_MIN (fst s) of None \<Rightarrow> None | Some (Inl e) \<Rightarrow> Some (Inl e) | Some (Inr x) \<Rightarrow> rb_for RB_NEXT body x s)"

definition RB_FOREACH_FROM :: "(nat \<Rightarrow> rbmem \<times> 's \<Rightarrow> rbmem \<times> 's) \<Rightarrow> nat option \<Rightarrow> rbmem \<times> 's \<Rightarrow> (rbmem \<times> 's) tres" where
  "RB_FOREACH_FROM body y s = rb_for_safe RB_NEXT body y s"

definition RB_FOREACH_SAFE :: "(nat \<Rightarrow> rbmem \<times> 's \<Rightarrow> rbmem \<times> 's) \<Rightarrow> rbmem \<times> 's \<Rightarrow> (rbmem \<times> 's) tres" where
  "RB_FOREACH_SAFE body s = (case RB_MIN (fst s) of None \<Rightarrow> None | Some (Inl e) \<Rightarrow> Some (Inl e) | Some (Inr x) \<Rightarrow> rb_for_safe RB_NEXT body x s)"

definition RB_FOREACH_REVERSE :: "(nat \<Rightarrow> rbmem \<times> 's \<Rightarrow> rbmem \<times> 's) \<Rightarrow> rbmem \<times> 's \<Rightarrow> (rbmem \<times> 's) tres" where
  "RB_FOREACH_REVERSE body s = (case RB_MAX (fst s) of None \<Rightarrow> None | Some (Inl e) \<Rightarrow> Some (Inl e) | Some (Inr x) \<Rightarrow> rb_for RB_PREV body x s)"

definition RB_FOREACH_REVERSE_FROM :: "(nat \<Rightarrow> rbmem \<times> 's \<Rightarrow> rbmem \<times> 's) \<Rightarrow> nat option \<Rightarrow> rbmem \<times> 's \<Rightarrow> (rbmem \<times> 's) tres" where
  "RB_FOREACH_REVERSE_FROM body y s = rb_for_safe RB_PREV body y s"

definition RB_FOREACH_REVERSE_SAFE :: "(nat \<Rightarrow> rbmem \<times> 's \<Rightarrow> rbmem \<times> 's) \<Rightarrow> rbmem \<times> 's \<Rightarrow> (rbmem \<times> 's) tres" where
  "RB_FOREACH_REVERSE_SAFE body s = (case RB_MAX (fst s) of None \<Rightarrow> None | Some (Inl e) \<Rightarrow> Some (Inl e) | Some (Inr x) \<Rightarrow> rb_for_safe RB_PREV body x s)"

text \<open>\<open>RB_RANK\<close> of the diagnostic build, without augmented data to verify.\<close>

partial_function (option) RB_RANK :: "rbmem \<Rightarrow> nat option \<Rightarrow> int option" where
  "RB_RANK m elm =
     (case elm of
        None \<Rightarrow> Some 0
      | Some a \<Rightarrow>
          do {
            rl \<leftarrow> RB_RANK m (rbe_link m DL a);
            rr \<leftarrow> RB_RANK m (rbe_link m DR a);
            let left_rank = (if snd (rbe_up m a) DL then 2 else 1) + rl;
                right_rank = (if snd (rbe_up m a) DR then 2 else 1) + rr
            in if left_rank \<noteq> right_rank \<or> (left_rank = 2 \<and> rbe_link m DL a = None \<and> rbe_link m DR a = None) then Some (- 1)
               else Some left_rank
          })"

declare RB_INSERT_COLOR.simps [code] insert_descent.simps [code] descend.simps [code] remove_color_loop.simps [code]
  outermost.simps [code] find_loop.simps [code] nfind_loop.simps [code] climb.simps [code] minmax_walk.simps [code]
  rb_for.simps [code] rb_for_safe.simps [code] RB_RANK.simps [code]


end
