(* ===== verification/Tree_Rank_Rep.thy ===== *)
theory Tree_Rank_Rep
  imports Tree_Rank
begin

text \<open>
  Rank-balanced trees in memory. A tree (\<open>rtree\<close>) has an element and the two marks in each node; \<open>mk d x a b y\<close> is the node whose child in
  direction \<open>d\<close> is \<open>x\<close>, so that a statement about both directions is one statement. \<open>rb_at\<close> says that memory holds a tree, with its
  parent pointers, and \<open>rb_ctx\<close> that it holds the path from a place in the tree to the root, with the subtrees beside it. The lemmas
  say what the macros do to trees and paths; \<open>same\<close> is the memory they leave alone.
\<close>

datatype rtree = E | N rtree nat bits rtree

fun inord :: "rtree \<Rightarrow> nat list" where
  "inord E = []"
| "inord (N l a b r) = inord l @ a # inord r"

fun mk :: "dir \<Rightarrow> rtree \<Rightarrow> nat \<Rightarrow> bits \<Rightarrow> rtree \<Rightarrow> rtree" where
  "mk DL x a b y = N x a b y"
| "mk DR x a b y = N y a b x"

fun root_ptr :: "rtree \<Rightarrow> nat option" where
  "root_ptr E = None"
| "root_ptr (N l a b r) = Some a"

fun rb_at :: "rbmem \<Rightarrow> nat option \<Rightarrow> nat option \<Rightarrow> rtree \<Rightarrow> bool" where
  "rb_at m up p E \<longleftrightarrow> p = None"
| "rb_at m up p (N l a b r) \<longleftrightarrow> p = Some a \<and> rbe_up m a = (up, b) \<and> rb_at m (Some a) (rbe_link m DL a) l \<and> rb_at m (Some a) (rbe_link m DR a) r"

type_synonym ctx = "(dir \<times> nat \<times> bits \<times> rtree) list"

fun rb_ctx :: "rbmem \<Rightarrow> nat option \<Rightarrow> nat option \<Rightarrow> ctx \<Rightarrow> bool" where
  "rb_ctx m p up [] \<longleftrightarrow> up = None \<and> rbh_root m = p"
| "rb_ctx m p up ((d, a, b, s) # cs) \<longleftrightarrow>
     up = Some a \<and> rbe_link m d a = p \<and> rb_at m (Some a) (rbe_link m (opp d) a) s \<and> snd (rbe_up m a) = b \<and> rb_ctx m (Some a) (fst (rbe_up m a)) cs"

fun plug :: "rtree \<Rightarrow> ctx \<Rightarrow> rtree" where
  "plug t [] = t"
| "plug t ((d, a, b, s) # cs) = plug (mk d t a b s) cs"

fun ctx_nodes :: "ctx \<Rightarrow> nat list" where
  "ctx_nodes [] = []"
| "ctx_nodes ((d, a, b, s) # cs) = a # inord s @ ctx_nodes cs"

section \<open>Directions\<close>

lemma opp_simps [simp]: "opp (opp d) = d" "opp d \<noteq> d" "d \<noteq> opp d"
  by (cases d; simp)+

lemma dir_cases: "d' = d \<or> d' = opp d"
  by (cases d; cases d') simp_all

lemma all_dir: "(\<forall>d'. P d') \<longleftrightarrow> P d \<and> P (opp d)"
  using dir_cases by metis

lemma bits_eqI: "b d = c d \<Longrightarrow> b (opp d) = c (opp d) \<Longrightarrow> b = (c :: bits)"
  using all_dir [of "\<lambda>d. b d = c d" d] by auto

lemma mk_simps [simp]:
  "set (inord (mk d x a b y)) = insert a (set (inord x) \<union> set (inord y))"
  "distinct (inord (mk d x a b y)) \<longleftrightarrow> distinct (a # inord x @ inord y)"
  "root_ptr (mk d x a b y) = Some a"
  "mk d x a b y \<noteq> E"
  "rb_at m up p (mk d x a b y) \<longleftrightarrow> p = Some a \<and> rbe_up m a = (up, b) \<and> rb_at m (Some a) (rbe_link m d a) x \<and> rb_at m (Some a) (rbe_link m (opp d) a) y"
  by (cases d; auto)+

lemma mk_opp: "mk (opp d) x a b y = mk d y a b x"
  by (cases d) simp_all

lemma mk_exhaust: "t = E \<or> (\<exists>x a b y. t = mk d x a b y)"
  by (cases t; cases d) auto

lemma rb_at_ptr: "rb_at m up p t \<Longrightarrow> p = root_ptr t"
  by (cases t) auto

lemma root_ptr_mem: "root_ptr t = Some a \<Longrightarrow> a \<in> set (inord t)"
  by (cases t) auto

lemma root_ptr_None [simp]: "root_ptr t = None \<longleftrightarrow> t = E"
  by (cases t) auto

section \<open>Memory that is left alone\<close>

definition same :: "nat set \<Rightarrow> rbmem \<Rightarrow> rbmem \<Rightarrow> bool" where
  "same A m m' \<longleftrightarrow> (\<forall>a \<in> A. rbe_up m' a = rbe_up m a \<and> (\<forall>d. rbe_link m' d a = rbe_link m d a))"

lemma same_refl [simp]: "same A m m"
  by (simp add: same_def)

lemma same_trans: "same A m m1 \<Longrightarrow> same A m1 m2 \<Longrightarrow> same A m m2"
  by (simp add: same_def)

lemma same_mono: "same A m m' \<Longrightarrow> B \<subseteq> A \<Longrightarrow> same B m m'"
  by (auto simp: same_def)

lemma same_at: "same (set (inord t)) m m' \<Longrightarrow> rb_at m' up p t = rb_at m up p t"
  by (induction t arbitrary: up p) (auto simp: same_def)

lemma same_ctx: "same (set (ctx_nodes cs)) m m' \<Longrightarrow> rbh_root m' = rbh_root m \<Longrightarrow> rb_ctx m' p up cs = rb_ctx m p up cs"
proof (induction cs arbitrary: p up)
  case (Cons f cs)
  obtain d a b s where f: "f = (d, a, b, s)" by (metis prod_cases4)
  have "same (set (inord s)) m m'" "same (set (ctx_nodes cs)) m m'" "rbe_up m' a = rbe_up m a" "rbe_link m' d a = rbe_link m d a"
    "rbe_link m' (opp d) a = rbe_link m (opp d) a"
    using Cons.prems(1) by (auto simp: f same_def)
  then show ?case using Cons.IH Cons.prems(2) same_at by (simp add: f)
qed simp

lemma set_up_simps [simp]:
  "rbe_up (set_up a w m) = (rbe_up m)(a := w)" "rbe_link (set_up a w m) = rbe_link m" "rbh_root (set_up a w m) = rbh_root m"
  by (simp_all add: set_up_def)

lemma set_link_simps [simp]:
  "rbe_up (set_link d a p m) = rbe_up m" "rbe_link (set_link d a p m) = (rbe_link m)(d := (rbe_link m d)(a := p))" "rbh_root (set_link d a p m) = rbh_root m"
  by (simp_all add: set_link_def)

lemma same_set [simp]:
  "a \<notin> A \<Longrightarrow> same A m (set_up a w m)" "a \<notin> A \<Longrightarrow> same A m (set_link d a p m)"
  by (auto simp: same_def)

lemma SET_PARENT_eq: "RB_SET_PARENT a (untagged p) m = set_up a (p, snd (rbe_up m a)) m"
  by (simp add: RB_SET_PARENT_def untagged_def)

section \<open>Places in a tree\<close>

lemma plug_at: "rb_at m None (rbh_root m) (plug t cs) \<longleftrightarrow> (\<exists>p up. rb_at m up p t \<and> rb_ctx m p up cs)"
proof (induction cs arbitrary: t)
  case (Cons f cs)
  obtain d a b s where f: "f = (d, a, b, s)" by (metis prod_cases4)
  show ?case unfolding f plug.simps Cons.IH rb_ctx.simps mk_simps by (metis prod.collapse fst_conv snd_conv)
qed auto

definition rb_loc :: "rbmem \<Rightarrow> nat option \<Rightarrow> rtree \<Rightarrow> ctx \<Rightarrow> bool" where
  "rb_loc m up t cs \<longleftrightarrow> rb_at m up (root_ptr t) t \<and> rb_ctx m (root_ptr t) up cs \<and> distinct (inord t @ ctx_nodes cs)"

lemma set_plug: "set (inord (plug t cs)) = set (inord t) \<union> set (ctx_nodes cs)"
proof (induction cs arbitrary: t)
  case (Cons f cs)
  obtain d a b s where f: "f = (d, a, b, s)" by (metis prod_cases4)
  show ?case unfolding f plug.simps Cons.IH by auto
qed simp

lemma distinct_plug: "distinct (inord (plug t cs)) \<longleftrightarrow> distinct (inord t @ ctx_nodes cs)"
proof (induction cs arbitrary: t)
  case (Cons f cs)
  obtain d a b s where f: "f = (d, a, b, s)" by (metis prod_cases4)
  show ?case unfolding f plug.simps Cons.IH by auto
qed simp

definition rb_tree :: "rbmem \<Rightarrow> rtree \<Rightarrow> bool" where
  "rb_tree m t \<longleftrightarrow> rb_at m None (rbh_root m) t \<and> distinct (inord t)"

lemma rb_tree_loc: "rb_tree m (plug t cs) \<longleftrightarrow> (\<exists>up. rb_loc m up t cs)"
  unfolding rb_tree_def rb_loc_def plug_at distinct_plug using rb_at_ptr by blast

lemma rb_loc_tree: "rb_loc m up t cs \<Longrightarrow> rb_tree m (plug t cs)"
  using rb_tree_loc by blast

lemma rb_loc_up: "rb_loc m up t ((d, a, b, s) # cs) \<longleftrightarrow> up = Some a \<and> rb_loc m (fst (rbe_up m a)) (mk d t a b s) cs"
proof -
  have "rb_at m (Some a) (root_ptr t) t \<and> rbe_link m d a = root_ptr t \<longleftrightarrow> rb_at m (Some a) (rbe_link m d a) t \<and> rbe_link m d a = root_ptr t"
    by auto
  moreover have "rb_at m (Some a) (rbe_link m d a) t \<Longrightarrow> rbe_link m d a = root_ptr t" by (rule rb_at_ptr)
  ultimately show ?thesis by (auto simp: rb_loc_def prod_eq_iff)
qed

section \<open>What the macros do to trees\<close>

lemma set_up_idem: "set_up a (rbe_up m a) m = m"
  by (simp add: set_up_def)

text \<open>A tree whose root gets another parent.\<close>

lemma reparent:
  assumes "rb_at m up p t" and "distinct (inord t)" and "root_ptr t = Some c"
  shows "rb_at (set_up c (up', snd (rbe_up m c)) m) up' p t"
proof (cases t)
  case (N l a b r)
  then have "c = a" "a \<notin> set (inord l)" "a \<notin> set (inord r)" using assms by auto
  then show ?thesis using assms(1) N same_at [of l m "set_up c (up', snd (rbe_up m c)) m"] same_at [of r m "set_up c (up', snd (rbe_up m c)) m"] by auto
qed (use assms in simp)

text \<open>\<open>RB_SWAP_CHILD\<close> puts another tree at a place; it reads and writes only the path.\<close>

lemma SWAP_CHILD_ctx:
  assumes "rb_ctx m (Some old) up cs" and "old \<notin> set (ctx_nodes cs)" and "distinct (ctx_nodes cs)"
  shows "rb_ctx (RB_SWAP_CHILD up old p m) p up cs" "same (- set (ctx_nodes cs)) m (RB_SWAP_CHILD up old p m)"
proof -
  have "rb_ctx (RB_SWAP_CHILD up old p m) p up cs \<and> same (- set (ctx_nodes cs)) m (RB_SWAP_CHILD up old p m)"
  proof (cases cs)
    case Nil
    then show ?thesis using assms(1) by (simp add: RB_SWAP_CHILD_def same_def)
  next
    case (Cons f cs')
    obtain d a b s where f: "f = (d, a, b, s)" by (metis prod_cases4)
    let ?m = "set_link d a p m"
    have s: "rb_at m (Some a) (rbe_link m (opp d) a) s" "rbe_link m d a = Some old" "up = Some a" using assms(1) by (simp_all add: Cons f)
    have ne: "rbe_link m (opp d) a \<noteq> Some old" using rb_at_ptr [OF s(1)] root_ptr_mem assms(2) by (auto simp: Cons f)
    then have sw: "RB_SWAP_CHILD up old p m = ?m" using s(2,3) by (cases d) (auto simp: RB_SWAP_CHILD_def)
    have "same (set (inord s)) m ?m" "same (set (ctx_nodes cs')) m ?m" using assms(3) by (auto simp: Cons f intro!: same_set)
    then have "rb_ctx ?m p up cs" using assms(1) same_at [of s m ?m] same_ctx [of cs' m ?m] by (simp add: Cons f)
    moreover have "same (- set (ctx_nodes cs)) m ?m" by (auto simp: Cons f intro!: same_set)
    ultimately show ?thesis unfolding sw by blast
  qed
  then show "rb_ctx (RB_SWAP_CHILD up old p m) p up cs" "same (- set (ctx_nodes cs)) m (RB_SWAP_CHILD up old p m)" by simp_all
qed

text \<open>
  \<open>RB_ROTATE a e (opp d)\<close>: \<open>e\<close>, with subtrees \<open>x\<close> in direction \<open>d\<close> and \<open>y\<close> in the other, gets \<open>a\<close> as a child; \<open>a\<close> gets \<open>y\<close> in direction \<open>d\<close> and keeps
  its subtree \<open>s\<close> in the other. What was below \<open>a\<close> in direction \<open>d\<close>, and the parent of \<open>e\<close>, does not matter.
\<close>

lemma ROTATE_parts:
  assumes "rb_at m (Some e) (rbe_link m d e) x" and "rb_at m (Some e) (rbe_link m (opp d) e) y" and "rb_at m (Some a) (rbe_link m (opp d) a) s"
    and "distinct (a # e # inord x @ inord y @ inord s)"
  defines "m' \<equiv> RB_ROTATE a e (opp d) m"
  shows "rb_at m' (Some e) (rbe_link m' d e) x" "rbe_link m' (opp d) e = Some a" "rb_at m' (Some e) (Some a) (mk d y a (snd (rbe_up m a)) s)"
    "rbe_up m' e = rbe_up m e" "same (- insert a (insert e (set (inord y)))) m m'" "rbh_root m' = rbh_root m"
proof -
  let ?m1 = "set_link d a (rbe_link m (opp d) e) m"
  let ?m2 = "case root_ptr y of None \<Rightarrow> ?m1 | Some c \<Rightarrow> set_up c (Some a, snd (rbe_up m c)) ?m1"
  have yp: "rbe_link m (opp d) e = root_ptr y" using rb_at_ptr assms(2) by blast
  have ne: "a \<noteq> e" "a \<notin> set (inord y)" "e \<notin> set (inord y)" using assms(4) by auto
  have m': "m' = set_up a (Some e, snd (rbe_up ?m2 a)) (set_link (opp d) e (Some a) ?m2)"
    using ne(1) yp by (auto simp: m'_def RB_ROTATE_def Let_def SET_PARENT_eq split: option.split)
  have root: "c \<in> set (inord y)" if "root_ptr y = Some c" for c using root_ptr_mem that by blast
  have up2: "rbe_up ?m2 b = rbe_up m b" if "b \<notin> set (inord y)" for b using root that by (auto split: option.split)
  have link2: "rbe_link ?m2 = rbe_link ?m1" "rbh_root ?m2 = rbh_root m" by (auto split: option.split)
  have y2: "rb_at ?m2 (Some a) (rbe_link m (opp d) e) y"
  proof (cases "root_ptr y")
    case None
    then show ?thesis using assms(2) yp by (cases y) auto
  next
    case (Some c)
    have "rb_at ?m1 (Some e) (rbe_link m (opp d) e) y" using assms(2) same_at [of y m ?m1] ne(2) by simp
    from reparent [OF this _ Some, of "Some a"] show ?thesis using assms(4) Some by simp
  qed
  have keep: "same (- insert a (insert e (set (inord y)))) m m'" using root by (auto simp: same_def m' link2 split: option.split)
  then show "same (- insert a (insert e (set (inord y)))) m m'" .
  have "same (set (inord y)) ?m2 m'" using ne by (auto simp: same_def m' link2)
  then have ya: "rb_at m' (Some a) (rbe_link m (opp d) e) y" using y2 same_at by blast
  have x: "same (set (inord x)) m m'" and s: "same (set (inord s)) m m'" using assms(4) by (auto intro!: same_mono [OF keep])
  have ld: "rbe_link m' d e = rbe_link m d e" using ne(1) by (simp add: m' link2)
  show "rb_at m' (Some e) (rbe_link m' d e) x" using assms(1) same_at [OF x] ld by simp
  show "rbe_link m' (opp d) e = Some a" by (simp add: m')
  have la: "rbe_link m' d a = rbe_link m (opp d) e" "rbe_link m' (opp d) a = rbe_link m (opp d) a" using ne(1) by (simp_all add: m' link2)
  show "rb_at m' (Some e) (Some a) (mk d y a (snd (rbe_up m a)) s)"
    using ya assms(3) same_at [OF s] la up2 [OF ne(2)] by (simp add: m')
  show "rbe_up m' e = rbe_up m e" using up2 [OF ne(3)] ne(1) by (simp add: m')
  show "rbh_root m' = rbh_root m" by (simp add: m' link2)
qed

lemma ROTATE_up:
  fixes up :: "nat option" and b :: bits
  assumes "rb_at m (Some e) (rbe_link m d e) x" and "rb_at m (Some e) (rbe_link m (opp d) e) y" and "rb_at m (Some a) (rbe_link m (opp d) a) s"
    and "distinct (a # e # inord x @ inord y @ inord s)"
  defines "m' \<equiv> set_up e (up, b) (RB_ROTATE a e (opp d) m)"
  shows "rb_at m' up (Some e) (mk d x e b (mk d y a (snd (rbe_up m a)) s))" "same (- insert a (insert e (set (inord y)))) m m'" "rbh_root m' = rbh_root m"
proof -
  let ?m = "RB_ROTATE a e (opp d) m"
  note r = ROTATE_parts [OF assms(1-4)]
  have x: "same (set (inord x)) ?m m'" and a: "same (set (inord (mk d y a (snd (rbe_up m a)) s))) ?m m'"
    using assms(4) by (auto simp: m'_def intro!: same_set(1))
  have "rb_at m' (Some e) (rbe_link m' d e) x" using r(1) same_at [OF x] by (simp add: m'_def)
  moreover have "rbe_link m' (opp d) e = Some a" using r(2) by (simp add: m'_def)
  moreover have "rb_at m' (Some e) (Some a) (mk d y a (snd (rbe_up m a)) s)" by (rule iffD2 [OF same_at [OF a] r(3)])
  moreover have "rbe_up m' e = (up, b)" by (simp add: m'_def)
  ultimately show "rb_at m' up (Some e) (mk d x e b (mk d y a (snd (rbe_up m a)) s))" by simp
  show "same (- insert a (insert e (set (inord y)))) m m'" using r(5) by (auto simp: same_def m'_def)
  show "rbh_root m' = rbh_root m" using r(6) by (simp add: m'_def)
qed

text \<open>A rotation at the top of a place: the macro, the new parent pointer and the new child pointer.\<close>

lemma ROTATE_at_place:
  fixes b :: bits
  assumes "rb_at m (Some e) (rbe_link m d e) x" and "rb_at m (Some e) (rbe_link m (opp d) e) y" and "rb_at m (Some a) (rbe_link m (opp d) a) s"
    and "rb_ctx m (Some a) up cs" and "distinct (a # e # inord x @ inord y @ inord s @ ctx_nodes cs)"
  defines "m' \<equiv> RB_SWAP_CHILD up a (Some e) (set_up e (up, b) (RB_ROTATE a e (opp d) m))"
  shows "rb_loc m' up (mk d x e b (mk d y a (snd (rbe_up m a)) s)) cs"
proof -
  let ?m = "set_up e (up, b) (RB_ROTATE a e (opp d) m)" and ?t = "mk d x e b (mk d y a (snd (rbe_up m a)) s)"
  have di: "distinct (a # e # inord x @ inord y @ inord s)" using assms(5) by auto
  note r = ROTATE_up [where up = up and b = b, OF assms(1-3) di]
  have cn: "same (set (ctx_nodes cs)) m ?m" using assms(5) by (auto intro!: same_mono [OF r(2)])
  then have "rb_ctx ?m (Some a) up cs" using same_ctx r(3) assms(4) by blast
  from SWAP_CHILD_ctx [OF this, of "Some e"] assms(5)
  have sw: "rb_ctx m' (Some e) up cs" "same (- set (ctx_nodes cs)) ?m m'" by (auto simp: m'_def)
  have "same (set (inord ?t)) ?m m'" using assms(5) by (intro same_mono [OF sw(2)]) auto
  then have "rb_at m' up (Some e) ?t" using r(1) same_at by blast
  then show ?thesis using sw(1) assms(5) by (auto simp: rb_loc_def)
qed

text \<open>New marks on a node, at the top of a tree and next to a place.\<close>

lemma set_bits_at:
  assumes "rb_at m up p (mk d x a b y)" and "distinct (inord (mk d x a b y))"
  shows "rb_at (set_up a (up', b') m) up' p (mk d x a b' y)"
  using assms same_at [of x m "set_up a (up', b') m"] same_at [of y m "set_up a (up', b') m"] by auto

lemma set_bits_loc:
  assumes "rb_loc m up t ((d, a, b, s) # cs)"
  shows "rb_loc (set_up a (fst (rbe_up m a), b') m) up t ((d, a, b', s) # cs)"
proof -
  let ?m = "set_up a (fst (rbe_up m a), b') m"
  have "same (set (inord t)) m ?m" "same (set (inord s)) m ?m" "same (set (ctx_nodes cs)) m ?m"
    using assms by (auto simp: rb_loc_def intro!: same_set)
  then show ?thesis using assms same_at [of t m ?m] same_at [of s m ?m] same_ctx [of cs m ?m] by (auto simp: rb_loc_def)
qed

section \<open>Ranks\<close>

fun edge :: "bool \<Rightarrow> nat" where
  "edge red = (if red then 2 else 1)"

fun rk :: "rtree \<Rightarrow> nat" where
  "rk E = 0"
| "rk (N l a b r) = rk l + edge (b DL)"

text \<open>The rank is the same along both edges, and a leaf has rank 1.\<close>

fun balanced :: "rtree \<Rightarrow> bool" where
  "balanced E \<longleftrightarrow> True"
| "balanced (N l a b r) \<longleftrightarrow>
     rk l + edge (b DL) = rk r + edge (b DR) \<and> \<not> (l = E \<and> r = E \<and> b DL) \<and> balanced l \<and> balanced r"

lemma balanced_mk:
  "balanced (mk d x a b y) \<longleftrightarrow> rk x + edge (b d) = rk y + edge (b (opp d)) \<and> \<not> (x = E \<and> y = E \<and> b d) \<and> balanced x \<and> balanced y"
  by (cases d) (auto split: if_splits)

lemma rk_mk: "rk x + edge (b d) = rk y + edge (b (opp d)) \<Longrightarrow> rk (mk d x a b y) = rk x + edge (b d)"
  by (cases d) auto

lemma rk_0: "rk t = 0 \<longleftrightarrow> t = E"
  by (cases t) auto

lemma inord_mk: "inord (mk d x a b y) = (if d = DL then inord x @ a # inord y else inord y @ a # inord x)"
  by (cases d) auto

text \<open>A path whose hole takes a tree of rank \<open>n\<close>.\<close>

fun ctx_bal :: "nat \<Rightarrow> ctx \<Rightarrow> bool" where
  "ctx_bal n [] \<longleftrightarrow> True"
| "ctx_bal n ((d, a, b, s) # cs) \<longleftrightarrow>
     n + edge (b d) = rk s + edge (b (opp d)) \<and> \<not> (n = 0 \<and> s = E \<and> b d) \<and> balanced s \<and> ctx_bal (n + edge (b d)) cs"

lemma balanced_plug: "balanced (plug t cs) \<longleftrightarrow> balanced t \<and> ctx_bal (rk t) cs"
proof (induction cs arbitrary: t)
  case (Cons f cs)
  obtain d a b s where f: "f = (d, a, b, s)" by (metis prod_cases4)
  show ?case unfolding f plug.simps Cons.IH balanced_mk ctx_bal.simps rk_0 using rk_mk [where d = d and x = t and b = b and y = s] by metis
qed simp

text \<open>The in-order sequence of a plugged tree depends only on the sequence of the tree.\<close>

lemma inord_plug_cong: "inord t = inord t' \<Longrightarrow> inord (plug t cs) = inord (plug t' cs)"
proof (induction cs arbitrary: t t')
  case (Cons f cs)
  obtain d a b s where f: "f = (d, a, b, s)" by (metis prod_cases4)
  have "inord (mk d t a b s) = inord (mk d t' a b s)" using Cons.prems by (simp add: inord_mk)
  then show ?case unfolding f plug.simps by (rule Cons.IH)
qed simp

text \<open>The elements before and after a place.\<close>

fun seqL :: "ctx \<Rightarrow> nat list" where
  "seqL [] = []"
| "seqL ((d, a, b, s) # cs) = seqL cs @ (if d = DL then [] else inord s @ [a])"

fun seqR :: "ctx \<Rightarrow> nat list" where
  "seqR [] = []"
| "seqR ((d, a, b, s) # cs) = (if d = DL then a # inord s else []) @ seqR cs"

lemma inord_plug: "inord (plug t cs) = seqL cs @ inord t @ seqR cs"
proof (induction cs arbitrary: t)
  case (Cons f cs)
  obtain d a b s where f: "f = (d, a, b, s)" by (metis prod_cases4)
  show ?case unfolding f plug.simps Cons.IH by (simp add: inord_mk)
qed simp

text \<open>The place as a pointer to a child field.\<close>

fun slot_of :: "ctx \<Rightarrow> slot" where
  "slot_of [] = None"
| "slot_of ((d, a, b, s) # cs) = Some (a, d)"

lemma slot_get_loc: "rb_loc m up t cs \<Longrightarrow> slot_get (slot_of cs) m = root_ptr t"
  by (cases cs) (auto simp: rb_loc_def slot_get_def)

lemma rb_loc_down: "rb_loc m up (mk d x a b y) cs \<Longrightarrow> rb_loc m (Some a) x ((d, a, b, y) # cs)"
  unfolding rb_loc_up by (auto simp: rb_loc_def)

section \<open>Rebalancing\<close>

text \<open>The direction of an element below its parent, as the functions compute it.\<close>

lemma elmdir_eq:
  assumes "rb_loc m up t ((d, a, b, s) # cs)" and "t \<noteq> E \<or> s \<noteq> E"
  shows "(if rbe_link m DR a = root_ptr t then DR else DL) = d"
proof -
  have l: "rbe_link m d a = root_ptr t" "rbe_link m (opp d) a = root_ptr s" using assms(1) rb_at_ptr by (auto simp: rb_loc_def)
  have "root_ptr s \<noteq> root_ptr t"
  proof
    assume eq: "root_ptr s = root_ptr t"
    then obtain c where "root_ptr t = Some c" using assms(2) by (cases "root_ptr t") auto
    then have "c \<in> set (inord t)" "c \<in> set (inord s)" using root_ptr_mem eq by auto
    then show False using assms(1) by (auto simp: rb_loc_def)
  qed
  then show ?thesis using l by (cases d) auto
qed

text \<open>The result of rebalancing: a balanced tree with the same in-order sequence.\<close>

definition rebalanced :: "rtree \<Rightarrow> (nat option \<times> rbmem) tres \<Rightarrow> bool" where
  "rebalanced t r \<longleftrightarrow> (\<exists>x m' t'. r = Some (Inr (x, m')) \<and> rb_tree m' t' \<and> balanced t' \<and> inord t' = inord t)"

lemma rebalancedI:
  assumes "rb_loc m' up t' cs" and "balanced t'" and "ctx_bal (rk t') cs" and "inord t' = inord t"
  shows "rebalanced (plug t cs) (Some (Inr (x, m')))"
proof -
  have "rb_tree m' (plug t' cs)" using rb_loc_tree [OF assms(1)] .
  moreover have "balanced (plug t' cs)" using balanced_plug assms(2,3) by blast
  moreover have "inord (plug t' cs) = inord (plug t cs)" using inord_plug_cong [OF assms(4)] .
  ultimately show ?thesis by (auto simp: rebalanced_def)
qed


end
