(* ===== verification/Tree_Rank_Insert.thy ===== *)
theory Tree_Rank_Insert
  imports Tree_Rank_Rep
begin

text \<open>
  Insertion into rank-balanced trees: the rebalancing loop \<open>RB_INSERT_COLOR\<close> works its way up the path from the new leaf. At each round the tree at
  the place has one rank more than the path expects; the loop ends, keeps the in-order sequence and makes the tree balanced.
\<close>

section \<open>Rebalancing\<close>

text \<open>
  The tree that grew: the new leaf, or a node whose rank was raised, with \<open>child\<close> the root of its subtree that grew in the round before.
\<close>

definition grown :: "rtree \<Rightarrow> nat option \<Rightarrow> bool" where
  "grown t child \<longleftrightarrow> rk t = 1 \<or> (\<exists>d x e b y. t = mk d x e b y \<and> x \<noteq> E \<and> \<not> b d \<and> b (opp d) \<and> child = root_ptr x)"

text \<open>One unfolding of the loop at a place, with the direction known.\<close>

lemma INSERT_COLOR_step:
  assumes "rb_loc m (Some a) t ((d, a, b, s) # cs)" and "root_ptr t = Some e"
  shows "RB_INSERT_COLOR a e child m =
    (if b d then Some (Inr (None, set_up a (fst (rbe_up m a), b(d := False)) m))
     else if \<not> b (opp d) then
       (case fst (rbe_up m a) of
          None \<Rightarrow> Some (Inr (None, set_up a (fst (rbe_up m a), b(opp d := True)) m))
        | Some g \<Rightarrow> RB_INSERT_COLOR g a (Some e) (set_up a (fst (rbe_up m a), b(opp d := True)) m))
     else
       (let gp = fst (rbe_up m a);
            m2 = set_up a (gp, \<lambda>_. False) m
        in if snd (rbe_up m2 e) d then
             (case child of
                None \<Rightarrow> Some (Inl NullDeref)
              | Some c \<Rightarrow>
                  (let m3 = RB_ROTATE e c d m2;
                       child_up = rbe_up m3 c;
                       m4 = (if snd child_up (opp d) then set_up a (xor_dir d (rbe_up m3 a)) m3 else m3);
                       m5 = (if snd child_up d then set_up e (xor_both (rbe_up m4 e)) m4 else set_up e (xor_dir d (rbe_up m4 e)) m4)
                   in Some (Inr (Some c, insert_rotate a c gp (opp d) m5))))
           else Some (Inr (Some e, insert_rotate a e gp (opp d) m2))))"
proof -
  have t: "t \<noteq> E" using assms(2) by auto
  have d: "(if rbe_link m DR a = Some e then DR else DL) = d" using elmdir_eq [OF assms(1)] t assms(2) by simp
  have b: "snd (rbe_up m a) = b" using assms(1) by (auto simp: rb_loc_def)
  have nb: "no_bits (rbe_up m a) \<longleftrightarrow> \<not> b d \<and> \<not> b (opp d)" using b by (cases d) (auto simp: no_bits_def)
  have s2: "set_up a (untagged p) (set_up a w m) = set_up a (p, \<lambda>_. False) m" for p w by (simp add: set_up_def untagged_def)
  show ?thesis
    by (subst RB_INSERT_COLOR.simps) (simp add: d b nb s2 Let_def RB_PTR_def xor_dir_def split: option.split)
qed

text \<open>The single rotation: \<open>y\<close> moves from \<open>e\<close> to \<open>a\<close>.\<close>

lemma insert_single:
  assumes "rb_loc m (Some a) (mk d x e eb y) ((d, a, b, s) # cs)"
  defines "m' \<equiv> insert_rotate a e (fst (rbe_up m a)) (opp d) (set_up a (fst (rbe_up m a), \<lambda>_. False) m)"
  shows "rb_loc m' (fst (rbe_up m a)) (mk d x e (\<lambda>_. False) (mk d y a (\<lambda>_. False) s)) cs"
proof -
  let ?gp = "fst (rbe_up m a)"
  let ?m = "set_up a (?gp, \<lambda>_. False) m"
  have l: "rb_loc ?m (Some a) (mk d x e eb y) ((d, a, \<lambda>_. False, s) # cs)" by (rule set_bits_loc [OF assms(1)])
  then have p: "rb_at ?m (Some e) (rbe_link ?m d e) x" "rb_at ?m (Some e) (rbe_link ?m (opp d) e) y" "rb_at ?m (Some a) (rbe_link ?m (opp d) a) s"
    "rb_ctx ?m (Some a) ?gp cs" "distinct (a # e # inord x @ inord y @ inord s @ ctx_nodes cs)" by (auto simp: rb_loc_def)
  have "snd (rbe_up ?m a) = (\<lambda>_. False)" by simp
  with ROTATE_at_place [OF p, of "\<lambda>_. False"] show ?thesis
    by (simp add: m'_def insert_rotate_def untagged_def Let_def del: mk_simps)
qed

text \<open>The double rotation: the subtrees \<open>zd\<close> and \<open>zo\<close> of \<open>c\<close> are shared out between \<open>e\<close> and \<open>a\<close>.\<close>

lemma insert_double:
  fixes zb be ba :: bits
  assumes "rb_loc m (Some a) (mk d w e eb (mk d zd c zb zo)) ((d, a, b, s) # cs)" and "eb d" and "\<not> eb (opp d)"
  defines "m2 \<equiv> set_up a (fst (rbe_up m a), \<lambda>_. False) m"
  defines "m3 \<equiv> RB_ROTATE e c d m2"
  defines "m4 \<equiv> (if snd (rbe_up m3 c) (opp d) then set_up a (xor_dir d (rbe_up m3 a)) m3 else m3)"
  defines "m5 \<equiv> (if snd (rbe_up m3 c) d then set_up e (xor_both (rbe_up m4 e)) m4 else set_up e (xor_dir d (rbe_up m4 e)) m4)"
  defines "ba \<equiv> (\<lambda>_. False)(d := zb (opp d))"
  defines "be \<equiv> (\<lambda>_. False)(opp d := zb d)"
  shows "rb_loc (insert_rotate a c (fst (rbe_up m a)) (opp d) m5) (fst (rbe_up m a))
    (mk d (mk d w e be zd) c (\<lambda>_. False) (mk d zo a ba s)) cs"
proof -
  let ?gp = "fst (rbe_up m a)"
  have di: "distinct (a # e # c # inord w @ inord zd @ inord zo @ inord s @ ctx_nodes cs)" using assms(1) by (auto simp: rb_loc_def)
  have "rb_loc m2 (Some a) (mk d w e eb (mk d zd c zb zo)) ((d, a, \<lambda>_. False, s) # cs)" unfolding m2_def by (rule set_bits_loc [OF assms(1)])
  then have p: "rb_at m2 (Some c) (rbe_link m2 (opp d) c) zo" "rb_at m2 (Some c) (rbe_link m2 d c) zd" "rb_at m2 (Some e) (rbe_link m2 d e) w"
    "rb_at m2 (Some a) (rbe_link m2 (opp d) a) s" "rb_ctx m2 (Some a) ?gp cs" "rbe_up m2 e = (Some a, eb)" "rbe_up m2 c = (Some e, zb)"
    by (auto simp: rb_loc_def m2_def)
  have ea: "rbe_up m2 a = (?gp, \<lambda>_. False)" by (simp add: m2_def)
  have d1: "distinct (e # c # inord zo @ inord zd @ inord w)" using di by auto
  note r = ROTATE_parts [where d = "opp d" and m = m2 and e = c and a = e and x = zo and y = zd and s = w, unfolded opp_simps(1), OF p(1-3) d1, folded m3_def]
  have out: "b \<notin> insert e (insert c (set (inord zd))) \<Longrightarrow> rbe_up m3 b = rbe_up m2 b \<and> rbe_link m3 d' b = rbe_link m2 d' b" for b d'
    using r(5) by (auto simp: same_def)
  have a3: "rbe_up m3 a = (?gp, \<lambda>_. False)" using out [of a] di ea by simp
  have c3: "rbe_up m3 c = (Some e, zb)" using r(4) p(7) by simp
  have e3: "rbe_up m3 e = (Some c, eb)" using r(3) p(6) by simp
  have "xor_both (Some c, eb) = (Some c, (\<lambda>_. False)(opp d := True))" "xor_dir d (Some c, eb) = (Some c, \<lambda>_. False)"
    using assms(2,3) by (auto simp: xor_both_def xor_dir_def intro: bits_eqI [of _ d])
  then have be: "(if zb d then xor_both (Some c, eb) else xor_dir d (Some c, eb)) = (Some c, be)"
    by (auto simp: be_def intro: bits_eqI [of _ "opp d"])
  have m4: "m4 = set_up a (?gp, ba) m3"
  proof (cases "zb (opp d)")
    case True
    then have "xor_dir d (rbe_up m3 a) = (?gp, ba)" using a3 by (simp add: xor_dir_def ba_def)
    then show ?thesis using True c3 by (simp add: m4_def)
  next
    case False
    then have "(?gp, ba) = rbe_up m3 a" using a3 by (auto simp: ba_def intro: bits_eqI [of _ d])
    then show ?thesis using False c3 set_up_idem [of a m3] by (simp add: m4_def)
  qed
  have "rbe_up m4 e = (Some c, eb)" using e3 di by (simp add: m4)
  then have m5: "m5 = set_up e (Some c, be) (set_up a (?gp, ba) m3)" using be c3 m4 unfolding m5_def by (simp split: if_splits)
  have fr: "same (- {a, e}) m3 m5" by (auto simp: m5 same_def)
  have f: "same (set (inord t)) m3 m5" if "a \<notin> set (inord t)" "e \<notin> set (inord t)" for t using that by (auto intro!: same_mono [OF fr])
  have q: "rb_at m5 (Some c) (rbe_link m5 d c) (mk d w e be zd)"
    using r(2,3) same_at [OF f [of w]] same_at [OF f [of zd]] di by (simp add: m5)
  have "rb_at m5 (Some c) (rbe_link m5 (opp d) c) zo" using r(1) same_at [OF f [of zo]] di by (simp add: m5)
  moreover have "same (set (inord s)) m2 m3" "same (set (ctx_nodes cs)) m2 m3" using di by (auto intro!: same_mono [OF r(5)])
  then have "rb_at m3 (Some a) (rbe_link m3 (opp d) a) s" "rb_ctx m3 (Some a) ?gp cs"
    using p(4,5) same_at [of s m2 m3] same_ctx [of cs m2 m3] r(6) out [of a "opp d"] di by auto
  then have "rb_at m5 (Some a) (rbe_link m5 (opp d) a) s" "rb_ctx m5 (Some a) ?gp cs"
    using same_at [OF f [of s]] same_ctx [of cs m3 m5] di same_mono [OF fr, of "set (ctx_nodes cs)"] by (auto simp: m5)
  moreover have "distinct (a # c # inord (mk d w e be zd) @ inord zo @ inord s @ ctx_nodes cs)" using di by auto
  moreover have "snd (rbe_up m5 a) = ba" using di by (simp add: m5)
  ultimately show ?thesis
    using ROTATE_at_place [OF q, of zo a s ?gp cs "\<lambda>_. False"] by (simp add: insert_rotate_def untagged_def Let_def del: mk_simps)
qed

text \<open>The ranks work out in each case; \<open>r + 1\<close> is the rank of the tree that grew, \<open>r\<close> the rank the path expects.\<close>

lemma grown_nodes:
  assumes "grown t child" and "balanced t" and "rk t \<noteq> 1"
  obtains (outer) x e eb y where "t = mk d x e eb y" "\<not> eb d" "eb (opp d)" "balanced x" "balanced y" "rk t = rk x + 1" "rk x = rk y + 1" "x \<noteq> E"
  | (inner) w e eb zd c zb zo where "t = mk d w e eb (mk d zd c zb zo)" "eb d" "\<not> eb (opp d)" "child = Some c" "balanced w" "balanced (mk d zd c zb zo)"
      "rk t = rk (mk d zd c zb zo) + 1" "rk (mk d zd c zb zo) = rk w + 1"
proof -
  obtain d1 x e b y where t: "t = mk d1 x e b y" "x \<noteq> E" "\<not> b d1" "b (opp d1)" "child = root_ptr x" using assms(1,3) by (auto simp: grown_def)
  then have bal: "balanced x" "balanced y" "rk x + 1 = rk y + 2" "rk t = rk x + 1"
    using assms(2) rk_mk [of x b d1 y e] by (auto simp: balanced_mk)
  show thesis
  proof (cases "d1 = d")
    case True
    then show thesis using outer [of x e b y] t bal by auto
  next
    case False
    then have d1: "d1 = opp d" using dir_cases by blast
    obtain zd c zb zo where x: "x = mk d zd c zb zo" using mk_exhaust [of x d] t(2) by auto
    show thesis using inner [of y e b zd c zb zo] t bal by (auto simp: d1 mk_opp x simp del: mk_simps(5))
  qed
qed

lemma INSERT_COLOR_ends:
  assumes "rb_loc m (Some a) t ((d, a, b, s) # cs)" and "root_ptr t = Some e" and "balanced t" and "rk t = n + 1" and "ctx_bal n ((d, a, b, s) # cs)" and "grown t child"
    and "b d \<or> b (opp d)"
  shows "rebalanced (plug t ((d, a, b, s) # cs)) (RB_INSERT_COLOR a e child m)"
proof -
  note step = INSERT_COLOR_step [OF assms(1,2), of child]
  have cb: "n + edge (b d) = rk s + edge (b (opp d))" "balanced s" "ctx_bal (n + edge (b d)) cs" using assms(5) unfolding ctx_bal.simps by blast+
  consider (long) "b d" | (rotate) "\<not> b d" "b (opp d)" using assms(7) by blast
  then show ?thesis
  proof cases
    case long
    let ?m = "set_up a (fst (rbe_up m a), b(d := False)) m"
    have l: "rb_loc ?m (Some a) t ((d, a, b(d := False), s) # cs)" by (rule set_bits_loc [OF assms(1)])
    then have "rb_loc ?m (fst (rbe_up ?m a)) (mk d t a (b(d := False)) s) cs" by (simp only: rb_loc_up)
    moreover have "rk t + edge False = rk s + edge (b (opp d))" using cb(1) assms(4) long by simp
    then have "balanced (mk d t a (b(d := False)) s)" "rk (mk d t a (b(d := False)) s) = n + edge (b d)"
      using cb(2) assms(3,4) long rk_mk [of t "b(d := False)" d s a] by (auto simp: balanced_mk)
    moreover have "inord (mk d t a (b(d := False)) s) = inord (mk d t a b s)" by (simp add: inord_mk)
    ultimately show ?thesis using rebalancedI [of ?m _ _ cs] cb(3) step long by (simp del: edge.simps)
  next
    case rotate
    then have n: "n = rk s + 1" using cb(1) by simp
    have ne: "rk t \<noteq> 1" using assms(4) n by simp
    show ?thesis
    proof (cases rule: grown_nodes [where d = d, OF assms(6,3) ne, case_names outer inner])
      case (outer x e' eb y)
      have e: "e' = e" using assms(2) outer(1) by simp
      let ?t = "mk d x e (\<lambda>_. False) (mk d y a (\<lambda>_. False) s)"
      have "rbe_up m e = (Some a, eb)" "a \<noteq> e" using assms(1) outer(1) e by (auto simp: rb_loc_def)
      then have "\<exists>m'. RB_INSERT_COLOR a e child m = Some (Inr (Some e, m')) \<and> rb_loc m' (fst (rbe_up m a)) ?t cs"
        using step rotate outer(2) insert_single [OF assms(1) [unfolded outer(1) e]] by (simp add: Let_def del: mk_simps)
      moreover have "rk (mk d y a (\<lambda>_. False) s) = rk y + 1" using outer(5-7) n assms(4) rk_mk [of y "\<lambda>_. False" d s a] by simp
      then have "balanced ?t" "rk ?t = n + 1" using outer n assms(4) cb(2) rk_mk [of x "\<lambda>_. False" d "mk d y a (\<lambda>_. False) s" e] by (auto simp: balanced_mk)
      moreover have "inord ?t = inord (mk d t a b s)" by (simp add: inord_mk outer(1) e)
      ultimately show ?thesis using rebalancedI [of _ _ ?t cs "mk d t a b s"] cb(3) rotate(1) by auto
    next
      case (inner w e' eb zd c zb zo)
      have e: "e' = e" using assms(2) inner(1) by simp
      let ?be = "(\<lambda>_. False)(opp d := zb d)" and ?ba = "(\<lambda>_. False)(d := zb (opp d))" and ?z = "mk d zd c zb zo"
      let ?t = "mk d (mk d w e ?be zd) c (\<lambda>_. False) (mk d zo a ?ba s)"
      have "rbe_up m e = (Some a, eb)" "a \<noteq> e" using assms(1) inner(1) e by (auto simp: rb_loc_def)
      then have "\<exists>m'. RB_INSERT_COLOR a e child m = Some (Inr (Some c, m')) \<and> rb_loc m' (fst (rbe_up m a)) ?t cs"
        using step rotate inner(2,4) insert_double [OF assms(1) [unfolded inner(1) e] inner(2,3)] by (simp add: Let_def del: mk_simps)
      moreover have z: "rk zd + edge (zb d) = n" "rk zo + edge (zb (opp d)) = n" "balanced zd" "balanced zo" "rk w + 1 = n" "rk s + 1 = n"
        using inner(6-8) rk_mk [of zd zb d zo c] n assms(4) by (auto simp: balanced_mk simp del: edge.simps)
      have ranks: "rk (mk d w e ?be zd) = n" "rk (mk d zo a ?ba s) = n"
        using z rk_mk [of w ?be d zd e] rk_mk [of zo ?ba d s a] by simp_all
      have "\<not> (zo = E \<and> s = E \<and> zb (opp d))" using z(2,6) by auto
      then have "balanced (mk d w e ?be zd)" "balanced (mk d zo a ?ba s)" 
        using z inner(5) cb(2) by (auto simp: balanced_mk)
      then have "balanced ?t" "rk ?t = n + 1" using ranks rk_mk [of "mk d w e ?be zd" "\<lambda>_. False" d "mk d zo a ?ba s" c] by (simp_all add: balanced_mk)
      moreover have "inord ?t = inord (mk d t a b s)" by (simp add: inord_mk inner(1) e)
      ultimately show ?thesis using rebalancedI [of _ _ ?t cs "mk d t a b s"] cb(3) rotate(1) by auto
    qed
  qed
qed

text \<open>The remaining case raises the rank of the parent and goes on from there.\<close>

lemma INSERT_COLOR_raise:
  assumes "rb_loc m (Some a) t ((d, a, b, s) # cs)" and "root_ptr t = Some e" and "balanced t" and "rk t = n + 1" and "ctx_bal n ((d, a, b, s) # cs)"
    and "\<not> b d" and "\<not> b (opp d)"
  defines "m1 \<equiv> set_up a (fst (rbe_up m a), b(opp d := True)) m" and "t1 \<equiv> mk d t a (b(opp d := True)) s"
  shows "RB_INSERT_COLOR a e child m = (case fst (rbe_up m a) of None \<Rightarrow> Some (Inr (None, m1)) | Some g \<Rightarrow> RB_INSERT_COLOR g a (Some e) m1)"
    "rb_loc m1 (fst (rbe_up m a)) t1 cs" "balanced t1" "rk t1 = (n + 1) + 1" "ctx_bal (n + 1) cs" "grown t1 (Some e)" "inord t1 = inord (mk d t a b s)"
proof -
  show "RB_INSERT_COLOR a e child m = (case fst (rbe_up m a) of None \<Rightarrow> Some (Inr (None, m1)) | Some g \<Rightarrow> RB_INSERT_COLOR g a (Some e) m1)"
    using INSERT_COLOR_step [OF assms(1,2), of child] assms(6,7) unfolding m1_def by (simp split: option.split)
  have "rb_loc m1 (Some a) t ((d, a, b(opp d := True), s) # cs)" unfolding m1_def by (rule set_bits_loc [OF assms(1)])
  then show "rb_loc m1 (fst (rbe_up m a)) t1 cs" unfolding rb_loc_up t1_def by (simp add: m1_def del: mk_simps)
  have cb: "n = rk s" "balanced s" "ctx_bal (n + 1) cs" using assms(5-7) by auto
  then show "ctx_bal (n + 1) cs" by simp
  show "balanced t1" "rk t1 = (n + 1) + 1"
    using cb assms(3,4,6) rk_mk [of t "b(opp d := True)" d s a] by (auto simp: t1_def balanced_mk)
  have "t \<noteq> E" using assms(4) by auto
  then show "grown t1 (Some e)" using assms(2,6) unfolding grown_def t1_def by (metis fun_upd_apply opp_simps(2))
  show "inord t1 = inord (mk d t a b s)" by (simp add: t1_def inord_mk)
qed

lemma INSERT_COLOR_correct:
  assumes "rb_loc m (Some a) t ((d, a, b, s) # cs)" and "root_ptr t = Some e" and "balanced t" and "rk t = n + 1" and "ctx_bal n ((d, a, b, s) # cs)" and "grown t child"
  shows "rebalanced (plug t ((d, a, b, s) # cs)) (RB_INSERT_COLOR a e child m)"
  using assms
proof (induction cs arbitrary: m a t d b s e n child)
  case Nil
  show ?case
  proof (cases "b d \<or> b (opp d)")
    case True
    then show ?thesis using INSERT_COLOR_ends Nil by blast
  next
    case False
    then have nb: "\<not> b d" "\<not> b (opp d)" by auto
    note r = INSERT_COLOR_raise [OF Nil(1-5) nb]
    have "fst (rbe_up m a) = None" using Nil(1) by (simp add: rb_loc_def)
    then show ?thesis using r(1) [of child] rebalancedI [OF r(2,3) _ r(7)] by simp
  qed
next
  case (Cons f cs)
  obtain d' a' b' s' where f: "f = (d', a', b', s')" by (metis prod_cases4)
  show ?case
  proof (cases "b d \<or> b (opp d)")
    case True
    then show ?thesis using INSERT_COLOR_ends Cons.prems by blast
  next
    case False
    then have nb: "\<not> b d" "\<not> b (opp d)" by auto
    note r = INSERT_COLOR_raise [OF Cons.prems(1-5) nb]
    have up: "fst (rbe_up m a) = Some a'" using Cons.prems(1) by (simp add: rb_loc_def f)
    have "root_ptr (mk d t a (b(opp d := True)) s) = Some a" by simp
    from Cons.IH [OF r(2) [unfolded f up] this r(3,4) r(5) [unfolded f] r(6)] show ?thesis
      using r(1) [of child] up inord_plug_cong [OF r(7), of "(d', a', b', s') # cs"] by (simp add: f rebalanced_def)
  qed
qed

section \<open>Finding the place\<close>

lemma insert_descent_loc:
  assumes "cmp_by key cmp" and "rb_loc m up t cs" and "strictly_sorted key (inord t)"
    and "\<forall>x \<in> set (seqL cs). key x < key elm" and "\<forall>x \<in> set (seqR cs). key elm < key x"
  shows "(\<exists>p \<in> set (inord t). key p = key elm \<and> insert_descent cmp elm m up (slot_of cs) = Some (Inl p)) \<or>
    (\<exists>up' cs'. insert_descent cmp elm m up (slot_of cs) = Some (Inr (up', slot_of cs')) \<and> rb_loc m up' E cs' \<and> plug E cs' = plug t cs \<and>
       (\<forall>x \<in> set (seqL cs'). key x < key elm) \<and> (\<forall>x \<in> set (seqR cs'). key elm < key x))"
  using assms
proof (induction t arbitrary: up cs)
  case E
  then show ?case using slot_get_loc [OF E(2)] by (subst (1 2) insert_descent.simps) auto
next
  case (N l a b r)
  have g: "slot_get (slot_of cs) m = Some a" using slot_get_loc [OF N.prems(2)] by simp
  have dl: "rb_loc m (Some a) l ((DL, a, b, r) # cs)" and dr: "rb_loc m (Some a) r ((DR, a, b, l) # cs)"
    using rb_loc_down [of m up DL l a b r cs] rb_loc_down [of m up DR r a b l cs] N.prems(2) by simp_all
  have ord: "strictly_sorted key (inord l)" "strictly_sorted key (inord r)" "\<forall>x \<in> set (inord l). key x < key a" "\<forall>x \<in> set (inord r). key a < key x"
    using N.prems(3) by simp_all
  consider (lt) "key elm < key a" | (gt) "key a < key elm" | (eq) "key elm = key a" by (rule linorder_cases)
  then show ?case
  proof cases
    case lt
    have *: "\<forall>x \<in> set (seqL ((DL, a, b, r) # cs)). key x < key elm" "\<forall>x \<in> set (seqR ((DL, a, b, r) # cs)). key elm < key x"
      using N.prems(4,5) lt ord(4) by (auto intro: less_trans)
    have "insert_descent cmp elm m up (slot_of cs) = insert_descent cmp elm m (Some a) (slot_of ((DL, a, b, r) # cs))"
      using g lt cmp_byD [OF N.prems(1)] by (subst insert_descent.simps) simp
    then show ?thesis using N.IH(1) [OF N.prems(1) dl ord(1) *] by auto
  next
    case gt
    have *: "\<forall>x \<in> set (seqL ((DR, a, b, l) # cs)). key x < key elm" "\<forall>x \<in> set (seqR ((DR, a, b, l) # cs)). key elm < key x"
      using N.prems(4,5) gt ord(3) by (auto intro: less_trans)
    have "insert_descent cmp elm m up (slot_of cs) = insert_descent cmp elm m (Some a) (slot_of ((DR, a, b, l) # cs))"
      using g gt less_not_sym [OF gt] cmp_byD [OF N.prems(1)] by (subst insert_descent.simps) simp
    then show ?thesis using N.IH(2) [OF N.prems(1) dr ord(2) *] by auto
  next
    case eq
    then have "insert_descent cmp elm m up (slot_of cs) = Some (Inl a)"
      using g cmp_byD [OF N.prems(1)] by (subst insert_descent.simps) simp
    then show ?thesis using eq by auto
  qed
qed

section \<open>Putting the element at its place\<close>

lemma INSERT_FINISH_loc:
  assumes "rb_loc m up E cs" and "elm \<notin> set (ctx_nodes cs)"
  shows "rb_loc (slot_set (slot_of cs) (Some elm) (RB_SET elm up m)) up (N E elm (\<lambda>_. False) E) cs"
proof -
  let ?m = "RB_SET elm up m"
  have sm: "same (set (ctx_nodes cs)) m ?m" "rbh_root ?m = rbh_root m" using assms(2) by (auto simp: RB_SET_def same_def)
  then have c: "rb_ctx ?m None up cs" using assms(1) same_ctx [OF sm] by (simp add: rb_loc_def)
  have e: "rbe_up ?m elm = (up, \<lambda>_. False)" "rbe_link ?m d elm = None" for d by (cases d; simp add: RB_SET_def untagged_def)+
  show ?thesis
  proof (cases cs)
    case Nil
    then show ?thesis using c e by (simp add: rb_loc_def slot_set_def)
  next
    case (Cons f cs')
    obtain d a b s where f: "f = (d, a, b, s)" by (metis prod_cases4)
    let ?n = "set_link d a (Some elm) ?m"
    have di: "elm \<noteq> a" "distinct (a # inord s @ ctx_nodes cs')" "elm \<notin> set (inord s)" "elm \<notin> set (ctx_nodes cs')"
      using assms by (auto simp: rb_loc_def Cons f)
    then have "same (set (inord s)) ?m ?n" "same (set (ctx_nodes cs')) ?m ?n" by (auto intro!: same_set)
    then show ?thesis
      using c e di same_at [of s ?m ?n] same_ctx [of cs' ?m ?n] by (auto simp: rb_loc_def slot_set_def Cons f)
  qed
qed

lemma INSERT_FINISH_correct:
  assumes "rb_loc m up E cs" and "elm \<notin> set (ctx_nodes cs)" and "ctx_bal 0 cs"
  shows "\<exists>m' t'. RB_INSERT_FINISH up (slot_of cs) elm m = Some (Inr (None, m')) \<and> rb_tree m' t' \<and> balanced t' \<and> inord t' = seqL cs @ elm # seqR cs"
proof -
  let ?m = "slot_set (slot_of cs) (Some elm) (RB_SET elm up m)" and ?t = "N E elm (\<lambda>_. False) E"
  have l: "rb_loc ?m up ?t cs" by (rule INSERT_FINISH_loc [OF assms(1,2)])
  have pl: "inord (plug ?t cs) = seqL cs @ elm # seqR cs" by (simp add: inord_plug)
  show ?thesis
  proof (cases cs)
    case Nil
    then have "up = None" using assms(1) by (simp add: rb_loc_def)
    moreover have "rb_tree ?m ?t" using rb_loc_tree [OF l] Nil by simp
    ultimately show ?thesis using Nil by (auto simp: RB_INSERT_FINISH_def Let_def intro!: exI [of _ ?t])
  next
    case (Cons f cs')
    obtain d a b s where f: "f = (d, a, b, s)" by (metis prod_cases4)
    have up: "up = Some a" using assms(1) by (simp add: rb_loc_def Cons f)
    have "rebalanced (plug ?t cs) (RB_INSERT_COLOR a elm None ?m)"
      using INSERT_COLOR_correct [OF l [unfolded Cons f up], of elm 0 None] assms(3) [unfolded Cons f]
      unfolding Cons f up grown_def by (simp del: ctx_bal.simps plug.simps)
    then show ?thesis using pl by (auto simp: RB_INSERT_FINISH_def Let_def up rebalanced_def)
  qed
qed

text \<open>The elements of a rank-balanced tree.\<close>

definition rb_elems :: "(nat \<Rightarrow> 'k::linorder) \<Rightarrow> rbmem \<Rightarrow> nat list \<Rightarrow> bool" where
  "rb_elems key m xs \<longleftrightarrow> strictly_sorted key xs \<and> (\<exists>t. rb_tree m t \<and> balanced t \<and> inord t = xs)"

lemma RB_INSERT_law:
  assumes "cmp_by key cmp" and "rb_elems key m xs" and "elm \<notin> set xs"
  shows "\<exists>m'. RB_INSERT cmp m elm = Some (Inr (find_key key elm xs, m')) \<and> rb_elems key m' (insert_seq key elm xs)"
proof -
  obtain t where t: "rb_tree m t" "balanced t" "inord t = xs" and st: "strictly_sorted key xs" using assms(2) by (auto simp: rb_elems_def)
  obtain up where l: "rb_loc m up t []" using rb_tree_loc [of m t "[]"] t(1) by auto
  then have "up = None" by (simp add: rb_loc_def)
  then have "rb_loc m None t []" using l by simp
  from insert_descent_loc [OF assms(1) this, of elm] t(3) st
  consider (found) p where "p \<in> set xs" "key p = key elm" "insert_descent cmp elm m None None = Some (Inl p)"
    | (place) up' cs' where "insert_descent cmp elm m None None = Some (Inr (up', slot_of cs'))" "rb_loc m up' E cs'" "plug E cs' = t"
       "\<forall>x \<in> set (seqL cs'). key x < key elm" "\<forall>x \<in> set (seqR cs'). key elm < key x"
    by auto
  then show ?thesis
  proof cases
    case found
    then have "find_key key elm xs = Some p" using find_key_Some [OF st] by simp
    then show ?thesis using found(3) assms(2) by (simp add: RB_INSERT_def insert_seq_def)
  next
    case place
    have xs: "xs = seqL cs' @ seqR cs'" using inord_plug [of E cs'] place(3) t(3) by simp
    have cb: "ctx_bal 0 cs'" using t(2) balanced_plug [of E cs'] place(3) by simp
    have ni: "elm \<notin> set (ctx_nodes cs')" using set_plug [of E cs'] place(3) t(3) assms(3) by auto
    obtain m' t' where m': "RB_INSERT_FINISH up' (slot_of cs') elm m = Some (Inr (None, m'))" "rb_tree m' t'" "balanced t'"
      "inord t' = seqL cs' @ elm # seqR cs'" using INSERT_FINISH_correct [OF place(2) ni cb] by blast
    have none: "find_key key elm xs = None" using find_key_None [of key elm xs] place(4,5) xs by auto
    then have seq: "insert_seq key elm xs = inord t'" using insort_key_split [OF place(4,5)] m'(4) xs by (simp add: insert_seq_def)
    then have "rb_elems key m' (insert_seq key elm xs)" using m'(2,3) strictly_sorted_insert [OF st, of elm] by (auto simp: rb_elems_def)
    then show ?thesis using place(1) m'(1) none by (simp add: RB_INSERT_def)
  qed
qed

end
