(* ===== verification/Tree_Rank_Remove.thy ===== *)
theory Tree_Rank_Remove
  imports Tree_Rank_Insert
begin

text \<open>
  Removal from rank-balanced trees. At each round of the loop \<open>remove_color_loop\<close> the tree at the place has one rank less than the path expects; the loop
  ends, keeps the in-order sequence and makes the tree balanced. \<open>RB_REMOVE\<close> takes an element with two children out by putting its
  successor in its place.
\<close>

section \<open>Rebalancing after a removal\<close>

text \<open>One unfolding of the loop at a place, with the direction known.\<close>

lemma remove_color_step:
  assumes "rb_loc m (Some a) t ((d, a, b, s) # cs)" and "t \<noteq> E \<or> s \<noteq> E"
  defines "gp \<equiv> fst (rbe_up m a)"
  shows "remove_color_loop a (root_ptr t) m =
    (if \<not> b d then Some (Inr (None, set_up a (gp, b(d := True)) m))
     else if b (opp d) then
       (let m1 = set_up a (gp, b(opp d := False)) m
        in case gp of None \<Rightarrow> Some (Inr (None, m1)) | Some g \<Rightarrow> remove_color_loop g (Some a) m1)
     else
       (case root_ptr s of
          None \<Rightarrow> Some (Inl NullDeref)
        | Some sib \<Rightarrow>
            (let sb = snd (rbe_up m sib)
             in if sb d \<and> sb (opp d) then
                  (let m1 = set_up sib (fst (rbe_up m sib), \<lambda>_. False) m
                   in case gp of None \<Rightarrow> Some (Inr (None, m1)) | Some g \<Rightarrow> remove_color_loop g (Some a) m1)
                else if sb (opp d) then
                  (case rbe_link m d sib of
                     None \<Rightarrow> Some (Inl NullDeref)
                   | Some e \<Rightarrow>
                       (let m1 = RB_ROTATE sib e (opp d) m;
                            eup = rbe_up m1 e;
                            m2 = set_up a ((if snd eup d then xor_both else xor_dir d) (rbe_up m1 a)) m1;
                            m3 = set_up sib ((if snd eup (opp d) then xor_both else xor_dir (opp d)) (rbe_up m2 sib)) m2;
                            m4 = set_up e (fst (rbe_up m3 e), \<lambda>_. True) m3
                        in Some (Inr (Some a, remove_rotate a e (untagged gp) d m4))))
                else
                  (let m1 = (if sb d then set_up sib (xor_dir (opp d) (rbe_up m sib)) (set_up a (xor_dir d (rbe_up m a)) m)
                             else set_up sib (xor_dir (opp d) (rbe_up m sib)) m)
                   in Some (Inr (Some a, remove_rotate a sib (untagged gp) d m1))))))"
proof -
  have d: "(if rbe_link m DR a = root_ptr t then DR else DL) = d" using elmdir_eq [OF assms(1,2)] .
  have b: "snd (rbe_up m a) = b" and s: "rbe_link m (opp d) a = root_ptr s" using assms(1) rb_at_ptr by (auto simp: rb_loc_def)
  have nb: "no_bits w \<longleftrightarrow> \<not> snd w d \<and> \<not> snd w (opp d)" for w by (cases d) (auto simp: no_bits_def)
  have gpar: "xor_dir d (rbe_up m a) = (gp, b(d := \<not> b d))" using b by (simp add: xor_dir_def gp_def)
  have both: "xor_both (gp, b(d := False)) = (gp, b(opp d := False))" if "b d" "b (opp d)"
    using that by (auto simp: xor_both_def intro: bits_eqI [of _ d])
  have clean: "(gp, b(d := \<not> b d)) = untagged gp" if "b d" "\<not> b (opp d)" using that by (auto simp: untagged_def intro: bits_eqI [of _ d])
  have sib: "xor_both w = (fst w, \<lambda>_. False)" if "snd w d" "snd w (opp d)" for w using that by (auto simp: xor_both_def intro: bits_eqI [of _ d])
  have sx: "snd (xor_both w) x \<longleftrightarrow> \<not> snd w x" for w x by (simp add: xor_both_def)
  consider (short) "\<not> b d" | (long) "b d" "b (opp d)" | (sibling) "b d" "\<not> b (opp d)" by blast
  then show ?thesis
  proof cases
    case short
    then show ?thesis by (subst remove_color_loop.simps) (simp add: d gpar Let_def)
  next
    case long
    then show ?thesis by (subst remove_color_loop.simps) (simp add: d gpar both [OF long] nb Let_def RB_PTR_def)
  next
    case sibling
    note c = gpar [unfolded clean [OF sibling]]
    have u: "snd (untagged gp) x \<longleftrightarrow> False" "fst (untagged gp) = gp" for x by (simp_all add: untagged_def)
    show ?thesis
    proof (cases "root_ptr s")
      case None
      then show ?thesis using sibling by (subst remove_color_loop.simps) (simp add: d c u s nb Let_def)
    next
      case (Some sb)
      show ?thesis
      proof (cases "snd (rbe_up m sb) d \<and> snd (rbe_up m sb) (opp d)")
        case True
        then show ?thesis using sibling Some by (subst remove_color_loop.simps) (simp add: d c u s nb sib Let_def)
      next
        case False
        then show ?thesis using sibling Some
          by (subst remove_color_loop.simps) (auto simp: d c u s nb sx Let_def split: option.split)
      qed
    qed
  qed
qed

text \<open>The rotation at the end of the loop: \<open>e\<close>, with \<open>x\<close> in direction \<open>d\<close> and \<open>q\<close> in the other, goes above \<open>a\<close>, which keeps \<open>t\<close> in direction \<open>d\<close>.\<close>

lemma remove_rotate_loc:
  assumes "rb_at m (Some e) (rbe_link m d e) x" and "rb_at m (Some e) (rbe_link m (opp d) e) q" and "rb_at m (Some a) (rbe_link m d a) t"
    and "rb_ctx m (Some a) gp cs" and "distinct (a # e # inord x @ inord q @ inord t @ ctx_nodes cs)"
  shows "rb_loc (remove_rotate a e (untagged gp) d m) gp (mk d (mk d t a (snd (rbe_up m a)) x) e (snd (rbe_up m e)) q) cs"
proof -
  have di: "distinct (a # e # inord q @ inord x @ inord t @ ctx_nodes cs)" "distinct (a # e # inord q @ inord x @ inord t)" using assms(5) by auto
  have up: "rbe_up (RB_ROTATE a e d m) e = rbe_up m e"
    using ROTATE_parts(4) [where d = "opp d" and m = m and e = e and a = a and x = q and y = x and s = t, unfolded opp_simps(1), OF assms(2,1,3) di(2)] .
  from ROTATE_at_place [where d = "opp d" and m = m and e = e and a = a and x = q and y = x and s = t, unfolded opp_simps(1), OF assms(2,1,3,4) di(1), of "snd (rbe_up m e)"]
  show ?thesis by (simp add: remove_rotate_def Let_def SET_PARENT_eq up mk_opp untagged_def RB_SET_PARENT_def del: mk_simps)
qed

text \<open>
  The rounds. \<open>n\<close> is the rank the path expects, the tree at the place has rank \<open>n - 1\<close>. Either the round ends the loop with a balanced tree, or the tree
  one step up is balanced and has one rank less than expected there.
\<close>

definition lowered :: "rbmem \<Rightarrow> nat \<Rightarrow> rtree \<Rightarrow> nat option \<Rightarrow> nat \<Rightarrow> ctx \<Rightarrow> (nat option \<times> rbmem) tres \<Rightarrow> rtree \<Rightarrow> bool" where
  "lowered m a u gp n cs r t1 \<longleftrightarrow>
     (\<exists>m1. r = (case gp of None \<Rightarrow> Some (Inr (None, m1)) | Some g \<Rightarrow> remove_color_loop g (Some a) m1) \<and>
       rb_loc m1 gp t1 cs \<and> balanced t1 \<and> rk t1 + 1 = n \<and> root_ptr t1 = Some a \<and> inord t1 = inord u)"

lemma remove_lengthen:
  assumes "rb_loc m (Some a) t ((d, a, b, s) # cs)" and "t \<noteq> E \<or> s \<noteq> E" and "balanced t" and "ctx_bal (rk t + 1) ((d, a, b, s) # cs)" and "\<not> b d"
  shows "rebalanced (plug t ((d, a, b, s) # cs)) (remove_color_loop a (root_ptr t) m)"
proof -
  let ?m = "set_up a (fst (rbe_up m a), b(d := True)) m" and ?t = "mk d t a (b(d := True)) s"
  have cb: "rk t + 1 + edge (b d) = rk s + edge (b (opp d))" "balanced s" "ctx_bal (rk t + 1 + edge (b d)) cs"
    using assms(4) unfolding ctx_bal.simps by blast+
  have "rb_loc ?m (Some a) t ((d, a, b(d := True), s) # cs)" by (rule set_bits_loc [OF assms(1)])
  then have "rb_loc ?m (fst (rbe_up ?m a)) ?t cs" by (simp only: rb_loc_up)
  moreover have "balanced ?t" "rk ?t = rk t + 1 + edge (b d)"
    using cb(1,2) assms(2,3,5) rk_mk [of t "b(d := True)" d s a] by (auto simp: balanced_mk)
  moreover have "inord ?t = inord (mk d t a b s)" by (simp add: inord_mk)
  ultimately show ?thesis
    using rebalancedI [of ?m _ ?t cs "mk d t a b s"] cb(3) remove_color_step [OF assms(1,2)] assms(5) by (simp del: edge.simps)
qed

lemma remove_lower_parent:
  assumes "rb_loc m (Some a) t ((d, a, b, s) # cs)" and "t \<noteq> E \<or> s \<noteq> E" and "balanced t" and "ctx_bal (rk t + 1) ((d, a, b, s) # cs)" and "b d" and "b (opp d)"
  shows "\<exists>t1. lowered m a (mk d t a b s) (fst (rbe_up m a)) (rk t + 1 + edge (b d)) cs (remove_color_loop a (root_ptr t) m) t1"
proof -
  let ?m = "set_up a (fst (rbe_up m a), b(opp d := False)) m" and ?t = "mk d t a (b(opp d := False)) s"
  have cb: "rk t + 1 + edge (b d) = rk s + edge (b (opp d))" "balanced s" using assms(4) unfolding ctx_bal.simps by blast+
  have "rb_loc ?m (Some a) t ((d, a, b(opp d := False), s) # cs)" by (rule set_bits_loc [OF assms(1)])
  then have "rb_loc ?m (fst (rbe_up m a)) ?t cs" unfolding rb_loc_up by (simp del: mk_simps)
  moreover have "s \<noteq> E" using cb(1) assms(5,6) by auto
  then have "balanced ?t" "rk ?t + 1 = rk t + 1 + edge (b d)"
    using cb assms(3,5,6) rk_mk [of t "b(opp d := False)" d s a] by (auto simp: balanced_mk)
  moreover have "inord ?t = inord (mk d t a b s)" by (simp add: inord_mk)
  ultimately show ?thesis
    using remove_color_step [OF assms(1,2)] assms(5,6) unfolding lowered_def
    by (intro exI [of _ ?t] exI [of _ ?m]) (simp add: Let_def del: edge.simps)
qed

text \<open>The sibling in the last case: it has children, and its rank is one more than \<open>n\<close>.\<close>

lemma remove_sibling:
  assumes "rb_loc m (Some a) t ((d, a, b, s) # cs)" and "ctx_bal (rk t + 1) ((d, a, b, s) # cs)" and "b d" and "\<not> b (opp d)"
  obtains p sib sb q where "s = mk d p sib sb q" "balanced p" "balanced q" "rk p + edge (sb d) = rk t + 2" "rk q + edge (sb (opp d)) = rk t + 2"
    "rbe_up m sib = (Some a, sb)" "rbe_link m d sib = root_ptr p" "rb_at m (Some sib) (rbe_link m d sib) p" "rb_at m (Some sib) (rbe_link m (opp d) sib) q"
    "rb_at m (Some a) (rbe_link m d a) t" "rb_ctx m (Some a) (fst (rbe_up m a)) cs" "distinct (a # sib # inord p @ inord q @ inord t @ ctx_nodes cs)"
    "s \<noteq> E" "root_ptr s = Some sib"
proof -
  have cb: "rk t + 1 + edge (b d) = rk s + edge (b (opp d))" "balanced s" using assms(2) unfolding ctx_bal.simps by blast+
  then have rs: "rk s = rk t + 2" using assms(3,4) by simp
  then have "s \<noteq> E" by auto
  then obtain p sib sb q where s: "s = mk d p sib sb q" using mk_exhaust by blast
  have bal: "rk p + edge (sb d) = rk q + edge (sb (opp d))" "balanced p" "balanced q" using cb(2) s by (simp_all add: balanced_mk del: edge.simps)
  then have r: "rk p + edge (sb d) = rk t + 2" "rk q + edge (sb (opp d)) = rk t + 2" using s rs rk_mk [of p sb d q sib] by (simp_all del: edge.simps)
  have mem: "rbe_up m sib = (Some a, sb)" "rb_at m (Some sib) (rbe_link m d sib) p" "rb_at m (Some sib) (rbe_link m (opp d) sib) q"
    "rb_at m (Some a) (rbe_link m d a) t" "rb_ctx m (Some a) (fst (rbe_up m a)) cs" "distinct (a # sib # inord p @ inord q @ inord t @ ctx_nodes cs)"
    using assms(1) s by (auto simp: rb_loc_def)
  have "root_ptr s = Some sib" using s by simp
  then show thesis by (rule that [OF s bal(2,3) r mem(1) rb_at_ptr [OF mem(2)] mem(2-6) \<open>s \<noteq> E\<close>])
qed

lemma remove_lower_sibling:
  assumes "rb_loc m (Some a) t ((d, a, b, s) # cs)" and "balanced t" and "ctx_bal (rk t + 1) ((d, a, b, s) # cs)" and "b d" and "\<not> b (opp d)"
    and "s = mk d p sib sb q" and "sb d" and "sb (opp d)"
  shows "\<exists>t1. lowered m a (mk d t a b s) (fst (rbe_up m a)) (rk t + 1 + edge (b d)) cs (remove_color_loop a (root_ptr t) m) t1"
proof -
  let ?s = "mk d p sib (\<lambda>_. False) q"
  let ?m = "set_up sib (Some a, \<lambda>_. False) m" and ?t = "mk d t a b ?s"
  have cb: "rk t + 1 + edge (b d) = rk s + edge (b (opp d))" "balanced s" using assms(3) unfolding ctx_bal.simps by blast+
  have l: "rb_at m (Some a) (root_ptr t) t" "rb_at m (Some a) (rbe_link m (opp d) a) s" "rbe_link m d a = root_ptr t" "snd (rbe_up m a) = b"
    "rb_ctx m (Some a) (fst (rbe_up m a)) cs" "distinct (a # sib # inord p @ inord q @ inord t @ ctx_nodes cs)" "rbe_up m sib = (Some a, sb)"
    using assms(1,6) by (auto simp: rb_loc_def)
  have "rb_at ?m (Some a) (rbe_link ?m (opp d) a) ?s" using set_bits_at [OF l(2) [unfolded assms(6)], of "Some a" "\<lambda>_. False"] l(6) by (simp del: mk_simps(5)) auto
  moreover have "same (set (inord t)) m ?m" "same (set (ctx_nodes cs)) m ?m" using l(6) by (auto intro!: same_set)
  ultimately have loc: "rb_loc ?m (fst (rbe_up m a)) ?t cs"
    using l same_at [of t m ?m] same_ctx [of cs m ?m] unfolding rb_loc_def mk_simps(3) by (auto simp: prod_eq_iff)
  have r: "rk p = rk q" "balanced p" "balanced q" "rk p = rk t" using cb assms(4-8) rk_mk [of p sb d q sib] by (auto simp: balanced_mk)
  then have "rk ?s = rk t + 1" "balanced ?s" using rk_mk [of p "\<lambda>_. False" d q sib] by (simp_all add: balanced_mk)
  then have "balanced ?t" "rk ?t + 1 = rk t + 1 + edge (b d)" using assms(2,4,5) rk_mk [of t b d ?s a] by (auto simp: balanced_mk)
  moreover have "inord ?t = inord (mk d t a b s)" by (simp add: inord_mk assms(6))
  moreover have "s \<noteq> E" using assms(6) by simp
  ultimately show ?thesis
    using loc remove_color_step [OF assms(1), of] assms(4-8) l(7) unfolding lowered_def
    by (intro exI [of _ ?t] exI [of _ ?m]) (simp add: Let_def del: edge.simps)
qed

lemma ctx_bal_up: "ctx_bal n ((d, a, b, s) # cs) \<Longrightarrow> b d \<Longrightarrow> ctx_bal (n + 2) cs"
  by auto

lemma remove_single:
  assumes "rb_loc m (Some a) t ((d, a, b, s) # cs)" and "balanced t" and "ctx_bal (rk t + 1) ((d, a, b, s) # cs)" and "b d" and "\<not> b (opp d)"
    and "s = mk d p sib sb q" and "\<not> sb (opp d)"
  shows "rebalanced (plug t ((d, a, b, s) # cs)) (remove_color_loop a (root_ptr t) m)"
proof -
  let ?gp = "fst (rbe_up m a)" and ?ba = "(\<lambda>_. False)(d := \<not> sb d)" and ?bs = "sb(opp d := True)"
  let ?m = "set_up sib (Some a, ?bs) (set_up a (?gp, ?ba) m)" and ?t = "mk d (mk d t a ?ba p) sib ?bs q"
  obtain p' sib' sb' q' where x: "s = mk d p' sib' sb' q'" "balanced p'" "balanced q'" "rk p' + edge (sb' d) = rk t + 2" "rk q' + edge (sb' (opp d)) = rk t + 2"
    "rbe_up m sib' = (Some a, sb')" "rbe_link m d sib' = root_ptr p'" "rb_at m (Some sib') (rbe_link m d sib') p'" "rb_at m (Some sib') (rbe_link m (opp d) sib') q'"
    "rb_at m (Some a) (rbe_link m d a) t" "rb_ctx m (Some a) ?gp cs" "distinct (a # sib' # inord p' @ inord q' @ inord t @ ctx_nodes cs)"
    "s \<noteq> E" "root_ptr s = Some sib'" using remove_sibling [OF assms(1,3-5)] by blast
  have "mk d p' sib' sb' q' = mk d p sib sb q" using x(1) assms(6) by simp
  then have eq: "p' = p" "sib' = sib" "sb' = sb" "q' = q" by (cases d; simp)+
  note x = x [unfolded eq]
  have up: "snd (rbe_up m a) = b" using assms(1) by (simp add: rb_loc_def)
  have "(if sb d then set_up sib (xor_dir (opp d) (rbe_up m sib)) (set_up a (xor_dir d (rbe_up m a)) m) else set_up sib (xor_dir (opp d) (rbe_up m sib)) m) = ?m"
  proof (cases "sb d")
    case True
    then have "xor_dir d (rbe_up m a) = (?gp, ?ba)" using up assms(4,5) by (auto simp: xor_dir_def intro: bits_eqI [of _ d])
    then show ?thesis using True x(6) assms(7) by (simp add: xor_dir_def)
  next
    case False
    then have "(?gp, ?ba) = rbe_up m a" using up assms(4,5) by (auto simp: prod_eq_iff intro: bits_eqI [of _ d])
    then show ?thesis using False x(6) assms(7) set_up_idem [of a m] by (simp add: xor_dir_def)
  qed
  then have run: "remove_color_loop a (root_ptr t) m = Some (Inr (Some a, remove_rotate a sib (untagged ?gp) d ?m))"
    using remove_color_step [OF assms(1)] x(6,13,14) assms(4,5,7) by (simp add: Let_def)
  have f: "same (set (inord u)) m ?m" if "a \<notin> set (inord u)" "sib \<notin> set (inord u)" for u using that by (auto simp: same_def)
  have "same (set (ctx_nodes cs)) m ?m" using x(12) by (auto simp: same_def)
  then have parts: "rb_at ?m (Some sib) (rbe_link ?m d sib) p" "rb_at ?m (Some sib) (rbe_link ?m (opp d) sib) q" "rb_at ?m (Some a) (rbe_link ?m d a) t"
    "rb_ctx ?m (Some a) ?gp cs"
    using x(8-11) same_at [OF f [of p]] same_at [OF f [of q]] same_at [OF f [of t]] same_ctx [of cs m ?m] x(12) by auto
  have "snd (rbe_up ?m a) = ?ba" "snd (rbe_up ?m sib) = ?bs" using x(12) by auto
  with remove_rotate_loc [OF parts x(12)] have loc: "rb_loc (remove_rotate a sib (untagged ?gp) d ?m) ?gp ?t cs" by (simp del: mk_simps)
  have rq: "rk q = rk t + 1" "rk p + edge (sb d) = rk t + 2" using x(4,5) assms(7) by simp_all
  then have "rk (mk d t a ?ba p) + edge (sb d) = rk t + 3" "balanced (mk d t a ?ba p)"
    using x(2) assms(2) rk_mk [of t ?ba d p a] by (auto simp: balanced_mk split: if_splits)
  then have "balanced ?t" "rk ?t = rk t + 3" using rq x(3) rk_mk [of "mk d t a ?ba p" ?bs d q sib] by (auto simp: balanced_mk)
  moreover have "inord ?t = inord (mk d t a b s)" by (simp add: inord_mk assms(6))
  moreover have "ctx_bal (rk t + 3) cs" using ctx_bal_up [OF assms(3,4)] by (simp add: numeral_3_eq_3)
  ultimately show ?thesis using rebalancedI [OF loc, of "mk d t a b s" "Some a"] run by (simp del: mk_simps)
qed

lemma remove_double:
  assumes "rb_loc m (Some a) t ((d, a, b, s) # cs)" and "balanced t" and "ctx_bal (rk t + 1) ((d, a, b, s) # cs)" and "b d" and "\<not> b (opp d)"
    and "s = mk d p sib sb q" and "sb (opp d)" and "\<not> sb d"
  shows "rebalanced (plug t ((d, a, b, s) # cs)) (remove_color_loop a (root_ptr t) m)"
proof -
  let ?gp = "fst (rbe_up m a)"
  obtain p' sib' sb' q' where x: "s = mk d p' sib' sb' q'" "balanced p'" "balanced q'" "rk p' + edge (sb' d) = rk t + 2" "rk q' + edge (sb' (opp d)) = rk t + 2"
    "rbe_up m sib' = (Some a, sb')" "rbe_link m d sib' = root_ptr p'" "rb_at m (Some sib') (rbe_link m d sib') p'" "rb_at m (Some sib') (rbe_link m (opp d) sib') q'"
    "rb_at m (Some a) (rbe_link m d a) t" "rb_ctx m (Some a) ?gp cs" "distinct (a # sib' # inord p' @ inord q' @ inord t @ ctx_nodes cs)"
    "s \<noteq> E" "root_ptr s = Some sib'" using remove_sibling [OF assms(1,3-5)] by blast
  have "mk d p' sib' sb' q' = mk d p sib sb q" using x(1) assms(6) by simp
  then have eq: "p' = p" "sib' = sib" "sb' = sb" "q' = q" by (cases d; simp)+
  note x = x [unfolded eq]
  have rp: "rk p = rk t + 1" "rk q = rk t" using x(4,5) assms(7,8) by simp_all
  then have "p \<noteq> E" by auto
  then obtain u e eb v where p: "p = mk d u e eb v" using mk_exhaust by blast
  have up: "snd (rbe_up m a) = b" using assms(1) by (simp add: rb_loc_def)
  have e: "rbe_up m e = (Some sib, eb)" "rb_at m (Some e) (rbe_link m d e) u" "rb_at m (Some e) (rbe_link m (opp d) e) v" using x(8) p by simp_all
  have di: "distinct (a # sib # e # inord u @ inord v @ inord q @ inord t @ ctx_nodes cs)" using x(12) p by auto
  then have d1: "distinct (sib # e # inord u @ inord v @ inord q)" by auto
  define m1 where "m1 = RB_ROTATE sib e (opp d) m"
  note r = ROTATE_parts [OF e(2,3) x(9) d1, folded m1_def]
  let ?ba = "(\<lambda>_. False)(opp d := eb d)" and ?bs = "(\<lambda>_. False)(d := eb (opp d))"
  let ?m = "set_up e (Some sib, \<lambda>_. True) (set_up sib (Some e, ?bs) (set_up a (?gp, ?ba) m1))"
  let ?t = "mk d (mk d t a ?ba u) e (\<lambda>_. True) (mk d v sib ?bs q)"
  have u1: "rbe_up m1 e = (Some sib, eb)" "rbe_up m1 a = (?gp, b)" "rbe_up m1 sib = (Some e, sb)" "rbe_link m1 d' a = rbe_link m d' a" for d'
    using r(3-5) di e(1) x(6) up by (auto simp: same_def)
  have "(if eb d then xor_both else xor_dir d) (?gp, b) = (?gp, ?ba)" "(if eb (opp d) then xor_both else xor_dir (opp d)) (Some e, sb) = (Some e, ?bs)"
    using assms(4,5,7,8) by (auto simp: xor_both_def xor_dir_def intro: bits_eqI [of _ d])
  then have run: "remove_color_loop a (root_ptr t) m = Some (Inr (Some a, remove_rotate a e (untagged ?gp) d ?m))"
    using remove_color_step [OF assms(1)] x(6,7,13,14) assms(4,5,7,8) u1 di p by (simp add: Let_def m1_def)
  have f: "same (set (inord w)) m1 ?m" if "a \<notin> set (inord w)" "sib \<notin> set (inord w)" "e \<notin> set (inord w)" for w using that by (auto simp: same_def)
  have g: "same (set (inord w)) m m1" if "sib \<notin> set (inord w)" "e \<notin> set (inord w)" "set (inord w) \<inter> set (inord v) = {}" for w
    using that by (intro same_mono [OF r(5)]) auto
  have "same (set (ctx_nodes cs)) m m1" using di by (intro same_mono [OF r(5)]) auto
  moreover have "same (set (ctx_nodes cs)) m1 ?m" using di by (auto simp: same_def)
  ultimately have ctx: "rb_ctx ?m (Some a) ?gp cs" using x(11) r(6) same_ctx [of cs m m1] same_ctx [of cs m1 ?m] by simp
  have su: "rb_at ?m (Some e) (rbe_link ?m d e) u" using r(1) same_at [OF f [of u]] di by auto
  have "set (inord t) \<inter> set (inord v) = {}" using di by auto
  then have tt: "rb_at ?m (Some a) (rbe_link ?m d a) t" using x(10) u1(4) same_at [OF f [of t]] same_at [OF g [of t]] di by auto
  have "rb_at m1 (Some sib) (rbe_link m1 d sib) v" "rb_at m1 (Some sib) (rbe_link m1 (opp d) sib) q" using r(3) by simp_all
  then have sv: "rb_at ?m (Some e) (rbe_link ?m (opp d) e) (mk d v sib ?bs q)"
    using r(2) same_at [OF f [of v]] same_at [OF f [of q]] di by auto
  have "distinct (a # e # inord u @ inord (mk d v sib ?bs q) @ inord t @ ctx_nodes cs)" using di by auto
  from remove_rotate_loc [OF su sv tt ctx this]
  have loc: "rb_loc (remove_rotate a e (untagged ?gp) d ?m) ?gp ?t cs" using di by (simp del: mk_simps)
  have rk: "rk u + edge (eb d) = rk t + 1" "rk v + edge (eb (opp d)) = rk t + 1" "balanced u" "balanced v"
    using x(2) rp(1) rk_mk [of u eb d v e] unfolding p balanced_mk by (auto simp del: edge.simps)
  have "\<not> (v = E \<and> q = E \<and> eb (opp d))" using rk(2) rp(2) by auto
  then have "balanced (mk d t a ?ba u)" "balanced (mk d v sib ?bs q)" "rk (mk d t a ?ba u) = rk t + 1" "rk (mk d v sib ?bs q) = rk t + 1"
    using rk rp(2) assms(2) x(3) rk_mk [of t ?ba d u a] rk_mk [of v ?bs d q sib] by (auto simp: balanced_mk)
  then have "balanced ?t" "rk ?t = rk t + 3" using rk_mk [of "mk d t a ?ba u" "\<lambda>_. True" d "mk d v sib ?bs q" e] by (auto simp: balanced_mk)
  moreover have "inord ?t = inord (mk d t a b s)" by (simp add: inord_mk assms(6) p)
  moreover have "ctx_bal (rk t + 3) cs" using ctx_bal_up [OF assms(3,4)] by (simp add: numeral_3_eq_3)
  ultimately show ?thesis using rebalancedI [OF loc, of "mk d t a b s" "Some a"] run by (simp del: mk_simps)
qed

text \<open>A round ends the loop or lowers the parent.\<close>

lemma remove_round:
  assumes "rb_loc m (Some a) t ((d, a, b, s) # cs)" and "t \<noteq> E \<or> s \<noteq> E" and "balanced t" and "ctx_bal (rk t + 1) ((d, a, b, s) # cs)"
  shows "rebalanced (plug t ((d, a, b, s) # cs)) (remove_color_loop a (root_ptr t) m) \<or>
    (\<exists>t1. lowered m a (mk d t a b s) (fst (rbe_up m a)) (rk t + 1 + edge (b d)) cs (remove_color_loop a (root_ptr t) m) t1)"
proof (cases "b d")
  case False
  show ?thesis by (rule disjI1, rule remove_lengthen [OF assms False])
next
  case bd: True
  show ?thesis
  proof (cases "b (opp d)")
    case True
    show ?thesis by (rule disjI2, rule remove_lower_parent [OF assms bd True])
  next
    case bo: False
    have "s \<noteq> E" by (rule remove_sibling [OF assms(1,4) bd bo])
    then obtain p sib sb q where s: "s = mk d p sib sb q" using mk_exhaust by blast
    show ?thesis
    proof (cases "sb (opp d)")
      case False
      show ?thesis by (rule disjI1, rule remove_single [OF assms(1,3,4) bd bo s False])
    next
      case so: True
      show ?thesis
      proof (cases "sb d")
        case True
        show ?thesis by (rule disjI2, rule remove_lower_sibling [OF assms(1,3,4) bd bo s True so])
      next
        case False
        show ?thesis by (rule disjI1, rule remove_double [OF assms(1,3,4) bd bo s so False])
      qed
    qed
  qed
qed

lemma rebalanced_cong: "inord t = inord t' \<Longrightarrow> rebalanced t r = rebalanced t' r"
  by (simp add: rebalanced_def)

lemma remove_color_loop_correct:
  assumes "rb_loc m (Some a) t ((d, a, b, s) # cs)" and "t \<noteq> E \<or> s \<noteq> E" and "balanced t" and "ctx_bal (rk t + 1) ((d, a, b, s) # cs)"
  shows "rebalanced (plug t ((d, a, b, s) # cs)) (remove_color_loop a (root_ptr t) m)"
  using assms
proof (induction cs arbitrary: m a t d b s)
  case Nil
  have up: "fst (rbe_up m a) = None" using Nil(1) by (simp add: rb_loc_def)
  show ?case
    using remove_round [OF Nil] rebalancedI [where cs = "[]" and t = "mk d t a b s"] by (auto simp: lowered_def up)
next
  case (Cons f cs)
  obtain d' a' b' s' where f: "f = (d', a', b', s')" by (metis prod_cases4)
  have up: "fst (rbe_up m a) = Some a'" using Cons.prems(1) by (simp add: rb_loc_def f)
  have cb: "ctx_bal (rk t + 1 + edge (b d)) ((d', a', b', s') # cs)" using Cons.prems(4) unfolding ctx_bal.simps f by blast
  from remove_round [OF Cons.prems] show ?case
  proof
    assume "\<exists>t1. lowered m a (mk d t a b s) (fst (rbe_up m a)) (rk t + 1 + edge (b d)) (f # cs) (remove_color_loop a (root_ptr t) m) t1"
    then obtain t1 m1 where l: "remove_color_loop a (root_ptr t) m = remove_color_loop a' (root_ptr t1) m1" "rb_loc m1 (Some a') t1 ((d', a', b', s') # cs)"
      "balanced t1" "rk t1 + 1 = rk t + 1 + edge (b d)" "root_ptr t1 = Some a" "inord t1 = inord (mk d t a b s)" unfolding lowered_def up f by auto
    have "t1 \<noteq> E" using l(5) by auto
    then have ne: "t1 \<noteq> E \<or> s' \<noteq> E" by simp
    have "ctx_bal (rk t1 + 1) ((d', a', b', s') # cs)" using cb by (simp only: l(4))
    from Cons.IH [OF l(2) ne l(3) this]
    have "rebalanced (plug t1 ((d', a', b', s') # cs)) (remove_color_loop a' (root_ptr t1) m1)" .
    then show ?case using l(1) rebalanced_cong [OF inord_plug_cong [OF l(6), of "(d', a', b', s') # cs"]] by (simp add: f)
  qed
qed

lemma REMOVE_COLOR_correct:
  assumes "rb_loc m (Some a) t ((d, a, b, s) # cs)" and "balanced t" and "ctx_bal (rk t + 1) ((d, a, b, s) # cs)"
  shows "rebalanced (plug t ((d, a, b, s) # cs)) (RB_REMOVE_COLOR a (root_ptr t) m)"
proof (cases "t = E \<and> s = E")
  case True
  let ?m = "set_up a (fst (rbe_up m a), \<lambda>_. False) m" and ?t = "mk d t a (\<lambda>_. False) s"
  have l: "rbe_link m d a = None" "rbe_link m (opp d) a = None" using assms(1) True by (auto simp: rb_loc_def)
  then have both: "rbe_link m DR a = None \<and> rbe_link m DL a = None" by (cases d) simp_all
  have cb: "rk t + 1 + edge (b d) = rk s + edge (b (opp d))" "ctx_bal (rk t + 1 + edge (b d)) cs" using assms(3) unfolding ctx_bal.simps by blast+
  have bd: "\<not> b d" using cb(1) True by (auto split: if_splits)
  have nb: "ctx_bal (rk t + 1 + 1) cs" using cb(2) bd by simp
  have "rb_loc ?m (Some a) t ((d, a, \<lambda>_. False, s) # cs)" by (rule set_bits_loc [OF assms(1)])
  then have loc: "rb_loc ?m (fst (rbe_up m a)) ?t cs" unfolding rb_loc_up by (simp del: mk_simps)
  have bal: "balanced ?t" "rk ?t = 1" using True rk_mk [of t "\<lambda>_. False" d s a] by (simp_all add: balanced_mk)
  have seq: "inord ?t = inord (mk d t a b s)" by (simp add: inord_mk)
  have run: "RB_REMOVE_COLOR a (root_ptr t) m = (case fst (rbe_up m a) of None \<Rightarrow> Some (Inr (None, ?m)) | Some g \<Rightarrow> remove_color_loop g (Some a) ?m)"
    using both True by (simp add: RB_REMOVE_COLOR_def Let_def RB_PTR_def untagged_def)
  show ?thesis
  proof (cases cs)
    case Nil
    then have "fst (rbe_up m a) = None" using assms(1) by (simp add: rb_loc_def)
    then show ?thesis using run rebalancedI [OF loc bal(1) _ seq] Nil by simp
  next
    case (Cons f cs')
    obtain d' a' b' s' where f: "f = (d', a', b', s')" by (metis prod_cases4)
    have up: "fst (rbe_up m a) = Some a'" using assms(1) by (simp add: rb_loc_def Cons f)
    have "ctx_bal (rk ?t + 1) ((d', a', b', s') # cs')" using nb True unfolding bal(2) Cons f by (simp del: ctx_bal.simps)
    from remove_color_loop_correct [OF loc [unfolded up Cons f] _ bal(1) this]
    show ?thesis using run up rebalanced_cong [OF inord_plug_cong [OF seq, of cs]] by (simp add: Cons f)
  qed
next
  case False
  then have "\<not> (rbe_link m DR a = root_ptr t \<and> rbe_link m DL a = root_ptr t)"
  proof -
    have "rbe_link m (opp d) a = root_ptr s" "rbe_link m d a = root_ptr t" using assms(1) rb_at_ptr by (auto simp: rb_loc_def)
    moreover have "root_ptr s \<noteq> root_ptr t"
    proof
      assume eq: "root_ptr s = root_ptr t"
      then obtain c where "root_ptr t = Some c" using False by (cases "root_ptr t") auto
      then have "c \<in> set (inord t)" "c \<in> set (inord s)" using root_ptr_mem eq by auto
      then show False using assms(1) by (auto simp: rb_loc_def)
    qed
    ultimately show ?thesis by (cases d) auto
  qed
  then show ?thesis using remove_color_loop_correct [OF assms(1) _ assms(2,3)] False unfolding RB_REMOVE_COLOR_def by auto
qed

section \<open>Taking an element out\<close>

text \<open>The parent a path starts with, and the end of \<open>RB_REMOVE\<close> that gives the child its new parent.\<close>

fun path_parent :: "ctx \<Rightarrow> nat option" where
  "path_parent [] = None"
| "path_parent ((d, a, b, s) # cs) = Some a"

definition attach :: "nat option \<Rightarrow> nat option \<Rightarrow> rbmem \<Rightarrow> rbmem" where
  "attach child up m = (case child of None \<Rightarrow> m | Some c \<Rightarrow> set_up c (untagged up) m)"

lemma attach_simps [simp]: "rbe_link (attach c up m) = rbe_link m" "rbh_root (attach c up m) = rbh_root m"
  by (simp_all add: attach_def split: option.split)

lemma same_attach: "(\<And>a. c = Some a \<Longrightarrow> a \<notin> A) \<Longrightarrow> same A m (attach c up m)"
  by (auto simp: attach_def same_def split: option.split)

lemma attach_cong: "same A m m' \<Longrightarrow> same A (attach c up m) (attach c up m')"
  by (auto simp: attach_def same_def split: option.split)

text \<open>An element with a missing child: the other child is a leaf or missing, and clearing its marks with the new parent changes nothing.\<close>

lemma low_node: "balanced t \<Longrightarrow> rk t \<le> 1 \<Longrightarrow> t = E \<or> (\<exists>c. t = N E c (\<lambda>_. False) E)"
proof (cases t)
  case (N l a b r)
  assume "balanced t" "rk t \<le> 1"
  then have "rk l = 0" "\<not> b DL" "rk r = 0" "\<not> b DR" using N by (auto split: if_splits)
  then show ?thesis using N rk_0 bits_eqI [of b DL "\<lambda>_. False"] by simp
qed simp

lemma missing_child:
  assumes "balanced (N l a b r)" and "l = E \<or> r = E"
  defines "t \<equiv> if r = E then l else r"
  shows "rk (N l a b r) = rk t + 1" "rk t \<le> 1" "balanced t"
  using assms rk_0 [of l] rk_0 [of r] by (auto split: if_splits)

lemma attach_low:
  assumes "balanced t" and "rk t \<le> 1" and "rb_at m up p t"
  shows "rb_at (attach (root_ptr t) up' m) up' p t"
  using low_node [OF assms(1,2)] assms(3) by (auto simp: attach_def untagged_def)

text \<open>The end of the function, once the tree is in place but for its balance.\<close>

lemma remove_finish_correct:
  assumes "rb_tree (attach (root_ptr t) (path_parent cs) (RB_SWAP_CHILD opar out inn m)) (plug t cs)" and "balanced t" and "ctx_bal (rk t + 1) cs"
  shows "\<exists>m' t'. remove_finish out opar inn (root_ptr t) (path_parent cs) m = Some (Inr (Some out, m')) \<and> rb_tree m' t' \<and> balanced t' \<and> inord t' = inord (plug t cs)"
proof -
  let ?m = "attach (root_ptr t) (path_parent cs) (RB_SWAP_CHILD opar out inn m)"
  obtain up where l: "rb_loc ?m up t cs" using assms(1) rb_tree_loc by blast
  show ?thesis
  proof (cases cs)
    case Nil
    have "remove_finish out opar inn (root_ptr t) (path_parent cs) m = Some (Inr (Some out, ?m))"
      by (simp add: remove_finish_def Let_def attach_def Nil)
    then show ?thesis using assms(1,2) Nil by auto
  next
    case (Cons f cs')
    obtain d a b s where f: "f = (d, a, b, s)" by (metis prod_cases4)
    have up: "up = Some a" using l by (simp add: rb_loc_def Cons f)
    have run: "remove_finish out opar inn (root_ptr t) (path_parent cs) m = map_option (map_sum id (\<lambda>r. (Some out, snd r))) (RB_REMOVE_COLOR a (root_ptr t) ?m)"
      by (simp add: remove_finish_def Let_def attach_def Cons f)
    have "rb_loc ?m (Some a) t ((d, a, b, s) # cs')" using l unfolding up Cons f .
    from REMOVE_COLOR_correct [OF this assms(2) assms(3) [unfolded Cons f]]
    have "rebalanced (plug t ((d, a, b, s) # cs')) (RB_REMOVE_COLOR a (root_ptr t) ?m)" .
    then obtain x m' t' where r: "RB_REMOVE_COLOR a (root_ptr t) ?m = Some (Inr (x, m'))" "rb_tree m' t'" "balanced t'" "inord t' = inord (plug t cs)"
      unfolding rebalanced_def Cons f by blast
    then have "remove_finish out opar inn (root_ptr t) (path_parent cs) m = Some (Inr (Some out, m'))" unfolding run by simp
    then show ?thesis using r by blast
  qed
qed

text \<open>At most one child: it takes the place of the element.\<close>

lemma remove_one:
  assumes "rb_loc m up (N l out b r) cs" and "l = E \<or> r = E" and "balanced (N l out b r)" and "ctx_bal (rk (N l out b r)) cs"
  shows "\<exists>m' t'. RB_REMOVE m out = Some (Inr (Some out, m')) \<and> rb_tree m' t' \<and> balanced t' \<and> inord t' = seqL cs @ inord l @ inord r @ seqR cs"
proof -
  define t where "t = (if r = E then l else r)"
  note low = missing_child [OF assms(3,2), folded t_def]
  let ?m1 = "RB_SWAP_CHILD up out (root_ptr t) m"
  let ?m2 = "attach (root_ptr t) up ?m1"
  have p: "rb_at m (Some out) (rbe_link m DL out) l" "rb_at m (Some out) (rbe_link m DR out) r" "rbe_up m out = (up, b)" "rb_ctx m (Some out) up cs"
    "distinct (out # inord l @ inord r @ ctx_nodes cs)" using assms(1) by (auto simp: rb_loc_def)
  have ptr: "rbe_link m DL out = root_ptr l" "rbe_link m DR out = root_ptr r" using rb_at_ptr p(1,2) by blast+
  have tm: "rb_at m (Some out) (root_ptr t) t" "distinct (out # inord t @ ctx_nodes cs)" using p(1,2,5) ptr by (auto simp: t_def)
  have sw: "rb_ctx ?m1 (root_ptr t) up cs" "same (- set (ctx_nodes cs)) m ?m1" using SWAP_CHILD_ctx [OF p(4)] p(5) by auto
  have "same (set (inord t)) m ?m1" using tm(2) by (intro same_mono [OF sw(2)]) auto
  then have "rb_at ?m1 (Some out) (root_ptr t) t" using tm(1) same_at by blast
  from attach_low [OF low(3,2) this] have at: "rb_at ?m2 up (root_ptr t) t" .
  have "same (set (ctx_nodes cs)) ?m1 ?m2" by (rule same_attach) (use tm(2) root_ptr_mem in force)
  then have "rb_ctx ?m2 (root_ptr t) up cs" using same_ctx sw(1) by simp
  then have loc: "rb_loc ?m2 up t cs" using at tm(2) by (simp add: rb_loc_def)
  have up: "up = path_parent cs" using p(4) by (cases cs rule: path_parent.cases) auto
  have run: "RB_REMOVE m out = remove_finish out up (root_ptr t) (root_ptr t) up m"
    using assms(2) ptr p(3) by (auto simp: RB_REMOVE_def t_def Let_def RB_PTR_def split: option.split)
  have "inord (plug t cs) = seqL cs @ inord l @ inord r @ seqR cs" using assms(2) by (auto simp: inord_plug t_def)
  then show ?thesis
    unfolding run using remove_finish_correct [of t cs up out "root_ptr t" m] rb_loc_tree [OF loc] low(1,3) assms(4) by (simp flip: up del: rk.simps)
qed

text \<open>Two children: the leftmost element \<open>inn\<close> of the right subtree takes the place of the element.\<close>

lemma plug_append: "plug t (cs @ cs') = plug (plug t cs) cs'"
  by (induction t cs rule: plug.induct) simp_all

lemma ctx_nodes_append: "ctx_nodes (cs @ cs') = ctx_nodes cs @ ctx_nodes cs'"
  by (induction cs rule: ctx_nodes.induct) simp_all

lemma leftmost_place:
  assumes "r \<noteq> E"
  shows "\<exists>inn ib ir cs. r = plug (N E inn ib ir) cs \<and> (\<forall>f \<in> set cs. fst f = DL)"
  using assms
proof (induction r)
  case (N l a b s)
  show ?case
  proof (cases "l = E")
    case True
    then show ?thesis by (intro exI [of _ a] exI [of _ b] exI [of _ s] exI [of _ "[]"]) simp
  next
    case False
    then obtain inn ib ir cs where "l = plug (N E inn ib ir) cs" "\<forall>f \<in> set cs. fst f = DL" using N.IH(1) by blast
    then show ?thesis by (intro exI [of _ inn] exI [of _ ib] exI [of _ ir] exI [of _ "cs @ [(DL, a, b, s)]"]) (simp add: plug_append)
  qed
qed simp

lemma outermost_leftmost:
  assumes "rb_at m up (Some p) (plug (N E inn ib ir) cs)" and "\<forall>f \<in> set cs. fst f = DL"
  shows "outermost DL m p = Some inn"
  using assms
proof (induction cs arbitrary: up p rule: rev_induct)
  case Nil
  then show ?case by (subst outermost.simps) simp
next
  case (snoc f cs)
  obtain d a b s where f: "f = (d, a, b, s)" by (metis prod_cases4)
  have d: "d = DL" using snoc.prems(2) f by simp
  have at: "p = a" "rb_at m (Some a) (rbe_link m DL a) (plug (N E inn ib ir) cs)" using snoc.prems(1) by (simp_all add: plug_append f d)
  have "inn \<in> set (inord (plug (N E inn ib ir) cs))" by (simp add: set_plug)
  then have "plug (N E inn ib ir) cs \<noteq> E" by auto
  then obtain q where q: "rbe_link m DL a = Some q" using rb_at_ptr [OF at(2)] by (cases "root_ptr (plug (N E inn ib ir) cs)") auto
  then have "outermost DL m q = Some inn" using snoc.IH at(2) snoc.prems(2) by simp
  then show ?case using q at(1) by (subst outermost.simps) simp
qed

lemma replace_below:
  assumes "rb_at m u p (plug t ((d, q, qb, qs) # cs))" and "rb_at m' (Some q) (rbe_link m' d q) t'"
    and "same (set (inord qs) \<union> set (ctx_nodes cs)) m m'" and "rbe_up m' q = rbe_up m q" and "rbe_link m' (opp d) q = rbe_link m (opp d) q"
  shows "rb_at m' u p (plug t' ((d, q, qb, qs) # cs))"
  using assms(1,3)
proof (induction cs arbitrary: u p rule: rev_induct)
  case Nil
  then show ?case using assms(2,4,5) same_at [of qs m m'] by simp
next
  case (snoc f cs)
  obtain e a b s where f: "f = (e, a, b, s)" by (metis prod_cases4)
  have cn: "set (ctx_nodes (cs @ [f])) = insert a (set (inord s) \<union> set (ctx_nodes cs))"
    by (auto simp: ctx_nodes_append f)
  have s: "same (set (inord qs) \<union> set (ctx_nodes cs)) m m'" "same (set (inord s)) m m'" "same {a} m m'"
    using snoc.prems(2) unfolding cn by (auto intro: same_mono)
  show ?case
    using snoc.prems(1) snoc.IH [OF _ s(1)] same_at [OF s(2)] s(3)
    by (simp only: plug_append append_Cons [symmetric] f plug.simps mk_simps) (simp add: same_def)
qed

lemma remove_place:
  assumes "rb_ctx m (Some out) up cs" and "rbe_up m inn = (up, b)" and "rb_at m (Some inn) (rbe_link m DL inn) l"
    and "rb_at (attach (root_ptr t) par m) (Some inn) (rbe_link m DR inn) r" and "set (inord t) \<subseteq> set (inord r)"
    and "distinct (out # inn # inord l @ inord r @ ctx_nodes cs)"
  shows "rb_tree (attach (root_ptr t) par (RB_SWAP_CHILD up out (Some inn) m)) (plug (N l inn b r) cs)"
proof -
  let ?m1 = "RB_SWAP_CHILD up out (Some inn) m"
  let ?m2 = "attach (root_ptr t) par ?m1"
  have sw: "rb_ctx ?m1 (Some inn) up cs" "same (- set (ctx_nodes cs)) m ?m1" using SWAP_CHILD_ctx [OF assms(1)] assms(6) by auto
  have in_r: "c \<in> set (inord r)" if "root_ptr t = Some c" for c using root_ptr_mem [OF that] assms(5) by blast
  have a: "same (- set (inord r)) ?m1 ?m2" by (rule same_attach) (use in_r in blast)
  have r: "same (set (inord r)) (attach (root_ptr t) par m) ?m2" using assms(6) by (intro same_mono [OF attach_cong [OF sw(2)]]) auto
  have l: "same (insert inn (set (inord l))) m ?m2"
    by (rule same_trans [OF same_mono [OF sw(2)] same_mono [OF a]]) (use assms(6) in auto)
  have "same (set (inord l)) m ?m2" using l by (rule same_mono) blast
  then have "rb_at ?m2 up (Some inn) (N l inn b r)" using l assms(2-4) same_at [of l m ?m2] same_at [OF r] by (simp add: same_def)
  moreover have "same (set (ctx_nodes cs)) ?m1 ?m2" by (rule same_mono [OF a]) (use assms(6) in auto)
  then have "rb_ctx ?m2 (Some inn) up cs" using sw(1) same_ctx by simp
  ultimately have "rb_loc ?m2 up (N l inn b r) cs" using assms(6) by (simp add: rb_loc_def)
  then show ?thesis by (rule rb_loc_tree)
qed

lemma ctx_bal_rename: "ctx_bal n (cs2 @ (d, a, b, s) # cs) \<longleftrightarrow> ctx_bal n (cs2 @ (d, a', b, s) # cs)"
proof (induction cs2 arbitrary: n)
  case (Cons f cs2)
  obtain d a b s where "f = (d, a, b, s)" by (metis prod_cases4)
  then show ?case using Cons.IH by simp
qed simp

lemma root_ptr_plug: "cs \<noteq> [] \<Longrightarrow> \<exists>a \<in> set (ctx_nodes cs). root_ptr (plug t cs) = Some a"
proof (induction cs rule: rev_induct)
  case (snoc f cs)
  obtain d a b s where f: "f = (d, a, b, s)" by (metis prod_cases4)
  have "a \<in> set (ctx_nodes (cs @ [f]))" by (simp add: ctx_nodes_append f)
  then show ?case by (simp add: plug_append f)
qed simp

text \<open>The facts both cases use: the element, its successor \<open>inn\<close> and the memory around them.\<close>

lemma remove_two_facts:
  assumes "rb_loc m up (N l out b r) cs" and "l \<noteq> E" and "r = plug (N E inn ib ir) cs2"
    and "balanced (N l out b r)" and "ctx_bal (rk (N l out b r)) cs"
  obtains lc where "root_ptr l = Some lc" "lc \<in> set (inord l)" "rb_at m (Some out) (Some lc) l" "rb_at m (Some out) (root_ptr r) r" "rbe_up m out = (up, b)"
    "rb_ctx m (Some out) up cs" "distinct (out # inord l @ inn # inord ir @ ctx_nodes cs2 @ ctx_nodes cs)"
    "rbe_up m inn = (path_parent (cs2 @ [(DR, out, b, l)]), ib)" "rbe_link m DR inn = root_ptr ir" "rb_at m (Some inn) (root_ptr ir) ir"
    "balanced ir" "rk ir \<le> 1" "ctx_bal (rk ir + 1) (cs2 @ (DR, inn, b, l) # cs)" "rbe_link m DL out = Some lc" "rbe_link m DR out = root_ptr r"
proof -
  obtain lc where lc: "root_ptr l = Some lc" using assms(2) by (cases "root_ptr l") auto
  have p: "rb_at m (Some out) (rbe_link m DL out) l" "rb_at m (Some out) (rbe_link m DR out) r" "rbe_up m out = (up, b)" "rb_ctx m (Some out) up cs"
    "distinct (out # inord l @ inord r @ ctx_nodes cs)" using assms(1) by (auto simp: rb_loc_def)
  note ptr = rb_at_ptr [OF p(1)] rb_at_ptr [OF p(2)]
  have r: "distinct (inn # inord ir @ ctx_nodes cs2)" "set (inord r) = set (inn # inord ir @ ctx_nodes cs2)"
    using p(5) distinct_plug [of "N E inn ib ir" cs2] by (simp_all add: assms(3) set_plug)
  have di: "distinct (out # inord l @ inn # inord ir @ ctx_nodes cs2 @ ctx_nodes cs)" using p(5) r by auto
  have whole: "plug (N l out b r) cs = plug (N E inn ib ir) (cs2 @ (DR, out, b, l) # cs)" by (simp add: plug_append assms(3))
  then obtain up' where loc: "rb_loc m up' (N E inn ib ir) (cs2 @ (DR, out, b, l) # cs)" using rb_loc_tree [OF assms(1)] rb_tree_loc by metis
  have up': "up' = path_parent (cs2 @ [(DR, out, b, l)])" using loc by (cases cs2 rule: path_parent.cases) (auto simp: rb_loc_def)
  have i: "rbe_up m inn = (up', ib)" "rb_at m (Some inn) (rbe_link m DR inn) ir" using loc by (simp_all add: rb_loc_def)
  have "balanced (plug (N l out b r) cs)" using balanced_plug assms(4,5) by blast
  then have bal: "balanced (N E inn ib ir)" "ctx_bal (rk (N E inn ib ir)) (cs2 @ (DR, out, b, l) # cs)" using balanced_plug whole by metis+
  have t: "(if ir = E then E else ir) = ir" by simp
  note low = missing_child [OF bal(1) disjI1 [OF refl], unfolded t]
  have "ctx_bal (rk ir + 1) (cs2 @ (DR, inn, b, l) # cs)" using bal(2) low(1) ctx_bal_rename by metis
  then show thesis
    using that [OF lc root_ptr_mem [OF lc]] p(1-4) ptr di i rb_at_ptr [OF i(2)] low(2,3) lc up' by metis
qed

lemma remove_two_near:
  assumes "rb_loc m up (N l out b (N E inn ib ir)) cs" and "l \<noteq> E"
    and "balanced (N l out b (N E inn ib ir))" and "ctx_bal (rk (N l out b (N E inn ib ir))) cs"
  shows "\<exists>m1. RB_REMOVE m out = remove_finish out up (Some inn) (root_ptr ir) (Some inn) m1 \<and>
    rb_tree (attach (root_ptr ir) (Some inn) (RB_SWAP_CHILD up out (Some inn) m1)) (plug (N l inn b ir) cs)"
proof -
  have r: "N E inn ib ir = plug (N E inn ib ir) []" by simp
  obtain lc where f: "root_ptr l = Some lc" "lc \<in> set (inord l)" "rb_at m (Some out) (Some lc) l" "rbe_up m out = (up, b)"
    "rb_ctx m (Some out) up cs" "distinct (out # inord l @ inn # inord ir @ ctx_nodes [] @ ctx_nodes cs)" "rbe_link m DR inn = root_ptr ir"
    "rb_at m (Some inn) (root_ptr ir) ir" "balanced ir" "rk ir \<le> 1" "rbe_link m DL out = Some lc" "rbe_link m DR out = root_ptr (N E inn ib ir)"
    by (rule remove_two_facts [OF assms(1,2) r assms(3,4)])
  have nl: "rbe_link m DL inn = None" using assms(1) by (simp add: rb_loc_def)
  let ?m = "set_up inn (up, b) (set_link DL inn (Some lc) (set_up lc (Some inn, snd (rbe_up m lc)) m))"
  have "outermost DL m inn = Some inn" using nl by (subst outermost.simps) simp
  then have run: "RB_REMOVE m out = remove_finish out up (Some inn) (root_ptr ir) (Some inn) ?m"
    using f by (simp add: RB_REMOVE_def Let_def SET_PARENT_eq RB_PTR_def)
  have "same (- {inn, lc}) m ?m" by (auto simp: same_def)
  then have s: "same (set (inord ir)) m ?m" "same (set (ctx_nodes cs)) m ?m" using f(2,6) by (auto intro: same_mono)
  have di: "distinct (inord l)" "inn \<notin> set (inord l)" using f(6) by auto
  let ?n = "set_up lc (Some inn, snd (rbe_up m lc)) m"
  have "rb_at ?n (Some inn) (Some lc) l" by (rule reparent [OF f(3) di(1) f(1)])
  moreover have "same (set (inord l)) ?n ?m" using di(2) by (auto simp: same_def)
  ultimately have "rb_at ?m (Some inn) (Some lc) l" using same_at by blast
  moreover have "rbe_link ?m DL inn = Some lc" by simp
  ultimately have l: "rb_at ?m (Some inn) (rbe_link ?m DL inn) l" by (simp only:)
  have ctx: "rb_ctx ?m (Some out) up cs" using f(5) same_ctx [OF s(2)] by simp
  have "rb_at ?m (Some inn) (root_ptr ir) ir" using f(8) same_at [OF s(1)] by simp
  then have ir: "rb_at (attach (root_ptr ir) (Some inn) ?m) (Some inn) (rbe_link ?m DR inn) ir" using attach_low [OF f(9,10)] f(7) by simp
  have d: "distinct (out # inn # inord l @ inord ir @ ctx_nodes cs)" using f(6) by auto
  have up: "rbe_up ?m inn = (up, b)" by simp
  show ?thesis using run remove_place [OF ctx up l ir subset_refl d] by blast
qed

lemma remove_two_far:
  fixes q :: nat and qb :: bits and qs :: rtree and cs3 :: ctx
  defines "cs2 \<equiv> (DL, q, qb, qs) # cs3"
  assumes "rb_loc m up (N l out b r) cs" and "l \<noteq> E" and "r = plug (N E inn ib ir) cs2" and "\<forall>f \<in> set cs2. fst f = DL"
    and "balanced (N l out b r)" and "ctx_bal (rk (N l out b r)) cs"
  shows "\<exists>m1. RB_REMOVE m out = remove_finish out up (Some inn) (root_ptr ir) (Some q) m1 \<and>
    rb_tree (attach (root_ptr ir) (Some q) (RB_SWAP_CHILD up out (Some inn) m1)) (plug (N l inn b (plug ir cs2)) cs)"
proof -
  obtain lc where f: "root_ptr l = Some lc" "lc \<in> set (inord l)" "rb_at m (Some out) (Some lc) l" "rb_at m (Some out) (root_ptr r) r" "rbe_up m out = (up, b)"
    "rb_ctx m (Some out) up cs" "distinct (out # inord l @ inn # inord ir @ ctx_nodes cs2 @ ctx_nodes cs)"
    "rbe_up m inn = (path_parent (cs2 @ [(DR, out, b, l)]), ib)" "rbe_link m DR inn = root_ptr ir" "rb_at m (Some inn) (root_ptr ir) ir"
    "balanced ir" "rk ir \<le> 1" "rbe_link m DL out = Some lc" "rbe_link m DR out = root_ptr r"
    by (rule remove_two_facts [OF assms(2,3,4,6,7)])
  have "cs2 \<noteq> []" by (simp add: cs2_def)
  then obtain rc where rc: "root_ptr r = Some rc" "rc \<in> set (ctx_nodes cs2)" using root_ptr_plug [of cs2 "N E inn ib ir"] assms(4) by blast
  have di: "inn \<noteq> rc" "inn \<noteq> lc" "lc \<noteq> rc" "inn \<noteq> q" "q \<noteq> lc" using f(2,7) rc(2) by (auto simp: cs2_def)
  have up: "rbe_up m inn = (Some q, ib)" using f(8) by (simp add: cs2_def)
  define ma where "ma = set_up inn (up, b) (set_link DL q (root_ptr ir) (set_link DR inn (Some rc) (set_up rc (Some inn, snd (rbe_up m rc))
    (set_link DL inn (Some lc) (set_up lc (Some inn, snd (rbe_up m lc)) m)))))"
  have out: "outermost DL m rc = Some inn" using outermost_leftmost [OF _ assms(5)] f(4) rc(1) assms(4) by simp
  have run: "RB_REMOVE m out = remove_finish out up (Some inn) (root_ptr ir) (Some q) ma"
    using f(5,9,13,14) rc(1) out di up by (simp add: RB_REMOVE_def Let_def SET_PARENT_eq RB_PTR_def RB_PARENT_def ma_def)
  have mu: "rbe_up ma inn = (up, b)" "x \<noteq> inn \<Longrightarrow> x \<noteq> rc \<Longrightarrow> x \<noteq> lc \<Longrightarrow> rbe_up ma x = rbe_up m x" "rbe_up ma rc = (Some inn, snd (rbe_up m rc))"
    "rbe_up ma lc = (Some inn, snd (rbe_up m lc))" for x using di by (simp_all add: ma_def)
  have ml: "rbe_link ma DL inn = Some lc" "rbe_link ma DR inn = Some rc" "rbe_link ma DL q = root_ptr ir" "rbe_link ma DR q = rbe_link m DR q"
    "x \<noteq> inn \<Longrightarrow> x \<noteq> q \<Longrightarrow> rbe_link ma d x = rbe_link m d x" "rbh_root ma = rbh_root m" for x d using di by (simp_all add: ma_def)
  have keep: "same (- {inn, rc, lc, q}) m ma" using mu(2) ml(5) by (simp add: same_def)
  have qn: "q \<in> set (ctx_nodes cs2)" by (simp add: cs2_def)
  have "same (set (ctx_nodes cs)) m ma" using f(2,7) rc(2) qn by (intro same_mono [OF keep]) auto
  then have ctx: "rb_ctx ma (Some out) up cs" using f(6) same_ctx ml(6) by blast
  have "rb_at (set_up lc (Some inn, snd (rbe_up m lc)) m) (Some inn) (Some lc) l" using reparent [OF f(3) _ f(1)] f(7) by simp
  moreover have "same (- {inn, rc, q}) (set_up lc (Some inn, snd (rbe_up m lc)) m) ma" by (auto simp: same_def ma_def)
  then have "same (set (inord l)) (set_up lc (Some inn, snd (rbe_up m lc)) m) ma" by (rule same_mono) (use f(7) rc(2) qn in auto)
  ultimately have left: "rb_at ma (Some inn) (rbe_link ma DL inn) l" unfolding ml(1) using same_at by blast
  let ?mr = "set_up rc (Some inn, snd (rbe_up m rc)) m" and ?mb = "attach (root_ptr ir) (Some q) ma"
  have rdist: "distinct (inord r)" using f(7) distinct_plug [of "N E inn ib ir" cs2] assms(4) by auto
  have "rb_at ?mr (Some inn) (Some rc) r" using reparent [OF f(4) rdist rc(1), of "Some inn"] unfolding rc(1) .
  then have right: "rb_at ?mr (Some inn) (Some rc) (plug (N E inn ib ir) ((DL, q, qb, qs) # cs3))" unfolding assms(4) cs2_def .
  have "same (set (inord ir)) m ma" using f(2,7) rc(2) qn by (intro same_mono [OF keep]) auto
  then have "rb_at ma (Some inn) (root_ptr ir) ir" using f(10) same_at by blast
  from attach_low [OF f(11,12) this] have ir: "rb_at ?mb (Some q) (rbe_link ?mb DL q) ir" using ml(3) by simp
  have sb: "same (- set (inord ir)) ma ?mb" by (rule same_attach) (use root_ptr_mem in blast)
  have cn: "set (inord ir) \<inter> set (ctx_nodes cs2) = {}" "lc \<notin> set (ctx_nodes cs2)" "inn \<notin> set (ctx_nodes cs2)" using f(2,7) by auto
  have sq: "same (set (ctx_nodes cs2)) ma ?mb" using cn(1) by (intro same_mono [OF sb]) auto
  have "same (- {inn, lc, q}) ?mr ma" using di by (auto simp: same_def ma_def)
  then have "same (set (inord qs) \<union> set (ctx_nodes cs3)) ?mr ma" by (rule same_mono) (use cn(2,3) f(7) in \<open>auto simp: cs2_def\<close>)
  then have keepr: "same (set (inord qs) \<union> set (ctx_nodes cs3)) ?mr ?mb" by (rule same_trans) (rule same_mono [OF sq], auto simp: cs2_def)
  have uq: "rbe_up ?mb q = rbe_up ?mr q" using sq qn cn(3) di mu(2,3) by (cases "q = rc") (auto simp: same_def)
  have lq: "rbe_link ?mb (opp DL) q = rbe_link ?mr (opp DL) q" using ml(4) by simp
  have "rb_at ?mb (Some inn) (rbe_link ma DR inn) (plug ir cs2)"
    using replace_below [OF right ir keepr uq lq] unfolding ml(2) cs2_def .
  moreover have "set (inord ir) \<subseteq> set (inord (plug ir cs2))" by (simp add: set_plug)
  moreover have "distinct (out # inn # inord l @ inord (plug ir cs2) @ ctx_nodes cs)"
    using f(7) distinct_plug [of ir cs2] by (auto simp: set_plug)
  ultimately show ?thesis using run remove_place [OF ctx mu(1) left] by blast
qed

text \<open>Every element of a tree is at a place.\<close>

lemma element_place:
  assumes "x \<in> set (inord t)"
  shows "\<exists>l b r cs. t = plug (N l x b r) cs"
  using assms
proof (induction t)
  case (N l a b r)
  then consider "x = a" | "x \<in> set (inord l)" | "x \<in> set (inord r)" by auto
  then show ?case
  proof cases
    case 1
    then show ?thesis by (intro exI [of _ l] exI [of _ b] exI [of _ r] exI [of _ "[]"]) simp
  next
    case 2
    then obtain l' b' r' cs where "l = plug (N l' x b' r') cs" using N.IH(1) by blast
    then show ?thesis by (intro exI [of _ l'] exI [of _ b'] exI [of _ r'] exI [of _ "cs @ [(DL, a, b, r)]"]) (simp add: plug_append)
  next
    case 3
    then obtain l' b' r' cs where "r = plug (N l' x b' r') cs" using N.IH(2) by blast
    then show ?thesis by (intro exI [of _ l'] exI [of _ b'] exI [of _ r'] exI [of _ "cs @ [(DR, a, b, l)]"]) (simp add: plug_append)
  qed
qed simp

lemma remove_two:
  assumes "rb_loc m up (N l out b r) cs" and "l \<noteq> E" and "r \<noteq> E" and "balanced (N l out b r)" and "ctx_bal (rk (N l out b r)) cs"
  shows "\<exists>m' t'. RB_REMOVE m out = Some (Inr (Some out, m')) \<and> rb_tree m' t' \<and> balanced t' \<and> inord t' = seqL cs @ inord l @ inord r @ seqR cs"
proof -
  obtain inn ib ir cs2 where r: "r = plug (N E inn ib ir) cs2" "\<forall>f \<in> set cs2. fst f = DL" using leftmost_place [OF assms(3)] by blast
  let ?cs = "cs2 @ (DR, inn, b, l) # cs"
  have bi: "balanced ir" by (rule remove_two_facts [OF assms(1,2) r(1) assms(4,5)])
  have cb: "ctx_bal (rk ir + 1) ?cs" by (rule remove_two_facts [OF assms(1,2) r(1) assms(4,5)])
  have whole: "plug (N l inn b (plug ir cs2)) cs = plug ir ?cs" by (simp add: plug_append)
  have "seqL cs2 = []" using r(2) by (induction cs2 rule: seqL.induct) auto
  then have seq: "inord (plug ir ?cs) = seqL cs @ inord l @ inord r @ seqR cs" unfolding r(1) whole [symmetric] by (simp add: inord_plug)
  have "\<exists>m1. RB_REMOVE m out = remove_finish out up (Some inn) (root_ptr ir) (path_parent ?cs) m1 \<and>
    rb_tree (attach (root_ptr ir) (path_parent ?cs) (RB_SWAP_CHILD up out (Some inn) m1)) (plug ir ?cs)"
  proof (cases cs2)
    case Nil
    then show ?thesis using remove_two_near [of m up l out b inn ib ir cs] assms r(1) by (simp del: rk.simps balanced.simps)
  next
    case (Cons f cs3)
    obtain q qb qs where f: "f = (DL, q, qb, qs)" using r(2) by (cases f) (auto simp: Cons)
    have "path_parent ?cs = Some q" by (simp add: Cons f)
    then show ?thesis using remove_two_far [OF assms(1,2) r [unfolded Cons f] assms(4,5)] unfolding whole [symmetric] by (simp only: Cons f)
  qed
  then obtain m1 where m1: "RB_REMOVE m out = remove_finish out up (Some inn) (root_ptr ir) (path_parent ?cs) m1"
    "rb_tree (attach (root_ptr ir) (path_parent ?cs) (RB_SWAP_CHILD up out (Some inn) m1)) (plug ir ?cs)" by blast
  show ?thesis unfolding m1(1) seq [symmetric] by (rule remove_finish_correct [OF m1(2) bi cb])
qed

lemma RB_REMOVE_correct:
  assumes "rb_tree m t" and "balanced t" and "x \<in> set (inord t)"
  shows "\<exists>m' t'. RB_REMOVE m x = Some (Inr (Some x, m')) \<and> rb_tree m' t' \<and> balanced t' \<and> inord t' = remove1 x (inord t)"
proof -
  obtain l b r cs where t: "t = plug (N l x b r) cs" using element_place [OF assms(3)] by blast
  obtain up where loc: "rb_loc m up (N l x b r) cs" using assms(1) rb_tree_loc t by blast
  have bal: "balanced (N l x b r)" "ctx_bal (rk (N l x b r)) cs" using assms(2) balanced_plug t by blast+
  have it: "inord t = (seqL cs @ inord l) @ x # inord r @ seqR cs" by (simp add: t inord_plug)
  have "distinct (inord t)" using assms(1) by (simp add: rb_tree_def)
  then have "remove1 x (inord t) = seqL cs @ inord l @ inord r @ seqR cs" unfolding it by (simp add: remove1_append)
  then show ?thesis using remove_one [OF loc _ bal] remove_two [OF loc _ _ bal] by (cases "l = E \<or> r = E") auto
qed

lemma RB_REMOVE_law:
  assumes "rb_elems key m xs" and "x \<in> set xs"
  shows "\<exists>m'. RB_REMOVE m x = Some (Inr (Some x, m')) \<and> rb_elems key m' (remove1 x xs)"
proof -
  obtain t where "rb_tree m t" "balanced t" "inord t = xs" "strictly_sorted key xs" using assms(1) by (auto simp: rb_elems_def)
  then show ?thesis using RB_REMOVE_correct [of m t x] assms(2) strictly_sorted_remove [of key xs x] unfolding rb_elems_def by metis
qed

end
