(* ===== verification/Tree_Rank_Walk.thy ===== *)
theory Tree_Rank_Walk
  imports Tree_Rank_Remove
begin

text \<open>
  Searching a rank-balanced tree and walking through it. \<open>dseq d\<close> is the in-order sequence read in direction \<open>d\<close> and \<open>beyond d\<close> what lies past a
  place in that direction, so that \<open>RB_NEXT\<close> and \<open>RB_PREV\<close>, and the loops over them, are treated once. None of the lemmas needs the tree to be
  balanced.
\<close>

section \<open>Searching\<close>

lemma find_append: "find P (xs @ ys) = (case find P xs of None \<Rightarrow> find P ys | Some y \<Rightarrow> Some y)"
  by (induction xs) simp_all

lemma find_loop_at:
  assumes "cmp_by key cmp" and "rb_at m up p t" and "strictly_sorted key (inord t)"
  shows "find_loop cmp m elm p = Some (Inr (find_key key elm (inord t)))"
  using assms(2,3)
proof (induction t arbitrary: up p)
  case E
  then show ?case by (subst find_loop.simps) (simp add: find_key_def)
next
  case (N l a b r)
  have p: "p = Some a" "rb_at m (Some a) (rbe_link m DL a) l" "rb_at m (Some a) (rbe_link m DR a) r" using N.prems(1) by simp_all
  have ord: "strictly_sorted key (inord l)" "strictly_sorted key (inord r)" "\<forall>x \<in> set (inord l). key x < key a" "\<forall>x \<in> set (inord r). key a < key x"
    using N.prems(2) by simp_all
  note IH = N.IH(1) [OF p(2) ord(1)] N.IH(2) [OF p(3) ord(2)]
  note c = cmp_byD [OF assms(1), of elm a]
  have split: "find_key key elm (inord (N l a b r)) =
    (case find_key key elm (inord l) of Some y \<Rightarrow> Some y | None \<Rightarrow> if key a = key elm then Some a else find_key key elm (inord r))"
    by (simp add: find_key_def find_append split: option.split)
  consider (lt) "key elm < key a" | (gt) "key a < key elm" | (eq) "key elm = key a" by (rule linorder_cases)
  then show ?case
  proof cases
    case lt
    then have "find_key key elm (inord r) = None" using ord(4) unfolding find_key_None by (metis less_asym less_irrefl)
    then show ?thesis using IH(1) lt c unfolding p(1) split by (subst find_loop.simps) (auto split: option.split)
  next
    case gt
    then have "find_key key elm (inord l) = None" using ord(3) unfolding find_key_None by (metis less_asym less_irrefl)
    then show ?thesis using IH(2) gt c less_not_sym [OF gt] unfolding p(1) split by (subst find_loop.simps) simp
  next
    case eq
    then have "find_key key elm (inord l) = None" using ord(3) unfolding find_key_None by (metis less_irrefl)
    then show ?thesis using eq c unfolding p(1) split by (subst find_loop.simps) simp
  qed
qed

lemma RB_FIND_law: "cmp_by key cmp \<Longrightarrow> rb_elems key m xs \<Longrightarrow> RB_FIND cmp m elm = Some (Inr (find_key key elm xs))"
  unfolding rb_elems_def rb_tree_def RB_FIND_def using find_loop_at by metis

text \<open>The least element not below a key.\<close>

definition next_key :: "(nat \<Rightarrow> 'k::linorder) \<Rightarrow> nat \<Rightarrow> nat list \<Rightarrow> nat option" where
  "next_key key x xs = find (\<lambda>y. key x \<le> key y) xs"

lemma nfind_loop_at:
  assumes "cmp_by key cmp" and "rb_at m up p t" and "strictly_sorted key (inord t)"
  shows "nfind_loop cmp m elm res p = Some (Inr (case next_key key elm (inord t) of None \<Rightarrow> res | Some y \<Rightarrow> Some y))"
  using assms(2,3)
proof (induction t arbitrary: up p res)
  case E
  then show ?case by (subst nfind_loop.simps) (simp add: next_key_def)
next
  case (N l a b r)
  have p: "p = Some a" "rb_at m (Some a) (rbe_link m DL a) l" "rb_at m (Some a) (rbe_link m DR a) r" using N.prems(1) by simp_all
  have ord: "strictly_sorted key (inord l)" "strictly_sorted key (inord r)" "\<forall>x \<in> set (inord l). key x < key a"
    using N.prems(2) by simp_all
  note IH = N.IH(1) [OF p(2) ord(1)] N.IH(2) [OF p(3) ord(2)]
  note c = cmp_byD [OF assms(1), of elm a]
  have split: "next_key key elm (inord (N l a b r)) =
    (case next_key key elm (inord l) of Some y \<Rightarrow> Some y | None \<Rightarrow> if key elm \<le> key a then Some a else next_key key elm (inord r))"
    by (simp add: next_key_def find_append split: option.split)
  have left: "next_key key elm (inord l) = None" if "key a \<le> key elm"
    unfolding next_key_def find_None_iff using ord(3) that by (metis less_le_trans not_less)
  consider (lt) "key elm < key a" | (gt) "key a < key elm" | (eq) "key elm = key a" by (rule linorder_cases)
  then show ?case
  proof cases
    case lt
    then show ?thesis using IH(1) c less_imp_le [OF lt] unfolding p(1) split by (subst nfind_loop.simps) (simp split: option.split)
  next
    case gt
    then show ?thesis using IH(2) c left [OF less_imp_le [OF gt]] less_not_sym [OF gt] unfolding p(1) split by (subst nfind_loop.simps) (simp add: not_le)
  next
    case eq
    then show ?thesis using c left unfolding p(1) split by (subst nfind_loop.simps) simp
  qed
qed

lemma RB_NFIND_law: "cmp_by key cmp \<Longrightarrow> rb_elems key m xs \<Longrightarrow> RB_NFIND cmp m elm = Some (Inr (next_key key elm xs))"
  unfolding rb_elems_def rb_tree_def RB_NFIND_def using nfind_loop_at [of key cmp m None _ _ elm None] by (auto split: option.split)

section \<open>Walking\<close>

definition dseq :: "dir \<Rightarrow> rtree \<Rightarrow> nat list" where
  "dseq d t = (if d = DR then inord t else rev (inord t))"

definition beyond :: "dir \<Rightarrow> ctx \<Rightarrow> nat list" where
  "beyond d cs = (if d = DR then seqR cs else rev (seqL cs))"

lemma dseq_simps [simp]: "dseq d E = []" "dseq d (mk d x a b y) = dseq d y @ a # dseq d x" "dseq d t = [] \<longleftrightarrow> t = E"
  by (cases d; cases t; simp add: dseq_def)+

lemma beyond_simps [simp]: "beyond d [] = []" "beyond d ((e, a, b, s) # cs) = (if e = d then [] else a # dseq d s) @ beyond d cs"
  by (cases d; cases e; simp add: dseq_def beyond_def)+

lemma dseq_plug: "dseq d (plug (mk d x a b y) cs) = rev (beyond (opp d) cs) @ dseq d y @ a # dseq d x @ beyond d cs"
  by (cases d) (simp_all add: dseq_def beyond_def inord_plug)

lemma outermost_at:
  assumes "rb_at m up (Some p) t"
  shows "outermost (opp d) m p = head_ptr (dseq d t)"
  using assms
proof (induction t arbitrary: up p)
  case (N l a b r)
  obtain x y where t: "N l a b r = mk d x a b y" "y = l \<or> y = r" by (cases d) auto
  have p: "p = a" "rb_at m (Some a) (rbe_link m (opp d) a) y" using N.prems unfolding t(1) by simp_all
  have IH: "rbe_link m (opp d) a = Some q \<Longrightarrow> outermost (opp d) m q = head_ptr (dseq d y)" for q using N.IH p(2) t(2) by metis
  show ?case
  proof (cases y)
    case E
    then show ?thesis using p unfolding t(1) by (subst outermost.simps) simp
  next
    case (N l' a' b' r')
    then have "rbe_link m (opp d) a = Some a'" "dseq d y \<noteq> []" using p(2) by simp_all
    then show ?thesis using IH p(1) unfolding t(1) by (subst outermost.simps) (cases "dseq d y", auto)
  qed
qed simp

lemma climb_at:
  assumes "rb_ctx m (Some x) (fst (rbe_up m x)) cs" and "distinct (x # ctx_nodes cs)"
  shows "climb d m x = Some (Inr (head_ptr (beyond d cs)))"
  using assms
proof (induction cs arbitrary: x)
  case Nil
  then show ?case by (subst climb.simps) (simp add: RB_PARENT_def RB_PTR_def)
next
  case (Cons f cs)
  obtain e a b s where f: "f = (e, a, b, s)" by (metis prod_cases4)
  have c: "fst (rbe_up m x) = Some a" "rbe_link m e a = Some x" "rb_at m (Some a) (rbe_link m (opp e) a) s" "rb_ctx m (Some a) (fst (rbe_up m a)) cs"
    "distinct (a # ctx_nodes cs)" "x \<notin> set (inord s)" using Cons.prems by (auto simp: f)
  have "rbe_link m (opp e) a \<noteq> Some x" using rb_at_ptr [OF c(3)] root_ptr_mem c(6) by metis
  moreover have "d = e \<or> d = opp e" by (rule dir_cases)
  ultimately show ?case using Cons.IH [OF c(4,5)] c(1,2) by (subst climb.simps) (auto simp: RB_PARENT_def RB_PTR_def f)
qed

lemma RB_STEP_at:
  assumes "rb_loc m up (mk d x a b y) cs"
  shows "RB_STEP d m a = Some (Inr (head_ptr (dseq d x @ beyond d cs)))"
proof -
  have p: "rb_at m (Some a) (rbe_link m d a) x" "rb_ctx m (Some a) (fst (rbe_up m a)) cs" "distinct (a # ctx_nodes cs)"
    using assms by (auto simp: rb_loc_def)
  show ?thesis
  proof (cases x)
    case E
    then show ?thesis using p(1) climb_at [OF p(2,3), of d] by (simp add: RB_STEP_def)
  next
    case (N l a' b' r)
    then have l: "rbe_link m d a = Some a'" "dseq d x \<noteq> []" using p(1) by simp_all
    then have "outermost (opp d) m a' = head_ptr (dseq d x)" using outermost_at [of m "Some a" a' x d] p(1) by simp
    then show ?thesis using l by (cases "dseq d x") (simp_all add: RB_STEP_def)
  qed
qed

text \<open>The neighbours of an element.\<close>

lemma RB_STEP_law:
  assumes "rb_tree m t" and "dseq d t = xs @ a # ys"
  shows "RB_STEP d m a = Some (Inr (head_ptr ys))"
proof -
  have "set (dseq d t) = set (inord t)" by (simp add: dseq_def)
  then have "a \<in> set (inord t)" using assms(2) by (metis in_set_conv_decomp)
  then obtain l b r cs where t: "t = plug (N l a b r) cs" using element_place by blast
  obtain x y where mk: "N l a b r = mk d x a b y" by (cases d) auto
  obtain up where loc: "rb_loc m up (mk d x a b y) cs" using assms(1) rb_tree_loc t mk by metis
  have "distinct (dseq d t)" using assms(1) by (simp add: rb_tree_def dseq_def)
  moreover have "xs @ a # ys = (rev (beyond (opp d) cs) @ dseq d y) @ a # dseq d x @ beyond d cs" using assms(2) dseq_plug [of d x a b y cs] unfolding t mk by simp
  ultimately have "ys = dseq d x @ beyond d cs" unfolding assms(2) using append_Cons_eq_iff [of a xs ys] by (metis distinct.simps(2) distinct_append not_distinct_conv_prefix)
  then show ?thesis using RB_STEP_at [OF loc] by simp
qed

lemma RB_NEXT_law: "rb_tree m t \<Longrightarrow> inord t = xs @ a # ys \<Longrightarrow> RB_NEXT m a = Some (Inr (head_ptr ys))"
  using RB_STEP_law [of m t DR xs a ys] by (simp add: RB_NEXT_def dseq_def)

lemma head_ptr_rev: "head_ptr (rev xs) = last_ptr xs"
  by (cases xs rule: rev_cases) simp_all

lemma RB_PREV_law: "rb_tree m t \<Longrightarrow> inord t = xs @ a # ys \<Longrightarrow> RB_PREV m a = Some (Inr (last_ptr xs))"
  using RB_STEP_law [of m t DL "rev ys" a "rev xs"] by (simp add: RB_PREV_def dseq_def head_ptr_rev)

lemma minmax_walk_at:
  assumes "rb_at m up p t"
  shows "minmax_walk v m p par = Some (Inr (if t = E then par else head_ptr (dseq (if v < 0 then DR else DL) t)))"
  using assms
proof (induction t arbitrary: up p par)
  case E
  then show ?case by (subst minmax_walk.simps) simp
next
  case (N l a b r)
  let ?d = "if v < 0 then DL else DR" and ?e = "if v < 0 then DR else DL"
  have s: "head_ptr (dseq ?e (N l a b r)) = (if (if v < 0 then l else r) = E then Some a else head_ptr (dseq ?e (if v < 0 then l else r)))"
    by (cases "inord l"; cases "inord r" rule: rev_cases; cases l; cases r) (auto simp: dseq_def)
  have "rb_at m (Some a) (rbe_link m ?d a) (if v < 0 then l else r)" using N.prems by simp
  then have "minmax_walk v m (rbe_link m ?d a) (Some a) = Some (Inr (head_ptr (dseq ?e (N l a b r))))" using N.IH unfolding s by (auto split: if_splits)
  then show ?case using N.prems by (subst minmax_walk.simps) simp
qed

lemma RB_MIN_law: "rb_tree m t \<Longrightarrow> RB_MIN m = Some (Inr (head_ptr (inord t)))"
  using minmax_walk_at [of m None "rbh_root m" t "- 1" None] by (cases t) (simp_all add: RB_MIN_def RB_MINMAX_def rb_tree_def dseq_def)

lemma RB_MAX_law: "rb_tree m t \<Longrightarrow> RB_MAX m = Some (Inr (last_ptr (inord t)))"
  using minmax_walk_at [of m None "rbh_root m" t 1 None]
  by (cases "t = E") (simp_all add: RB_MAX_def RB_MINMAX_def rb_tree_def dseq_def head_ptr_rev)

section \<open>Loops\<close>

text \<open>Loops whose body leaves the tree alone visit the rest of the sequence, from the element they start with.\<close>

definition visit :: "(nat \<Rightarrow> 's \<Rightarrow> 's) \<Rightarrow> nat \<Rightarrow> rbmem \<times> 's \<Rightarrow> rbmem \<times> 's" where
  "visit f a s = (fst s, f a (snd s))"

lemma visit_simps [simp]: "visit f a (m, s) = (m, f a s)"
  by (simp add: visit_def)

lemma rb_for_law:
  assumes "rb_tree m t" and "dseq d t = xs @ ys"
  shows "rb_for (RB_STEP d) (visit f) (head_ptr ys) (m, s) = Some (Inr (m, fold f ys s))"
    and "rb_for_safe (RB_STEP d) (visit f) (head_ptr ys) (m, s) = Some (Inr (m, fold f ys s))"
  using assms(2)
proof (induction ys arbitrary: xs s)
  case Nil
  { case 1 show ?case by (subst rb_for.simps) simp
  next
    case 2 show ?case by (subst rb_for_safe.simps) simp }
next
  case (Cons a ys)
  { case 1
    then show ?case using Cons.IH(1) [of "xs @ [a]"] RB_STEP_law [OF assms(1) 1] by (subst rb_for.simps) simp
  next
    case 2
    then show ?case using Cons.IH(2) [of "xs @ [a]"] RB_STEP_law [OF assms(1) 2] by (subst rb_for_safe.simps) simp }
qed

lemma step_eq: "RB_NEXT = RB_STEP DR" "RB_PREV = RB_STEP DL"
  by (rule ext, rule ext, simp add: RB_NEXT_def RB_PREV_def)+

lemma FOREACH_laws:
  assumes "rb_tree m t"
  shows "RB_FOREACH (visit f) (m, s) = Some (Inr (m, fold f (inord t) s))"
    and "RB_FOREACH_SAFE (visit f) (m, s) = Some (Inr (m, fold f (inord t) s))"
    and "inord t = xs @ ys \<Longrightarrow> RB_FOREACH_FROM (visit f) (head_ptr ys) (m, s) = Some (Inr (m, fold f ys s))"
    and "RB_FOREACH_REVERSE (visit f) (m, s) = Some (Inr (m, fold f (rev (inord t)) s))"
    and "RB_FOREACH_REVERSE_SAFE (visit f) (m, s) = Some (Inr (m, fold f (rev (inord t)) s))"
    and "inord t = xs @ ys \<Longrightarrow> RB_FOREACH_REVERSE_FROM (visit f) (last_ptr xs) (m, s) = Some (Inr (m, fold f (rev xs) s))"
  using rb_for_law [OF assms, of DR "[]" "inord t" f s] rb_for_law [OF assms, of DL "[]" "rev (inord t)" f s]
    rb_for_law(2) [OF assms, of DR xs ys f s] rb_for_law(2) [OF assms, of DL "rev ys" "rev xs" f s] RB_MIN_law [OF assms] RB_MAX_law [OF assms]
  by (simp_all add: RB_FOREACH_def RB_FOREACH_SAFE_def RB_FOREACH_FROM_def RB_FOREACH_REVERSE_def RB_FOREACH_REVERSE_SAFE_def
    RB_FOREACH_REVERSE_FROM_def step_eq dseq_def head_ptr_rev)

text \<open>A loop that takes out every element it visits: the way a client empties a tree.\<close>

definition take_out :: "nat \<Rightarrow> rbmem \<times> nat list \<Rightarrow> rbmem \<times> nat list" where
  "take_out a s = (case RB_REMOVE (fst s) a of Some (Inr (r, m)) \<Rightarrow> (m, snd s @ [a]) | _ \<Rightarrow> s)"

lemma rb_for_safe_take_out:
  assumes "rb_tree m t" and "balanced t"
  shows "\<exists>m'. rb_for_safe RB_NEXT take_out (head_ptr (inord t)) (m, s) = Some (Inr (m', s @ inord t)) \<and> rb_tree m' E"
  using assms
proof (induction "inord t" arbitrary: m t s)
  case Nil
  then have "t = E" by (cases t) simp_all
  then show ?case using Nil.prems(1) by (subst rb_for_safe.simps) simp
next
  case (Cons a xs)
  have t: "inord t = [] @ a # xs" using Cons(2) by simp
  obtain m1 t1 where r: "RB_REMOVE m a = Some (Inr (Some a, m1))" "rb_tree m1 t1" "balanced t1" "inord t1 = xs"
    using RB_REMOVE_correct [OF Cons.prems, of a] t by auto
  have "RB_NEXT m a = Some (Inr (head_ptr xs))" by (rule RB_NEXT_law [OF Cons.prems(1) t])
  then have "rb_for_safe RB_NEXT take_out (head_ptr (inord t)) (m, s) = rb_for_safe RB_NEXT take_out (head_ptr (inord t1)) (m1, s @ [a])"
    using r(1,4) t by (subst rb_for_safe.simps) (simp add: take_out_def)
  then show ?case using Cons(1) [OF r(4) [symmetric] r(2,3), of "s @ [a]"] r(4) t by simp
qed

section \<open>Insertion next to an element\<close>

lemma descend_at:
  assumes "rb_loc m (Some q) t cs" and "slot_of cs = Some sl"
  shows "\<exists>q' sl' cs'. descend d m q sl = Some (q', sl') \<and> slot_of cs' = Some sl' \<and> rb_loc m (Some q') E cs' \<and> plug E cs' = plug t cs \<and> beyond d cs' = beyond d cs"
  using assms
proof (induction t arbitrary: q cs sl)
  case E
  then have "rbe_link m (snd sl) (fst sl) = None" using slot_get_loc [OF E(1)] by (simp add: slot_get_def split_beta)
  then show ?case using E by (subst descend.simps) auto
next
  case (N l a b r)
  obtain x y where t: "N l a b r = mk d x a b y" "x = l \<or> x = r" by (cases d) auto
  have g: "rbe_link m (snd sl) (fst sl) = Some a" using slot_get_loc [OF N.prems(1)] N.prems(2) by (simp add: slot_get_def split_beta)
  have loc: "rb_loc m (Some a) x ((d, a, b, y) # cs)" using rb_loc_down N.prems(1) t(1) by metis
  have sl: "slot_of ((d, a, b, y) # cs) = Some (a, d)" by simp
  obtain q' sl' cs' where IH: "descend d m a (a, d) = Some (q', sl')" "slot_of cs' = Some sl'" "rb_loc m (Some q') E cs'" "plug E cs' = plug x ((d, a, b, y) # cs)"
    "beyond d cs' = beyond d ((d, a, b, y) # cs)" using t(2) N.IH(1) [OF _ sl] N.IH(2) [OF _ sl] loc by metis
  have "descend d m q sl = descend d m a (a, d)" using g by (subst descend.simps) simp
  then show ?case using IH t(1) by (auto intro!: exI [of _ cs'])
qed

lemma insert_beside:
  assumes "rb_tree m (plug (mk (opp d) x elm b y) cs)" and "balanced (plug (mk (opp d) x elm b y) cs)" and "new \<notin> set (inord (plug (mk (opp d) x elm b y) cs))"
  shows "\<exists>p sl m' t' cs'. descend d m elm (elm, opp d) = Some (p, sl) \<and> RB_INSERT_FINISH (Some p) (Some sl) new m = Some (Inr (None, m')) \<and>
    rb_tree m' t' \<and> balanced t' \<and> inord t' = seqL cs' @ new # seqR cs' \<and> seqL cs' @ seqR cs' = inord (plug (mk (opp d) x elm b y) cs) \<and>
    beyond d cs' = elm # dseq d y @ beyond d cs"
proof -
  obtain up where "rb_loc m up (mk (opp d) x elm b y) cs" using assms(1) rb_tree_loc by blast
  then have loc: "rb_loc m (Some elm) x ((opp d, elm, b, y) # cs)" by (rule rb_loc_down)
  have "slot_of ((opp d, elm, b, y) # cs) = Some (elm, opp d)" by simp
  from descend_at [OF loc this, of d] obtain p sl cs' where p: "descend d m elm (elm, opp d) = Some (p, sl)" "slot_of cs' = Some sl" "rb_loc m (Some p) E cs'"
    "plug E cs' = plug x ((opp d, elm, b, y) # cs)" "beyond d cs' = beyond d ((opp d, elm, b, y) # cs)" by blast
  have whole: "plug E cs' = plug (mk (opp d) x elm b y) cs" using p(4) by simp
  have cb: "ctx_bal 0 cs'" using assms(2) balanced_plug [of E cs'] whole by simp
  have ni: "new \<notin> set (ctx_nodes cs')" using assms(3) set_plug [of E cs'] whole by simp
  have seq: "seqL cs' @ seqR cs' = inord (plug (mk (opp d) x elm b y) cs)" using inord_plug [of E cs'] whole by simp
  have "beyond d cs' = elm # dseq d y @ beyond d cs" using p(5) by simp
  then show ?thesis using p(1) INSERT_FINISH_correct [OF p(3) ni cb] seq unfolding p(2) by blast
qed

lemma RB_INSERT_NEXT_law:
  assumes "rb_tree m t" and "balanced t" and "inord t = xs @ elm # ys" and "nxt \<notin> set (inord t)"
  shows "\<exists>m' t'. RB_INSERT_NEXT m elm nxt = Some (Inr (None, m')) \<and> rb_tree m' t' \<and> balanced t' \<and> inord t' = xs @ elm # nxt # ys"
proof -
  obtain l b r cs where t: "t = plug (N l elm b r) cs" using element_place [of elm t] assms(3) by auto
  have mk: "N l elm b r = mk (opp DL) r elm b l" by simp
  obtain p sl m' t' cs' where d: "descend DL m elm (elm, DR) = Some (p, sl)" "RB_INSERT_FINISH (Some p) (Some sl) nxt m = Some (Inr (None, m'))"
    "rb_tree m' t'" "balanced t'" "inord t' = seqL cs' @ nxt # seqR cs'" "seqL cs' @ seqR cs' = inord t" "beyond DL cs' = elm # dseq DL l @ beyond DL cs"
    using insert_beside [of m DL r elm b l cs nxt] assms(1,2,4) unfolding t mk by (simp del: mk.simps) blast
  have "rev (seqL cs') = elm # rev (inord l) @ rev (seqL cs)" using d(7) by (simp add: beyond_def dseq_def)
  then have L: "seqL cs' = (seqL cs @ inord l) @ [elm]" by (metis rev_append rev_rev_ident rev.simps(2))
  have "distinct (inord t)" using assms(1) by (simp add: rb_tree_def)
  moreover have "xs @ elm # ys = (seqL cs @ inord l) @ elm # seqR cs'" using d(6) L assms(3) by simp
  ultimately have "xs = seqL cs @ inord l \<and> ys = seqR cs'" unfolding assms(3) by (subst (asm) append_Cons_eq_iff) auto
  moreover have "RB_NEXT m elm = Some (Inr (head_ptr ys))" by (rule RB_NEXT_law [OF assms(1,3)])
  ultimately show ?thesis using d(1-5) L by (simp add: RB_INSERT_NEXT_def) blast
qed

lemma RB_INSERT_PREV_law:
  assumes "rb_tree m t" and "balanced t" and "inord t = xs @ elm # ys" and "prv \<notin> set (inord t)"
  shows "\<exists>m' t'. RB_INSERT_PREV m elm prv = Some (Inr (None, m')) \<and> rb_tree m' t' \<and> balanced t' \<and> inord t' = xs @ prv # elm # ys"
proof -
  obtain l b r cs where t: "t = plug (N l elm b r) cs" using element_place [of elm t] assms(3) by auto
  have mk: "N l elm b r = mk (opp DR) l elm b r" by simp
  obtain p sl m' t' cs' where d: "descend DR m elm (elm, DL) = Some (p, sl)" "RB_INSERT_FINISH (Some p) (Some sl) prv m = Some (Inr (None, m'))"
    "rb_tree m' t'" "balanced t'" "inord t' = seqL cs' @ prv # seqR cs'" "seqL cs' @ seqR cs' = inord t" "beyond DR cs' = elm # dseq DR r @ beyond DR cs"
    using insert_beside [of m DR l elm b r cs prv] assms(1,2,4) unfolding t mk by (simp del: mk.simps) blast
  have R: "seqR cs' = elm # inord r @ seqR cs" using d(7) by (simp add: beyond_def dseq_def)
  have "distinct (inord t)" using assms(1) by (simp add: rb_tree_def)
  moreover have "xs @ elm # ys = seqL cs' @ elm # inord r @ seqR cs" using d(6) R assms(3) by simp
  ultimately have "xs = seqL cs' \<and> ys = inord r @ seqR cs" unfolding assms(3) by (subst (asm) append_Cons_eq_iff) auto
  moreover have "RB_PREV m elm = Some (Inr (last_ptr xs))" by (rule RB_PREV_law [OF assms(1,3)])
  ultimately show ?thesis using d(1-5) R by (simp add: RB_INSERT_PREV_def) blast
qed

text \<open>\<open>RB_REINSERT\<close> of an element whose key may have changed: the tree is the one removal and insertion give.\<close>

lemma between_neighbours:
  assumes "strictly_sorted key (xs @ ys)" and "last_ptr xs = None \<or> (\<exists>p. last_ptr xs = Some p \<and> key p < key x)"
    and "head_ptr ys = None \<or> (\<exists>n. head_ptr ys = Some n \<and> key x < key n)"
  shows "\<forall>y \<in> set xs. key y < key x" "\<forall>y \<in> set ys. key x < key y"
proof -
  show "\<forall>y \<in> set xs. key y < key x" using assms(1,2) by (cases xs rule: rev_cases) (auto intro: less_trans)
  show "\<forall>y \<in> set ys. key x < key y" using assms(1,3) by (cases ys) (auto intro: less_trans)
qed

lemma RB_REINSERT_law:
  assumes "cmp_by key cmp" and "rb_tree m t" and "balanced t" and "elm \<in> set (inord t)" and "strictly_sorted key (remove1 elm (inord t))"
  shows "\<exists>m'. RB_REINSERT cmp m elm = Some (Inr (find_key key elm (remove1 elm (inord t)), m')) \<and> rb_elems key m' (insert_seq key elm (remove1 elm (inord t)))"
proof -
  obtain xs ys where t: "inord t = xs @ elm # ys" using split_list [OF assms(4)] by blast
  have di: "distinct (inord t)" using assms(2) by (simp add: rb_tree_def)
  then have rem: "remove1 elm (inord t) = xs @ ys" "elm \<notin> set (xs @ ys)" unfolding t by (auto simp: remove1_append)
  have st: "strictly_sorted key (xs @ ys)" using assms(5) rem(1) by simp
  obtain m1 t1 where r: "RB_REMOVE m elm = Some (Inr (Some elm, m1))" "rb_tree m1 t1" "balanced t1" "inord t1 = xs @ ys"
    using RB_REMOVE_correct [OF assms(2-4)] rem(1) by auto
  then have "rb_elems key m1 (xs @ ys)" using st by (auto simp: rb_elems_def)
  then obtain m' where again: "RB_INSERT cmp m1 elm = Some (Inr (find_key key elm (xs @ ys), m'))" "rb_elems key m' (insert_seq key elm (xs @ ys))"
    using RB_INSERT_law [OF assms(1) _ rem(2)] by blast
  let ?low = "case last_ptr xs of None \<Rightarrow> False | Some p \<Rightarrow> 0 \<le> cmp p elm" and ?high = "case head_ptr ys of None \<Rightarrow> False | Some n \<Rightarrow> 0 \<le> cmp elm n"
  have run: "RB_REINSERT cmp m elm = (if ?low \<or> ?high then RB_INSERT cmp m1 elm else Some (Inr (None, m)))"
    using RB_PREV_law [OF assms(2) t] RB_NEXT_law [OF assms(2) t] r(1) by (simp add: RB_REINSERT_def Let_def split: option.split)
  show ?thesis
  proof (cases "?low \<or> ?high")
    case True
    then show ?thesis using run again unfolding rem(1) by auto
  next
    case False
    note c = cmp_byD(4) [OF assms(1)]
    have low: "last_ptr xs = None \<or> (\<exists>p. last_ptr xs = Some p \<and> key p < key elm)" using False c by (cases "last_ptr xs") (simp_all add: not_le)
    have high: "head_ptr ys = None \<or> (\<exists>n. head_ptr ys = Some n \<and> key elm < key n)" using False c by (cases "head_ptr ys") (simp_all add: not_le)
    have n: "\<forall>y \<in> set xs. key y < key elm" "\<forall>y \<in> set ys. key elm < key y"
      by (rule between_neighbours [OF st low high])+
    have "find_key key elm (xs @ ys) = None" by (auto simp: find_key_None dest!: bspec [OF n(1)] bspec [OF n(2)])
    moreover have "insert_seq key elm (xs @ ys) = inord t" using insort_key_split [OF n] calculation by (simp add: insert_seq_def t)
    moreover have "rb_elems key m (inord t)"
      using assms(2,3) strictly_sorted_insert [OF st, of elm] calculation(2) by (auto simp: rb_elems_def)
    ultimately show ?thesis using run False unfolding rem(1) by auto
  qed
qed

section \<open>Ranks and heights\<close>

lemma RB_RANK_at:
  assumes "rb_at m up p t" and "balanced t"
  shows "RB_RANK m p = Some (int (rk t))"
  using assms
proof (induction t arbitrary: up p)
  case E
  then show ?case by (subst RB_RANK.simps) simp
next
  case (N l a b r)
  have p: "p = Some a" "snd (rbe_up m a) = b" "rb_at m (Some a) (rbe_link m DL a) l" "rb_at m (Some a) (rbe_link m DR a) r" using N.prems(1) by simp_all
  have bal: "rk l + edge (b DL) = rk r + edge (b DR)" "\<not> (l = E \<and> r = E \<and> b DL)" "balanced l" "balanced r" using N.prems(2) unfolding balanced.simps by blast+
  have e: "(if b d then 2 else 1) + int (rk u) = int (rk u + edge (b d))" for d u by simp
  have null: "rbe_link m DL a = None \<longleftrightarrow> l = E" "rbe_link m DR a = None \<longleftrightarrow> r = E" using rb_at_ptr p(3,4) root_ptr_None by metis+
  have "rk l + edge (b DL) = 2 \<Longrightarrow> l = E \<Longrightarrow> b DL" by (simp split: if_splits)
  then show ?case
    using N.IH(1) [OF p(3) bal(3)] N.IH(2) [OF p(4) bal(4)] bal(1,2) null
    by (subst RB_RANK.simps) (auto simp: p(1,2) e Let_def simp del: edge.simps)
qed

fun rheight :: "rtree \<Rightarrow> nat" where
  "rheight E = 0"
| "rheight (N l a b r) = max (rheight l) (rheight r) + 1"

lemma height_rank: "balanced t \<Longrightarrow> rheight t \<le> rk t"
proof (induction t)
  case (N l a b r)
  have "rk l + edge (b DL) = rk r + edge (b DR)" "balanced l" "balanced r" using N.prems unfolding balanced.simps by blast+
  moreover have "1 \<le> edge (b DL)" "1 \<le> edge (b DR)" by simp_all
  ultimately show ?case using N.IH unfolding rheight.simps rk.simps by linarith
qed simp

lemma size_rank: "balanced t \<Longrightarrow> 2 ^ ((rk t + 1) div 2) \<le> length (inord t) + 1"
proof (induction t)
  case (N l a b r)
  have bal: "rk l + edge (b DL) = rk r + edge (b DR)" "balanced l" "balanced r" using N.prems unfolding balanced.simps by blast+
  have half: "n \<le> k + 2 \<Longrightarrow> (n + 1) div 2 \<le> Suc ((k + 1) div 2)" for n k :: nat by linarith
  have "edge (b DL) \<le> 2" "edge (b DR) \<le> 2" by simp_all
  then have "rk (N l a b r) \<le> rk l + 2" "rk (N l a b r) \<le> rk r + 2" using bal(1) unfolding rk.simps by linarith+
  then have "(rk (N l a b r) + 1) div 2 \<le> Suc ((rk l + 1) div 2)" "(rk (N l a b r) + 1) div 2 \<le> Suc ((rk r + 1) div 2)"
    by (simp_all only: half)
  then have "2 ^ ((rk (N l a b r) + 1) div 2) \<le> 2 * (2 :: nat) ^ ((rk l + 1) div 2)" "2 ^ ((rk (N l a b r) + 1) div 2) \<le> 2 * (2 :: nat) ^ ((rk r + 1) div 2)"
    by (metis one_le_numeral power_Suc power_increasing)+
  then show ?case using N.IH(1) [OF bal(2)] N.IH(2) [OF bal(3)] by (simp del: rk.simps)
qed simp

lemma height_bound:
  assumes "balanced t"
  shows "2 ^ rheight t \<le> (length (inord t) + 1)\<^sup>2"
proof -
  have "rheight t \<le> 2 * ((rk t + 1) div 2)" using height_rank [OF assms] by simp
  then have "2 ^ rheight t \<le> (2 ^ ((rk t + 1) div 2) :: nat)\<^sup>2" by (simp add: power_increasing flip: power_mult mult.commute)
  also have "\<dots> \<le> (length (inord t) + 1)\<^sup>2" by (rule power_mono [OF size_rank [OF assms]]) simp
  finally show ?thesis .
qed

end
