(* ===== verification/Tree_Rank_Props.thy ===== *)
theory Tree_Rank_Props
  imports Tree_Rank_Walk
begin

unbundle bit_operations_syntax

text \<open>
  What rank-balanced trees promise: the interface \<open>ordered_tree\<close>, interpreted for \<open>RB_INSERT\<close>, \<open>RB_REMOVE\<close> and \<open>RB_FIND\<close>, the bound on the
  height, the walks and loops, \<open>RB_REINSERT\<close>, and the two bits in the parent pointers.
\<close>

section \<open>The interface\<close>

text \<open>\<open>RB_FIND\<close> as an operation of the interface: it leaves the memory as it is.\<close>

definition rb_find_op :: "cmp \<Rightarrow> rbmem \<Rightarrow> nat \<Rightarrow> (nat option \<times> rbmem) tres" where
  "rb_find_op cmp m x = map_option (map_sum id (\<lambda>r. (r, m))) (RB_FIND cmp m x)"

lemma rb_find_op_law:
  assumes "cmp_by key cmp" and "rb_elems key m xs"
  shows "rb_find_op cmp m x = Some (Inr (find_key key x xs, m))"
  using RB_FIND_law [OF assms] by (simp add: rb_find_op_def)

lemma rb_elems_sorted: "rb_elems key m xs \<Longrightarrow> strictly_sorted key xs"
  by (simp add: rb_elems_def)

lemma rb_init_elems: "rb_elems key (RB_INIT m) []"
  by (auto simp: rb_elems_def RB_INIT_def rb_tree_def intro: exI [of _ E])

interpretation rbt: ordered_tree key "\<lambda>m xs. cmp_by key cmp \<and> rb_elems key m xs" "RB_INSERT cmp" RB_REMOVE "rb_find_op cmp"
  for key :: "nat \<Rightarrow> 'k::linorder" and cmp
  by unfold_locales (use rb_elems_sorted RB_INSERT_law RB_REMOVE_law rb_find_op_law in blast)+

section \<open>Properties\<close>

definition empty_rb :: rbmem where
  "empty_rb = \<lparr>rbh_root = None, rbe_up = (\<lambda>_. (None, \<lambda>_. False)), rbe_link = (\<lambda>_ _. None)\<rparr>"

text \<open>Elements with their last digit as the key, and a tree with 1, 3 and 5.\<close>

definition digit_cmp :: cmp where
  "digit_cmp x y = int (x mod 10) - int (y mod 10)"

definition rb135 :: rbmem where
  "rb135 = \<lparr>rbh_root = Some 3, rbe_up = (\<lambda>a. (if a = 3 then None else Some 3, \<lambda>_. False)),
     rbe_link = (\<lambda>d a. if a = 3 then (if d = DL then Some 1 else Some 5) else None)\<rparr>"

abbreviation leaf :: "nat \<Rightarrow> rtree" where "leaf a \<equiv> N E a (\<lambda>_. False) E"

lemma digit_cmp_by: "cmp_by (\<lambda>x. x mod 10) digit_cmp"
  by (simp add: cmp_by_def digit_cmp_def)

lemma rb135_tree: "rb_tree rb135 (N (leaf 1) 3 (\<lambda>_. False) (leaf 5))" "balanced (N (leaf 1) 3 (\<lambda>_. False) (leaf 5))"
  by (simp_all add: rb_tree_def rb135_def)

lemma rb135_elems: "rb_elems (\<lambda>x. x mod 10) rb135 [1, 3, 5]"
  using rb135_tree by (auto simp: rb_elems_def intro!: exI [of _ "N (leaf 1) 3 (\<lambda>_. False) (leaf 5)"])

text \<open>
  C13. A rank-balanced tree is a sorted sequence: after \<open>RB_INIT\<close>, every sequence of insertions of elements that are not in the tree, removals of
  elements that are, and searches ends without a NULL dereference, returns the pointers the same operations on a sorted sequence without equal
  keys return, and leaves a balanced tree with consistent parent pointers whose in-order sequence is the result.
\<close>

theorem rb_refines_sorted_sequence:
  assumes "cmp_by key cmp" and "legal_run key as []"
  shows "\<exists>m' t. tree_run (RB_INSERT cmp) RB_REMOVE (rb_find_op cmp) as (RB_INIT m) = Some (Inr (fst (seq_run key as []), m')) \<and>
    rb_tree m' t \<and> balanced t \<and> inord t = snd (seq_run key as []) \<and> strictly_sorted key (inord t)"
  using rbt.run_refines [where as = as and cmp = cmp and key = key, OF conjI [OF assms(1) rb_init_elems [of key m]] assms(2)]
  unfolding rb_elems_def by metis

theorem rb_refines_sorted_sequence_witness:
  "\<exists>m' t. tree_run (RB_INSERT digit_cmp) RB_REMOVE (rb_find_op digit_cmp)
      [Insert 2, Insert 1, Insert 3, Insert 12, Find 12, Remove 2, Find 2] (RB_INIT empty_rb) =
      Some (Inr ([None, None, None, Some 2, Some 2, Some 2, None], m')) \<and> rb_tree m' t \<and> balanced t \<and> inord t = [1, 3]"
  using rb_refines_sorted_sequence [OF digit_cmp_by, of "[Insert 2, Insert 1, Insert 3, Insert 12, Find 12, Remove 2, Find 2]" empty_rb]
  by (auto simp: find_key_def insert_seq_def)

text \<open>
  C14. The height stays logarithmic: after any such sequence of operations the height \<open>h\<close> of the tree and the number \<open>n\<close> of its elements satisfy
  \<open>2 ^ h \<le> (n + 1)\<^sup>2\<close>, the bound \<open>2 lg (n + 1)\<close> the comment on the implementation gives, and \<open>RB_RANK\<close> returns the rank of the tree, which bounds the height.
\<close>

theorem rb_height_bound:
  assumes "cmp_by key cmp" and "legal_run key as []"
  shows "\<exists>rs m' t. tree_run (RB_INSERT cmp) RB_REMOVE (rb_find_op cmp) as (RB_INIT m) = Some (Inr (rs, m')) \<and> rb_tree m' t \<and>
    length (inord t) = length (snd (seq_run key as [])) \<and> 2 ^ rheight t \<le> (length (inord t) + 1)\<^sup>2 \<and>
    RB_RANK m' (rbh_root m') = Some (int (rk t)) \<and> rheight t \<le> rk t"
proof -
  obtain m' t where r: "tree_run (RB_INSERT cmp) RB_REMOVE (rb_find_op cmp) as (RB_INIT m) = Some (Inr (fst (seq_run key as []), m'))"
    "rb_tree m' t" "balanced t" "inord t = snd (seq_run key as [])"
    using rbt.run_refines [where as = as and cmp = cmp and key = key, OF conjI [OF assms(1) rb_init_elems [of key m]] assms(2)]
    unfolding rb_elems_def by metis
  have "RB_RANK m' (rbh_root m') = Some (int (rk t))" using RB_RANK_at r(2,3) unfolding rb_tree_def by blast
  then show ?thesis using r height_bound [OF r(3)] height_rank [OF r(3)] by (intro exI [of _ "fst (seq_run key as [])"] exI [of _ m'] exI [of _ t]) simp
qed

theorem rb_height_bound_witness:
  "\<exists>rs m' t. tree_run (RB_INSERT digit_cmp) RB_REMOVE (rb_find_op digit_cmp) [Insert 1, Insert 2, Insert 3] (RB_INIT empty_rb) = Some (Inr (rs, m')) \<and>
    rb_tree m' t \<and> length (inord t) = 3 \<and> (2::nat) ^ rheight t \<le> 16"
proof -
  let ?as = "[Insert 1, Insert 2, Insert 3]"
  have legal: "legal_run (\<lambda>x. x mod 10) ?as []" and len: "length (snd (seq_run (\<lambda>x. x mod 10) ?as [])) = 3" by (simp_all add: find_key_def insert_seq_def)
  obtain rs m' t where "tree_run (RB_INSERT digit_cmp) RB_REMOVE (rb_find_op digit_cmp) ?as (RB_INIT empty_rb) = Some (Inr (rs, m'))" "rb_tree m' t"
    "length (inord t) = 3" "2 ^ rheight t \<le> (3 + 1 :: nat)\<^sup>2"
    using rb_height_bound [OF digit_cmp_by legal, of empty_rb] unfolding len by metis
  then show ?thesis by (intro exI [of _ rs] exI [of _ m'] exI [of _ t]) simp
qed

text \<open>
  C16. Searching and walking: in a tree with the elements \<open>xs @ a # ys\<close> in order, \<open>RB_NEXT\<close> and \<open>RB_PREV\<close> of \<open>a\<close> are its neighbours or NULL at the ends, \<open>RB_MIN\<close> and
  \<open>RB_MAX\<close> the first and the last element, \<open>RB_FIND\<close> the element with the key searched for, and \<open>RB_NFIND\<close> the first element whose key is not below it; all of
  them end and none dereferences NULL.
\<close>

theorem rb_walk_in_order:
  assumes "cmp_by key cmp" and "rb_elems key m (xs @ a # ys)"
  shows "RB_NEXT m a = Some (Inr (head_ptr ys)) \<and> RB_PREV m a = Some (Inr (last_ptr xs)) \<and>
    RB_MIN m = Some (Inr (head_ptr (xs @ [a]))) \<and> RB_MAX m = Some (Inr (last_ptr (a # ys))) \<and>
    RB_FIND cmp m k = Some (Inr (find (\<lambda>y. key y = key k) (xs @ a # ys))) \<and> RB_NFIND cmp m k = Some (Inr (find (\<lambda>y. key k \<le> key y) (xs @ a # ys)))"
proof -
  obtain t where t: "rb_tree m t" "inord t = xs @ a # ys" using assms(2) by (auto simp: rb_elems_def)
  have "head_ptr (xs @ [a]) = head_ptr (inord t)" "last_ptr (a # ys) = last_ptr (inord t)" by (cases xs, simp_all add: t(2) last_ptr_def)
  then show ?thesis
    using RB_NEXT_law [OF t] RB_PREV_law [OF t] RB_MIN_law [OF t(1)] RB_MAX_law [OF t(1)] RB_FIND_law [OF assms, of k] RB_NFIND_law [OF assms, of k]
    by (simp add: find_key_def next_key_def)
qed

theorem rb_walk_in_order_witness:
  "RB_NEXT rb135 3 = Some (Inr (Some 5)) \<and> RB_PREV rb135 3 = Some (Inr (Some 1)) \<and> RB_MIN rb135 = Some (Inr (Some 1)) \<and>
    RB_MAX rb135 = Some (Inr (Some 5)) \<and> RB_FIND digit_cmp rb135 14 = Some (Inr None) \<and> RB_NFIND digit_cmp rb135 14 = Some (Inr (Some 5))"
  using rb_walk_in_order [OF digit_cmp_by, of rb135 "[1]" 3 "[5]" 14] rb135_elems by (simp add: last_ptr_def)

text \<open>
  C17. Loops: over a tree that the body leaves alone, the six \<open>FOREACH\<close> macros visit the elements from the first, the last or the given one in
  order or in reverse order, once each, and end; and \<open>RB_FOREACH_SAFE\<close> with a body that removes each element it visits visits all of them in order
  and leaves the tree empty.
\<close>

theorem rb_foreach_complete:
  assumes "rb_tree m t" and "balanced t" and "inord t = xs @ ys"
  shows "RB_FOREACH (visit f) (m, s) = Some (Inr (m, fold f (inord t) s)) \<and> RB_FOREACH_SAFE (visit f) (m, s) = Some (Inr (m, fold f (inord t) s)) \<and>
    RB_FOREACH_FROM (visit f) (head_ptr ys) (m, s) = Some (Inr (m, fold f ys s)) \<and>
    RB_FOREACH_REVERSE (visit f) (m, s) = Some (Inr (m, fold f (rev (inord t)) s)) \<and>
    RB_FOREACH_REVERSE_SAFE (visit f) (m, s) = Some (Inr (m, fold f (rev (inord t)) s)) \<and>
    RB_FOREACH_REVERSE_FROM (visit f) (last_ptr xs) (m, s) = Some (Inr (m, fold f (rev xs) s)) \<and>
    (\<exists>m'. RB_FOREACH_SAFE take_out (m, []) = Some (Inr (m', inord t)) \<and> RB_EMPTY m')"
proof -
  obtain m' where "rb_for_safe RB_NEXT take_out (head_ptr (inord t)) (m, []) = Some (Inr (m', [] @ inord t))" "rb_tree m' E"
    using rb_for_safe_take_out [OF assms(1,2)] by blast
  then have "\<exists>m'. RB_FOREACH_SAFE take_out (m, []) = Some (Inr (m', inord t)) \<and> RB_EMPTY m'"
    using RB_MIN_law [OF assms(1)] by (simp add: RB_FOREACH_SAFE_def RB_EMPTY_def rb_tree_def)
  then show ?thesis
    using FOREACH_laws(1) [OF assms(1), of f s] FOREACH_laws(2) [OF assms(1), of f s] FOREACH_laws(3) [OF assms(1,3), of f s]
      FOREACH_laws(4) [OF assms(1), of f s] FOREACH_laws(5) [OF assms(1), of f s] FOREACH_laws(6) [OF assms(1,3), of f s] by simp
qed

theorem rb_foreach_complete_witness:
  "RB_FOREACH (visit (\<lambda>x s. s @ [x])) (rb135, []) = Some (Inr (rb135, [1, 3, 5])) \<and>
    RB_FOREACH_REVERSE_FROM (visit (\<lambda>x s. s @ [x])) (Some 3) (rb135, []) = Some (Inr (rb135, [3, 1])) \<and>
    (\<exists>m'. RB_FOREACH_SAFE take_out (rb135, []) = Some (Inr (m', [1, 3, 5])) \<and> RB_EMPTY m')"
  using rb_foreach_complete [OF rb135_tree, of "[1, 3]" "[5]" "\<lambda>x s. s @ [x]" "[]"] by (simp add: last_ptr_def)

text \<open>
  C20. \<open>RB_REINSERT\<close>, for an element whose key may have changed while it was in the tree: it always ends and leaves the tree that taking the element out
  and inserting it again leaves, whether or not it found the element out of place; it returns the element of the tree that has the same key, if there is
  one, and then the element is no longer in the tree.
\<close>

theorem rb_reinsert_restores_order:
  assumes "cmp_by key cmp" and "rb_tree m t" and "balanced t" and "inord t = xs @ elm # ys" and "strictly_sorted key (xs @ ys)"
  shows "\<exists>m'. RB_REINSERT cmp m elm = Some (Inr (find_key key elm (xs @ ys), m')) \<and> rb_elems key m' (insert_seq key elm (xs @ ys))"
proof -
  have "distinct (inord t)" using assms(2) by (simp add: rb_tree_def)
  then have "remove1 elm (inord t) = xs @ ys" unfolding assms(4) by (simp add: remove1_append)
  then show ?thesis using RB_REINSERT_law [OF assms(1-3), of elm] assms(4,5) by simp
qed

text \<open>The tree with 1, 3 and 5 in which the element 1 got the key 4.\<close>

definition moved_key :: "nat \<Rightarrow> nat" where
  "moved_key x = (if x = 1 then 4 else x)"

definition moved_cmp :: cmp where
  "moved_cmp x y = int (moved_key x) - int (moved_key y)"

theorem rb_reinsert_restores_order_witness:
  "\<exists>m'. RB_REINSERT moved_cmp rb135 1 = Some (Inr (None, m')) \<and> rb_elems moved_key m' [3, 1, 5]"
proof -
  have "cmp_by moved_key moved_cmp" by (simp add: cmp_by_def moved_cmp_def)
  from rb_reinsert_restores_order [OF this rb135_tree, of "[]" 1 "[3, 5]"] show ?thesis
    by (simp add: find_key_def insert_seq_def moved_key_def)
qed

text \<open>
  C40. \<open>RB_RANK\<close> promises -1 for a subtree that is not rank-balanced, but takes the -1 of a child for a rank: below a long edge to an unbalanced left child,
  with no right child, both sides come to 1, and the tree, which is not balanced, gets the rank 1.
\<close>

theorem rb_rank_hides_imbalance:
  assumes "rb_at m up (Some a) (N l a b E)" and "RB_RANK m (root_ptr l) = Some (- 1)" and "b DL" and "\<not> b DR"
  shows "RB_RANK m (Some a) = Some 1 \<and> \<not> balanced (N l a b E)"
proof -
  have p: "snd (rbe_up m a) = b" "rb_at m (Some a) (rbe_link m DL a) l" "rbe_link m DR a = None" using assms(1) by simp_all
  have l: "rbe_link m DL a = root_ptr l" by (rule rb_at_ptr [OF p(2)])
  have "RB_RANK m None = Some 0" by (subst RB_RANK.simps) simp
  then have "RB_RANK m (Some a) = Some 1" using assms(2-4) p(1,3) l by (subst RB_RANK.simps) simp
  moreover have "\<not> balanced l" using RB_RANK_at [OF p(2)] assms(2) l by auto
  ultimately show ?thesis by simp
qed

text \<open>A tree of two elements: the leaf 1, whose own marks are wrong, below 2.\<close>

definition rb_bad :: rbmem where
  "rb_bad = \<lparr>rbh_root = Some 2, rbe_up = (\<lambda>a. (if a = 2 then None else Some 2, \<lambda>d. d = DL)), rbe_link = (\<lambda>d a. if a = 2 \<and> d = DL then Some 1 else None)\<rparr>"

theorem rb_rank_hides_imbalance_witness:
  "RB_RANK rb_bad (Some 1) = Some (- 1) \<and> RB_RANK rb_bad (Some 2) = Some 1 \<and> \<not> balanced (N (N E 1 (\<lambda>d. d = DL) E) 2 (\<lambda>d. d = DL) E)"
proof -
  have "RB_RANK rb_bad None = Some 0" by (subst RB_RANK.simps) simp
  then have one: "RB_RANK rb_bad (Some 1) = Some (- 1)" by (subst RB_RANK.simps) (simp add: rb_bad_def)
  have "rb_at rb_bad None (Some 2) (N (N E 1 (\<lambda>d. d = DL) E) 2 (\<lambda>d. d = DL) E)" by (simp add: rb_bad_def)
  from rb_rank_hides_imbalance [OF this] one show ?thesis by simp
qed

section \<open>The bits in the parent pointers\<close>

text \<open>\<open>ptr\<close> gives the address of an element, and 0 for NULL; addresses are multiples of 4.\<close>

fun dir_bit :: "dir \<Rightarrow> 64 word" where
  "dir_bit DL = 1"
| "dir_bit DR = 2"

definition tag_word :: "(nat option \<Rightarrow> 64 word) \<Rightarrow> tagged \<Rightarrow> 64 word" where
  "tag_word ptr w = ptr (fst w) OR (if snd w DL then dir_bit DL else 0) OR (if snd w DR then dir_bit DR else 0)"

definition aligned_ptrs :: "(nat option \<Rightarrow> 64 word) \<Rightarrow> bool" where
  "aligned_ptrs ptr \<longleftrightarrow> ptr None = 0 \<and> (\<forall>p. ptr p AND 3 = 0)"

lemma bit_marks_int: "bit (2 :: int) n \<longleftrightarrow> n = 1" "bit (3 :: int) n \<longleftrightarrow> n = 0 \<or> n = 1"
  by (cases n; auto simp: bit_Suc bit_0 bit_1_iff)+

lemma bit_3: "bit (3 :: 64 word) n \<longleftrightarrow> n = 0 \<or> n = 1"
  by (auto simp: bit_marks_int)

lemma bit_dir: "bit (dir_bit d) n \<longleftrightarrow> n = (if d = DL then 0 else 1)"
  by (cases d) (auto simp: bit_marks_int bit_1_iff)

lemma bit_ptr:
  assumes "aligned_ptrs ptr"
  shows "\<not> bit (ptr p) 0" "\<not> bit (ptr p) 1"
proof -
  have "ptr p AND 3 = 0" using assms by (simp add: aligned_ptrs_def)
  then have "\<not> bit (ptr p AND 3) n" for n by (simp only: bit_0_eq) simp
  then show "\<not> bit (ptr p) 0" "\<not> bit (ptr p) 1" unfolding bit_and_iff bit_3 by blast+
qed

lemma bit_tag: "bit (tag_word ptr w) n \<longleftrightarrow> bit (ptr (fst w)) n \<or> snd w DL \<and> n = 0 \<or> snd w DR \<and> n = 1"
  unfolding tag_word_def bit_or_iff by (auto simp: bit_dir simp del: dir_bit.simps)


lemmas tag_bits = bit_tag bit_and_iff bit_or_iff bit_xor_iff bit_not_iff bit_3 bit_dir

lemma no_bit: "(x :: 64 word) = 0 \<longleftrightarrow> (\<forall>n. \<not> bit x n)"
  using bit_imp_le_length [of x] by (auto simp: bit_eq_iff)

lemma tag_clear: "aligned_ptrs ptr \<Longrightarrow> tag_word ptr w AND NOT 3 = ptr (RB_PTR w)"
  by (rule bit_eqI) (use bit_ptr in \<open>auto simp only: tag_bits RB_PTR_def\<close>)

lemma tag_test: "aligned_ptrs ptr \<Longrightarrow> tag_word ptr w AND dir_bit d \<noteq> 0 \<longleftrightarrow> snd w d"
  using bit_ptr [of ptr "fst w"] unfolding no_bit tag_bits by (cases d) auto

lemma tag_test_both: "aligned_ptrs ptr \<Longrightarrow> tag_word ptr w AND 3 = 0 \<longleftrightarrow> no_bits w"
  using bit_ptr [of ptr "fst w"] unfolding no_bit tag_bits no_bits_def by auto

lemma tag_xor: "aligned_ptrs ptr \<Longrightarrow> tag_word ptr w XOR dir_bit d = tag_word ptr (xor_dir d w)"
  by (rule bit_eqI) (use bit_ptr [of ptr "fst w"] in \<open>cases d; auto simp only: tag_bits xor_dir_def fst_conv snd_conv fun_upd_apply dir.distinct if_True if_False simp_thms intro!: gr0I\<close>)

lemma tag_xor_both: "aligned_ptrs ptr \<Longrightarrow> tag_word ptr w XOR 3 = tag_word ptr (xor_both w)"
  by (rule bit_eqI) (use bit_ptr [of ptr "fst w"] in \<open>auto simp only: tag_bits xor_both_def fst_conv snd_conv\<close>)

lemma tag_or: "aligned_ptrs ptr \<Longrightarrow> tag_word ptr w OR 3 = tag_word ptr (fst w, \<lambda>_. True)"
  by (rule bit_eqI) (use bit_ptr [of ptr "fst w"] in \<open>auto simp only: tag_bits fst_conv snd_conv\<close>)

lemma tag_set_parent: "aligned_ptrs ptr \<Longrightarrow> tag_word ptr v OR (tag_word ptr w AND 3) = tag_word ptr (fst v, \<lambda>d. snd v d \<or> snd w d)"
  by (rule bit_eqI) (use bit_ptr [of ptr "fst v"] bit_ptr [of ptr "fst w"] in \<open>auto simp only: tag_bits fst_conv snd_conv\<close>)

lemma dir_bit_opp: "dir_bit d XOR 3 = dir_bit (opp d)"
  by (cases d) simp_all

lemma tag_eq:
  assumes "aligned_ptrs ptr"
  shows "tag_word ptr v = tag_word ptr w \<longleftrightarrow> ptr (fst v) = ptr (fst w) \<and> snd v = snd w"
proof
  assume eq: "tag_word ptr v = tag_word ptr w"
  then have "ptr (fst v) = ptr (fst w)" using tag_clear [OF assms, of v] tag_clear [OF assms, of w] by (simp add: RB_PTR_def)
  moreover have "snd v d = snd w d" for d using tag_test [OF assms, of v d] tag_test [OF assms, of w d] eq by simp
  then have "snd v = snd w" by (rule ext)
  ultimately show "ptr (fst v) = ptr (fst w) \<and> snd v = snd w" ..
qed (simp add: tag_word_def)

text \<open>
  C21. The marks in the parent pointers: on words that hold the address of an element, a multiple of 4, and the two marks in the lowest bits, the bit
  operations of the code are the operations of the model on pairs: clearing the bits, testing one or both, the exclusive or with a direction or with both, setting both
  and \<open>RB_SET_PARENT\<close>; the direction of the sibling is the exclusive or with 3; and two such words are equal only if the addresses and the marks are.
\<close>

theorem tagged_pointers:
  assumes "aligned_ptrs ptr"
  shows "tag_word ptr w AND NOT 3 = ptr (RB_PTR w) \<and> (tag_word ptr w AND dir_bit d \<noteq> 0 \<longleftrightarrow> snd w d) \<and> (tag_word ptr w AND 3 = 0 \<longleftrightarrow> no_bits w) \<and>
    tag_word ptr w XOR dir_bit d = tag_word ptr (xor_dir d w) \<and> tag_word ptr w XOR 3 = tag_word ptr (xor_both w) \<and>
    tag_word ptr w OR 3 = tag_word ptr (fst w, \<lambda>_. True) \<and>
    tag_word ptr v OR (tag_word ptr (rbe_up m a) AND 3) = tag_word ptr (rbe_up (RB_SET_PARENT a v m) a) \<and>
    dir_bit d XOR 3 = dir_bit (opp d) \<and> (tag_word ptr v = tag_word ptr w \<longleftrightarrow> ptr (fst v) = ptr (fst w) \<and> snd v = snd w)"
  using tag_clear [OF assms] tag_test [OF assms] tag_test_both [OF assms] tag_xor [OF assms] tag_xor_both [OF assms] tag_or [OF assms]
    tag_set_parent [OF assms] dir_bit_opp tag_eq [OF assms] by (simp add: RB_SET_PARENT_def)

text \<open>Elements at the addresses 4, 8, 12 and so on.\<close>

definition ptr4 :: "nat option \<Rightarrow> 64 word" where
  "ptr4 p = (case p of None \<Rightarrow> 0 | Some a \<Rightarrow> push_bit 2 (of_nat (a + 1)))"

theorem tagged_pointers_witness:
  "tag_word ptr4 (Some 0, \<lambda>d. d = DR) = 6 \<and> (6 :: 64 word) AND NOT 3 = ptr4 (Some 0) \<and> tag_word ptr4 (xor_both (Some 0, \<lambda>d. d = DR)) = 5"
proof -
  have "ptr4 p AND 3 = 0" for p unfolding no_bit bit_and_iff bit_3 by (auto simp: ptr4_def bit_push_bit_iff split: option.split)
  then have "aligned_ptrs ptr4" by (simp add: aligned_ptrs_def ptr4_def)
  moreover have six: "tag_word ptr4 (Some 0, \<lambda>d. d = DR) = 6" by (simp add: tag_word_def ptr4_def)
  ultimately show ?thesis using tagged_pointers [of ptr4 "(Some 0, \<lambda>d. d = DR)"] by (simp add: RB_PTR_def)
qed

end
