(* ===== verification/Spec2Isabelle.thy ===== *)
theory Spec2Isabelle
  imports Queue_Props Unload_Race Lua_Kmod_Props Lua_Open Lua_Start Tree_Splay Tree_Rank_Props
begin

text \<open>
  \<^bold>\<open>Loongshield.\<close> The program is a security agent in two parts. A kernel module (\<open>src/kmod\<close>)
  hooks kernel functions through ftrace, counts the calls in flight and profiles them, and shows
  its state in securityfs. A daemon (\<open>src/daemon\<close>) is a Lua interpreter with C bindings to the
  system libraries the rules need. Both use the intrusive list macros of \<open>src/lib/queue.h\<close>; \<open>src/lib/tree.h\<close>
  beside it has macros for ordered trees. All
  paths are relative to the repository's own \<open>src\<close> directory.

  \<^bold>\<open>Conventions.\<close> One definition per C function or macro, with the name of the source where HOL
  allows it. State is passed explicitly. An error return is the value the C code returns; a Lua
  error and a NULL dereference are values of their own. A loop that may not end is a
  \<open>partial_function (option)\<close>: \<open>None\<close> means that the call does not return, and the properties
  say when it returns. No fuel is used. Integers are words of their width where wrap-around
  matters (time, allocation totals, the in-flight sum, file sizes, signature lengths, handles).

  Code outside the repository is a record of functions that the definitions take as their first
  arguments (\<open>kapi\<close> the kernel, \<open>lua_api\<close> the Lua C API, and one record for each library the daemon binds:
  libcap, libaudit, libkmod, OpenSSL, libdbus, sd-bus, libarchive, libmount, librpm and the C library); what the code
  relies on is the locale of that interface, and each such
  locale is interpreted on a concrete executable instance (\<open>ref_kernel\<close>, \<open>ref_lua\<close>,
  \<open>ref_os\<close>, \<open>ref_ssl\<close>, \<open>ref_dbus\<close>, \<open>ref_sd\<close>, \<open>ref_mnt\<close>, \<open>ref_rpm\<close>), which the witnesses evaluate. \<open>ref_cap\<close>,
  \<open>ref_audit\<close>, \<open>ref_kmod\<close> and \<open>ref_arc\<close> are
  the instances of libraries of which nothing is assumed but what a property states. Locales
  whose operations are code of the repository (\<open>linked_list\<close>, \<open>tail_queue\<close>, \<open>ordered_tree\<close>) are interpreted
  on the model of that code.

  \<^bold>\<open>Lists\<close> (\<open>src/lib/queue.h\<close>).
  \<^item> \<open>Queue_Mem\<close>: the memory the macros work on (heads, elements, addresses of link fields), the
    traversal loops, and the interfaces \<open>linked_list\<close> and \<open>tail_queue\<close> over an abstract sequence.
  \<^item> \<open>Queue_Single\<close>, \<open>Queue_Double\<close>: every macro of \<open>SLIST\<close>, \<open>STAILQ\<close>, \<open>LIST\<close>, \<open>TAILQ\<close>, the
    effect of each on the represented sequence, and the interpretations of the interfaces.
  \<^item> \<open>Queue_Props\<close>: the tail queue refines operations on sequences for every legal client, the debug
    checks never fire, traversals visit the sequence forward and backward, removal by search
    succeeds exactly for members, concatenation and swap.

  \<^bold>\<open>Trees\<close> (\<open>src/lib/tree.h\<close>).
  \<^item> \<open>Tree_Order\<close>: the specification, sorted sequences without equal keys, and the interface \<open>ordered_tree\<close> of insertion, removal and search,
    with the lemma that every legal run of them gives the results of the run on sequences.
  \<^item> \<open>Tree_Splay\<close>: the memory, every macro and generated function of the splay trees; splaying ends and keeps the sequence, the interpretation of
    the interface, and iteration.
  \<^item> \<open>Tree_Rank\<close>: the memory, every macro and generated function of the rank-balanced (\<open>RB\<close>) trees, with the parent pointers and the marks in
    their lowest bits. \<open>Tree_Rank_Rep\<close>: trees and paths in memory, what the macros do to them, and ranks.
  \<^item> \<open>Tree_Rank_Insert\<close>, \<open>Tree_Rank_Remove\<close>: the rebalancing loops end, dereference no NULL pointer and restore the balance, and so do insertion
    and removal. \<open>Tree_Rank_Walk\<close>: searches, neighbours, ends, loops, insertion beside an element, reinsertion, ranks and heights.
  \<^item> \<open>Tree_Rank_Props\<close>: the interpretation of the interface, the bound on the height, and the bit operations on the parent pointers.

  \<^bold>\<open>Kernel module\<close> (\<open>src/kmod\<close>).
  \<^item> \<open>Kmod_Base\<close>: the state \<open>kmod\<close> of the module, \<open>kapi\<close>, constructor tables (\<open>ctor.c\<close>), allocation
    accounting (\<open>debug.c\<close>), reference counts and locks (\<open>refcount.h\<close>, \<open>rwlock.h\<close>).
  \<^item> \<open>Kmod_Filter\<close>: \<open>filter.c\<close>, and the contract \<open>kernel_ftrace\<close>. \<open>Ref_Kernel\<close>: a kernel that keeps it.
  \<^item> \<open>Filter_Hook\<close>: hooking settles every queued filter, unhooking undoes it, the drain wait returns
    exactly when the counters reach 0, the 32 bit sum of the counters, the time-out.
  \<^item> \<open>Filter_Wrap\<close>: the wrapper \<open>FILTER_DEFINEx\<close> generates (\<open>filter.h\<close>) and the filters of
    \<open>flt_kernel.c\<close>; a wrapped call is transparent and its profile is sound.
  \<^item> \<open>Kmain\<close>: \<open>securityfs.c\<close> and \<open>kmain.c\<close>; loading is all or nothing, loading and unloading
    restores the kernel. These properties compose the list macros, the constructor tables, the
    filter core and securityfs.
  \<^item> \<open>Unload_Race\<close>: the interleavings of wrapped calls with unloading as a step relation, with the
    invariants of the counters, the safety of freeing under the assumption the code makes
    about its sleeps, and the run that breaks it without.

  \<^bold>\<open>Daemon\<close> (\<open>src/daemon\<close>).
  \<^item> \<open>Lua_Api\<close>: the Lua C API, the contracts of its stack (\<open>lua_vm\<close>), of fields, upvalues and loaded modules (\<open>lua_fields\<close>,
    \<open>lua_upvalues\<close>, \<open>lua_loaded\<close>), and a reference machine.
  \<^item> \<open>Lua_Aux\<close>: \<open>luauxlib.c\<close>; option names and flags, userdata.
  \<^item> \<open>Lua_Cap\<close>: \<open>lua_capability.c\<close>; what the flag, group and bounding set calls pass to libcap, the
    bounds of their arrays, and the life cycle of a handle.
  \<^item> \<open>Lua_Files\<close>: \<open>lua_xattr.c\<close>, \<open>lua_fs.c\<close>, \<open>lua_fanotify.c\<close>; no leak and the exact names in the
    listing of attributes, single release of descriptors.
  \<^item> \<open>Kmod_Sign\<close>, \<open>Kmod_Layout\<close>, \<open>Kmod_Verify\<close>: signing and verifying kernel modules in
    \<open>lua_kmod.c\<close>, down to the bytes of the appended signature: signing and mapping are inverse,
    the bounds of what mapping returns, ownership of handles on every path.
  \<^item> \<open>Lua_Kmod\<close>, \<open>Lua_Kmod_Props\<close>: the Lua functions of \<open>lua_kmod.c\<close> over libkmod, iteration over the
    loaded modules, lookup, contexts, and the splitting of a signed module.
  \<^item> \<open>Lua_Audit\<close>: \<open>lua_audit.c\<close>; complete records are logged field by field, incomplete ones rejected.
  \<^item> \<open>Lua_Dbus\<close>: \<open>lua_dbus.c\<close>; what is appended to a message comes back from the decoder.
  \<^item> \<open>Lua_Systemd\<close>: \<open>lua_systemd.c\<close>; which messages the decoder accepts, and whom the peer check lets pass.
  \<^item> \<open>Lua_Archive\<close>: \<open>lua_archive.c\<close>; the choice of formats and filters by name, numbers in option texts, the life
    cycle of an archive.
  \<^item> \<open>Lua_Mount\<close>: \<open>lua_mount.c\<close>; reference counts of file systems, iteration over mount tables.
  \<^item> \<open>Lua_Rpm\<close>: \<open>lua_rpm.c\<close>; iteration over packages and the release of the database iterator.
  \<^item> \<open>Lua_Start\<close>: \<open>lualibs.c\<close>, \<open>ramfs.c\<close>, \<open>main.c\<close>; loading of the libraries, the arguments of the first script, the exit status.
  \<^item> \<open>Lua_Open\<close>: the method tables and \<open>luaopen\<close> functions of these bindings.

  \<^bold>\<open>Not modelled.\<close> Log output, the build date text of the version file, and \<open>daemon/debug.c\<close> have no
  effect on the modelled state. \<open>daemon/luajit.c\<close> is the LuaJIT command line front end, and
  \<open>deps\<close> holds configuration headers of third-party packages. \<open>lua_magic.c\<close> names functions that do not exist and is not
  built. \<open>daemon/modules\<close> holds the rules as Lua scripts, which run on the C bindings, and \<open>cli/main.c\<close> returns at once. Weak memory, preemption inside one atomic access and interrupts are outside the step relation, and so is
  failure of memory allocation inside Lua. The trees have no augmented data, \<open>RB_STRICT_HST\<close> is 0 and the diagnostic order checks are off, the
  settings of \<open>tree.h\<close> itself.
\<close>

end
